(* ===== verification/Modelfile.thy ===== *)
theory Modelfile
  imports Prelude
begin

text \<open>
  The Modelfile of \<open>tilekit/src/modelfile.rs\<close>: the data types, the builder operations
  \<open>add_from\<close> to \<open>build\<close>, the argument parsers, and \<open>create_modelfile\<close>, which runs the
  builder over the parsed commands. The tokeniser \<open>parse_file\<close> is put together from the
  combinators of the external crate \<open>nom\<close>, so it is an argument of \<open>parse\<close>, as is the
  conversion of decimal text to a 32-bit float (\<open>pf\<close>, of result type \<open>'f option\<close>).
  The last section states what the builder computes, without its state: which command
  lists it accepts and which Modelfile they give.
\<close>

section \<open>Data\<close>

datatype role = System | User | Assistant | Developer | ToolResult

datatype 'f param_value = PInt int | PFloat 'f | PStr string

datatype cmd_output = Single string | Pair string string

record 'f parameter =
  param_type :: string
  param_value :: "'f param_value"

record message =
  msg_role :: role
  msg_text :: string

record 'f modelfile =
  mf_from :: "string option"
  mf_quant :: "string option"
  mf_parameters :: "'f parameter list"
  mf_template :: "string option"
  mf_adapter :: "string option"
  mf_system :: "string option"
  mf_license :: "string option"
  mf_messages :: "message list"
  mf_data :: "string list"
  mf_errors :: "string list"

type_synonym command = "string \<times> cmd_output"

definition show_output :: "cmd_output \<Rightarrow> string" where
  "show_output out = (case out of Single w \<Rightarrow> w | Pair w w1 \<Rightarrow> w @ '' '' @ w1)"

definition role_from_str :: "string \<Rightarrow> string + role" where
  "role_from_str s =
     (let l = to_lowercase s in
      if l = ''system'' then Inr System
      else if l = ''user'' then Inr User
      else if l = ''assistant'' then Inr Assistant
      else Inl ''Invalid Role'')"

definition string_of_role :: "role \<Rightarrow> string" where
  "string_of_role r =
     (case r of System \<Rightarrow> ''system'' | User \<Rightarrow> ''user'' | Assistant \<Rightarrow> ''assistant''
      | Developer \<Rightarrow> ''developer'' | ToolResult \<Rightarrow> ''toolResult'')"

section \<open>Operations\<close>

text \<open>\<open>repo:QUANT\<close> is cut at its last colon, unless one of the sides is empty.\<close>

definition split_model_spec :: "string \<Rightarrow> string \<times> string option" where
  "split_model_spec spec =
     (case rsplit_once CHR '':'' spec of
        Some (repo, quant) \<Rightarrow>
          if repo \<noteq> [] \<and> quant \<noteq> [] then (repo, Some quant) else (spec, None)
      | None \<Rightarrow> (spec, None))"

definition modelfile_new :: "'f modelfile" where
  "modelfile_new =
     \<lparr>mf_from = None, mf_quant = None, mf_parameters = [], mf_template = None,
      mf_adapter = None, mf_system = None, mf_license = None, mf_messages = [],
      mf_data = [], mf_errors = []\<rparr>"

text \<open>The operations take \<open>&mut self\<close> and return a \<open>Result\<close>: the result is paired with
  the Modelfile they leave.\<close>

type_synonym 'f mf_op = "'f modelfile \<Rightarrow> (string + unit) \<times> 'f modelfile"

definition push_error :: "string \<Rightarrow> 'f mf_op" where
  "push_error e m = (Inl e, m\<lparr>mf_errors := mf_errors m @ [e]\<rparr>)"

definition add_from :: "string \<Rightarrow> 'f mf_op" where
  "add_from v m =
     (if mf_from m \<noteq> None then push_error ''Modelfile can only have one FROM instruction'' m
      else let (repo, quant) = split_model_spec (trim v) in
        (Inr (), m\<lparr>mf_from := Some repo, mf_quant := quant,
                   mf_data := mf_data m @ [''FROM '' @ v]\<rparr>))"

definition add_template :: "string \<Rightarrow> 'f mf_op" where
  "add_template v m =
     (if mf_template m \<noteq> None
      then push_error ''Modelfile can only have one TEMPLATE instruction'' m
      else (Inr (), m\<lparr>mf_template := Some v, mf_data := mf_data m @ [''TEMPLATE '' @ v]\<rparr>))"

definition add_license :: "string \<Rightarrow> 'f mf_op" where
  "add_license v m =
     (if mf_license m \<noteq> None
      then push_error ''Modelfile can only have one LICENSE instruction'' m
      else (Inr (), m\<lparr>mf_license := Some v, mf_data := mf_data m @ [''LICENSE '' @ v]\<rparr>))"

definition add_adapter :: "string \<Rightarrow> 'f mf_op" where
  "add_adapter v m =
     (if mf_adapter m \<noteq> None
      then push_error ''Modelfile can only have one ADAPTER instruction'' m
      else (Inr (), m\<lparr>mf_adapter := Some v, mf_data := mf_data m @ [''ADAPTER '' @ v]\<rparr>))"

text \<open>The loop over \<open>data\<close> that overwrites the first SYSTEM line and stops.\<close>

definition is_system_line :: "string \<Rightarrow> bool" where
  "is_system_line l = starts_with (to_uppercase l) ''SYSTEM''"

fun replace_system :: "string \<Rightarrow> string list \<Rightarrow> bool \<times> string list" where
  "replace_system f [] = (False, [])"
| "replace_system f (l # ls) =
     (if is_system_line l then (True, f # ls)
      else let (found, ls') = replace_system f ls in (found, l # ls'))"

definition add_system :: "string \<Rightarrow> 'f mf_op" where
  "add_system v m =
     (let m = m\<lparr>mf_system := Some v\<rparr>;
          formatted = ''SYSTEM '' @ v;
          (found, data) = replace_system formatted (mf_data m)
      in (Inr (), m\<lparr>mf_data := (if found then data else data @ [formatted])\<rparr>))"

definition add_comment :: "string \<Rightarrow> 'f mf_op" where
  "add_comment v m = (Inr (), m\<lparr>mf_data := mf_data m @ [''# '' @ v]\<rparr>)"

definition parse_int :: "string \<Rightarrow> string \<Rightarrow> string + 'f parameter" where
  "parse_int ty v =
     (case parse_i32 v of
        Some n \<Rightarrow> Inr \<lparr>param_type = ty, param_value = PInt n\<rparr>
      | None \<Rightarrow> Inl (ty @ '' not an Integer''))"

definition parse_float :: "(string \<Rightarrow> 'f option) \<Rightarrow> string \<Rightarrow> string \<Rightarrow> string + 'f parameter" where
  "parse_float pf ty v =
     (case pf v of
        Some x \<Rightarrow> Inr \<lparr>param_type = ty, param_value = PFloat x\<rparr>
      | None \<Rightarrow> Inl (ty @ '' not a Float''))"

definition int_params :: "string list" where
  "int_params = [''num_ctx'', ''repeat_last_n'', ''seed'', ''num_predict'', ''top_k'']"

definition float_params :: "string list" where
  "float_params = [''repeat_penalty'', ''temperature'', ''top_p'', ''min_p'']"

definition parse_parameter ::
  "(string \<Rightarrow> 'f option) \<Rightarrow> string \<Rightarrow> string \<Rightarrow> string + 'f parameter" where
  "parse_parameter pf param argument =
     (let ty = to_lowercase param in
      if ty \<in> set int_params then parse_int ty argument
      else if ty \<in> set float_params then parse_float pf ty argument
      else if ty = ''stop'' then Inr \<lparr>param_type = ty, param_value = PStr argument\<rparr>
      else Inl ''Invalid Parameter type'')"

definition parse_message :: "string \<Rightarrow> string \<Rightarrow> string + message" where
  "parse_message role text =
     (case role_from_str (to_lowercase role) of
        Inr r \<Rightarrow> Inr \<lparr>msg_role = r, msg_text = text\<rparr>
      | Inl _ \<Rightarrow> Inl (to_lowercase role @ '' not a valid role''))"

definition add_parameter :: "(string \<Rightarrow> 'f option) \<Rightarrow> string \<Rightarrow> string \<Rightarrow> 'f mf_op" where
  "add_parameter pf ty v m =
     (case parse_parameter pf ty v of
        Inr p \<Rightarrow> (Inr (), m\<lparr>mf_parameters := mf_parameters m @ [p],
                          mf_data := mf_data m @ [''PARAMETER '' @ ty @ '' '' @ v]\<rparr>)
      | Inl e \<Rightarrow> push_error e m)"

definition add_message :: "string \<Rightarrow> string \<Rightarrow> 'f mf_op" where
  "add_message role text m =
     (case parse_message role text of
        Inr g \<Rightarrow> (Inr (), m\<lparr>mf_messages := mf_messages m @ [g],
                          mf_data := mf_data m @ [''MESSAGE '' @ role @ '' '' @ text]\<rparr>)
      | Inl e \<Rightarrow> push_error e m)"

definition build :: "'f mf_op" where
  "build m =
     (if mf_from m = None then push_error ''Modelfile must need a FROM instruction'' m
      else (Inr (), m))"

definition invalid_command :: "string \<Rightarrow> cmd_output \<Rightarrow> string" where
  "invalid_command i out =
     ''Invalid instruction Instruction: `'' @ i @ ''` command: `'' @ show_output out @ ''`''"

text \<open>The body of the loop of \<open>create_modelfile\<close>: the \<open>Result\<close> of the operation is
  dropped, its effect on the Modelfile stays.\<close>

definition run_command :: "(string \<Rightarrow> 'f option) \<Rightarrow> 'f modelfile \<Rightarrow> command \<Rightarrow> 'f modelfile" where
  "run_command pf m cmd =
     (let i = to_lowercase (fst cmd); out = snd cmd;
          bad = m\<lparr>mf_errors := mf_errors m @ [invalid_command i out]\<rparr>
      in case out of
           Single v \<Rightarrow>
             if i = ''from'' then snd (add_from (trim v) m)
             else if i = ''template'' then snd (add_template (trim v) m)
             else if i = ''system'' then snd (add_system (trim v) m)
             else if i = ''adapter'' then snd (add_adapter (trim v) m)
             else if i = ''license'' then snd (add_license (trim v) m)
             else if i = ''#'' then snd (add_comment (show_output out) m)
             else bad
         | Pair p a \<Rightarrow>
             if i = ''parameter'' then snd (add_parameter pf p (trim a) m)
             else if i = ''message'' then snd (add_message p (trim a) m)
             else if i = ''#'' then snd (add_comment (show_output out) m)
             else bad)"

definition create_modelfile :: "(string \<Rightarrow> 'f option) \<Rightarrow> command list \<Rightarrow> string + 'f modelfile" where
  "create_modelfile pf cmds =
     (case build (foldl (run_command pf) modelfile_new cmds) of
        (Inl e, _) \<Rightarrow> Inl e
      | (Inr _, m) \<Rightarrow> if mf_errors m = [] then Inr m else Inl (join '' , '' (mf_errors m)))"

definition parse ::
  "(string \<Rightarrow> string + (string \<times> command list)) \<Rightarrow> (string \<Rightarrow> 'f option) \<Rightarrow> string \<Rightarrow> string + 'f modelfile"
  where
  "parse parse_file pf input =
     (case parse_file input of
        Inr (rest, cmds) \<Rightarrow> create_modelfile pf cmds
      | Inl err \<Rightarrow> Inl (''Modelfile failed to parse due to '' @ err))"

definition parse_from_file ::
  "(string \<Rightarrow> string + string) \<Rightarrow> (string \<Rightarrow> string + (string \<times> command list)) \<Rightarrow>
   (string \<Rightarrow> 'f option) \<Rightarrow> string \<Rightarrow> string + 'f modelfile" where
  "parse_from_file read_to_string parse_file pf path =
     (case read_to_string path of
        Inr content \<Rightarrow> parse parse_file pf content
      | Inl err \<Rightarrow> Inl (''Parsing Modelfile failed due to '' @ err))"

definition show_modelfile :: "'f modelfile \<Rightarrow> string" where
  "show_modelfile m = join ''\<newline>'' (mf_data m)"


section \<open>What the builder computes\<close>

text \<open>
  A command is accepted on its own (\<open>valid_command\<close>), the instructions that may occur
  once are counted (\<open>count_instr\<close>), and the fields of the result are read off the
  command list: \<open>singles\<close> are the values given to an instruction, \<open>params_of\<close> and
  \<open>messages_of\<close> what the pair commands parse to, and \<open>lines_of\<close> the text of the file.
\<close>

definition instr :: "command \<Rightarrow> string" where
  "instr cmd = to_lowercase (fst cmd)"

definition valid_command :: "(string \<Rightarrow> 'f option) \<Rightarrow> command \<Rightarrow> bool" where
  "valid_command pf cmd =
     (case snd cmd of
        Single v \<Rightarrow> instr cmd \<in> {''from'', ''template'', ''system'', ''adapter'', ''license'', ''#''}
      | Pair p a \<Rightarrow>
          (instr cmd = ''parameter'' \<and> is_ok (parse_parameter pf p (trim a)))
          \<or> (instr cmd = ''message'' \<and> is_ok (parse_message p (trim a)))
          \<or> instr cmd = ''#'')"

definition count_instr :: "string \<Rightarrow> command list \<Rightarrow> nat" where
  "count_instr i cmds = length (filter (\<lambda>c. instr c = i) cmds)"

definition singles :: "string \<Rightarrow> command list \<Rightarrow> string list" where
  "singles i cmds =
     List.map_filter (\<lambda>c. case snd c of Single v \<Rightarrow> if instr c = i then Some (trim v) else None
                                | Pair _ _ \<Rightarrow> None) cmds"

definition last_opt :: "'a list \<Rightarrow> 'a option" where
  "last_opt xs = (if xs = [] then None else Some (last xs))"

definition params_of :: "(string \<Rightarrow> 'f option) \<Rightarrow> command list \<Rightarrow> 'f parameter list" where
  "params_of pf cmds =
     List.map_filter (\<lambda>c. case snd c of Single _ \<Rightarrow> None
        | Pair p a \<Rightarrow> if instr c = ''parameter'' then ok (parse_parameter pf p (trim a)) else None) cmds"

definition messages_of :: "command list \<Rightarrow> message list" where
  "messages_of cmds =
     List.map_filter (\<lambda>c. case snd c of Single _ \<Rightarrow> None
        | Pair p a \<Rightarrow> if instr c = ''message'' then ok (parse_message p (trim a)) else None) cmds"

definition line_of :: "command \<Rightarrow> string" where
  "line_of c =
     (if instr c = ''#'' then ''# '' @ show_output (snd c)
      else case snd c of
        Single v \<Rightarrow> to_uppercase (instr c) @ '' '' @ trim v
      | Pair p a \<Rightarrow> to_uppercase (instr c) @ '' '' @ p @ '' '' @ trim a)"

abbreviation not_system :: "command \<Rightarrow> bool" where
  "not_system c \<equiv> instr c \<noteq> ''system''"

definition lines_of :: "command list \<Rightarrow> string list" where
  "lines_of cmds =
     map line_of (takeWhile not_system cmds)
     @ (case last_opt (singles ''system'' cmds) of None \<Rightarrow> [] | Some v \<Rightarrow> [''SYSTEM '' @ v])
     @ map line_of (filter not_system (dropWhile not_system cmds))"

definition modelfile_of :: "(string \<Rightarrow> 'f option) \<Rightarrow> command list \<Rightarrow> 'f modelfile" where
  "modelfile_of pf cmds =
     (let spec = map_option split_model_spec (map_option trim (last_opt (singles ''from'' cmds))) in
      \<lparr>mf_from = map_option fst spec,
       mf_quant = Option.bind spec snd,
       mf_parameters = params_of pf cmds,
       mf_template = last_opt (singles ''template'' cmds),
       mf_adapter = last_opt (singles ''adapter'' cmds),
       mf_system = last_opt (singles ''system'' cmds),
       mf_license = last_opt (singles ''license'' cmds),
       mf_messages = messages_of cmds,
       mf_data = lines_of cmds,
       mf_errors = []\<rparr>)"

definition accepted :: "(string \<Rightarrow> 'f option) \<Rightarrow> command list \<Rightarrow> bool" where
  "accepted pf cmds \<longleftrightarrow>
     list_all (valid_command pf) cmds \<and>
     count_instr ''from'' cmds \<le> 1 \<and> count_instr ''template'' cmds \<le> 1 \<and>
     count_instr ''adapter'' cmds \<le> 1 \<and> count_instr ''license'' cmds \<le> 1"

named_theorems snoc_simps "the read-off functions on a list with one more command"

lemma last_opt_snoc [simp]: "last_opt (xs @ [x]) = Some x" "last_opt [] = None" "last_opt [x] = Some x"
  by (simp_all add: last_opt_def)

lemma map_filter_snoc: "List.map_filter f (xs @ [x]) =
    List.map_filter f xs @ (case f x of None \<Rightarrow> [] | Some y \<Rightarrow> [y])"
  by (induction xs) (auto simp: List.map_filter_simps split: option.splits)

lemma singles_snoc [snoc_simps]:
  "singles i (cmds @ [(k, Single v)]) =
     singles i cmds @ (if to_lowercase k = i then [trim v] else [])"
  "singles i (cmds @ [(k, Pair p a)]) = singles i cmds"
  by (simp_all add: singles_def map_filter_snoc instr_def)

lemma params_of_snoc [snoc_simps]:
  "params_of pf (cmds @ [(k, Single v)]) = params_of pf cmds"
  "params_of pf (cmds @ [(k, Pair p a)]) =
     params_of pf cmds @ (if to_lowercase k = ''parameter''
       then case ok (parse_parameter pf p (trim a)) of None \<Rightarrow> [] | Some y \<Rightarrow> [y] else [])"
  by (simp_all add: params_of_def map_filter_snoc instr_def)

lemma messages_of_snoc [snoc_simps]:
  "messages_of (cmds @ [(k, Single v)]) = messages_of cmds"
  "messages_of (cmds @ [(k, Pair p a)]) =
     messages_of cmds @ (if to_lowercase k = ''message''
       then case ok (parse_message p (trim a)) of None \<Rightarrow> [] | Some y \<Rightarrow> [y] else [])"
  by (simp_all add: messages_of_def map_filter_snoc instr_def)

lemma count_instr_snoc [snoc_simps]:
  "count_instr i (cmds @ [c]) = count_instr i cmds + (if instr c = i then 1 else 0)"
  by (simp add: count_instr_def)

lemma accepted_snoc [snoc_simps]:
  "accepted pf (cmds @ [c]) \<longleftrightarrow>
     accepted pf cmds \<and> valid_command pf c \<and>
     (instr c \<in> {''from'', ''template'', ''adapter'', ''license''} \<longrightarrow> count_instr (instr c) cmds = 0)"
  by (auto simp: accepted_def count_instr_snoc)

lemma lines_of_snoc_other [snoc_simps]:
  assumes "not_system c" and "list_all (valid_command pf) cmds"
  shows "lines_of (cmds @ [c]) = lines_of cmds @ [line_of c]"
proof -
  have s: "singles ''system'' (cmds @ [c]) = singles ''system'' cmds"
    using assms by (cases c; cases "snd c") (auto simp: singles_snoc instr_def)
  show ?thesis
  proof (cases "\<forall>x\<in>set cmds. not_system x")
    case True
    then have s0: "singles ''system'' cmds = []"
      by (auto simp: singles_def List.map_filter_def filter_empty_conv split: cmd_output.splits)
    have tw: "takeWhile not_system (cmds @ [c]) = cmds @ [c]" "takeWhile not_system cmds = cmds"
      and dw: "dropWhile not_system (cmds @ [c]) = []" "dropWhile not_system cmds = []"
      using True assms(1) by (auto simp: takeWhile_eq_all_conv)
    show ?thesis
      unfolding lines_of_def s s0 tw dw by simp
  next
    case False
    then obtain x where x: "x \<in> set cmds" "\<not> not_system x" by blast
    show ?thesis
      unfolding lines_of_def s takeWhile_append1 [where P = not_system, OF x]
        dropWhile_append1 [where P = not_system, OF x]
      using assms(1) by simp
  qed
qed

text \<open>A SYSTEM command replaces the SYSTEM line if there is one. No other line starts like it.\<close>

lemma line_of_not_system:
  assumes "valid_command pf c" and "not_system c"
  shows "\<not> is_system_line (line_of c)"
proof -
  have "instr c \<in> {''from'', ''template'', ''adapter'', ''license'', ''#'', ''parameter'', ''message''}"
    using assms by (auto simp: valid_command_def split: cmd_output.splits)
  then show ?thesis
    by (elim insertE emptyE)
       (simp_all add: line_of_def is_system_line_def starts_with_def to_uppercase_def upper_char_def
         char_of_eq_iff split: cmd_output.splits)
qed

lemma replace_system_append:
  "list_all (\<lambda>l. \<not> is_system_line l) xs \<Longrightarrow>
     replace_system f (xs @ ys) = (fst (replace_system f ys), xs @ snd (replace_system f ys))"
  by (induction xs) (auto split: prod.splits)

lemma replace_system_none:
  "list_all (\<lambda>l. \<not> is_system_line l) xs \<Longrightarrow> replace_system f xs = (False, xs)"
  by (induction xs) auto

lemma system_line [simp]:
  "is_system_line (CHR ''S'' # CHR ''Y'' # CHR ''S'' # CHR ''T'' # CHR ''E'' # CHR ''M'' # v)"
  by (simp add: is_system_line_def starts_with_def to_uppercase_def upper_char_def)

lemma valid_system_single:
  assumes "valid_command pf c" and "instr c = ''system''"
  obtains k v where "c = (k, Single v)" and "to_lowercase k = ''system''"
  using assms by (cases c; cases "snd c") (auto simp: valid_command_def instr_def)

lemma singles_system_Nil:
  assumes "list_all (valid_command pf) cmds"
  shows "singles ''system'' cmds = [] \<longleftrightarrow> (\<forall>x\<in>set cmds. not_system x)"
proof -
  have "valid_command pf x \<Longrightarrow> instr x = ''system'' \<Longrightarrow> \<exists>v. snd x = Single v" for x
    by (erule (1) valid_system_single) simp
  with assms show ?thesis
    by (force simp: singles_def List.map_filter_def filter_empty_conv list_all_iff
        split: cmd_output.splits)
qed

lemma lines_of_snoc_system [snoc_simps]:
  assumes v: "list_all (valid_command pf) cmds" and k: "to_lowercase k = ''system''"
  shows "(let (found, data) = replace_system (''SYSTEM '' @ trim w) (lines_of cmds) in
      if found then data else data @ [''SYSTEM '' @ trim w]) = lines_of (cmds @ [(k, Single w)])"
proof -
  let ?c = "(k, Single w)"
  have nl: "list_all (\<lambda>l. \<not> is_system_line l) (map line_of (takeWhile not_system cmds))"
    using v by (auto simp: list_all_iff dest!: set_takeWhileD dest: line_of_not_system)
  have sw: "singles ''system'' (cmds @ [?c]) = singles ''system'' cmds @ [trim w]"
    using k by (simp add: singles_snoc)
  show ?thesis
  proof (cases "\<forall>x\<in>set cmds. not_system x")
    case True
    then have s: "singles ''system'' cmds = []" using v by (simp add: singles_system_Nil)
    have tw: "takeWhile not_system (cmds @ [?c]) = cmds" "takeWhile not_system cmds = cmds"
      and dw: "dropWhile not_system (cmds @ [?c]) = [?c]" "dropWhile not_system cmds = []"
      using True k by (auto simp: takeWhile_eq_all_conv instr_def takeWhile_append dropWhile_append)
    from nl show ?thesis
      unfolding lines_of_def sw s tw dw using k
      by (simp add: replace_system_none instr_def)
  next
    case False
    then obtain x where x: "x \<in> set cmds" "\<not> not_system x" by blast
    with v have "singles ''system'' cmds \<noteq> []" by (auto simp: singles_system_Nil)
    then obtain u where u: "last_opt (singles ''system'' cmds) = Some u"
      by (simp add: last_opt_def)
    from nl show ?thesis
      unfolding lines_of_def sw u takeWhile_append1 [where P = not_system, OF x]
        dropWhile_append1 [where P = not_system, OF x] using k
      by (simp add: replace_system_append instr_def)
  qed
qed

section \<open>The builder meets the specification\<close>

lemma singles_Nil_count:
  assumes "list_all (valid_command pf) cmds"
    and "i \<in> {''from'', ''template'', ''adapter'', ''license''}"
  shows "singles i cmds = [] \<longleftrightarrow> count_instr i cmds = 0"
proof -
  have "valid_command pf x \<Longrightarrow> instr x = i \<Longrightarrow> \<exists>v. snd x = Single v" for x
    using assms(2) by (cases "snd x") (auto simp: valid_command_def)
  with assms(1) show ?thesis
    by (force simp: singles_def List.map_filter_def filter_empty_conv list_all_iff count_instr_def
        split: cmd_output.splits)
qed

lemma last_opt_None [simp]: "last_opt xs = None \<longleftrightarrow> xs = []"
  by (simp add: last_opt_def)

lemma modelfile_of_simps [simp]:
  "mf_errors (modelfile_of pf cmds) = []"
  "mf_from (modelfile_of pf cmds) = None \<longleftrightarrow> singles ''from'' cmds = []"
  by (simp_all add: modelfile_of_def Let_def)

lemmas builder_defs = add_from_def add_template_def add_license_def add_adapter_def add_comment_def
  add_parameter_def add_message_def push_error_def

lemma run_command_errors:
  "mf_errors m \<noteq> [] \<Longrightarrow> mf_errors (run_command pf m c) \<noteq> []"
  by (auto simp: run_command_def builder_defs add_system_def Let_def
      split: cmd_output.splits sum.splits prod.splits)

lemma valid_command_cases:
  assumes "valid_command pf c"
  obtains (From) k v where "c = (k, Single v)" "to_lowercase k = ''from''"
  | (Template) k v where "c = (k, Single v)" "to_lowercase k = ''template''"
  | (SystemCmd) k v where "c = (k, Single v)" "to_lowercase k = ''system''"
  | (Adapter) k v where "c = (k, Single v)" "to_lowercase k = ''adapter''"
  | (License) k v where "c = (k, Single v)" "to_lowercase k = ''license''"
  | (Comment) k out where "c = (k, out)" "to_lowercase k = ''#''"
  | (Parameter) k p a x where "c = (k, Pair p a)" "to_lowercase k = ''parameter''"
      "parse_parameter pf p (trim a) = Inr x"
  | (Message) k p a x where "c = (k, Pair p a)" "to_lowercase k = ''message''"
      "parse_message p (trim a) = Inr x"
proof -
  obtain k out where "c = (k, out)" by (cases c)
  with assms show thesis
    using that by (cases out) (auto simp: valid_command_def instr_def is_ok_iff)
qed

lemmas command_eval = run_command_def builder_defs modelfile_of_def singles_snoc params_of_snoc
  messages_of_snoc line_of_def instr_def to_uppercase_def upper_char_def char_of_eq_iff

lemma run_command_system:
  assumes v: "list_all (valid_command pf) cmds" and k: "to_lowercase k = ''system''"
  shows "run_command pf (modelfile_of pf cmds) (k, Single w) = modelfile_of pf (cmds @ [(k, Single w)])"
  using lines_of_snoc_system [OF v k, of w] k
  by (simp add: command_eval add_system_def Let_def split: prod.splits if_splits)

lemma run_command_valid:
  assumes acc: "accepted pf cmds" and acc': "accepted pf (cmds @ [c])"
  shows "run_command pf (modelfile_of pf cmds) c = modelfile_of pf (cmds @ [c])"
proof -
  from acc have v: "list_all (valid_command pf) cmds" by (simp add: accepted_def)
  note once = singles_Nil_count [OF v]
  from acc' have "valid_command pf c" and o: "instr c \<in> {''from'', ''template'', ''adapter'', ''license''}
      \<Longrightarrow> count_instr (instr c) cmds = 0"
    by (auto simp: accepted_snoc)
  then show ?thesis
  proof (cases rule: valid_command_cases)
    case (From k w)
    with o lines_of_snoc_other [OF _ v, of c] once [of "''from''"] show ?thesis
      by (simp add: command_eval Let_def split: prod.splits)
  next
    case (Template k w)
    with o lines_of_snoc_other [OF _ v, of c] once [of "''template''"] show ?thesis
      by (simp add: command_eval Let_def)
  next
    case (SystemCmd k w)
    with run_command_system [OF v] show ?thesis by simp
  next
    case (Adapter k w)
    with o lines_of_snoc_other [OF _ v, of c] once [of "''adapter''"] show ?thesis
      by (simp add: command_eval Let_def)
  next
    case (License k w)
    with o lines_of_snoc_other [OF _ v, of c] once [of "''license''"] show ?thesis
      by (simp add: command_eval Let_def)
  next
    case (Comment k out)
    with lines_of_snoc_other [OF _ v, of c] show ?thesis
      by (cases out) (simp_all add: command_eval Let_def)
  next
    case (Parameter k p a x)
    with lines_of_snoc_other [OF _ v, of c] show ?thesis
      by (simp add: command_eval Let_def)
  next
    case (Message k p a x)
    with lines_of_snoc_other [OF _ v, of c] show ?thesis
      by (simp add: command_eval Let_def)
  qed
qed

lemma run_command_rejected:
  assumes acc: "accepted pf cmds" and acc': "\<not> accepted pf (cmds @ [c])"
  shows "mf_errors (run_command pf (modelfile_of pf cmds) c) \<noteq> []"
proof -
  obtain k out where c: "c = (k, out)" by (cases c)
  from acc have v: "list_all (valid_command pf) cmds" by (simp add: accepted_def)
  note once = singles_Nil_count [OF v]
  from acc acc' c show ?thesis
    by (cases out)
       (auto simp: accepted_snoc valid_command_def run_command_def builder_defs modelfile_of_def
          instr_def once Let_def split: prod.splits sum.splits)
qed

lemma builder_run:
  fixes pf
  defines "m \<equiv> foldl (run_command pf) modelfile_new"
  shows "(mf_errors (m cmds) = [] \<longleftrightarrow> accepted pf cmds) \<and>
         (accepted pf cmds \<longrightarrow> m cmds = modelfile_of pf cmds)"
proof (induction cmds rule: rev_induct)
  case Nil
  show ?case
    by (simp add: m_def accepted_def count_instr_def modelfile_new_def modelfile_of_def singles_def
        params_of_def messages_of_def lines_of_def List.map_filter_simps)
next
  case (snoc c cmds)
  have step: "m (cmds @ [c]) = run_command pf (m cmds) c" by (simp add: m_def)
  show ?case
  proof (cases "accepted pf cmds")
    case True
    with snoc have m: "m cmds = modelfile_of pf cmds" by simp
    show ?thesis
    proof (cases "accepted pf (cmds @ [c])")
      case a: True
      with run_command_valid [OF True a] show ?thesis
        by (simp add: step m)
    next
      case False
      with run_command_rejected [OF True False] show ?thesis by (simp add: step m)
    qed
  next
    case False
    with snoc have "mf_errors (m cmds) \<noteq> []" by simp
    then have "mf_errors (m (cmds @ [c])) \<noteq> []" unfolding step by (rule run_command_errors)
    with False show ?thesis by (simp add: accepted_snoc)
  qed
qed

text \<open>
  C21. \<open>create_modelfile\<close> succeeds exactly on the command lists in which every command is
  valid on its own, FROM occurs once, and TEMPLATE, ADAPTER and LICENSE at most once; its
  result is then the Modelfile read off the list: the repository and quantisation tag of
  the FROM value, the parsed parameters and messages in order, the last SYSTEM value, and
  one line of text per command except that all SYSTEM commands share the line of the first.
\<close>
theorem create_modelfile_correct:
  "create_modelfile pf cmds = Inr m \<longleftrightarrow>
     accepted pf cmds \<and> count_instr ''from'' cmds = 1 \<and> m = modelfile_of pf cmds"
proof (cases "accepted pf cmds")
  case True
  then have v: "list_all (valid_command pf) cmds" and le: "count_instr ''from'' cmds \<le> 1"
    by (simp_all add: accepted_def)
  have "mf_from (modelfile_of pf cmds) = None \<longleftrightarrow> count_instr ''from'' cmds = 0"
    using singles_Nil_count [OF v, of "''from''"] by simp
  then show ?thesis
    using True le builder_run [of pf cmds]
    by (auto simp: create_modelfile_def build_def push_error_def)
next
  case False
  then show ?thesis
    using builder_run [of pf cmds] by (auto simp: create_modelfile_def build_def push_error_def)
qed

section \<open>Types\<close>

text \<open>The type a parameter has by its name, in the range of the 32-bit integers of the source, and the
  roles a message can have.\<close>

definition well_typed_parameter :: "'f parameter \<Rightarrow> bool" where
  "well_typed_parameter p =
     (case param_value p of
        PInt n \<Rightarrow> param_type p \<in> set int_params \<and> - (2 ^ 31) \<le> n \<and> n < 2 ^ 31
      | PFloat x \<Rightarrow> param_type p \<in> set float_params
      | PStr s \<Rightarrow> param_type p = ''stop'')"

definition well_typed :: "'f modelfile \<Rightarrow> bool" where
  "well_typed m =
     (list_all well_typed_parameter (mf_parameters m) \<and>
      list_all (\<lambda>g. msg_role g \<in> {System, User, Assistant}) (mf_messages m) \<and>
      (mf_quant m \<noteq> None \<longrightarrow> mf_from m \<noteq> None \<and> mf_quant m \<noteq> Some []))"

lemma parse_parameter_typed: "parse_parameter pf ty v = Inr p \<Longrightarrow> well_typed_parameter p"
  by (auto simp: parse_parameter_def parse_int_def parse_float_def well_typed_parameter_def Let_def
      dest: parse_i32_range split: option.splits if_splits)

lemma parse_message_typed: "parse_message r t = Inr g \<Longrightarrow> msg_role g \<in> {System, User, Assistant}"
  by (auto simp: parse_message_def role_from_str_def Let_def split: sum.splits if_splits)

lemma well_typed_fields:
  "well_typed m \<Longrightarrow> mf_parameters m' = mf_parameters m \<Longrightarrow> mf_messages m' = mf_messages m \<Longrightarrow>
    mf_quant m' = mf_quant m \<Longrightarrow> mf_from m' = mf_from m \<Longrightarrow> well_typed m'"
  by (simp add: well_typed_def)

lemma add_from_typed: "well_typed m \<Longrightarrow> well_typed (snd (add_from v m))"
  by (auto simp: add_from_def push_error_def split_model_spec_def well_typed_def split: option.splits)

lemma add_parameter_typed: "well_typed m \<Longrightarrow> well_typed (snd (add_parameter pf ty v m))"
  by (auto simp: add_parameter_def push_error_def well_typed_def dest: parse_parameter_typed split: sum.splits)

lemma add_message_typed: "well_typed m \<Longrightarrow> well_typed (snd (add_message r v m))"
  using parse_message_typed [of r v]
  by (cases "parse_message r v") (auto simp: add_message_def push_error_def well_typed_def)

lemma add_others_typed:
  assumes "well_typed m"
  shows "well_typed (snd (add_template v m))" "well_typed (snd (add_system v m))" "well_typed (snd (add_adapter v m))"
    "well_typed (snd (add_license v m))" "well_typed (snd (add_comment v m))"
  by (rule well_typed_fields [OF assms];
      simp add: add_template_def add_system_def add_adapter_def add_license_def add_comment_def push_error_def
        Let_def split: prod.split)+

lemma run_command_typed: "well_typed m \<Longrightarrow> well_typed (run_command pf m cmd)"
  using well_typed_fields [of m "m\<lparr>mf_errors := mf_errors m @ [invalid_command (to_lowercase (fst cmd)) (snd cmd)]\<rparr>"]
  by (cases "snd cmd") (simp_all add: run_command_def Let_def add_from_typed add_parameter_typed add_message_typed add_others_typed)

text \<open>C40. The builder keeps a Modelfile well typed whatever the commands, also those it rejects: a
  parameter has a value of the type its name asks for, an integer one that fits 32 bits, a message
  is the system's, the user's or the assistant's, and a quant is never empty and never without a
  repository. What a text parses to is well typed, has a repository and no errors.\<close>

theorem modelfile_well_typed:
  "well_typed (foldl (run_command pf) modelfile_new cmds) \<and>
   (create_modelfile pf cmds = Inr m \<longrightarrow> well_typed m \<and> mf_from m \<noteq> None \<and> mf_errors m = [])"
proof -
  have "well_typed (foldl (run_command pf) m0 cmds)" if "well_typed m0" for m0 :: "'a modelfile"
    using that by (induction cmds arbitrary: m0) (simp_all add: run_command_typed)
  then have all: "well_typed (foldl (run_command pf) modelfile_new cmds)"
    by (simp add: well_typed_def modelfile_new_def)
  then show ?thesis
    by (auto simp: create_modelfile_def build_def push_error_def split: if_splits)
qed

theorem modelfile_well_typed_witness:
  "\<exists>m :: nat modelfile.
     create_modelfile (\<lambda>_. None) [(''FROM'', Single ''a/b:Q8''), (''PARAMETER'', Pair ''top_k'' ''4'')] = Inr m \<and> well_typed m"
proof -
  let ?cmds = "[(''FROM'', Single ''a/b:Q8''), (''PARAMETER'', Pair ''top_k'' ''4'')]"
  have "case create_modelfile (\<lambda>_. None :: nat option) ?cmds of Inr _ \<Rightarrow> True | Inl _ \<Rightarrow> False" by code_simp
  then obtain m where m: "create_modelfile (\<lambda>_. None :: nat option) ?cmds = Inr m" by (auto split: sum.splits)
  with modelfile_well_typed [of "\<lambda>_. None" ?cmds m] show ?thesis by blast
qed

section \<open>The name of a model\<close>

lemma split_model_spec_Some:
  "split_model_spec s = (r, Some q) \<longleftrightarrow> s = r @ CHR '':'' # q \<and> r \<noteq> [] \<and> q \<noteq> [] \<and> CHR '':'' \<notin> set q"
proof
  assume "split_model_spec s = (r, Some q)"
  then have "rsplit_once CHR '':'' s = Some (r, q)" and "r \<noteq> []" "q \<noteq> []"
    by (auto simp: split_model_spec_def split: option.splits prod.splits if_splits)
  with rsplit_once_Some [of "CHR '':''" s r q]
  show "s = r @ CHR '':'' # q \<and> r \<noteq> [] \<and> q \<noteq> [] \<and> CHR '':'' \<notin> set q" by simp
next
  assume s: "s = r @ CHR '':'' # q \<and> r \<noteq> [] \<and> q \<noteq> [] \<and> CHR '':'' \<notin> set q"
  then have "split_once CHR '':'' (rev s) = Some (rev q, rev r)"
    using split_once_append [of "CHR '':''" "rev q" "rev r"] by simp
  with s show "split_model_spec s = (r, Some q)" by (simp add: split_model_spec_def rsplit_once_def)
qed

lemma split_model_spec_None: "snd (split_model_spec s) = None \<Longrightarrow> fst (split_model_spec s) = s"
  by (auto simp: split_model_spec_def split: option.splits prod.splits if_splits)

text \<open>A model's name has a quant exactly when it is a repository, a colon and a quant
  without a colon, neither of them empty: then these are its two parts. Otherwise all of it is
  the repository.\<close>

theorem split_model_spec_correct:
  "(split_model_spec s = (r, Some q) \<longleftrightarrow> s = r @ CHR '':'' # q \<and> r \<noteq> [] \<and> q \<noteq> [] \<and> CHR '':'' \<notin> set q) \<and>
   (split_model_spec s = (r, None) \<longleftrightarrow>
      r = s \<and> (\<nexists>r' q'. s = r' @ CHR '':'' # q' \<and> r' \<noteq> [] \<and> q' \<noteq> [] \<and> CHR '':'' \<notin> set q'))"
proof (cases "snd (split_model_spec s)")
  case None
  then have "split_model_spec s = (s, None)" by (metis prod.collapse split_model_spec_None)
  then show ?thesis by (auto simp: split_model_spec_Some [symmetric])
next
  case (Some q')
  then have sp: "split_model_spec s = (fst (split_model_spec s), Some q')" by (metis prod.collapse)
  have "split_model_spec s \<noteq> (r, None)" by (subst sp) simp
  moreover have "\<exists>r' q'. s = r' @ CHR '':'' # q' \<and> r' \<noteq> [] \<and> q' \<noteq> [] \<and> CHR '':'' \<notin> set q'"
    using sp [unfolded split_model_spec_Some] by blast
  ultimately show ?thesis using split_model_spec_Some [of s r q] by blast
qed

end
