(* ===== verification/Tables.thy ===== *)
theory Tables
  imports Prelude
begin

text \<open>
  The SQLite tables the program keeps (\<open>tiles/src/core/storage/db.rs\<close>): a table is the
  list of its rows in insertion order, an index of the schema is a name and a key function
  (\<open>None\<close> for a row outside the index: a NULL column, or a row a partial index leaves out).
  The SQL statements of the sources are written with \<open>insert_row\<close>, \<open>update_rows\<close>,
  \<open>delete_rows\<close>, \<open>query_row\<close> and \<open>query_one\<close>. The locale \<open>keyed_table\<close> is the contract
  the components rely on: what an insertion, a deletion and a lookup by key promise on a
  table whose index holds. It is proved here once for any schema, and interpreted by the
  components on their own tables.
\<close>

section \<open>Statements\<close>

datatype sql_error = UniqueFailed string | NoRows | MoreThanOneRow | OtherError string

type_synonym 'r index = "string \<times> ('r \<Rightarrow> string list option)"

definition show_sql :: "sql_error \<Rightarrow> string" where
  "show_sql e =
     (case e of UniqueFailed n \<Rightarrow> ''UNIQUE constraint failed: '' @ n
      | NoRows \<Rightarrow> ''Query returned no rows''
      | MoreThanOneRow \<Rightarrow> ''Query returned more than one row''
      | OtherError s \<Rightarrow> s)"

definition clash :: "('r \<Rightarrow> string list option) \<Rightarrow> 'r \<Rightarrow> 'r \<Rightarrow> bool" where
  "clash k r x \<longleftrightarrow> k r \<noteq> None \<and> k x = k r"

definition unique_on :: "('r \<Rightarrow> string list option) \<Rightarrow> 'r list \<Rightarrow> bool" where
  "unique_on k t \<longleftrightarrow> distinct (List.map_filter k t)"

definition wf_table :: "'r index list \<Rightarrow> 'r list \<Rightarrow> bool" where
  "wf_table ixs t \<longleftrightarrow> list_all (\<lambda>ix. unique_on (snd ix) t) ixs"

definition insert_row :: "'r index list \<Rightarrow> 'r \<Rightarrow> 'r list \<Rightarrow> sql_error + 'r list" where
  "insert_row ixs r t =
     (case find (\<lambda>ix. list_ex (clash (snd ix) r) t) ixs of
        Some ix \<Rightarrow> Inl (UniqueFailed (fst ix))
      | None \<Rightarrow> Inr (t @ [r]))"

definition update_rows ::
  "'r index list \<Rightarrow> ('r \<Rightarrow> bool) \<Rightarrow> ('r \<Rightarrow> 'r) \<Rightarrow> 'r list \<Rightarrow> sql_error + 'r list" where
  "update_rows ixs P f t =
     (let t' = map (\<lambda>r. if P r then f r else r) t in
      case find (\<lambda>ix. \<not> unique_on (snd ix) t') ixs of
        Some ix \<Rightarrow> Inl (UniqueFailed (fst ix))
      | None \<Rightarrow> Inr t')"

text \<open>\<open>DELETE\<close> returns the number of rows deleted.\<close>

definition delete_rows :: "('r \<Rightarrow> bool) \<Rightarrow> 'r list \<Rightarrow> nat \<times> 'r list" where
  "delete_rows P t = (length (filter P t), filter (\<lambda>r. \<not> P r) t)"

text \<open>\<open>query_row\<close> takes the first row, \<open>query_one\<close> insists that there is no second one.\<close>

definition query_row :: "('r \<Rightarrow> bool) \<Rightarrow> 'r list \<Rightarrow> sql_error + 'r" where
  "query_row P t = (case filter P t of [] \<Rightarrow> Inl NoRows | r # _ \<Rightarrow> Inr r)"

definition query_one :: "('r \<Rightarrow> bool) \<Rightarrow> 'r list \<Rightarrow> sql_error + 'r" where
  "query_one P t =
     (case filter P t of [] \<Rightarrow> Inl NoRows | [r] \<Rightarrow> Inr r | _ \<Rightarrow> Inl MoreThanOneRow)"

text \<open>\<open>optional\<close> turns the error for no row into \<open>None\<close>.\<close>

definition optional_row :: "sql_error + 'r \<Rightarrow> sql_error + 'r option" where
  "optional_row r =
     (case r of Inr x \<Rightarrow> Inr (Some x) | Inl NoRows \<Rightarrow> Inr None | Inl e \<Rightarrow> Inl e)"

section \<open>Unique keys\<close>

lemma map_filter_Cons: "List.map_filter f (x # xs) =
    (case f x of None \<Rightarrow> List.map_filter f xs | Some y \<Rightarrow> y # List.map_filter f xs)"
  by (simp add: List.map_filter_simps)

lemma map_filter_append [simp]:
  "List.map_filter f (xs @ ys) = List.map_filter f xs @ List.map_filter f ys"
  by (simp add: List.map_filter_def)

lemma set_map_filter: "set (List.map_filter f xs) = {y. \<exists>x\<in>set xs. f x = Some y}"
  by (force simp: List.map_filter_def)

lemma unique_on_Nil [simp]: "unique_on k []"
  by (simp add: unique_on_def List.map_filter_simps)

lemma unique_on_snoc:
  "unique_on k (t @ [r]) \<longleftrightarrow> unique_on k t \<and> \<not> list_ex (clash k r) t"
  by (cases "k r")
     (auto simp: unique_on_def List.map_filter_simps set_map_filter clash_def list_ex_iff)

lemma unique_on_Cons:
  "unique_on k (r # t) \<longleftrightarrow> unique_on k t \<and> \<not> list_ex (clash k r) t"
  by (cases "k r")
     (auto simp: unique_on_def List.map_filter_simps set_map_filter clash_def list_ex_iff)

lemma unique_on_filter: "unique_on k t \<Longrightarrow> unique_on k (filter P t)"
  by (induction t) (auto simp: unique_on_Cons list_ex_iff)

lemma unique_on_eq:
  assumes "unique_on k t" and "x \<in> set t" and "y \<in> set t" and "k x = Some v" and "k y = Some v"
  shows "x = y"
  using assms by (induction t) (auto simp: unique_on_Cons list_ex_iff clash_def)

lemma unique_on_map:
  "(\<And>r. r \<in> set t \<Longrightarrow> k (f r) = k r) \<Longrightarrow> unique_on k (map f t) = unique_on k t"
  by (induction t) (auto simp: unique_on_Cons list_ex_iff clash_def)

text \<open>A key given to one row of a table in which nobody else has it keeps the index.\<close>

lemma unique_on_map_upd:
  assumes "unique_on k t"
    and "\<And>r. r \<in> set t \<Longrightarrow> P r \<Longrightarrow> k (f r) = k r \<or> k (f r) = v"
    and "\<And>r. r \<in> set t \<Longrightarrow> \<not> P r \<Longrightarrow> v \<noteq> None \<Longrightarrow> k r \<noteq> v"
    and "unique_on p t" and "\<And>r. r \<in> set t \<Longrightarrow> P r \<Longrightarrow> p r = Some q"
  shows "unique_on k (map (\<lambda>r. if P r then f r else r) t)"
  using assms
proof (induction t)
  case Nil
  then show ?case by simp
next
  case (Cons a t)
  define g where "g = (\<lambda>r. if P r then f r else r)"
  have IH: "unique_on k (map g t)" unfolding g_def
    by (rule Cons.IH) (use Cons.prems in \<open>auto simp: unique_on_Cons\<close>)
  have P: "\<not> P x" if "P a" "x \<in> set t" for x
    using Cons.prems(4,5) that by (fastforce simp: unique_on_Cons list_ex_iff clash_def)
  have "\<not> clash k (g a) (g x)" if x: "x \<in> set t" for x
  proof -
    have "\<not> clash k a x"
      using Cons.prems(1) x by (auto simp: unique_on_Cons list_ex_iff)
    then show ?thesis
      using P [OF _ x] Cons.prems(2) [of a] Cons.prems(2) [of x] Cons.prems(3) [of a]
        Cons.prems(3) [of x] x
      by (cases "P a"; cases "P x") (auto simp: clash_def g_def)
  qed
  with IH have "unique_on k (map g (a # t))" by (auto simp: unique_on_Cons list_ex_iff)
  then show ?case unfolding g_def .
qed

lemma filter_map_untouched:
  "(\<And>x. P (f x) = P x) \<Longrightarrow> (\<And>x. P x \<Longrightarrow> f x = x) \<Longrightarrow> filter P (map f xs) = filter P xs"
  by (induction xs) auto

lemma wf_table_Nil [simp]: "wf_table ixs []"
  by (simp add: wf_table_def list_all_iff)

lemma wf_table_filter: "wf_table ixs t \<Longrightarrow> wf_table ixs (filter P t)"
  by (auto simp: wf_table_def list_all_iff unique_on_filter)

lemma insert_row_Inr:
  "insert_row ixs r t = Inr t' \<longleftrightarrow>
     t' = t @ [r] \<and> list_all (\<lambda>ix. \<not> list_ex (clash (snd ix) r) t) ixs"
  by (auto simp: insert_row_def find_None_iff list_all_iff split: option.splits dest!: find_SomeD)

lemma insert_row_Inl:
  "insert_row ixs r t = Inl e \<Longrightarrow> \<exists>n. e = UniqueFailed n \<and> n \<in> fst ` set ixs"
  by (force simp: insert_row_def split: option.splits dest!: find_SomeD)

lemma insert_row_wf: "wf_table ixs t \<Longrightarrow> insert_row ixs r t = Inr t' \<Longrightarrow> wf_table ixs t'"
  by (auto simp: insert_row_Inr wf_table_def list_all_iff unique_on_snoc)

lemma update_rows_Inr:
  "update_rows ixs P f t = Inr t' \<longleftrightarrow>
     t' = map (\<lambda>r. if P r then f r else r) t \<and> wf_table ixs t'"
  by (auto simp: update_rows_def find_None_iff wf_table_def list_all_iff Let_def
      split: option.splits dest!: find_SomeD)

section \<open>The contract of a keyed table\<close>

locale keyed_table =
  fixes wf :: "'r list \<Rightarrow> bool"
    and ins :: "'r \<Rightarrow> 'r list \<Rightarrow> sql_error + 'r list"
    and key :: "'r \<Rightarrow> string list option"
  assumes ins_appends: "ins r t = Inr t' \<Longrightarrow> t' = t @ [r]"
    and ins_wf: "wf t \<Longrightarrow> ins r t = Inr t' \<Longrightarrow> wf t'"
    and ins_fresh: "ins r t = Inr t' \<Longrightarrow> key r = Some v \<Longrightarrow> x \<in> set t \<Longrightarrow> key x \<noteq> Some v"
    and filter_wf: "wf t \<Longrightarrow> wf (filter P t)"
    and wf_key: "wf t \<Longrightarrow> x \<in> set t \<Longrightarrow> y \<in> set t \<Longrightarrow> key x = Some v \<Longrightarrow> key y = Some v \<Longrightarrow> x = y"
begin

lemma delete_wf: "wf t \<Longrightarrow> wf (snd (delete_rows P t))"
  by (simp add: delete_rows_def filter_wf)

text \<open>A lookup by key finds the row, and \<open>query_one\<close> never meets a second one.\<close>

lemma at_most_one: "wf t \<Longrightarrow> x \<in> set t \<Longrightarrow> key x = Some v \<Longrightarrow> set (filter (\<lambda>r. key r = Some v) t) = {x}"
  by (auto dest: wf_key)

lemma query_row_key:
  "wf t \<Longrightarrow> x \<in> set t \<Longrightarrow> key x = Some v \<Longrightarrow> query_row (\<lambda>r. key r = Some v) t = Inr x"
  using at_most_one [of t x v]
  by (cases "filter (\<lambda>r. key r = Some v) t") (auto simp: query_row_def)

lemma query_row_inserted:
  assumes "wf t" and "ins r t = Inr t'" and "key r = Some v"
  shows "query_row (\<lambda>r. key r = Some v) t' = Inr r"
proof (rule query_row_key)
  show "wf t'" using assms(1,2) by (rule ins_wf)
  show "r \<in> set t'" using ins_appends [OF assms(2)] by simp
qed (rule assms(3))

lemma query_row_other:
  assumes "ins r t = Inr t'" and "key r \<noteq> Some v"
  shows "query_row (\<lambda>r. key r = Some v) t' = query_row (\<lambda>r. key r = Some v) t"
  using assms ins_appends [of r t t'] by (auto simp: query_row_def)

lemma query_row_deleted:
  assumes "\<And>r. r \<in> set t \<Longrightarrow> key r = Some v \<Longrightarrow> P r"
  shows "query_row (\<lambda>r. key r = Some v) (snd (delete_rows P t)) = Inl NoRows"
proof -
  have "filter (\<lambda>r. key r = Some v) (filter (\<lambda>r. \<not> P r) t) = []"
    using assms by (auto simp: filter_empty_conv)
  then show ?thesis by (simp add: query_row_def delete_rows_def del: filter_filter)
qed

end

text \<open>The statements above meet the contract for every index of a schema.\<close>

lemma keyed_table_index:
  assumes "(n, k) \<in> set ixs"
  shows "keyed_table (wf_table ixs) (insert_row ixs) k"
proof
  fix r x v and t t' :: "'a list" and P
  show "insert_row ixs r t = Inr t' \<Longrightarrow> t' = t @ [r]"
    by (simp add: insert_row_Inr)
  show "wf_table ixs t \<Longrightarrow> insert_row ixs r t = Inr t' \<Longrightarrow> wf_table ixs t'"
    by (rule insert_row_wf)
  show "k x \<noteq> Some v" if "insert_row ixs r t = Inr t'" "k r = Some v" "x \<in> set t"
    using that assms by (fastforce simp: insert_row_Inr list_all_iff list_ex_iff clash_def)
  show "wf_table ixs t \<Longrightarrow> wf_table ixs (filter P t)"
    by (rule wf_table_filter)
next
  fix t :: "'a list" and x y v
  assume "wf_table ixs t" and *: "x \<in> set t" "y \<in> set t" "k x = Some v" "k y = Some v"
  with assms have "unique_on k t" by (fastforce simp: wf_table_def list_all_iff)
  then show "x = y" using * by (rule unique_on_eq)
qed

end
