(* ===== verification/Accounts.thy ===== *)
theory Accounts
  imports Tables
begin

text \<open>
  Accounts, peers and delegation tokens (\<open>tiles/src/core/account/local.rs\<close> over the common
  database of \<open>storage/db.rs\<close>). The state is the two tables \<open>users\<close> and \<open>tokens\<close>; each
  function that takes a connection is a function of that state, returning the new state
  where it writes. The UCAN library, base64 and CBOR are the record \<open>'d ucan\<close> of functions on
  an abstract delegation type \<open>'d\<close>; fresh UUIDs and the clock are arguments. Text columns
  that hold an enum are modelled by the enum, whose text forms round-trip.
\<close>

section \<open>Data\<close>

datatype account = LOCAL | PEER

datatype token_type = Linked | Peer

record user =
  u_id :: string
  u_user_id :: string
  u_username :: "string option"
  u_active :: bool
  u_account :: account
  u_root :: bool
  u_created :: nat
  u_updated :: nat

record token =
  t_id :: string
  t_did :: string
  t_token :: string
  t_cid :: string
  t_type :: token_type
  t_created :: nat
  t_updated :: nat
  t_aud :: string
  t_nick :: "string option"

record common_db =
  users :: "user list"
  tokens :: "token list"

datatype sync_command = SyncAll | SyncPush | SyncPull

datatype inference_command = InferAll | InferShare | InferUse

datatype capability =
    CapAll
  | CapSync "string list option" sync_command
  | CapRemoteInference inference_command

datatype acct_error = Sql sql_error | Msg string | Panic string

record root_user =
  ru_id :: string
  ru_nickname :: string

record 'd ucan =
  uc_b64_decode :: "string \<Rightarrow> string option"
  uc_b64_encode :: "string \<Rightarrow> string"
  uc_from_cbor :: "string \<Rightarrow> 'd option"
  uc_to_cbor :: "'d \<Rightarrow> string"
  uc_issuer :: "'d \<Rightarrow> string"
  uc_audience :: "'d \<Rightarrow> string"
  uc_commands :: "'d \<Rightarrow> string list"
  uc_cid :: "'d \<Rightarrow> string"
  uc_cid64 :: "'d \<Rightarrow> string"

record token_query =
  q_issuer :: "string option"
  q_aud :: "string option"
  q_type :: "token_type option"

record user_query =
  uq_user_id :: "string option"
  uq_username :: "string option"
  uq_user_ids :: "string list option"

definition account_to_string :: "account \<Rightarrow> string" where
  "account_to_string a = (case a of LOCAL \<Rightarrow> ''local'' | PEER \<Rightarrow> ''peer'')"

definition account_try_from :: "string \<Rightarrow> string + account" where
  "account_try_from s =
     (let l = to_lowercase s in
      if l = ''local'' then Inr LOCAL else if l = ''peer'' then Inr PEER
      else Inl ''Invalid account type'')"

definition token_type_to_sql :: "token_type \<Rightarrow> string" where
  "token_type_to_sql ty = (case ty of Linked \<Rightarrow> ''linked'' | Peer \<Rightarrow> ''peer'')"

definition token_type_from_sql :: "string \<Rightarrow> token_type option" where
  "token_type_from_sql s =
     (if s = ''linked'' then Some Linked else if s = ''peer'' then Some Peer else None)"

definition sync_command_to_string :: "sync_command \<Rightarrow> string" where
  "sync_command_to_string c =
     (case c of SyncAll \<Rightarrow> ''sync'' | SyncPush \<Rightarrow> ''sync/push'' | SyncPull \<Rightarrow> ''sync/pull'')"

definition inference_command_to_string :: "inference_command \<Rightarrow> string" where
  "inference_command_to_string c =
     (case c of InferAll \<Rightarrow> ''remote_inference'' | InferShare \<Rightarrow> ''remote_inference/share''
      | InferUse \<Rightarrow> ''remote_inference/use'')"

text \<open>The unique indexes of the two tables, after the last migration.\<close>

definition user_indexes :: "user index list" where
  "user_indexes =
     [(''users.id'', \<lambda>u. Some [u_id u]),
      (''users.account_type, users.user_id'', \<lambda>u. Some [account_to_string (u_account u), u_user_id u]),
      (''users.user_id'', \<lambda>u. Some [u_user_id u]),
      (''users.username'', \<lambda>u. map_option (\<lambda>n. [n]) (u_username u))]"

definition link_key :: "token \<Rightarrow> string list option" where
  "link_key t = (if t_type t = Linked then Some [t_did t, t_aud t] else None)"

definition token_indexes :: "token index list" where
  "token_indexes =
     [(''tokens.id'', \<lambda>t. Some [t_id t]), (''tokens.did, tokens.aud_did'', link_key)]"

section \<open>The root user in the configuration\<close>

datatype toml = TStr string | TTable "string \<Rightarrow> toml option" | TOther

type_synonym toml_table = "string \<Rightarrow> toml option"

fun as_str :: "toml \<Rightarrow> string option" where
  "as_str (TStr s) = Some s" | "as_str _ = None"

fun as_table :: "toml \<Rightarrow> toml_table option" where
  "as_table (TTable t) = Some t" | "as_table _ = None"

definition root_user_new :: "toml_table \<Rightarrow> acct_error + root_user" where
  "root_user_new c =
     res_bind (ok_or (Msg ''Missing ID'') (c ''id'')) (\<lambda>i.
     res_bind (ok_or (Msg ''ID not a string'') (as_str i)) (\<lambda>id.
     res_bind (ok_or (Msg ''Missing Nickname'') (c ''nickname'')) (\<lambda>n.
     res_bind (ok_or (Msg ''Nickname not a string'') (as_str n)) (\<lambda>nick.
     Inr \<lparr>ru_id = id, ru_nickname = nick\<rparr>))))"

definition root_user_to_table :: "root_user \<Rightarrow> toml_table" where
  "root_user_to_table r = [''id'' \<mapsto> TStr (ru_id r), ''nickname'' \<mapsto> TStr (ru_nickname r)]"

definition get_root_user_details :: "toml_table \<Rightarrow> acct_error + root_user" where
  "get_root_user_details config =
     res_bind (ok_or (Msg ''Failed to parse root user config'') (config ''root-user'')) (\<lambda>r.
     res_bind (ok_or (Msg ''root user not a table'') (as_table r)) root_user_new)"

text \<open>\<open>create_identity\<close> makes a key pair in the keychain and returns its DID.\<close>

definition create_root_user ::
  "(acct_error + string) \<Rightarrow> toml_table \<Rightarrow> string option \<Rightarrow> acct_error + toml_table" where
  "create_root_user create_identity c nickname =
     (case create_identity of
        Inl e \<Rightarrow> Inl e
      | Inr did \<Rightarrow>
          let c = c(''id'' \<mapsto> TStr did) in
          Inr (case nickname of None \<Rightarrow> c | Some n \<Rightarrow> c(''nickname'' \<mapsto> TStr n)))"

definition create_root_account ::
  "(acct_error + string) \<Rightarrow> toml_table \<Rightarrow> string option \<Rightarrow> acct_error + toml_table" where
  "create_root_account create_identity config nickname =
     res_bind (ok_or (Msg ''root-user doesn't exist'') (config ''root-user'')) (\<lambda>r.
     res_bind (ok_or (Msg ''Failed to parse root user config'') (as_table r)) (\<lambda>t.
     res_bind (root_user_new t) (\<lambda>ru.
     if ru_id ru = [] then create_root_user create_identity t nickname else Inr t)))"

definition save_root_account :: "toml_table \<Rightarrow> toml_table \<Rightarrow> toml_table" where
  "save_root_account config root = config(''root-user'' \<mapsto> TTable root)"

definition set_nickname :: "toml_table \<Rightarrow> string \<Rightarrow> acct_error + toml_table" where
  "set_nickname config nickname =
     res_bind (ok_or (Msg ''root-user doesn't exist'') (config ''root-user'')) (\<lambda>r.
     res_bind (ok_or (Msg ''Failed to parse root user config'') (as_table r)) (\<lambda>t.
     res_bind (ok_or (Msg ''Failed to get id from config'') (Option.bind (t ''id'') as_str)) (\<lambda>did.
     if did = [] then Inl (Msg ''No Root user available'')
     else Inr (t(''id'' \<mapsto> TStr did, ''nickname'' \<mapsto> TStr nickname)))))"

section \<open>Users\<close>

definition get_current_user :: "common_db \<Rightarrow> acct_error + user" where
  "get_current_user db = map_err Sql (query_one u_active (users db))"

definition get_user :: "common_db \<Rightarrow> string \<Rightarrow> acct_error + user option" where
  "get_user db did = map_err Sql (optional_row (query_one (\<lambda>u. u_user_id u = did) (users db)))"

definition get_user_info :: "common_db \<Rightarrow> string \<Rightarrow> acct_error + user" where
  "get_user_info db did =
     (case query_one (\<lambda>u. u_user_id u = did) (users db) of
        Inr u \<Rightarrow> Inr u
      | Inl NoRows \<Rightarrow> Inl (Msg ''Peer doesnt exist'')
      | Inl e \<Rightarrow> Inl (Msg (''Fetching user from db failed due to '' @ show_sql e)))"

definition get_peer_list :: "common_db \<Rightarrow> user list" where
  "get_peer_list db = filter (\<lambda>u. u_account u \<noteq> LOCAL) (users db)"

definition insert_user :: "user \<Rightarrow> common_db \<Rightarrow> sql_error + common_db" where
  "insert_user u db =
     res_bind (insert_row user_indexes u (users db)) (\<lambda>us. Inr (db\<lparr>users := us\<rparr>))"

text \<open>Saves the root user once. The columns the statement leaves out default to the time.\<close>

definition save_root_account_db ::
  "(acct_error + root_user) \<Rightarrow> string \<Rightarrow> nat \<Rightarrow> common_db \<Rightarrow> acct_error + common_db" where
  "save_root_account_db config uuid now db =
     res_bind config (\<lambda>root.
       let user = \<lparr>u_id = uuid, u_user_id = ru_id root, u_username = Some (ru_nickname root),
                   u_active = True, u_account = LOCAL, u_root = True,
                   u_created = now, u_updated = now\<rparr>
       in case query_one u_root (users db) of
            Inl NoRows \<Rightarrow> map_err Sql (insert_user user db)
          | Inl _ \<Rightarrow> Inl (Msg ''Fetching user from db failed'')
          | Inr _ \<Rightarrow> Inr db)"

definition save_peer_account_db ::
  "string \<Rightarrow> string \<Rightarrow> string \<Rightarrow> nat \<Rightarrow> common_db \<Rightarrow> acct_error + common_db" where
  "save_peer_account_db user_id nickname uuid now db =
     map_err Sql (insert_user
       \<lparr>u_id = uuid, u_user_id = user_id, u_username = Some nickname, u_active = False,
        u_account = PEER, u_root = False, u_created = now, u_updated = now\<rparr> db)"

definition unlink :: "string \<Rightarrow> common_db \<Rightarrow> acct_error + common_db" where
  "unlink user_id db =
     res_bind (get_current_user db) (\<lambda>user.
       if u_user_id user = user_id then Inl (Msg ''Cannot unlink yourself'')
       else let (n, us) = delete_rows (\<lambda>u. u_user_id u = user_id \<and> u_account u \<noteq> LOCAL) (users db) in
         if n = 0 then Inl (Msg (''A peer with DID '' @ user_id @ '' doesn't exist''))
         else Inr (db\<lparr>users := us\<rparr>))"

definition update_user ::
  "string \<Rightarrow> string option \<Rightarrow> nat \<Rightarrow> common_db \<Rightarrow> acct_error + (user \<times> common_db)" where
  "update_user user_did username now db =
     (case username of
        None \<Rightarrow> Inl (Msg ''No params given to update'')
      | Some name \<Rightarrow>
          (case update_rows user_indexes (\<lambda>u. u_user_id u = user_did)
                  (\<lambda>u. u\<lparr>u_username := Some name, u_updated := now\<rparr>) (users db) of
             Inl e \<Rightarrow> Inl (Msg (''Err updating user due to '' @ show_sql e))
           | Inr us \<Rightarrow>
               let db = db\<lparr>users := us\<rparr> in
               res_bind (get_user db user_did) (\<lambda>u.
                 case u of Some u \<Rightarrow> Inr (u, db) | None \<Rightarrow> Inl (Msg ''User not found''))))"

text \<open>The query is put together from one clause per filter that is given. An empty list of
  DIDs adds no clause.\<close>

definition user_clauses :: "user_query \<Rightarrow> (user \<Rightarrow> bool) list" where
  "user_clauses q =
     (case uq_user_id q of None \<Rightarrow> [] | Some d \<Rightarrow> [\<lambda>u. u_user_id u = d])
     @ (case uq_username q of None \<Rightarrow> [] | Some n \<Rightarrow> [\<lambda>u. u_username u = Some n])
     @ (case uq_user_ids q of
          None \<Rightarrow> [] | Some ids \<Rightarrow> if ids = [] then [] else [\<lambda>u. u_user_id u \<in> set ids])"

definition fetch_users :: "user_query \<Rightarrow> common_db \<Rightarrow> user list" where
  "fetch_users q db =
     sort_key u_updated (filter (\<lambda>u. list_all (\<lambda>c. c u) (user_clauses q)) (users db))"

section \<open>Tokens\<close>

definition decode_delegation :: "'d ucan \<Rightarrow> string \<Rightarrow> acct_error + 'd" where
  "decode_delegation U tok =
     res_bind (ok_or (Msg ''Delegation token is in invalid base64'') (uc_b64_decode U tok))
       (\<lambda>bytes. ok_or (Msg ''Invalid Delegation'') (uc_from_cbor U bytes))"

text \<open>A delegation with no command is a powerline: it delegates everything.\<close>

definition delegation_type :: "'d ucan \<Rightarrow> 'd \<Rightarrow> token_type" where
  "delegation_type U d = (if uc_commands U d = [] then Linked else Peer)"

definition parse_ucan_delegation :: "'d ucan \<Rightarrow> string \<Rightarrow> nat \<Rightarrow> string \<Rightarrow> acct_error + token" where
  "parse_ucan_delegation U uuid now tok =
     res_bind (decode_delegation U tok) (\<lambda>d.
       Inr \<lparr>t_id = uuid, t_did = uc_issuer U d, t_token = tok, t_cid = uc_cid U d,
            t_type = delegation_type U d, t_created = now, t_updated = now,
            t_aud = uc_audience U d, t_nick = None\<rparr>)"

definition generate_commands_and_predicates :: "capability \<Rightarrow> string list \<times> token_type" where
  "generate_commands_and_predicates cap =
     (case cap of
        CapAll \<Rightarrow> ([], Linked)
      | CapSync _ command \<Rightarrow> ([sync_command_to_string command], Peer)
      | CapRemoteInference command \<Rightarrow> ([inference_command_to_string command], Peer))"

definition fetch_token_by_cid :: "string \<Rightarrow> token list \<Rightarrow> token option" where
  "fetch_token_by_cid cid toks = ok (query_row (\<lambda>t. t_cid t = cid) toks)"

definition token_clauses :: "token_query \<Rightarrow> (token \<Rightarrow> bool) list" where
  "token_clauses q =
     (case q_issuer q of None \<Rightarrow> [] | Some d \<Rightarrow> [\<lambda>t. t_did t = d])
     @ (case q_aud q of None \<Rightarrow> [] | Some d \<Rightarrow> [\<lambda>t. t_aud t = d])
     @ (case q_type q of None \<Rightarrow> [] | Some ty \<Rightarrow> [\<lambda>t. t_type t = ty])"

definition fetch_tokens :: "token_query \<Rightarrow> common_db \<Rightarrow> token list" where
  "fetch_tokens q db =
     sort_key t_updated (filter (\<lambda>t. list_all (\<lambda>c. c t) (token_clauses q)) (tokens db))"

definition fetch_delegated_tokens :: "string \<Rightarrow> token_type option \<Rightarrow> common_db \<Rightarrow> token list" where
  "fetch_delegated_tokens issuer ty db =
     fetch_tokens \<lparr>q_issuer = Some issuer, q_aud = None, q_type = ty\<rparr> db"

definition fetch_linked_tokens :: "string \<Rightarrow> common_db \<Rightarrow> token list" where
  "fetch_linked_tokens issuer db =
     fetch_tokens \<lparr>q_issuer = Some issuer, q_aud = None, q_type = Some Linked\<rparr> db"

text \<open>\<open>insert into tokens ... on conflict(did, aud_did) where type = 'linked' do update\<close>.\<close>

definition upsert_token :: "token \<Rightarrow> token list \<Rightarrow> sql_error + token list" where
  "upsert_token r toks =
     (if list_ex (clash link_key r) toks
      then update_rows token_indexes (clash link_key r)
             (\<lambda>x. x\<lparr>t_token := t_token r, t_updated := t_updated r, t_cid := t_cid r,
                    t_nick := t_nick r\<rparr>) toks
      else insert_row token_indexes r toks)"

text \<open>The insertion of the peer. A nickname that another user has becomes NULL. On a conflict
  of the DID the name is updated, where there is one.\<close>

definition free_nickname :: "string option \<Rightarrow> string \<Rightarrow> user list \<Rightarrow> string option" where
  "free_nickname nick peer us =
     (if nick \<noteq> None \<and> list_ex (\<lambda>u. u_username u = nick \<and> u_user_id u \<noteq> peer) us
      then None else nick)"

definition upsert_peer ::
  "string \<Rightarrow> string option \<Rightarrow> string \<Rightarrow> nat \<Rightarrow> user list \<Rightarrow> sql_error + user list" where
  "upsert_peer peer nick uuid now us =
     (let name = free_nickname nick peer us in
      if list_ex (\<lambda>u. u_user_id u = peer) us
      then (if name = None then Inr us
            else update_rows user_indexes (\<lambda>u. u_user_id u = peer)
                   (\<lambda>u. u\<lparr>u_username := name, u_updated := now\<rparr>) us)
      else insert_row user_indexes
             \<lparr>u_id = uuid, u_user_id = peer, u_username = name, u_active = False,
              u_account = PEER, u_root = False, u_created = now, u_updated = now\<rparr> us)"

text \<open>Both writes are one transaction: on an error the database is as before. The read of the
  row just written ends in \<open>expect\<close>, a panic if there is none.\<close>

definition save_token ::
  "'d ucan \<Rightarrow> 'd \<Rightarrow> string option \<Rightarrow> token_type \<Rightarrow> string \<Rightarrow> string \<Rightarrow> nat \<Rightarrow> common_db
     \<Rightarrow> acct_error + (token \<times> common_db)" where
  "save_token U d nick ty uuid uuid2 now db =
     res_bind (get_current_user db) (\<lambda>user.
       let issuer = uc_issuer U d; aud = uc_audience U d; cid = uc_cid64 U d;
           peer = (if aud \<noteq> u_user_id user then aud else issuer);
           row = \<lparr>t_id = uuid, t_did = issuer, t_token = uc_b64_encode U (uc_to_cbor U d),
                  t_cid = cid, t_type = ty, t_created = now, t_updated = now,
                  t_aud = aud, t_nick = nick\<rparr>
       in case upsert_token row (tokens db) of
            Inl e \<Rightarrow> Inl (Msg (''Err inserting token due to '' @ show_sql e))
          | Inr toks \<Rightarrow>
              (case fetch_token_by_cid cid toks of
                 None \<Rightarrow> Inl (Panic ''Expected token'')
               | Some resp \<Rightarrow>
                   (case upsert_peer peer nick uuid2 now (users db) of
                      Inl e \<Rightarrow> Inl (Msg (''Err insertin new peer due to '' @ show_sql e))
                    | Inr us \<Rightarrow> Inr (resp, db\<lparr>users := us, tokens := toks\<rparr>))))"

definition add_token ::
  "'d ucan \<Rightarrow> string \<Rightarrow> string option \<Rightarrow> string \<Rightarrow> string \<Rightarrow> nat \<Rightarrow> common_db
     \<Rightarrow> acct_error + (token \<times> common_db)" where
  "add_token U tok nick uuid uuid2 now db =
     res_bind (decode_delegation U tok) (\<lambda>d.
       save_token U d nick (delegation_type U d) uuid uuid2 now db)"

text \<open>\<open>build_delegation\<close> is the UCAN builder: it signs a delegation from the issuer, who is also
  the subject, to the audience, for the commands, with no policy and one year to live.\<close>

definition generate_delegation_token ::
  "'d ucan \<Rightarrow> (string \<Rightarrow> string \<Rightarrow> string list \<Rightarrow> acct_error + 'd) \<Rightarrow> string \<Rightarrow> string \<Rightarrow>
   string option \<Rightarrow> capability \<Rightarrow> string \<Rightarrow> string \<Rightarrow> nat \<Rightarrow> common_db
     \<Rightarrow> acct_error + (token \<times> common_db)" where
  "generate_delegation_token U build_delegation issuer aud nick cap uuid uuid2 now db =
     (let (commands, ty) = generate_commands_and_predicates cap in
      res_bind (build_delegation issuer aud commands) (\<lambda>d.
        save_token U d (if ty = Linked then None else nick) ty uuid uuid2 now db))"

text \<open>The signing key of the current user comes from the keychain (\<open>signer_did\<close>).\<close>

definition create_token ::
  "'d ucan \<Rightarrow> (string \<Rightarrow> string \<Rightarrow> string list \<Rightarrow> acct_error + 'd) \<Rightarrow> (string \<Rightarrow> acct_error + string)
   \<Rightarrow> string \<Rightarrow> string option \<Rightarrow> capability \<Rightarrow> string \<Rightarrow> string \<Rightarrow> nat \<Rightarrow> common_db
     \<Rightarrow> acct_error + (token \<times> common_db)" where
  "create_token U build_delegation signer_did aud nick cap uuid uuid2 now db =
     res_bind (get_current_user db) (\<lambda>user.
     res_bind (signer_did (u_user_id user)) (\<lambda>issuer.
       generate_delegation_token U build_delegation issuer aud nick cap uuid uuid2 now db))"

definition delete_token_by_cid :: "string \<Rightarrow> common_db \<Rightarrow> acct_error + common_db" where
  "delete_token_by_cid cid db =
     (let (n, toks) = delete_rows (\<lambda>t. t_cid t = cid) (tokens db) in
      if n = 0 then Inl (Msg ''Token was not deleted'') else Inr (db\<lparr>tokens := toks\<rparr>))"

text \<open>The first deletion must succeed. The second is a cleanup whose failure is logged only.\<close>

definition revoke_token :: "string \<Rightarrow> user \<Rightarrow> common_db \<Rightarrow> acct_error + common_db" where
  "revoke_token peer user db =
     (case find (\<lambda>t. t_aud t = peer) (fetch_linked_tokens (u_user_id user) db) of
        None \<Rightarrow> Inl (Msg ''Delegation token from the peer not found'')
      | Some t \<Rightarrow>
          (case delete_token_by_cid (t_cid t) db of
             Inl e \<Rightarrow> Inl (Msg ''Failed to delete the delegation token from peer due to'')
           | Inr db1 \<Rightarrow>
               (case find (\<lambda>t. t_aud t = u_user_id user) (fetch_linked_tokens peer db1) of
                  None \<Rightarrow> Inr db1
                | Some t2 \<Rightarrow>
                    (case delete_token_by_cid (t_cid t2) db1 of
                       Inl e \<Rightarrow> Inr db1
                     | Inr db2 \<Rightarrow> Inr db2))))"

definition is_valid_delegation :: "'d ucan \<Rightarrow> string \<Rightarrow> acct_error + unit" where
  "is_valid_delegation U tok =
     (case uc_b64_decode U tok of
        Some bytes \<Rightarrow> (case uc_from_cbor U bytes of
                         Some _ \<Rightarrow> Inr () | None \<Rightarrow> Inl (Msg ''Invalid UCAN token''))
      | None \<Rightarrow> Inl (Msg ''Invalid UCAN token''))"

section \<open>Invocations\<close>

text \<open>
  An invocation is checked against the delegations that this database holds from the
  invocation's audience. Decoding the invocation, its audience, parsing a CID and the check
  itself are the library's.
\<close>

record ('d, 'i, 'c) verifier =
  v_decode :: "string \<Rightarrow> acct_error + 'i"
  v_audience :: "'i \<Rightarrow> string"
  v_cid :: "string \<Rightarrow> acct_error + 'c"
  v_check :: "('c \<Rightarrow> 'd option) \<Rightarrow> 'i \<Rightarrow> bool"

fun fill_store ::
  "'d ucan \<Rightarrow> ('d, 'i, 'c) verifier \<Rightarrow> token list \<Rightarrow> ('c \<Rightarrow> 'd option) \<Rightarrow> acct_error + ('c \<Rightarrow> 'd option)"
  where
  "fill_store U V [] store = Inr store"
| "fill_store U V (t # ts) store =
     res_bind (decode_delegation U (t_token t)) (\<lambda>d.
     res_bind (v_cid V (t_cid t)) (\<lambda>c.
       fill_store U V ts (store(c \<mapsto> d))))"

definition process_invocation_verification ::
  "'d ucan \<Rightarrow> ('d, 'i, 'c) verifier \<Rightarrow> string \<Rightarrow> common_db \<Rightarrow> acct_error + unit" where
  "process_invocation_verification U V tok db =
     res_bind (v_decode V tok) (\<lambda>inv.
     res_bind (fill_store U V (fetch_delegated_tokens (v_audience V inv) None db) Map.empty) (\<lambda>store.
       if v_check V store inv then Inr () else Inl (Msg ''Invocation verification failed'')))"

text \<open>\<open>build_invocation\<close> signs an invocation for the audience, which is the subject too, with
  the proofs given by their CIDs.\<close>

fun decode_all :: "'d ucan \<Rightarrow> string list \<Rightarrow> acct_error + 'd list" where
  "decode_all U [] = Inr []"
| "decode_all U (t # ts) =
     res_bind (decode_delegation U t) (\<lambda>d. res_bind (decode_all U ts) (\<lambda>ds. Inr (d # ds)))"

definition generate_invocation_token ::
  "'d ucan \<Rightarrow> (string \<Rightarrow> string \<Rightarrow> string list \<Rightarrow> acct_error + string) \<Rightarrow> string \<Rightarrow> string list
     \<Rightarrow> acct_error + string" where
  "generate_invocation_token U build_invocation issuer toks =
     (if toks = [] then Inl (Msg ''Atleast one delegated token was expected'')
      else res_bind (decode_all U toks) (\<lambda>ds.
        build_invocation issuer (uc_issuer U (hd ds)) (map (uc_cid U) ds)))"

definition create_invocation_token ::
  "'d ucan \<Rightarrow> (string \<Rightarrow> string \<Rightarrow> string list \<Rightarrow> acct_error + string) \<Rightarrow> (string \<Rightarrow> acct_error + string)
   \<Rightarrow> string list \<Rightarrow> common_db \<Rightarrow> acct_error + string" where
  "create_invocation_token U build_invocation signer_did toks db =
     res_bind (get_current_user db) (\<lambda>user.
     res_bind (signer_did (u_user_id user)) (\<lambda>issuer.
       generate_invocation_token U build_invocation issuer toks))"

section \<open>The tables keep the contract of keyed tables\<close>

interpretation users_by_id: keyed_table "wf_table user_indexes" "insert_row user_indexes"
    "\<lambda>u. Some [u_user_id u]"
  by (rule keyed_table_index [of "''users.user_id''"]) (simp add: user_indexes_def)

interpretation users_by_name: keyed_table "wf_table user_indexes" "insert_row user_indexes"
    "\<lambda>u. map_option (\<lambda>n. [n]) (u_username u)"
  by (rule keyed_table_index [of "''users.username''"]) (simp add: user_indexes_def)

interpretation links: keyed_table "wf_table token_indexes" "insert_row token_indexes" link_key
  by (rule keyed_table_index [of "''tokens.did, tokens.aud_did''"]) (simp add: token_indexes_def)

section \<open>The invariant of the common database\<close>

text \<open>
  The unique indexes hold, the active profiles are the root users, a root user is a local
  account, and there is at most one.
\<close>

definition roots_ok :: "user list \<Rightarrow> bool" where
  "roots_ok us \<longleftrightarrow>
     list_all (\<lambda>u. u_active u = u_root u \<and> (u_root u \<longrightarrow> u_account u = LOCAL)) us \<and>
     length (filter u_root us) \<le> 1"

definition acct_inv :: "common_db \<Rightarrow> bool" where
  "acct_inv db \<longleftrightarrow>
     wf_table user_indexes (users db) \<and> wf_table token_indexes (tokens db) \<and> roots_ok (users db)"

inductive acct_step :: "'d ucan \<Rightarrow> common_db \<Rightarrow> common_db \<Rightarrow> bool" for U where
  save_root: "save_root_account_db config uuid now db = Inr db' \<Longrightarrow> acct_step U db db'"
| save_peer: "save_peer_account_db did nick uuid now db = Inr db' \<Longrightarrow> acct_step U db db'"
| unlink: "unlink did db = Inr db' \<Longrightarrow> acct_step U db db'"
| update: "update_user did name now db = Inr (u, db') \<Longrightarrow> acct_step U db db'"
| add: "add_token U tok nick uuid uuid2 now db = Inr (t, db') \<Longrightarrow> acct_step U db db'"
| create: "create_token U bld signer aud nick cap uuid uuid2 now db = Inr (t, db') \<Longrightarrow> acct_step U db db'"
| revoke: "revoke_token did u db = Inr db' \<Longrightarrow> acct_step U db db'"

inductive acct_reachable :: "'d ucan \<Rightarrow> common_db \<Rightarrow> bool" for U where
  init: "acct_reachable U \<lparr>users = [], tokens = []\<rparr>"
| step: "acct_reachable U db \<Longrightarrow> acct_step U db db' \<Longrightarrow> acct_reachable U db'"

text \<open>How each write changes the users: a new account that is not the root, new names for
  existing accounts, or fewer accounts that are not local.\<close>

definition same_profile :: "user \<Rightarrow> user \<Rightarrow> bool" where
  "same_profile u v \<longleftrightarrow> u_id u = u_id v \<and> u_user_id u = u_user_id v \<and> u_active u = u_active v
     \<and> u_root u = u_root v \<and> u_account u = u_account v"

lemma roots_ok_snoc:
  "roots_ok us \<Longrightarrow> \<not> u_root u \<Longrightarrow> \<not> u_active u \<Longrightarrow> roots_ok (us @ [u])"
  by (auto simp: roots_ok_def)

lemma roots_ok_map:
  assumes "roots_ok us" and "\<And>u. same_profile (f u) u"
  shows "roots_ok (map f us)"
proof -
  have "u_root \<circ> f = u_root" using assms(2) by (auto simp: same_profile_def)
  then have "filter u_root (map f us) = map f (filter u_root us)" by (simp add: filter_map)
  with assms show ?thesis by (auto simp: roots_ok_def list_all_iff same_profile_def)
qed

lemma roots_ok_filter:
  assumes "roots_ok us" and "\<And>u. u \<in> set us \<Longrightarrow> u_account u = LOCAL \<Longrightarrow> P u"
  shows "roots_ok (filter P us)" and "filter u_active (filter P us) = filter u_active us"
proof -
  have "P u" if "u \<in> set us" "u_root u \<or> u_active u" for u
    using assms that by (auto simp: roots_ok_def list_all_iff)
  then have "filter u_root (filter P us) = filter u_root us"
    and *: "filter u_active (filter P us) = filter u_active us"
    by (auto simp: filter_filter intro!: filter_cong)
  with assms(1) show "roots_ok (filter P us)"
    by (auto simp: roots_ok_def list_all_iff simp del: filter_filter)
  from * show "filter u_active (filter P us) = filter u_active us" .
qed

lemma upsert_token_wf:
  "wf_table token_indexes ts \<Longrightarrow> upsert_token r ts = Inr ts' \<Longrightarrow> wf_table token_indexes ts'"
  by (auto simp: upsert_token_def update_rows_Inr insert_row_wf split: if_splits)

lemma upsert_peer_wf:
  "wf_table user_indexes us \<Longrightarrow> upsert_peer p n i now us = Inr us' \<Longrightarrow> wf_table user_indexes us'"
  by (auto simp: upsert_peer_def Let_def update_rows_Inr insert_row_wf split: if_splits)

lemma upsert_peer_roots:
  assumes "roots_ok us" and "upsert_peer p n i now us = Inr us'"
  shows "roots_ok us'"
  using assms
  by (auto simp: upsert_peer_def Let_def update_rows_Inr insert_row_Inr same_profile_def
      intro!: roots_ok_snoc roots_ok_map split: if_splits)

lemma save_token_Inr:
  assumes "save_token U d nick ty i i2 now db = Inr (t, db')"
  obtains user peer r ts us where "get_current_user db = Inr user"
    and "peer = (if uc_audience U d \<noteq> u_user_id user then uc_audience U d else uc_issuer U d)"
    and "r = \<lparr>t_id = i, t_did = uc_issuer U d, t_token = uc_b64_encode U (uc_to_cbor U d),
              t_cid = uc_cid64 U d, t_type = ty, t_created = now, t_updated = now,
              t_aud = uc_audience U d, t_nick = nick\<rparr>"
    and "upsert_token r (tokens db) = Inr ts" and "fetch_token_by_cid (uc_cid64 U d) ts = Some t"
    and "upsert_peer peer nick i2 now (users db) = Inr us"
    and "db' = db\<lparr>users := us, tokens := ts\<rparr>"
proof -
  from assms obtain user where u: "get_current_user db = Inr user"
    by (cases "get_current_user db") (simp_all add: save_token_def)
  define r where "r = \<lparr>t_id = i, t_did = uc_issuer U d, t_token = uc_b64_encode U (uc_to_cbor U d),
    t_cid = uc_cid64 U d, t_type = ty, t_created = now, t_updated = now,
    t_aud = uc_audience U d, t_nick = nick\<rparr>"
  define peer where
    "peer = (if uc_audience U d \<noteq> u_user_id user then uc_audience U d else uc_issuer U d)"
  note eq = assms [unfolded save_token_def u Let_def res_bind_simps, folded r_def peer_def]
  from eq obtain ts where ts: "upsert_token r (tokens db) = Inr ts"
    by (cases "upsert_token r (tokens db)") simp_all
  with eq have f: "fetch_token_by_cid (uc_cid64 U d) ts = Some t"
    by (simp split: option.splits sum.splits)
  with eq ts obtain us where us: "upsert_peer peer nick i2 now (users db) = Inr us"
    by (cases "upsert_peer peer nick i2 now (users db)") simp_all
  with eq ts f have "db' = db\<lparr>users := us, tokens := ts\<rparr>" by simp
  with that u peer_def r_def ts f us show thesis by blast
qed

lemma save_token_inv:
  "acct_inv db \<Longrightarrow> save_token U d nick ty i i2 now db = Inr (t, db') \<Longrightarrow> acct_inv db'"
  by (erule save_token_Inr) (auto simp: acct_inv_def upsert_token_wf upsert_peer_wf upsert_peer_roots)

lemma create_token_Inr:
  assumes "create_token U bld signer aud nick cap i i2 now db = Inr (t, db')"
  obtains user issuer d cmds ty where "get_current_user db = Inr user"
    and "signer (u_user_id user) = Inr issuer"
    and "generate_commands_and_predicates cap = (cmds, ty)" and "bld issuer aud cmds = Inr d"
    and "save_token U d (if ty = Linked then None else nick) ty i i2 now db = Inr (t, db')"
proof -
  obtain cmds ty where "generate_commands_and_predicates cap = (cmds, ty)" by fastforce
  with assms that show thesis
    by (auto simp: create_token_def generate_delegation_token_def res_bind_eq_Inr)
qed

lemma add_token_Inr:
  assumes "add_token U tok nick i i2 now db = Inr (t, db')"
  obtains d where "decode_delegation U tok = Inr d"
    and "save_token U d nick (delegation_type U d) i i2 now db = Inr (t, db')"
  using assms by (auto simp: add_token_def res_bind_eq_Inr)

lemma insert_user_Inr:
  "insert_user u db = Inr db' \<longleftrightarrow>
     (\<exists>us. insert_row user_indexes u (users db) = Inr us \<and> db' = db\<lparr>users := us\<rparr>)"
  by (auto simp: insert_user_def res_bind_eq_Inr)

lemma delete_token_Inr:
  "delete_token_by_cid cid db = Inr db' \<longleftrightarrow>
     (\<exists>t\<in>set (tokens db). t_cid t = cid) \<and>
     db' = db\<lparr>tokens := filter (\<lambda>t. t_cid t \<noteq> cid) (tokens db)\<rparr>"
  by (auto simp: delete_token_by_cid_def delete_rows_def filter_empty_conv)

lemma update_user_Inr:
  assumes "update_user did name now db = Inr (u, db')"
  obtains n where "name = Some n" and "db' = db\<lparr>users :=
      map (\<lambda>u. if u_user_id u = did then u\<lparr>u_username := Some n, u_updated := now\<rparr> else u) (users db)\<rparr>"
    and "wf_table user_indexes (users db')" and "get_user db' did = Inr (Some u)"
  using assms
  by (cases name) (auto simp: update_user_def Let_def res_bind_eq_Inr update_rows_Inr
      split: sum.splits option.splits)

text \<open>Who is active: no operation but the first \<open>save_root_account_db\<close> changes it.\<close>

definition active_dids :: "user list \<Rightarrow> string list" where
  "active_dids us = map u_user_id (filter u_active us)"

lemma active_dids_snoc: "\<not> u_active u \<Longrightarrow> active_dids (us @ [u]) = active_dids us"
  by (simp add: active_dids_def)

lemma active_dids_map:
  assumes "\<And>u. same_profile (f u) u"
  shows "active_dids (map f us) = active_dids us"
proof -
  have "u_active \<circ> f = u_active" "u_user_id \<circ> f = u_user_id"
    using assms by (auto simp: same_profile_def)
  then show ?thesis by (simp add: active_dids_def filter_map)
qed

lemma upsert_peer_active:
  "upsert_peer p n i now us = Inr us' \<Longrightarrow> active_dids us' = active_dids us"
  by (auto simp: upsert_peer_def Let_def update_rows_Inr insert_row_Inr same_profile_def
      active_dids_snoc intro!: active_dids_map split: if_splits)

lemma save_token_active:
  "save_token U d nick ty i i2 now db = Inr (t, db') \<Longrightarrow> active_dids (users db') = active_dids (users db)"
  by (erule save_token_Inr) (auto dest: upsert_peer_active)

lemma current_user_dids:
  "get_current_user db = Inr u \<Longrightarrow> active_dids (users db) = [u_user_id u]"
  "active_dids (users db) = [did] \<Longrightarrow> \<exists>u. get_current_user db = Inr u \<and> u_user_id u = did"
  by (auto simp: get_current_user_def query_one_def active_dids_def map_eq_Cons_conv
      split: list.splits)

lemma roots_ok_active:
  "roots_ok us \<Longrightarrow> filter u_root us = filter u_active us"
  by (auto simp: roots_ok_def list_all_iff intro: filter_cong)

lemma save_root_cases:
  assumes "save_root_account_db config i now db = Inr db'"
  obtains (kept) u where "db' = db" "query_one u_root (users db) = Inr u"
  | (saved) r where "config = Inr r" "filter u_root (users db) = []"
      "insert_user \<lparr>u_id = i, u_user_id = ru_id r, u_username = Some (ru_nickname r),
         u_active = True, u_account = LOCAL, u_root = True, u_created = now, u_updated = now\<rparr> db
       = Inr db'"
proof -
  from assms obtain r where r: "config = Inr r" by (cases config) (auto simp: save_root_account_db_def)
  show thesis
  proof (cases "query_one u_root (users db)")
    case (Inr u)
    with assms r kept show thesis by (simp add: save_root_account_db_def)
  next
    case (Inl e)
    with assms r have e: "e = NoRows" by (cases e) (auto simp: save_root_account_db_def)
    with Inl have "filter u_root (users db) = []"
      by (auto simp: query_one_def split: list.splits)
    with assms r Inl e saved show thesis by (simp add: save_root_account_db_def)
  qed
qed

lemma revoke_token_Inr:
  assumes "revoke_token peer u db = Inr db'"
  obtains P where "db' = db\<lparr>tokens := filter P (tokens db)\<rparr>"
  using assms
  by (auto simp: revoke_token_def delete_token_Inr filter_filter split: option.splits sum.splits)

lemma unlink_Inr:
  assumes "unlink did db = Inr db'"
  obtains "db' = db\<lparr>users := filter (\<lambda>u. \<not> (u_user_id u = did \<and> u_account u \<noteq> LOCAL)) (users db)\<rparr>"
    and "\<exists>u\<in>set (users db). u_user_id u = did \<and> u_account u = PEER"
proof -
  have "(u_account u \<noteq> LOCAL) = (u_account u = PEER)" for u by (cases "u_account u") auto
  with assms that show thesis
    by (auto simp: unlink_def res_bind_eq_Inr delete_rows_def filter_empty_conv
        split: if_splits prod.splits)
qed

lemma acct_step_inv:
  assumes "acct_step U db db'" and "acct_inv db"
  shows "acct_inv db'"
  using assms
proof cases
  case (save_root config uuid now)
  then show ?thesis
    using assms(2)
    by (elim save_root_cases)
       (auto simp: acct_inv_def insert_user_Inr insert_row_wf insert_row_Inr roots_ok_def)
next
  case (save_peer did nick uuid now)
  then show ?thesis
    using assms(2)
    by (auto simp: save_peer_account_db_def acct_inv_def insert_user_Inr insert_row_wf
        insert_row_Inr intro: roots_ok_snoc)
next
  case (unlink did)
  then show ?thesis
    using assms(2)
    by (elim unlink_Inr) (auto simp: acct_inv_def wf_table_filter intro!: roots_ok_filter(1))
next
  case (update did name now u)
  then show ?thesis
    using assms(2)
    by (elim update_user_Inr) (auto simp: acct_inv_def same_profile_def intro!: roots_ok_map)
next
  case (add tok nick uuid uuid2 now t)
  then show ?thesis using assms(2) by (elim add_token_Inr) (rule save_token_inv)
next
  case (create bld signer aud nick cap uuid uuid2 now t)
  then show ?thesis using assms(2) by (elim create_token_Inr) (rule save_token_inv)
next
  case (revoke did u)
  then show ?thesis
    using assms(2) by (elim revoke_token_Inr) (auto simp: acct_inv_def wf_table_filter)
qed

lemma acct_step_active:
  assumes "acct_step U db db'" and "acct_inv db" and "active_dids (users db) \<noteq> []"
  shows "active_dids (users db') = active_dids (users db)"
  using assms(1)
proof cases
  case (save_root config uuid now)
  have "filter u_root (users db) \<noteq> []"
    using assms(2,3) roots_ok_active [of "users db"] by (simp add: acct_inv_def active_dids_def)
  with save_root show ?thesis by (elim save_root_cases) auto
next
  case (save_peer did nick uuid now)
  then show ?thesis
    by (auto simp: save_peer_account_db_def insert_user_Inr insert_row_Inr active_dids_snoc)
next
  case (unlink did)
  then show ?thesis
    using assms(2) roots_ok_filter(2) [of "users db"]
    by (elim unlink_Inr) (simp add: acct_inv_def active_dids_def)
next
  case (update did name now u)
  then show ?thesis
    by (elim update_user_Inr) (auto simp: same_profile_def intro!: active_dids_map)
next
  case (add tok nick uuid uuid2 now t)
  then show ?thesis by (elim add_token_Inr) (rule save_token_active)
next
  case (create bld signer aud nick cap uuid uuid2 now t)
  then show ?thesis by (elim create_token_Inr) (rule save_token_active)
next
  case (revoke did u)
  then show ?thesis by (elim revoke_token_Inr) simp
qed

lemma acct_reachable_invariant: "acct_reachable U db \<Longrightarrow> acct_inv db"
  by (induction rule: acct_reachable.induct)
     (simp add: acct_inv_def roots_ok_def, blast intro: acct_step_inv)

section \<open>Properties\<close>

text \<open>
  C10. Whatever operations run, starting from the empty database: the unique indexes hold,
  exactly the root users are active, they are local accounts, and there is at most one.
\<close>
theorem acct_reachable_inv: "acct_reachable U db \<Longrightarrow> acct_inv db"
  by (rule acct_reachable_invariant)

text \<open>A run: the root account, then a peer.\<close>

definition sample_root :: user where
  "sample_root = \<lparr>u_id = ''u1'', u_user_id = ''did:me'', u_username = Some ''me'', u_active = True,
     u_account = LOCAL, u_root = True, u_created = 1, u_updated = 1\<rparr>"

definition sample_peer :: user where
  "sample_peer = \<lparr>u_id = ''u2'', u_user_id = ''did:peer'', u_username = Some ''peer'', u_active = False,
     u_account = PEER, u_root = False, u_created = 2, u_updated = 2\<rparr>"

lemma sample_save_root:
  "save_root_account_db (Inr \<lparr>ru_id = ''did:me'', ru_nickname = ''me''\<rparr>) ''u1'' 1 \<lparr>users = [], tokens = []\<rparr>
     = Inr \<lparr>users = [sample_root], tokens = []\<rparr>"
  by (simp add: save_root_account_db_def query_one_def insert_user_def insert_row_def
      user_indexes_def sample_root_def)

lemma sample_save_peer:
  "save_peer_account_db ''did:peer'' ''peer'' ''u2'' 2 \<lparr>users = [sample_root], tokens = []\<rparr>
     = Inr \<lparr>users = [sample_root, sample_peer], tokens = []\<rparr>"
  by (simp add: save_peer_account_db_def insert_user_def insert_row_def user_indexes_def
      sample_root_def sample_peer_def clash_def account_to_string_def)

lemma sample_reachable:
  "acct_reachable U \<lparr>users = [sample_root], tokens = []\<rparr>"
  "acct_reachable U \<lparr>users = [sample_root, sample_peer], tokens = []\<rparr>"
  using acct_reachable.init acct_step.save_root [OF sample_save_root]
    acct_step.save_peer [OF sample_save_peer] by (blast intro: acct_reachable.step)+

theorem acct_reachable_inv_witness: "acct_inv \<lparr>users = [sample_root, sample_peer], tokens = []\<rparr>"
  by (rule acct_reachable_inv [OF sample_reachable(2)])

text \<open>
  C11. Once there is a current user, every operation that succeeds leaves the same account
  current: no insertion, rename, unlink, token or revocation changes who is signed in, and
  \<open>get_current_user\<close> keeps succeeding.
\<close>
theorem current_user_stable:
  assumes "acct_reachable U db" and "get_current_user db = Inr u" and "acct_step U db db'"
  shows "\<exists>u'. get_current_user db' = Inr u' \<and> u_user_id u' = u_user_id u"
proof (rule current_user_dids(2))
  have "active_dids (users db) = [u_user_id u]" using assms(2) by (rule current_user_dids(1))
  then show "active_dids (users db') = [u_user_id u]"
    using acct_step_active [OF assms(3)] acct_reachable_invariant [OF assms(1)] by simp
qed

theorem current_user_stable_witness:
  "\<exists>u'. get_current_user \<lparr>users = [sample_root, sample_peer], tokens = []\<rparr> = Inr u'
     \<and> u_user_id u' = ''did:me''"
proof -
  have "get_current_user \<lparr>users = [sample_root], tokens = []\<rparr> = Inr sample_root"
    by (simp add: get_current_user_def query_one_def sample_root_def)
  from current_user_stable [OF sample_reachable(1) this acct_step.save_peer [OF sample_save_peer]]
  show ?thesis by (simp add: sample_root_def)
qed

text \<open>The token upsert. A powerline between the same two DIDs is overwritten in place.\<close>

lemma clash_link_key:
  "clash link_key r x \<longleftrightarrow> t_type r = Linked \<and> t_type x = Linked \<and> t_did x = t_did r \<and> t_aud x = t_aud r"
  by (auto simp: clash_def link_key_def)

definition relink :: "token \<Rightarrow> token \<Rightarrow> token" where
  "relink r x = x\<lparr>t_token := t_token r, t_updated := t_updated r, t_cid := t_cid r, t_nick := t_nick r\<rparr>"

lemma relink_keys [simp]:
  "link_key (relink r x) = link_key x" "t_id (relink r x) = t_id x" "t_cid (relink r x) = t_cid r"
  "t_did (relink r x) = t_did x" "t_aud (relink r x) = t_aud x" "t_type (relink r x) = t_type x"
  "t_token (relink r x) = t_token r" "t_nick (relink r x) = t_nick r"
  by (simp_all add: relink_def link_key_def)

lemma upsert_token_cases:
  assumes "upsert_token r ts = Inr ts'"
  obtains (updated) "list_ex (clash link_key r) ts"
      "ts' = map (\<lambda>x. if clash link_key r x then relink r x else x) ts"
  | (inserted) "\<not> list_ex (clash link_key r) ts" "ts' = ts @ [r]"
  using assms
  by (auto simp: upsert_token_def update_rows_Inr insert_row_Inr relink_def [symmetric] split: if_splits)

lemma upsert_token_total:
  assumes "wf_table token_indexes ts" and "\<And>x. x \<in> set ts \<Longrightarrow> t_id x \<noteq> t_id r"
  obtains ts' where "upsert_token r ts = Inr ts'"
proof (cases "list_ex (clash link_key r) ts")
  case True
  let ?ts = "map (\<lambda>x. if clash link_key r x then relink r x else x) ts"
  have "unique_on k ?ts = unique_on k ts" if "\<And>x. k (relink r x) = k x" for k :: "token \<Rightarrow> string list option"
    using that by (intro unique_on_map) auto
  with assms(1) have "wf_table token_indexes ?ts"
    by (simp add: wf_table_def token_indexes_def)
  with True that show thesis
    by (simp add: upsert_token_def update_rows_Inr relink_def [symmetric])
next
  case False
  with assms(2) that show thesis
    by (force simp: upsert_token_def insert_row_Inr token_indexes_def list_ex_iff clash_def)
qed

lemma upsert_token_stored:
  assumes "upsert_token r ts = Inr ts'"
  shows "\<exists>x\<in>set ts'. t_cid x = t_cid r \<and> t_did x = t_did r \<and> t_aud x = t_aud r \<and> t_type x = t_type r
           \<and> t_token x = t_token r \<and> t_nick x = t_nick r"
    and "{x \<in> set ts. \<not> clash link_key r x} \<subseteq> set ts'"
proof -
  show "\<exists>x\<in>set ts'. t_cid x = t_cid r \<and> t_did x = t_did r \<and> t_aud x = t_aud r \<and> t_type x = t_type r
           \<and> t_token x = t_token r \<and> t_nick x = t_nick r"
    using assms
  proof (cases rule: upsert_token_cases)
    case updated
    then obtain x where x: "x \<in> set ts" "clash link_key r x" by (auto simp: list_ex_iff)
    then have "relink r x \<in> set ts'" using updated(2) by force
    with x show ?thesis by (intro bexI [of _ "relink r x"]) (auto simp: clash_link_key)
  qed simp
  show "{x \<in> set ts. \<not> clash link_key r x} \<subseteq> set ts'"
    using assms by (cases rule: upsert_token_cases) force+
qed

text \<open>The peer upsert never fails on a name: a name that is taken is dropped.\<close>

lemma free_nickname_free:
  "free_nickname nick peer us = Some n \<Longrightarrow> u \<in> set us \<Longrightarrow> u_username u = Some n \<Longrightarrow> u_user_id u = peer"
  by (auto simp: free_nickname_def list_ex_iff split: if_splits)

lemma rename_wf:
  assumes wf: "wf_table user_indexes us"
    and free: "\<And>u. u \<in> set us \<Longrightarrow> u_username u = Some n \<Longrightarrow> u_user_id u = did"
  shows "wf_table user_indexes
    (map (\<lambda>u. if u_user_id u = did then u\<lparr>u_username := Some n, u_updated := now\<rparr> else u) us)"
proof -
  let ?f = "\<lambda>u. u\<lparr>u_username := Some n, u_updated := now\<rparr>"
  let ?us = "map (\<lambda>u. if u_user_id u = did then ?f u else u) us"
  have "unique_on k ?us = unique_on k us" if "\<And>u. k (?f u) = k u" for k :: "user \<Rightarrow> string list option"
    using that by (intro unique_on_map) auto
  moreover have "unique_on (\<lambda>u. map_option (\<lambda>n. [n]) (u_username u)) ?us"
  proof (rule unique_on_map_upd [where v = "Some [n]" and p = "\<lambda>u. Some [u_user_id u]" and q = "[did]"])
    show "unique_on (\<lambda>u. map_option (\<lambda>n. [n]) (u_username u)) us"
      and "unique_on (\<lambda>u. Some [u_user_id u]) us"
      using wf by (simp_all add: wf_table_def user_indexes_def)
  qed (use free in auto)
  ultimately show ?thesis using wf by (simp add: wf_table_def user_indexes_def)
qed

lemma upsert_peer_total:
  assumes wf: "wf_table user_indexes us" and fresh: "\<And>u. u \<in> set us \<Longrightarrow> u_id u \<noteq> i"
  obtains us' where "upsert_peer peer nick i now us = Inr us'"
proof (cases "list_ex (\<lambda>u. u_user_id u = peer) us")
  case True
  show thesis
  proof (cases "free_nickname nick peer us")
    case None
    with True that show thesis by (simp add: upsert_peer_def)
  next
    case (Some n)
    from rename_wf [OF wf, of n peer now] free_nickname_free [OF Some]
    have "wf_table user_indexes
      (map (\<lambda>u. if u_user_id u = peer then u\<lparr>u_username := Some n, u_updated := now\<rparr> else u) us)"
      by blast
    with True Some that show thesis
      by (auto simp: upsert_peer_def update_rows_Inr)
  qed
next
  case False
  with that fresh free_nickname_free [of nick peer us] show thesis
    by (cases "free_nickname nick peer us")
       (fastforce simp: upsert_peer_def Let_def insert_row_Inr user_indexes_def list_ex_iff clash_def)+
qed

text \<open>
  Saving a delegation always succeeds for a signed-in user and fresh row ids: the
  \<open>expect\<close> does not panic, the powerline index is never violated, and neither is the index
  of names, whatever nickname is asked for. The token returned has the delegation's CID, a
  row with the delegation's issuer, audience, kind, text and nickname is stored, and every
  row that is not a powerline between the same two DIDs is kept.
\<close>
theorem save_token_total:
  assumes "acct_inv db" and "get_current_user db = Inr user"
    and "i \<notin> t_id ` set (tokens db)" and "i2 \<notin> u_id ` set (users db)"
  shows "\<exists>t db'. save_token U d nick ty i i2 now db = Inr (t, db') \<and> t_cid t = uc_cid64 U d \<and>
    t \<in> set (tokens db') \<and>
    (\<exists>x\<in>set (tokens db'). t_cid x = uc_cid64 U d \<and> t_did x = uc_issuer U d \<and> t_aud x = uc_audience U d
       \<and> t_type x = ty \<and> t_token x = uc_b64_encode U (uc_to_cbor U d) \<and> t_nick x = nick) \<and>
    {x \<in> set (tokens db). \<not> (ty = Linked \<and> t_type x = Linked \<and> t_did x = uc_issuer U d
        \<and> t_aud x = uc_audience U d)} \<subseteq> set (tokens db')"
proof -
  define r where "r = \<lparr>t_id = i, t_did = uc_issuer U d, t_token = uc_b64_encode U (uc_to_cbor U d),
    t_cid = uc_cid64 U d, t_type = ty, t_created = now, t_updated = now,
    t_aud = uc_audience U d, t_nick = nick\<rparr>"
  define peer where
    "peer = (if uc_audience U d \<noteq> u_user_id user then uc_audience U d else uc_issuer U d)"
  from assms(1,3) obtain ts where ts: "upsert_token r (tokens db) = Inr ts"
    by (rule_tac upsert_token_total [of "tokens db" r]) (auto simp: acct_inv_def r_def)
  note stored = upsert_token_stored [OF ts]
  from stored(1) have ne: "filter (\<lambda>t. t_cid t = uc_cid64 U d) ts \<noteq> []"
    by (auto simp: filter_empty_conv r_def)
  then obtain t where t: "fetch_token_by_cid (uc_cid64 U d) ts = Some t"
    and mem: "t \<in> set (filter (\<lambda>t. t_cid t = uc_cid64 U d) ts)"
    by (cases "filter (\<lambda>t. t_cid t = uc_cid64 U d) ts") (auto simp: fetch_token_by_cid_def query_row_def)
  from assms(1,4) obtain us where us: "upsert_peer peer nick i2 now (users db) = Inr us"
    by (rule_tac upsert_peer_total [of "users db" i2]) (auto simp: acct_inv_def)
  have "save_token U d nick ty i i2 now db = Inr (t, db\<lparr>users := us, tokens := ts\<rparr>)"
    using ts t us unfolding save_token_def assms(2) Let_def res_bind_simps r_def peer_def by simp
  then show ?thesis
    using mem stored by (auto simp: r_def clash_link_key)
qed

text \<open>A UCAN library in which a token is its own encoding: issuer, audience and commands are
  the words of the text.\<close>

definition sample_ucan :: "(string \<times> string \<times> string list) ucan" where
  "sample_ucan = \<lparr>uc_b64_decode = Some, uc_b64_encode = (\<lambda>s. s),
     uc_from_cbor = (\<lambda>s. if s = ''tok'' then Some (''did:peer'', ''did:me'', []) else None),
     uc_to_cbor = (\<lambda>d. ''tok''), uc_issuer = fst, uc_audience = fst \<circ> snd,
     uc_commands = snd \<circ> snd, uc_cid = (\<lambda>d. ''cid''), uc_cid64 = (\<lambda>d. ''cid'')\<rparr>"

lemma sample_current:
  "get_current_user \<lparr>users = [sample_root, sample_peer], tokens = ts\<rparr> = Inr sample_root"
  by (simp add: get_current_user_def query_one_def sample_root_def sample_peer_def)

theorem save_token_total_witness:
  "\<exists>t db'. save_token sample_ucan (''did:peer'', ''did:me'', []) (Some ''me'') Linked ''t1'' ''u3'' 3
     \<lparr>users = [sample_root, sample_peer], tokens = []\<rparr> = Inr (t, db') \<and> t_cid t = ''cid''"
proof -
  let ?db = "\<lparr>users = [sample_root, sample_peer], tokens = []\<rparr>"
  have "acct_inv ?db" by (rule acct_reachable_invariant [OF sample_reachable(2)])
  moreover have "''t1'' \<notin> t_id ` set (tokens ?db)" by simp
  moreover have "''u3'' \<notin> u_id ` set (users ?db)" by (simp add: sample_root_def sample_peer_def)
  ultimately show ?thesis
    using save_token_total [OF _ sample_current, where i = "''t1''" and ?i2.0 = "''u3''" and U = sample_ucan
        and d = "(''did:peer'', ''did:me'', [])" and nick = "Some ''me''" and ty = Linked and now = 3]
    by (fastforce simp: sample_ucan_def)
qed

text \<open>
  What saving a delegation does to the accounts. The peer is the audience, or the issuer
  when the delegation is for us. Its name becomes the nickname if one is given and no other
  account has it; otherwise a known peer keeps its name and a new one has none. The current
  user's own row and every other account are untouched, unless the delegation is from the
  user to itself.
\<close>
theorem save_token_peer:
  assumes "acct_inv db" and "get_current_user db = Inr user"
    and "save_token U d nick ty i i2 now db = Inr (t, db')"
    and "peer = (if uc_audience U d \<noteq> u_user_id user then uc_audience U d else uc_issuer U d)"
  shows "\<exists>p\<in>set (users db'). u_user_id p = peer \<and>
      u_username p = (case free_nickname nick peer (users db) of
          Some n \<Rightarrow> Some n
        | None \<Rightarrow> (case find (\<lambda>u. u_user_id u = peer) (users db) of
                    Some u \<Rightarrow> u_username u | None \<Rightarrow> None)) \<and>
      filter (\<lambda>u. u_user_id u \<noteq> peer) (users db') = filter (\<lambda>u. u_user_id u \<noteq> peer) (users db)"
proof -
  from assms(2-4) obtain us where us: "upsert_peer peer nick i2 now (users db) = Inr us"
    and db': "users db' = us"
    by (elim save_token_Inr) auto
  show ?thesis
  proof (cases "find (\<lambda>u. u_user_id u = peer) (users db)")
    case None
    then have "\<not> list_ex (\<lambda>u. u_user_id u = peer) (users db)"
      by (auto simp: find_None_iff list_ex_iff)
    with us None show ?thesis
      by (auto simp: db' upsert_peer_def Let_def insert_row_Inr split: option.splits)
  next
    case (Some u)
    then have u: "u \<in> set (users db)" "u_user_id u = peer" by (auto dest: find_SomeD)
    then have "list_ex (\<lambda>u. u_user_id u = peer) (users db)" by (auto simp: list_ex_iff)
    with us consider "free_nickname nick peer (users db) = None" "us = users db"
      | n where "free_nickname nick peer (users db) = Some n"
          "us = map (\<lambda>u. if u_user_id u = peer then u\<lparr>u_username := Some n, u_updated := now\<rparr> else u) (users db)"
      by (cases "free_nickname nick peer (users db)") (auto simp: upsert_peer_def update_rows_Inr)
    then show ?thesis
    proof cases
      case 1
      with Some u show ?thesis by (auto simp: db')
    next
      case (2 n)
      have "filter (\<lambda>u. u_user_id u \<noteq> peer) us = filter (\<lambda>u. u_user_id u \<noteq> peer) (users db)"
        unfolding 2(2) by (rule filter_map_untouched) auto
      moreover have "u\<lparr>u_username := Some n, u_updated := now\<rparr> \<in> set us"
        using 2(2) u by force
      ultimately show ?thesis
        using 2(1) u by (intro bexI [of _ "u\<lparr>u_username := Some n, u_updated := now\<rparr>"]) (simp_all add: db')
    qed
  qed
qed

theorem save_token_peer_witness:
  "\<exists>t db'. save_token sample_ucan (''did:peer'', ''did:me'', []) (Some ''me'') Linked ''t1'' ''u3'' 3
     \<lparr>users = [sample_root, sample_peer], tokens = []\<rparr> = Inr (t, db') \<and>
   (\<exists>p\<in>set (users db'). u_user_id p = ''did:peer'' \<and> u_username p = Some ''peer'')"
proof -
  let ?db = "\<lparr>users = [sample_root, sample_peer], tokens = []\<rparr>"
  have inv: "acct_inv ?db" by (rule acct_reachable_invariant [OF sample_reachable(2)])
  obtain t db' where s: "save_token sample_ucan (''did:peer'', ''did:me'', []) (Some ''me'') Linked ''t1'' ''u3'' 3 ?db
      = Inr (t, db')"
    unfolding save_token_def sample_current res_bind_simps Let_def
    by (simp add: upsert_token_def insert_row_def token_indexes_def Let_def
        fetch_token_by_cid_def query_row_def upsert_peer_def free_nickname_def sample_ucan_def
        sample_root_def sample_peer_def)
  from save_token_peer [OF inv sample_current s refl]
  show ?thesis
    using s by (auto simp: sample_ucan_def sample_root_def sample_peer_def free_nickname_def)
qed

section \<open>Revocation\<close>

definition linked_to :: "string \<Rightarrow> string \<Rightarrow> token \<Rightarrow> bool" where
  "linked_to issuer aud t \<longleftrightarrow> t_type t = Linked \<and> t_did t = issuer \<and> t_aud t = aud"

lemma set_fetch_tokens:
  "set (fetch_tokens q db) = {t \<in> set (tokens db).
     (\<forall>d. q_issuer q = Some d \<longrightarrow> t_did t = d) \<and> (\<forall>d. q_aud q = Some d \<longrightarrow> t_aud t = d) \<and>
     (\<forall>ty. q_type q = Some ty \<longrightarrow> t_type t = ty)}"
  by (auto simp: fetch_tokens_def token_clauses_def split: option.splits)

lemma find_linked:
  "find (\<lambda>t. t_aud t = aud) (fetch_linked_tokens issuer db) = Some t \<Longrightarrow>
     t \<in> set (tokens db) \<and> linked_to issuer aud t"
  "find (\<lambda>t. t_aud t = aud) (fetch_linked_tokens issuer db) = None \<longleftrightarrow>
     \<not> (\<exists>t\<in>set (tokens db). linked_to issuer aud t)"
  by (auto simp: find_None_iff fetch_linked_tokens_def set_fetch_tokens linked_to_def dest!: find_SomeD)

lemma linked_unique:
  assumes "wf_table token_indexes ts" and "x \<in> set ts" and "y \<in> set ts"
    and "linked_to a b x" and "linked_to a b y"
  shows "x = y"
  using links.wf_key [OF assms(1-3), of "[a, b]"] assms(4,5) by (simp add: link_key_def linked_to_def)

text \<open>Deleting the CID of the one powerline leaves none.\<close>

lemma delete_linked:
  assumes "wf_table token_indexes (tokens db)" and "t \<in> set (tokens db)" and "linked_to a b t"
  shows "\<exists>db'. delete_token_by_cid (t_cid t) db = Inr db' \<and> users db' = users db
    \<and> set (tokens db') = {x \<in> set (tokens db). t_cid x \<noteq> t_cid t}
    \<and> wf_table token_indexes (tokens db') \<and> \<not> (\<exists>x\<in>set (tokens db'). linked_to a b x)"
  using assms by (auto simp: delete_token_Inr wf_table_filter dest: linked_unique)

text \<open>One half of a revocation: the powerline from one device to another goes, if there is one.\<close>

definition cut_link :: "string \<Rightarrow> string \<Rightarrow> common_db \<Rightarrow> acct_error + common_db" where
  "cut_link a b db =
     (case find (\<lambda>t. t_aud t = b) (fetch_linked_tokens a db) of
        None \<Rightarrow> Inr db | Some t \<Rightarrow> delete_token_by_cid (t_cid t) db)"

lemma cut_link_correct:
  assumes "wf_table token_indexes (tokens db)"
  shows "\<exists>db'. cut_link a b db = Inr db' \<and> users db' = users db \<and> wf_table token_indexes (tokens db') \<and>
    \<not> (\<exists>x\<in>set (tokens db'). linked_to a b x) \<and> set (tokens db') \<subseteq> set (tokens db) \<and>
    (\<forall>x\<in>set (tokens db) - set (tokens db'). \<exists>t\<in>set (tokens db). t_cid x = t_cid t \<and> linked_to a b t)"
proof (cases "find (\<lambda>t. t_aud t = b) (fetch_linked_tokens a db)")
  case None
  then show ?thesis using assms find_linked(2) [of b a db] by (simp add: cut_link_def)
next
  case (Some t)
  then have t: "t \<in> set (tokens db)" "linked_to a b t" by (auto dest: find_linked(1))
  from delete_linked [OF assms t] obtain db' where "delete_token_by_cid (t_cid t) db = Inr db'" "users db' = users db"
      "set (tokens db') = {x \<in> set (tokens db). t_cid x \<noteq> t_cid t}" "wf_table token_indexes (tokens db')"
      "\<not> (\<exists>x\<in>set (tokens db'). linked_to a b x)"
    by blast
  then show ?thesis using Some t by (auto simp: cut_link_def)
qed

lemma revoke_token_halves:
  assumes "wf_table token_indexes (tokens db)"
  shows "revoke_token peer user db =
    (if \<exists>t\<in>set (tokens db). linked_to (u_user_id user) peer t
     then res_bind (cut_link (u_user_id user) peer db) (cut_link peer (u_user_id user))
     else Inl (Msg ''Delegation token from the peer not found''))"
proof (cases "find (\<lambda>t. t_aud t = peer) (fetch_linked_tokens (u_user_id user) db)")
  case None
  then show ?thesis using find_linked(2) [of peer "u_user_id user" db] by (simp add: revoke_token_def)
next
  case (Some t)
  then have ex: "\<exists>t\<in>set (tokens db). linked_to (u_user_id user) peer t" by (auto dest: find_linked(1))
  obtain db1 where db1: "cut_link (u_user_id user) peer db = Inr db1" "wf_table token_indexes (tokens db1)"
    using cut_link_correct [OF assms] by blast
  obtain db2 where db2: "cut_link peer (u_user_id user) db1 = Inr db2" using cut_link_correct [OF db1(2)] by blast
  from Some db1(1) db2 show ?thesis
    unfolding if_P [OF ex] by (auto simp: revoke_token_def cut_link_def split: option.splits)
qed

text \<open>
  C13. Revoking a peer succeeds exactly when there is a powerline from the user to the peer.
  Afterwards there is none in either direction, the accounts are unchanged, and the only
  tokens that went are those with the CID of a powerline between the two.
\<close>
theorem revoke_token_correct:
  assumes "acct_inv db"
  shows "if \<exists>t\<in>set (tokens db). linked_to (u_user_id user) peer t
    then \<exists>db'. revoke_token peer user db = Inr db' \<and> users db' = users db \<and>
      \<not> (\<exists>t\<in>set (tokens db'). linked_to (u_user_id user) peer t \<or> linked_to peer (u_user_id user) t) \<and>
      set (tokens db') \<subseteq> set (tokens db) \<and>
      (\<forall>x\<in>set (tokens db) - set (tokens db'). \<exists>t\<in>set (tokens db). t_cid x = t_cid t \<and>
         (linked_to (u_user_id user) peer t \<or> linked_to peer (u_user_id user) t))
    else revoke_token peer user db = Inl (Msg ''Delegation token from the peer not found'')"
proof (cases "\<exists>t\<in>set (tokens db). linked_to (u_user_id user) peer t")
  case False
  with assms show ?thesis using revoke_token_halves [of db peer user] by (simp add: acct_inv_def)
next
  case True
  from assms have wf: "wf_table token_indexes (tokens db)" by (simp add: acct_inv_def)
  obtain db1 where d1: "cut_link (u_user_id user) peer db = Inr db1" "users db1 = users db"
      "wf_table token_indexes (tokens db1)" "\<not> (\<exists>x\<in>set (tokens db1). linked_to (u_user_id user) peer x)"
      "set (tokens db1) \<subseteq> set (tokens db)"
      "\<forall>x\<in>set (tokens db) - set (tokens db1). \<exists>t\<in>set (tokens db). t_cid x = t_cid t \<and> linked_to (u_user_id user) peer t"
    using cut_link_correct [OF wf] by blast
  obtain db2 where d2: "cut_link peer (u_user_id user) db1 = Inr db2" "users db2 = users db1"
      "\<not> (\<exists>x\<in>set (tokens db2). linked_to peer (u_user_id user) x)" "set (tokens db2) \<subseteq> set (tokens db1)"
      "\<forall>x\<in>set (tokens db1) - set (tokens db2). \<exists>t\<in>set (tokens db1). t_cid x = t_cid t \<and> linked_to peer (u_user_id user) t"
    using cut_link_correct [OF d1(3)] by blast
  have "revoke_token peer user db = Inr db2"
    using revoke_token_halves [OF wf, of peer user] True d1(1) d2(1) by simp
  moreover have "\<forall>x\<in>set (tokens db) - set (tokens db2). \<exists>t\<in>set (tokens db). t_cid x = t_cid t \<and>
       (linked_to (u_user_id user) peer t \<or> linked_to peer (u_user_id user) t)"
    using d1(5,6) d2(5) by blast
  ultimately show ?thesis unfolding if_P [OF True] using d1(2,4,5) d2(2-4) by auto
qed

definition sample_link :: "string \<Rightarrow> string \<Rightarrow> string \<Rightarrow> token" where
  "sample_link cid issuer aud = \<lparr>t_id = cid, t_did = issuer, t_token = ''tok'', t_cid = cid, t_type = Linked,
     t_created = 3, t_updated = 3, t_aud = aud, t_nick = None\<rparr>"

theorem revoke_token_correct_witness:
  "\<exists>db'. revoke_token ''did:peer'' sample_root
      \<lparr>users = [sample_root, sample_peer],
       tokens = [sample_link ''c1'' ''did:me'' ''did:peer'', sample_link ''c2'' ''did:peer'' ''did:me'']\<rparr> = Inr db'
    \<and> \<not> (\<exists>t\<in>set (tokens db'). linked_to ''did:peer'' ''did:me'' t)"
proof -
  let ?db = "\<lparr>users = [sample_root, sample_peer],
     tokens = [sample_link ''c1'' ''did:me'' ''did:peer'', sample_link ''c2'' ''did:peer'' ''did:me'']\<rparr>"
  have "acct_inv ?db"
    using acct_reachable_invariant [OF sample_reachable(2)]
    by (simp add: acct_inv_def wf_table_def token_indexes_def unique_on_def List.map_filter_simps
        link_key_def sample_link_def)
  from revoke_token_correct [OF this, of sample_root "''did:peer''"]
  show ?thesis by (auto simp: linked_to_def sample_link_def sample_root_def)
qed

lemma fill_store_sound:
  assumes "fill_store U V ts store = Inr store'" and "store' c = Some d"
  shows "store c = Some d \<or> (\<exists>t\<in>set ts. decode_delegation U (t_token t) = Inr d \<and> v_cid V (t_cid t) = Inr c)"
  using assms
  by (induction ts arbitrary: store) (auto simp: res_bind_eq_Inr split: if_splits, fastforce)

text \<open>
  C12. What a device is authorised by: every delegation an invocation is checked against was
  issued by the invocation's audience and is a stored token, decoded from its text. So a
  token that a revocation deleted no longer counts, and neither does one another device
  issued.
\<close>
theorem verification_sound:
  assumes "process_invocation_verification U V tok db = Inr ()"
  shows "\<exists>inv store. v_decode V tok = Inr inv \<and> v_check V store inv \<and>
    (\<forall>c d. store c = Some d \<longrightarrow>
       (\<exists>t\<in>set (tokens db). t_did t = v_audience V inv \<and> decode_delegation U (t_token t) = Inr d
          \<and> v_cid V (t_cid t) = Inr c))"
proof -
  from assms obtain inv store where "v_decode V tok = Inr inv" "v_check V store inv"
    and f: "fill_store U V (fetch_delegated_tokens (v_audience V inv) None db) Map.empty = Inr store"
    by (auto simp: process_invocation_verification_def res_bind_eq_Inr split: if_splits)
  with fill_store_sound [OF f] show ?thesis
    by (fastforce simp: fetch_delegated_tokens_def set_fetch_tokens)
qed

definition sample_verifier :: "(string \<times> string \<times> string list, string, string) verifier" where
  "sample_verifier = \<lparr>v_decode = Inr, v_audience = (\<lambda>i. i), v_cid = Inr,
     v_check = (\<lambda>store i. store ''c1'' \<noteq> None)\<rparr>"

theorem verification_sound_witness:
  "\<exists>store. store ''c1'' \<noteq> None \<and> (\<forall>c d. store c = Some d \<longrightarrow>
     (\<exists>t\<in>{sample_link ''c1'' ''did:me'' ''did:peer''}. decode_delegation sample_ucan (t_token t) = Inr d))"
proof -
  have "process_invocation_verification sample_ucan sample_verifier ''did:me''
      \<lparr>users = [sample_root], tokens = [sample_link ''c1'' ''did:me'' ''did:peer'']\<rparr> = Inr ()"
    by (simp add: process_invocation_verification_def sample_verifier_def fetch_delegated_tokens_def
        fetch_tokens_def token_clauses_def sample_link_def decode_delegation_def sample_ucan_def)
  from verification_sound [OF this] show ?thesis
    by (fastforce simp: sample_verifier_def)
qed

section \<open>Linking two devices\<close>

lemma save_token_returned:
  assumes "save_token U d nick ty i i2 now db = Inr (t, db')"
    and "uc_cid64 U d \<notin> t_cid ` set (tokens db)"
  shows "t_cid t = uc_cid64 U d \<and> t_did t = uc_issuer U d \<and> t_aud t = uc_audience U d \<and> t_type t = ty
    \<and> t_token t = uc_b64_encode U (uc_to_cbor U d)"
  using assms(1)
proof (rule save_token_Inr)
  fix user peer r ts us
  assume r: "r = \<lparr>t_id = i, t_did = uc_issuer U d, t_token = uc_b64_encode U (uc_to_cbor U d),
      t_cid = uc_cid64 U d, t_type = ty, t_created = now, t_updated = now,
      t_aud = uc_audience U d, t_nick = nick\<rparr>"
    and ts: "upsert_token r (tokens db) = Inr ts" and f: "fetch_token_by_cid (uc_cid64 U d) ts = Some t"
  from f have "t \<in> set (filter (\<lambda>t. t_cid t = uc_cid64 U d) ts)"
    by (cases "filter (\<lambda>t. t_cid t = uc_cid64 U d) ts")
       (simp_all add: fetch_token_by_cid_def query_row_def)
  then have t: "t \<in> set ts" "t_cid t = uc_cid64 U d" by simp_all
  have old: "x \<noteq> t" if "x \<in> set (tokens db)" for x
    using that t(2) assms(2) by (metis imageI)
  from ts show ?thesis
  proof (cases rule: upsert_token_cases)
    case updated
    with t(1) old obtain x where "clash link_key r x" "t = relink r x"
      by (auto split: if_splits)
    then show ?thesis by (auto simp: r clash_link_key)
  next
    case inserted
    with t(1) old have "t = r" by auto
    then show ?thesis by (simp add: r)
  qed
qed

lemma decode_encode:
  assumes "\<And>s. uc_b64_decode U (uc_b64_encode U s) = Some s"
    and "\<And>d. uc_from_cbor U (uc_to_cbor U d) = Some d"
  shows "decode_delegation U (uc_b64_encode U (uc_to_cbor U d)) = Inr d"
  by (simp add: decode_delegation_def assms)

lemma save_token_ok:
  assumes "acct_inv db" and "get_current_user db = Inr user"
    and "i \<notin> t_id ` set (tokens db)" and "i2 \<notin> u_id ` set (users db)"
  obtains t db' where "save_token U d nick ty i i2 now db = Inr (t, db')"
proof -
  define r where "r = \<lparr>t_id = i, t_did = uc_issuer U d, t_token = uc_b64_encode U (uc_to_cbor U d),
    t_cid = uc_cid64 U d, t_type = ty, t_created = now, t_updated = now,
    t_aud = uc_audience U d, t_nick = nick\<rparr>"
  from assms(1,3) obtain ts where ts: "upsert_token r (tokens db) = Inr ts"
    by (rule_tac upsert_token_total [of "tokens db" r]) (auto simp: acct_inv_def r_def)
  from upsert_token_stored(1) [OF ts] obtain t where t: "fetch_token_by_cid (uc_cid64 U d) ts = Some t"
    by (cases "filter (\<lambda>t. t_cid t = uc_cid64 U d) ts")
       (auto simp: fetch_token_by_cid_def query_row_def filter_empty_conv r_def)
  from assms(1,4) obtain us where us: "upsert_peer (if uc_audience U d \<noteq> u_user_id user then uc_audience U d
      else uc_issuer U d) nick i2 now (users db) = Inr us"
    by (rule_tac upsert_peer_total [of "users db" i2]) (auto simp: acct_inv_def)
  from that ts t us show thesis
    unfolding save_token_def assms(2) Let_def res_bind_simps r_def by simp
qed

text \<open>
  C14. Issuing and joining agree. A token that one device issues for another, carried over as
  text, is accepted there: the second device stores the same issuer, audience and CID, and
  the same kind, worked out anew from the delegation's commands. It is a powerline exactly
  when everything was delegated. Base64 and CBOR must decode what they encode, and the
  builder must put in what it is given.
\<close>
theorem issue_then_join:
  assumes codec: "\<And>s. uc_b64_decode U (uc_b64_encode U s) = Some s" "\<And>d. uc_from_cbor U (uc_to_cbor U d) = Some d"
    and builder: "\<And>iss aud cmds d. bld iss aud cmds = Inr d \<Longrightarrow> uc_commands U d = cmds \<and> uc_cid64 U d \<notin> t_cid ` set (tokens dbA)"
    and issue: "create_token U bld signer aud nick cap i i2 now dbA = Inr (t, dbA')"
    and joiner: "acct_inv dbB" "get_current_user dbB = Inr userB"
      "j \<notin> t_id ` set (tokens dbB)" "j2 \<notin> u_id ` set (users dbB)"
    and new: "t_cid t \<notin> t_cid ` set (tokens dbB)"
  shows "\<exists>t' dbB'. add_token U (t_token t) nickB j j2 nowB dbB = Inr (t', dbB') \<and>
    t_did t' = t_did t \<and> t_aud t' = t_aud t \<and> t_cid t' = t_cid t \<and> t_type t' = t_type t \<and>
    (t_type t' = Linked \<longleftrightarrow> cap = CapAll)"
proof -
  from issue obtain d cmds ty where g: "generate_commands_and_predicates cap = (cmds, ty)"
    and d: "uc_commands U d = cmds" "uc_cid64 U d \<notin> t_cid ` set (tokens dbA)"
    and s: "save_token U d (if ty = Linked then None else nick) ty i i2 now dbA = Inr (t, dbA')"
    by (elim create_token_Inr) (auto dest: builder)
  note t = save_token_returned [OF s d(2)]
  from g d(1) have ty: "delegation_type U d = ty" "ty = Linked \<longleftrightarrow> cap = CapAll"
    by (auto simp: generate_commands_and_predicates_def delegation_type_def split: capability.splits)
  from joiner obtain t' dbB' where s': "save_token U d nickB ty j j2 nowB dbB = Inr (t', dbB')"
    by (rule save_token_ok)
  then have "add_token U (t_token t) nickB j j2 nowB dbB = Inr (t', dbB')"
    using t ty(1) by (simp add: add_token_def decode_encode [OF codec])
  with save_token_returned [OF s'] new t ty(2) show ?thesis by auto
qed

definition link_ucan :: "string ucan" where
  "link_ucan = \<lparr>uc_b64_decode = Some, uc_b64_encode = (\<lambda>s. s), uc_from_cbor = Some, uc_to_cbor = (\<lambda>d. d),
     uc_issuer = (\<lambda>d. ''did:me''), uc_audience = (\<lambda>d. ''did:peer''), uc_commands = (\<lambda>d. []),
     uc_cid = (\<lambda>d. d), uc_cid64 = (\<lambda>d. d)\<rparr>"

definition link_builder :: "string \<Rightarrow> string \<Rightarrow> string list \<Rightarrow> acct_error + string" where
  "link_builder iss aud cmds = (if cmds = [] then Inr ''dlg'' else Inl (Msg ''no''))"

definition other_root :: user where
  "other_root = sample_root\<lparr>u_user_id := ''did:peer''\<rparr>"

theorem issue_then_join_witness:
  "\<exists>t dbA' t' dbB'.
     create_token link_ucan link_builder Inr ''did:peer'' None CapAll ''t1'' ''u9'' 3
       \<lparr>users = [sample_root], tokens = []\<rparr> = Inr (t, dbA') \<and>
     add_token link_ucan (t_token t) (Some ''laptop'') ''t2'' ''u8'' 4 \<lparr>users = [other_root], tokens = []\<rparr>
       = Inr (t', dbB') \<and> t_did t' = ''did:me'' \<and> t_type t' = Linked"
proof -
  have cur: "get_current_user \<lparr>users = [sample_root], tokens = []\<rparr> = Inr sample_root"
    "get_current_user \<lparr>users = [other_root], tokens = []\<rparr> = Inr other_root"
    by (simp_all add: get_current_user_def query_one_def sample_root_def other_root_def)
  have inv: "acct_inv \<lparr>users = [other_root], tokens = []\<rparr>"
    by (simp add: acct_inv_def wf_table_def user_indexes_def token_indexes_def unique_on_def
        List.map_filter_simps roots_ok_def other_root_def sample_root_def)
  obtain t dbA' where c: "create_token link_ucan link_builder Inr ''did:peer'' None CapAll ''t1'' ''u9'' 3
      \<lparr>users = [sample_root], tokens = []\<rparr> = Inr (t, dbA')" and t: "t_did t = ''did:me''" "t_cid t = ''dlg''"
    unfolding create_token_def generate_delegation_token_def save_token_def cur res_bind_simps
    by (simp add: generate_commands_and_predicates_def link_builder_def save_token_def cur
        upsert_token_def insert_row_def token_indexes_def Let_def fetch_token_by_cid_def query_row_def
        upsert_peer_def free_nickname_def link_ucan_def sample_root_def user_indexes_def clash_def
        account_to_string_def)
  have "\<exists>t' dbB'. add_token link_ucan (t_token t) (Some ''laptop'') ''t2'' ''u8'' 4
      \<lparr>users = [other_root], tokens = []\<rparr> = Inr (t', dbB') \<and>
    t_did t' = t_did t \<and> t_aud t' = t_aud t \<and> t_cid t' = t_cid t \<and> t_type t' = t_type t \<and>
    (t_type t' = Linked \<longleftrightarrow> CapAll = CapAll)"
    by (rule issue_then_join [OF _ _ _ c inv cur(2)])
       (auto simp: link_ucan_def link_builder_def other_root_def sample_root_def split: if_splits)
  with c t show ?thesis by auto
qed

end
