(* ===== verification/Chats.thy ===== *)
theory Chats
  imports Modelfile Accounts "HOL-Library.List_Lexorder" "HOL-Library.Char_ord"
begin

text \<open>
  Chats and sessions (\<open>tiles/src/core/chats.rs\<close> over the chat database of
  \<open>storage/db.rs\<close>). A stored row keeps its role as text, as the table does, so
  that reading it back can fail. \<open>get_delta\<close> and \<open>apply_delta\<close> are the two halves of the
  synchronisation of one user's chats between devices; the write of a row in \<open>apply_delta\<close>
  may fail for a reason outside the model, which the argument \<open>fault\<close> decides row by row.
  The encoding of a delta (the crate \<open>postcard\<close>) is an argument.
\<close>

section \<open>Data\<close>

record chat =
  c_id :: string
  c_content :: string
  c_resp :: "string option"
  c_role :: role
  c_user :: string
  c_ctx :: "string option"
  c_created :: nat
  c_updated :: nat
  c_counter :: int
  c_session :: string
  c_model :: string

record chat_row =
  cr_id :: string
  cr_user :: string
  cr_content :: string
  cr_resp :: "string option"
  cr_role :: string
  cr_ctx :: "string option"
  cr_created :: nat
  cr_updated :: nat
  cr_counter :: int
  cr_session :: "string option"
  cr_model :: "string option"

record session =
  s_id :: string
  s_name :: string
  s_created :: nat
  s_creator :: string
  s_snapshot :: "string option"

record chat_db =
  chats :: "chat_row list"
  sessions :: "session list"

record delta =
  d_chats :: "chat list"
  d_sessions :: "session list"

record chat_response =
  rp_input :: string
  rp_session_id :: string
  rp_role :: role
  rp_parent :: "string option"
  rp_model :: string

definition chat_indexes :: "chat_row index list" where
  "chat_indexes = [(''chats.id'', \<lambda>r. Some [cr_id r])]"

definition session_indexes :: "session index list" where
  "session_indexes = [(''sessions.id'', \<lambda>s. Some [s_id s])]"

text \<open>Writing a chat binds its fields, with the role as text. Reading parses the role, and a
  NULL session or model is the empty text.\<close>

definition to_row :: "chat \<Rightarrow> chat_row" where
  "to_row c = \<lparr>cr_id = c_id c, cr_user = c_user c, cr_content = c_content c, cr_resp = c_resp c,
     cr_role = string_of_role (c_role c), cr_ctx = c_ctx c, cr_created = c_created c,
     cr_updated = c_updated c, cr_counter = c_counter c, cr_session = Some (c_session c),
     cr_model = Some (c_model c)\<rparr>"

definition unwrap_or_empty :: "string option \<Rightarrow> string" where
  "unwrap_or_empty s = (case s of None \<Rightarrow> '''' | Some t \<Rightarrow> t)"

definition from_row :: "chat_row \<Rightarrow> acct_error + chat" where
  "from_row r =
     map_err (\<lambda>e. Sql (OtherError e)) (res_bind (role_from_str (cr_role r)) (\<lambda>role.
       Inr \<lparr>c_id = cr_id r, c_content = cr_content r, c_resp = cr_resp r, c_role = role,
            c_user = cr_user r, c_ctx = cr_ctx r, c_created = cr_created r,
            c_updated = cr_updated r, c_counter = cr_counter r,
            c_session = unwrap_or_empty (cr_session r), c_model = unwrap_or_empty (cr_model r)\<rparr>))"

section \<open>Sessions\<close>

definition fetch_session :: "chat_db \<Rightarrow> string \<Rightarrow> session option" where
  "fetch_session db sid = ok (query_row (\<lambda>s. s_id s = sid) (sessions db))"

definition create_session :: "string \<Rightarrow> string \<Rightarrow> string \<Rightarrow> nat \<Rightarrow> chat_db \<Rightarrow> acct_error + (session \<times> chat_db)" where
  "create_session sid name user_id now db =
     (let missing = Msg (''Session '' @ sid @ '' is missing after writing it'') in
      case insert_row session_indexes
             \<lparr>s_id = sid, s_name = name, s_created = now, s_creator = user_id, s_snapshot = None\<rparr>
             (sessions db) of
        Inr ss \<Rightarrow> let db = db\<lparr>sessions := ss\<rparr> in
                   res_bind (ok_or missing (fetch_session db sid)) (\<lambda>s. Inr (s, db))
      | Inl e \<Rightarrow>
          if show_sql e = ''UNIQUE constraint failed: sessions.id''
          then res_bind (ok_or missing (fetch_session db sid)) (\<lambda>s. Inr (s, db))
          else Inl (Msg (''Err inserting due to '' @ show_sql e)))"

definition fetch_sessions :: "nat option \<Rightarrow> chat_db \<Rightarrow> session list" where
  "fetch_sessions limit db =
     take (case limit of None \<Rightarrow> 25 | Some v \<Rightarrow> v)
       (sort_key (\<lambda>s. - int (s_created s)) (sessions db))"

definition update_snapshot :: "string \<Rightarrow> string \<Rightarrow> chat_db \<Rightarrow> acct_error + (session \<times> chat_db)" where
  "update_snapshot sid snapshot db =
     (case update_rows session_indexes (\<lambda>s. s_id s = sid) (\<lambda>s. s\<lparr>s_snapshot := Some snapshot\<rparr>) (sessions db) of
        Inr ss \<Rightarrow> let db = db\<lparr>sessions := ss\<rparr> in
          res_bind (ok_or (Msg (''Session '' @ sid @ '' is missing after writing it'')) (fetch_session db sid))
            (\<lambda>s. Inr (s, db))
      | Inl e \<Rightarrow> Inl (Msg (''Err updating session snapshot due to '' @ show_sql e)))"

section \<open>Chats\<close>

definition rows_of :: "string \<Rightarrow> chat_db \<Rightarrow> chat_row list" where
  "rows_of uid db = filter (\<lambda>r. cr_user r = uid) (chats db)"

text \<open>\<open>max\<close> over no rows is NULL, which counts as 0.\<close>

definition get_last_row_counter :: "string \<Rightarrow> chat_db \<Rightarrow> int" where
  "get_last_row_counter uid db =
     (let cs = map cr_counter (rows_of uid db) in if cs = [] then 0 else Max (set cs))"

definition get_last_entry_id :: "string \<Rightarrow> chat_db \<Rightarrow> string option" where
  "get_last_entry_id uid db = last_opt (sort (map cr_id (rows_of uid db)))"

definition save_chat ::
  "string \<Rightarrow> chat_response \<Rightarrow> string \<Rightarrow> nat \<Rightarrow> chat_db \<Rightarrow> acct_error + (chat \<times> chat_db)" where
  "save_chat uid resp uuid now db =
     (let c = \<lparr>c_id = uuid, c_content = rp_input resp, c_resp = None, c_role = rp_role resp,
               c_user = uid, c_ctx = rp_parent resp, c_created = now, c_updated = now,
               c_counter = get_last_row_counter uid db + 1,
               c_session = rp_session_id resp, c_model = rp_model resp\<rparr>
      in map_err Sql (res_bind (insert_row chat_indexes (to_row c) (chats db))
           (\<lambda>t. Inr (c, db\<lparr>chats := t\<rparr>))))"

text \<open>One transaction: an error leaves the database as it was.\<close>

definition save_first_chat ::
  "string \<Rightarrow> string \<Rightarrow> chat_response \<Rightarrow> string \<Rightarrow> nat \<Rightarrow> chat_db \<Rightarrow> acct_error + (chat \<times> chat_db)" where
  "save_first_chat uid name resp uuid now db =
     res_bind (create_session (rp_session_id resp) name uid now db) (\<lambda>(s, db).
       save_chat uid resp uuid now db)"

text \<open>The rows are read in order. Each session is fetched once, and a missing one is skipped.
  The first row that does not parse fails the whole read.\<close>

definition note_session :: "chat_db \<Rightarrow> string \<Rightarrow> session list \<Rightarrow> session list" where
  "note_session db sid found =
     (if sid \<noteq> [] \<and> sid \<notin> s_id ` set found
      then (case fetch_session db sid of Some s \<Rightarrow> found @ [s] | None \<Rightarrow> found)
      else found)"

fun read_rows ::
  "chat_db \<Rightarrow> chat_row list \<Rightarrow> session list \<Rightarrow> acct_error + (chat list \<times> session list)" where
  "read_rows db [] found = Inr ([], found)"
| "read_rows db (r # rs) found =
     (let found = note_session db (unwrap_or_empty (cr_session r)) found in
      res_bind (from_row r) (\<lambda>c.
      res_bind (read_rows db rs found) (\<lambda>(cs, found). Inr (c # cs, found))))"

definition fetch_delta_chats :: "(chat_row \<Rightarrow> bool) \<Rightarrow> chat_db \<Rightarrow> acct_error + delta" where
  "fetch_delta_chats P db =
     res_bind (read_rows db (sort_key cr_id (filter P (chats db))) [])
       (\<lambda>(cs, ss). Inr \<lparr>d_chats = cs, d_sessions = ss\<rparr>)"

definition get_delta :: "string \<Rightarrow> int \<Rightarrow> chat_db \<Rightarrow> acct_error + delta" where
  "get_delta uid lrc db = fetch_delta_chats (\<lambda>r. cr_user r = uid \<and> cr_counter r > lrc) db"

definition fetch_chats_by_session_id :: "string \<Rightarrow> chat_db \<Rightarrow> acct_error + delta" where
  "fetch_chats_by_session_id sid db = fetch_delta_chats (\<lambda>r. cr_session r = Some sid) db"

definition fetch_models_used_by_session :: "string \<Rightarrow> chat_db \<Rightarrow> string list" where
  "fetch_models_used_by_session sid db =
     filter (\<lambda>m. m \<noteq> []) (map unwrap_or_empty
       (remdups (map cr_model (filter (\<lambda>r. cr_session r = Some sid) (chats db)))))"

text \<open>The two insert loops of \<open>apply_delta\<close>: a row that is there already is skipped, any other
  failure ends the loop (and the rows before it stay, as the transaction still commits).\<close>

definition exec_insert :: "('r \<Rightarrow> string option) \<Rightarrow> 'r index list \<Rightarrow> 'r \<Rightarrow> 'r list \<Rightarrow> sql_error + 'r list" where
  "exec_insert fault ixs r t =
     (case fault r of Some e \<Rightarrow> Inl (OtherError e) | None \<Rightarrow> insert_row ixs r t)"

fun insert_all :: "string \<Rightarrow> ('r \<Rightarrow> string option) \<Rightarrow> 'r index list \<Rightarrow> 'r list \<Rightarrow> 'r list \<Rightarrow> 'r list" where
  "insert_all dup fault ixs [] t = t"
| "insert_all dup fault ixs (r # rs) t =
     (case exec_insert fault ixs r t of
        Inr t' \<Rightarrow> insert_all dup fault ixs rs t'
      | Inl e \<Rightarrow> if show_sql e = dup then insert_all dup fault ixs rs t else t)"

definition apply_delta ::
  "(chat_row \<Rightarrow> string option) \<Rightarrow> (session \<Rightarrow> string option) \<Rightarrow> delta \<Rightarrow> chat_db \<Rightarrow> chat_db" where
  "apply_delta fault sfault d db =
     db\<lparr>chats := insert_all ''UNIQUE constraint failed: chats.id'' fault chat_indexes
                   (map to_row (d_chats d)) (chats db),
        sessions := insert_all ''UNIQUE constraint failed: sessions.id'' sfault session_indexes
                   (map (\<lambda>s. s\<lparr>s_snapshot := None\<rparr>) (d_sessions d)) (sessions db)\<rparr>"

definition get_encoded_delta ::
  "(delta \<Rightarrow> string) \<Rightarrow> string \<Rightarrow> int \<Rightarrow> chat_db \<Rightarrow> acct_error + string" where
  "get_encoded_delta encode uid lrc db = res_bind (get_delta uid lrc db) (\<lambda>d. Inr (encode d))"

section \<open>The two tables are keyed by id\<close>

interpretation chat_rows: keyed_table "wf_table chat_indexes" "insert_row chat_indexes" "\<lambda>r. Some [cr_id r]"
  by (rule keyed_table_index [of "''chats.id''"]) (simp add: chat_indexes_def)

interpretation session_rows: keyed_table "wf_table session_indexes" "insert_row session_indexes" "\<lambda>s. Some [s_id s]"
  by (rule keyed_table_index [of "''sessions.id''"]) (simp add: session_indexes_def)

definition wf_chats :: "chat_db \<Rightarrow> bool" where
  "wf_chats db \<longleftrightarrow> wf_table chat_indexes (chats db) \<and> wf_table session_indexes (sessions db)"

text \<open>What an insertion does on a table with one index, named like the skipped error.\<close>

lemma insert_chat:
  "insert_row chat_indexes r t =
     (if cr_id r \<in> cr_id ` set t then Inl (UniqueFailed ''chats.id'') else Inr (t @ [r]))"
  by (auto simp: insert_row_def chat_indexes_def list_ex_iff clash_def intro: rev_image_eqI)

lemma insert_session:
  "insert_row session_indexes s t =
     (if s_id s \<in> s_id ` set t then Inl (UniqueFailed ''sessions.id'') else Inr (t @ [s]))"
  by (auto simp: insert_row_def session_indexes_def list_ex_iff clash_def intro: rev_image_eqI)

lemma ok_query_row: "ok (query_row P t) = find P t"
  by (induction t) (auto simp: query_row_def ok_def split: list.splits)

lemma fetch_session_Some:
  "fetch_session db sid = Some s \<Longrightarrow> s \<in> set (sessions db) \<and> s_id s = sid"
  by (auto simp: fetch_session_def ok_query_row dest!: find_SomeD)

lemma fetch_session_None:
  "fetch_session db sid = None \<longleftrightarrow> sid \<notin> s_id ` set (sessions db)"
  by (auto simp: fetch_session_def ok_query_row find_None_iff)

lemma fetch_session_append:
  "fetch_session (db\<lparr>sessions := sessions db @ ss\<rparr>) sid =
     (case fetch_session db sid of Some s \<Rightarrow> Some s | None \<Rightarrow> find (\<lambda>s. s_id s = sid) ss)"
proof -
  have "find P (xs @ ys) = (case find P xs of Some s \<Rightarrow> Some s | None \<Rightarrow> find P ys)" for P and xs ys :: "session list"
    by (induction xs) auto
  then show ?thesis by (simp add: fetch_session_def ok_query_row)
qed

section \<open>Sessions: get or insert\<close>

lemma create_session_eq:
  "create_session sid name uid now db =
     (case fetch_session db sid of
        Some s \<Rightarrow> Inr (s, db)
      | None \<Rightarrow>
          let s = \<lparr>s_id = sid, s_name = name, s_created = now, s_creator = uid, s_snapshot = None\<rparr>
          in Inr (s, db\<lparr>sessions := sessions db @ [s]\<rparr>))"
proof (cases "fetch_session db sid")
  case None
  then have "sid \<notin> s_id ` set (sessions db)" by (simp add: fetch_session_None)
  with None show ?thesis
    by (simp add: create_session_def Let_def insert_session fetch_session_append ok_or_def)
next
  case (Some s)
  then have "sid \<in> s_id ` set (sessions db)" by (metis fetch_session_None option.distinct(1))
  with Some show ?thesis
    by (simp add: create_session_def Let_def insert_session show_sql_def ok_or_def)
qed

section \<open>Reading a delta\<close>

definition readable :: "role \<Rightarrow> bool" where
  "readable r \<longleftrightarrow> r = System \<or> r = User \<or> r = Assistant"

lemma role_of_string: "role_from_str (string_of_role r) = Inr r \<longleftrightarrow> readable r"
  by (cases r)
     (simp_all add: role_from_str_def string_of_role_def readable_def to_lowercase_def lower_char_def)

lemma role_of_string_fails: "\<not> readable r \<Longrightarrow> role_from_str (string_of_role r) = Inl ''Invalid Role''"
  by (cases r)
     (simp_all add: role_from_str_def string_of_role_def readable_def to_lowercase_def lower_char_def)

lemma from_row_to_row: "from_row (to_row c) = Inr c \<longleftrightarrow> readable (c_role c)"
proof (cases "readable (c_role c)")
  case True
  then have "role_from_str (string_of_role (c_role c)) = Inr (c_role c)" by (simp add: role_of_string)
  with True show ?thesis by (simp add: from_row_def to_row_def unwrap_or_empty_def map_err_def)
next
  case False
  then show ?thesis by (simp add: from_row_def to_row_def role_of_string_fails map_err_def)
qed


text \<open>A row reads back iff its role does, and reading gives the chat \<open>read_row\<close>.\<close>

definition readable_row :: "chat_row \<Rightarrow> bool" where
  "readable_row r = is_ok (role_from_str (cr_role r))"

definition read_row :: "chat_row \<Rightarrow> chat" where
  "read_row r = projr (from_row r)"

lemma from_row_readable: "readable_row r \<Longrightarrow> from_row r = Inr (read_row r)"
  by (auto simp: readable_row_def read_row_def from_row_def is_ok_def map_err_def split: sum.splits)

lemma from_row_unreadable: "\<not> readable_row r \<Longrightarrow> \<exists>e. from_row r = Inl e"
  by (auto simp: readable_row_def from_row_def is_ok_def map_err_def split: sum.splits)

definition note_all :: "chat_db \<Rightarrow> chat_row list \<Rightarrow> session list \<Rightarrow> session list" where
  "note_all db rs found = foldl (\<lambda>f r. note_session db (unwrap_or_empty (cr_session r)) f) found rs"

lemma note_all_simps [simp]:
  "note_all db [] f = f"
  "note_all db (r # rs) f = note_all db rs (note_session db (unwrap_or_empty (cr_session r)) f)"
  by (simp_all add: note_all_def)

lemma read_rows_ok:
  "list_all readable_row rs \<Longrightarrow> read_rows db rs f = Inr (map read_row rs, note_all db rs f)"
  by (induction rs arbitrary: f) (simp_all add: Let_def from_row_readable)

lemma read_rows_fails: "\<not> list_all readable_row rs \<Longrightarrow> \<exists>e. read_rows db rs f = Inl e"
proof (induction rs arbitrary: f)
  case (Cons r rs)
  show ?case
  proof (cases "readable_row r")
    case True
    with Cons.prems have "\<not> list_all readable_row rs" by simp
    from Cons.IH [OF this] obtain e
      where "read_rows db rs (note_session db (unwrap_or_empty (cr_session r)) f) = Inl e" by blast
    then show ?thesis by (simp add: Let_def from_row_readable [OF True])
  next
    case False
    from from_row_unreadable [OF this] obtain e where "from_row r = Inl e" by blast
    then show ?thesis by (simp add: Let_def)
  qed
qed simp

lemma fetch_delta_ok:
  assumes "\<And>r. r \<in> set (chats db) \<Longrightarrow> P r \<Longrightarrow> readable_row r"
  shows "fetch_delta_chats P db =
    Inr \<lparr>d_chats = map read_row (sort_key cr_id (filter P (chats db))),
         d_sessions = note_all db (sort_key cr_id (filter P (chats db))) []\<rparr>"
proof -
  have "list_all readable_row (sort_key cr_id (filter P (chats db)))"
    using assms by (auto simp: list_all_iff)
  from read_rows_ok [OF this] show ?thesis by (simp add: fetch_delta_chats_def)
qed

lemma fetch_delta_fails:
  assumes "r \<in> set (chats db)" and "P r" and "\<not> readable_row r"
  shows "\<exists>e. fetch_delta_chats P db = Inl e"
proof -
  have "\<not> list_all readable_row (sort_key cr_id (filter P (chats db)))"
    using assms by (auto simp: list_all_iff)
  from read_rows_fails [OF this] obtain e
    where "read_rows db (sort_key cr_id (filter P (chats db))) [] = Inl e" by blast
  then show ?thesis by (simp add: fetch_delta_chats_def)
qed

text \<open>The sessions of a delta: each once, those the rows name and the table has.\<close>

lemma note_session_set:
  assumes "\<And>s. s \<in> set f \<Longrightarrow> fetch_session db (s_id s) = Some s"
  shows "set (note_session db sid f) =
    set f \<union> {s. sid \<noteq> [] \<and> fetch_session db sid = Some s}"
  using assms by (auto simp: note_session_def dest: fetch_session_Some split: option.splits)

lemma note_session_distinct:
  "distinct (map s_id f) \<Longrightarrow> distinct (map s_id (note_session db sid f))"
  by (auto simp: note_session_def dest: fetch_session_Some split: option.splits)

lemma note_all_spec:
  assumes "\<And>s. s \<in> set f \<Longrightarrow> fetch_session db (s_id s) = Some s" and "distinct (map s_id f)"
  shows "distinct (map s_id (note_all db rs f)) \<and>
    set (note_all db rs f) = set f \<union>
      {s. \<exists>r\<in>set rs. unwrap_or_empty (cr_session r) \<noteq> [] \<and>
           fetch_session db (unwrap_or_empty (cr_session r)) = Some s}"
  using assms
proof (induction rs arbitrary: f)
  case (Cons r rs)
  let ?f = "note_session db (unwrap_or_empty (cr_session r)) f"
  have f: "set ?f = set f \<union> {s. unwrap_or_empty (cr_session r) \<noteq> [] \<and>
      fetch_session db (unwrap_or_empty (cr_session r)) = Some s}"
    by (rule note_session_set) (rule Cons.prems(1))
  have found: "fetch_session db (s_id s) = Some s" if "fetch_session db x = Some s" for x s
    using fetch_session_Some [OF that] that by simp
  have 1: "fetch_session db (s_id s) = Some s" if "s \<in> set ?f" for s
    using that unfolding f by (blast dest: Cons.prems(1) fetch_session_Some intro: found)
  note IH = Cons.IH [of ?f, OF 1 note_session_distinct [OF Cons.prems(2)]]
  show ?case unfolding note_all_simps using IH unfolding f by auto
qed simp

section \<open>Saving and applying\<close>

lemma save_chat_eq:
  "save_chat uid resp uuid now db =
     (let c = \<lparr>c_id = uuid, c_content = rp_input resp, c_resp = None, c_role = rp_role resp,
               c_user = uid, c_ctx = rp_parent resp, c_created = now, c_updated = now,
               c_counter = get_last_row_counter uid db + 1,
               c_session = rp_session_id resp, c_model = rp_model resp\<rparr> in
      if uuid \<in> cr_id ` set (chats db) then Inl (Sql (UniqueFailed ''chats.id''))
      else Inr (c, db\<lparr>chats := chats db @ [to_row c]\<rparr>))"
  by (simp add: save_chat_def Let_def insert_chat map_err_def to_row_def)

lemma counter_le_last: "r \<in> set (chats db) \<Longrightarrow> cr_user r = uid \<Longrightarrow> cr_counter r \<le> get_last_row_counter uid db"
  by (auto simp: get_last_row_counter_def rows_of_def Let_def filter_empty_conv intro!: Max_ge)

lemma dup_chat: "show_sql (UniqueFailed ''chats.id'') = ''UNIQUE constraint failed: chats.id''"
  and dup_session: "show_sql (UniqueFailed ''sessions.id'') = ''UNIQUE constraint failed: sessions.id''"
  by (simp_all add: show_sql_def)

text \<open>
  The insert loop on any table whose only index is an id, with faults that do not pose as
  the skipped error: the rows of a prefix of the delta that the table has not yet, in order;
  without a fault, of all of it.
\<close>

locale insert_loop =
  fixes ixs :: "'r index list" and rid :: "'r \<Rightarrow> string" and dup :: string and n :: string
  assumes ins: "insert_row ixs r t =
      (if rid r \<in> rid ` set t then Inl (UniqueFailed n) else Inr (t @ [r]))"
    and dup: "show_sql (UniqueFailed n) = dup"
begin

fun add_new :: "'r list \<Rightarrow> 'r list \<Rightarrow> 'r list" where
  "add_new [] t = t"
| "add_new (r # rs) t = add_new rs (if rid r \<in> rid ` set t then t else t @ [r])"

lemma no_fault: "insert_all dup (\<lambda>_. None) ixs rs t = add_new rs t"
  by (induction rs arbitrary: t) (simp_all add: exec_insert_def ins dup)

lemma prefix_applied:
  assumes "\<And>r. fault r \<noteq> Some dup"
  shows "\<exists>k\<le>length rs. insert_all dup fault ixs rs t = add_new (take k rs) t"
proof (induction rs arbitrary: t)
  case (Cons r rs)
  show ?case
  proof (cases "fault r")
    case None
    let ?t = "if rid r \<in> rid ` set t then t else t @ [r]"
    from Cons.IH [of ?t] obtain k where "k \<le> length rs"
      and "insert_all dup fault ixs rs ?t = add_new (take k rs) ?t" by blast
    with None show ?thesis
      by (intro exI [of _ "Suc k"]) (simp add: exec_insert_def ins dup split: if_splits)
  next
    case (Some e)
    with assms [of r] show ?thesis
      by (intro exI [of _ 0]) (auto simp: exec_insert_def show_sql_def)
  qed
qed simp

lemma add_new_append: "add_new (rs @ rs') t = add_new rs' (add_new rs t)"
  by (induction rs arbitrary: t) simp_all

lemma add_new_grows: "\<exists>ys. add_new rs t = t @ ys \<and> set ys \<subseteq> set rs"
proof (induction rs arbitrary: t)
  case (Cons r rs)
  from Cons.IH [of "if rid r \<in> rid ` set t then t else t @ [r]"] show ?case by fastforce
qed simp

lemma add_new_ids: "rid ` set (add_new rs t) = rid ` set t \<union> rid ` set rs"
  by (induction rs arbitrary: t) auto

lemma add_new_known: "rid ` set rs \<subseteq> rid ` set t \<Longrightarrow> add_new rs t = t"
  by (induction rs arbitrary: t) auto

lemma add_new_distinct: "distinct (map rid t) \<Longrightarrow> distinct (map rid (add_new rs t))"
  by (induction rs arbitrary: t) auto

text \<open>Resuming after a part was applied gives what one uninterrupted pass gives.\<close>

lemma add_new_resume: "add_new rs (add_new (take k rs) t) = add_new rs t"
proof -
  have "add_new (take k rs @ drop k rs) (add_new (take k rs) t)
      = add_new (drop k rs) (add_new (take k rs) t)"
    unfolding add_new_append
    by (rule arg_cong [where f = "add_new (drop k rs)"], rule add_new_known)
      (simp add: add_new_ids)
  then show ?thesis by (metis add_new_append append_take_drop_id)
qed

end

interpretation chat_loop: insert_loop chat_indexes cr_id "''UNIQUE constraint failed: chats.id''" "''chats.id''"
  by unfold_locales (simp_all add: insert_chat dup_chat)

interpretation session_loop: insert_loop session_indexes s_id
  "''UNIQUE constraint failed: sessions.id''" "''sessions.id''"
  by unfold_locales (simp_all add: insert_session dup_session)

lemma get_delta_ok_iff:
  "is_ok (get_delta uid lrc db) \<longleftrightarrow>
     list_all readable_row (filter (\<lambda>r. cr_user r = uid \<and> cr_counter r > lrc) (chats db))"
  (is "_ \<longleftrightarrow> ?R")
proof
  assume ?R
  then show "is_ok (get_delta uid lrc db)"
    unfolding get_delta_def by (subst fetch_delta_ok) (auto simp: list_all_iff is_ok_def)
next
  assume ok: "is_ok (get_delta uid lrc db)"
  show ?R
  proof (rule ccontr)
    assume "\<not> ?R"
    then obtain r where "r \<in> set (chats db)" "cr_user r = uid \<and> cr_counter r > lrc" "\<not> readable_row r"
      by (auto simp: list_all_iff)
    from fetch_delta_fails [where P = "\<lambda>r. cr_user r = uid \<and> cr_counter r > lrc", OF this]
    show False using ok by (auto simp: get_delta_def is_ok_def)
  qed
qed

section \<open>Replication of one user's chats\<close>

text \<open>
  One device holds the user's own account and saves its chats, with a readable role or not;
  other devices ask it for what came after some counter. Every answer goes to all of them, so
  the replica is sent what it asked for itself (from its own last counter) and what others
  asked for (from any counter). Requests and deltas travel: a delta may arrive late, twice,
  after another one, or never, and its application may stop at any row. Both devices save
  chats of other users, and apply deltas of other users' chats, in between. A delta that the
  replica did not ask for may begin after the chats it has; such deliveries are part of the
  run only if \<open>astray\<close>. The ids are version 7 UUIDs: a new one is greater than those of the
  user's chats before it, and nobody else has it.
\<close>

record answer =
  an_ours :: bool
  an_since :: int
  an_delta :: delta

record net =
  owner :: chat_db
  replica :: chat_db
  flight :: "answer list"

definition in_step :: "string \<Rightarrow> chat_db \<Rightarrow> answer \<Rightarrow> bool" where
  "in_step uid db x \<longleftrightarrow> an_ours x \<or> an_since x \<le> get_last_row_counter uid db"

inductive sync_step :: "bool \<Rightarrow> string \<Rightarrow> net \<Rightarrow> net \<Rightarrow> bool" for astray uid where
  save_own: "save_chat uid resp uuid now (owner s) = Inr (c, db) \<Longrightarrow>
     \<forall>r\<in>set (chats (owner s)). cr_user r = uid \<longrightarrow> cr_id r < uuid \<Longrightarrow>
     uuid \<notin> cr_id ` set (chats (replica s)) \<Longrightarrow>
     sync_step astray uid s (s\<lparr>owner := db\<rparr>)"
| save_other_owner: "save_chat other resp uuid now (owner s) = Inr (c, db) \<Longrightarrow> other \<noteq> uid \<Longrightarrow>
     sync_step astray uid s (s\<lparr>owner := db\<rparr>)"
| save_other: "save_chat other resp uuid now (replica s) = Inr (c, db) \<Longrightarrow> other \<noteq> uid \<Longrightarrow>
     uuid \<notin> cr_id ` set (chats (owner s)) \<Longrightarrow>
     sync_step astray uid s (s\<lparr>replica := db\<rparr>)"
| deliver_owner: "\<forall>c\<in>set (d_chats d). c_user c \<noteq> uid \<Longrightarrow>
     \<forall>r. fault r \<noteq> Some ''UNIQUE constraint failed: chats.id'' \<Longrightarrow>
     sync_step astray uid s (s\<lparr>owner := apply_delta fault sfault d (owner s)\<rparr>)"
| deliver_other: "\<forall>c\<in>set (d_chats d). c_user c \<noteq> uid \<and> c_id c \<notin> cr_id ` set (chats (owner s)) \<Longrightarrow>
     \<forall>r. fault r \<noteq> Some ''UNIQUE constraint failed: chats.id'' \<Longrightarrow>
     sync_step astray uid s (s\<lparr>replica := apply_delta fault sfault d (replica s)\<rparr>)"
| request: "get_delta uid (get_last_row_counter uid (replica s)) (owner s) = Inr d \<Longrightarrow>
     sync_step astray uid s (s\<lparr>flight := \<lparr>an_ours = True,
       an_since = get_last_row_counter uid (replica s), an_delta = d\<rparr> # flight s\<rparr>)"
| request_elsewhere: "get_delta uid lrc (owner s) = Inr d \<Longrightarrow>
     sync_step astray uid s (s\<lparr>flight := \<lparr>an_ours = False, an_since = lrc, an_delta = d\<rparr> # flight s\<rparr>)"
| deliver: "x \<in> set (flight s) \<Longrightarrow> in_step uid (replica s) x \<or> astray \<Longrightarrow>
     \<forall>r. fault r \<noteq> Some ''UNIQUE constraint failed: chats.id'' \<Longrightarrow>
     sync_step astray uid s (s\<lparr>replica := apply_delta fault sfault (an_delta x) (replica s)\<rparr>)"
| lose: "x \<in> set (flight s) \<Longrightarrow> sync_step astray uid s (s\<lparr>flight := remove1 x (flight s)\<rparr>)"

definition empty_chats :: chat_db where
  "empty_chats = \<lparr>chats = [], sessions = []\<rparr>"

inductive sync_reachable :: "bool \<Rightarrow> string \<Rightarrow> net \<Rightarrow> bool" for astray uid where
  start: "sync_reachable astray uid \<lparr>owner = empty_chats, replica = empty_chats, flight = []\<rparr>"
| step: "sync_reachable astray uid s \<Longrightarrow> sync_step astray uid s s' \<Longrightarrow> sync_reachable astray uid s'"

text \<open>The rows the owner saved: numbered from 1, by growing id, in full where readable.\<close>

definition own_rows :: "string \<Rightarrow> chat_row list \<Rightarrow> bool" where
  "own_rows uid rs \<longleftrightarrow>
     map cr_counter rs = map int [1..<Suc (length rs)] \<and> sorted_wrt (<) (map cr_id rs) \<and>
     (\<forall>r\<in>set rs. (readable_row r \<longrightarrow> to_row (read_row r) = r) \<and> cr_user r = uid)"

text \<open>
  What every run keeps, and what a run keeps in which only deltas in step are delivered. A
  delta in flight is the stretch of the owner's rows that was asked for.
\<close>

definition copy_inv :: "string \<Rightarrow> net \<Rightarrow> bool" where
  "copy_inv uid s \<longleftrightarrow>
     own_rows uid (rows_of uid (owner s)) \<and> distinct (map cr_id (chats (replica s))) \<and>
     set (rows_of uid (replica s)) \<subseteq> set (rows_of uid (owner s)) \<and>
     (\<forall>x\<in>set (flight s). \<exists>j.
        map to_row (d_chats (an_delta x)) = take j (drop (nat (an_since x)) (rows_of uid (owner s)))) \<and>
     (\<forall>r\<in>set (chats (replica s)). cr_user r \<noteq> uid \<longrightarrow> cr_id r \<notin> cr_id ` set (rows_of uid (owner s)))"

definition net_inv :: "string \<Rightarrow> net \<Rightarrow> bool" where
  "net_inv uid s \<longleftrightarrow> copy_inv uid s \<and>
     (\<exists>m\<le>length (rows_of uid (owner s)). rows_of uid (replica s) = take m (rows_of uid (owner s)) \<and>
       (\<forall>x\<in>set (flight s). an_ours x \<longrightarrow> nat (an_since x) \<le> m))"

lemma own_rows_sorted:
  assumes "own_rows uid rs"
  shows "sort_key cr_id (filter P rs) = filter P rs"
proof -
  have "sorted_wrt (\<lambda>r r'. cr_id r < cr_id r') rs"
    using assms by (simp add: own_rows_def sorted_wrt_map)
  then have "sorted_wrt (\<lambda>r r'. cr_id r \<le> cr_id r') (filter P rs)"
    by (intro sorted_wrt_filter) (auto elim: sorted_wrt_mono_rel [rotated])
  then have "sorted (map cr_id (filter P rs))" by (simp add: sorted_wrt_map)
  then show ?thesis by (simp add: sort_key_id_if_sorted)
qed

lemma own_rows_counter:
  assumes "own_rows uid rs" and "i < length rs"
  shows "cr_counter (rs ! i) = int (Suc i)"
proof -
  have "map cr_counter rs ! i = map int [1..<Suc (length rs)] ! i"
    using assms(1) by (simp only: own_rows_def)
  then show ?thesis using assms(2) by (simp del: upt_Suc)
qed

lemma own_rows_distinct: "own_rows uid rs \<Longrightarrow> distinct (map cr_id rs)"
  by (simp add: own_rows_def strict_sorted_iff)

lemma own_rows_last:
  assumes "own_rows uid rs" and "m \<le> length rs" and "rows_of uid db = take m rs"
  shows "get_last_row_counter uid db = int m"
proof (cases m)
  case (Suc k)
  have c: "cr_counter (rs ! i) = int (Suc i)" if "i < length rs" for i
    using assms(1) that by (rule own_rows_counter)
  have "set (map cr_counter (take m rs)) = {int (Suc i) | i. i < m}"
    using assms(2) by (force simp: set_conv_nth c)
  moreover have "Max {int (Suc i) | i. i < m} = int m"
    by (rule Max_eqI) (auto simp: Suc intro: exI [of _ k])
  ultimately show ?thesis using assms(2,3) Suc
    by (auto simp: get_last_row_counter_def Let_def)
qed (use assms(3) in \<open>simp add: get_last_row_counter_def\<close>)

text \<open>What a delta of own rows after a counter holds: the rest of them. It is there iff they
  are readable.\<close>

lemma own_rows_after:
  assumes "own_rows uid rs"
  shows "filter (\<lambda>r. cr_counter r > k) rs = drop (nat k) rs"
proof -
  have c: "cr_counter (rs ! i) = int (Suc i)" if "i < length rs" for i
    using assms that by (rule own_rows_counter)
  have "filter (\<lambda>r. cr_counter r > k) (take (nat k) rs) = []"
    by (auto simp: filter_empty_conv in_set_conv_nth c)
  moreover have "filter (\<lambda>r. cr_counter r > k) (drop (nat k) rs) = drop (nat k) rs"
    by (auto simp: filter_id_conv in_set_conv_nth c)
  ultimately show ?thesis by (metis append_Nil append_take_drop_id filter_append)
qed

lemma rows_after:
  assumes "own_rows uid (rows_of uid a)"
  shows "filter (\<lambda>r. cr_user r = uid \<and> cr_counter r > k) (chats a) = drop (nat k) (rows_of uid a)"
  using own_rows_after [OF assms, of k] by (simp add: rows_of_def conj_commute)

lemma delta_there:
  assumes "own_rows uid (rows_of uid a)"
  shows "is_ok (get_delta uid k a) \<longleftrightarrow> list_all readable_row (drop (nat k) (rows_of uid a))"
  by (simp add: get_delta_ok_iff rows_after [OF assms])

lemma own_delta:
  assumes "own_rows uid (rows_of uid a)" and "get_delta uid k a = Inr d"
  shows "map to_row (d_chats d) = drop (nat k) (rows_of uid a)"
proof -
  let ?P = "\<lambda>r. cr_user r = uid \<and> cr_counter r > k" and ?rs = "drop (nat k) (rows_of uid a)"
  have ok: "list_all readable_row ?rs"
    using delta_there [OF assms(1), of k] assms(2) by (simp add: is_ok_def)
  have s: "sort_key cr_id (filter ?P (chats a)) = ?rs"
    using own_rows_sorted [OF assms(1), of "\<lambda>r. cr_counter r > k"]
    by (simp add: rows_after [OF assms(1)] own_rows_after [OF assms(1)])
  have "readable_row r" if "r \<in> set (chats a)" and "?P r" for r
  proof -
    from that have "r \<in> set (filter ?P (chats a))" by simp
    then show ?thesis using ok unfolding rows_after [OF assms(1)] by (simp add: list_all_iff)
  qed
  then have "d_chats d = map read_row ?rs"
    using assms(2) by (auto simp: get_delta_def fetch_delta_ok s)
  moreover have "to_row (read_row r) = r" if "r \<in> set ?rs" for r
    using that ok assms(1) by (auto simp: list_all_iff own_rows_def dest: in_set_dropD)
  ultimately show ?thesis by (simp add: map_idI)
qed

text \<open>Applying a stretch of the owner's rows that overlaps what the replica has.\<close>

lemma rows_of_add_new:
  assumes "rows_of uid db = take m rs" and "m \<le> length rs" and "i \<le> m"
    and "distinct (map cr_id rs)" and "\<forall>r\<in>set rs. cr_user r = uid"
    and "\<forall>r\<in>set (chats db). cr_user r \<noteq> uid \<longrightarrow> cr_id r \<notin> cr_id ` set rs"
    and "seg = take j (drop i rs)"
  shows "filter (\<lambda>r. cr_user r = uid) (chat_loop.add_new seg (chats db)) = take (max m (i + length seg)) rs"
  using assms
proof (induction seg arbitrary: m i j db)
  case Nil
  then show ?case by (simp add: rows_of_def max_def)
next
  case (Cons r seg)
  from Cons.prems(7) obtain j' where j: "j = Suc j'" by (cases j) auto
  from Cons.prems(7) have i: "i < length rs"
    by (metis drop_eq_Nil leI list.distinct(1) take_Nil)
  then have "drop i rs = rs ! i # drop (Suc i) rs" by (rule Cons_nth_drop_Suc [symmetric])
  with Cons.prems(7) j have r: "r = rs ! i" and seg: "seg = take j' (drop (Suc i) rs)" by simp_all
  have own: "cr_user r = uid" "r \<in> set rs" using Cons.prems(5) i r by auto
  show ?case
  proof (cases "i < m")
    case True
    then have "r \<in> set (rows_of uid db)"
      using Cons.prems(1,2) r by (auto simp: in_set_conv_nth intro!: exI [of _ i])
    then have "cr_id r \<in> cr_id ` set (chats db)" by (auto simp: rows_of_def)
    with Cons.IH [OF Cons.prems(1,2) _ Cons.prems(4,5,6) seg] True show ?thesis by simp
  next
    case False
    with Cons.prems(3) have m: "m = i" by simp
    have new: "cr_id r \<notin> cr_id ` set (chats db)"
    proof
      assume "cr_id r \<in> cr_id ` set (chats db)"
      then obtain x where x: "x \<in> set (chats db)" "cr_id x = cr_id r" by auto
      with Cons.prems(6) own have "cr_user x = uid" by (metis image_eqI)
      with x have "x \<in> set (rows_of uid db)" by (simp add: rows_of_def)
      then have "x \<in> set (take i rs)" using Cons.prems(1) m by simp
      then obtain k where "k < i" and k: "x = rs ! k" by (auto simp: in_set_conv_nth)
      with Cons.prems(4) i x(2) r show False by (simp add: distinct_conv_nth)
    qed
    let ?db = "db\<lparr>chats := chats db @ [r]\<rparr>"
    have 1: "rows_of uid ?db = take (Suc i) rs"
      using Cons.prems(1) own i r m by (simp add: rows_of_def take_Suc_conv_app_nth)
    have 2: "\<forall>x\<in>set (chats ?db). cr_user x \<noteq> uid \<longrightarrow> cr_id x \<notin> cr_id ` set rs"
      using Cons.prems(6) own by simp
    from Cons.IH [OF 1 _ _ Cons.prems(4,5) 2 seg] i new m show ?thesis
      by (simp add: max_def)
  qed
qed

lemma readable_to_row: "readable_row (to_row c) \<longleftrightarrow> readable (c_role c)"
proof (cases "readable (c_role c)")
  case True
  then have "role_from_str (string_of_role (c_role c)) = Inr (c_role c)" by (simp add: role_of_string)
  with True show ?thesis by (simp add: readable_row_def to_row_def is_ok_def)
qed (simp add: readable_row_def to_row_def is_ok_def role_of_string_fails)

lemma own_rows_snoc:
  assumes "own_rows uid rs" and "readable_row r \<longrightarrow> to_row (read_row r) = r" and "cr_user r = uid"
    and "cr_counter r = int (length rs) + 1" and "\<forall>x\<in>set rs. cr_id x < cr_id r"
  shows "own_rows uid (rs @ [r])"
  using assms by (auto simp: own_rows_def sorted_wrt_append)

lemma saved_row:
  assumes "readable (c_role c)"
  shows "readable_row (to_row c) \<and> to_row (read_row (to_row c)) = to_row c"
proof -
  have f: "from_row (to_row c) = Inr c" using assms by (simp add: from_row_to_row)
  then have "readable_row (to_row c)"
    using from_row_unreadable by fastforce
  with f show ?thesis by (simp add: read_row_def)
qed

lemma saved_row_reads: "readable_row (to_row c) \<Longrightarrow> to_row (read_row (to_row c)) = to_row c"
  using saved_row by (simp add: readable_to_row)

lemma rows_of_other:
  "save_chat other resp uuid now db = Inr (c, db') \<Longrightarrow> other \<noteq> uid \<Longrightarrow> rows_of uid db' = rows_of uid db"
  by (auto simp: save_chat_eq Let_def rows_of_def to_row_def split: if_splits)

lemma apply_delta_grows:
  assumes "\<forall>r. fault r \<noteq> Some ''UNIQUE constraint failed: chats.id''"
  shows "\<exists>ys. chats (apply_delta fault sfault d db) = chats db @ ys \<and> set ys \<subseteq> to_row ` set (d_chats d)"
proof -
  let ?cs = "map to_row (d_chats d)"
  obtain k where "chats (apply_delta fault sfault d db) = chat_loop.add_new (take k ?cs) (chats db)"
    using chat_loop.prefix_applied [of fault ?cs "chats db"] assms by (auto simp: apply_delta_def)
  moreover have "set (take k ?cs) \<subseteq> to_row ` set (d_chats d)" using set_take_subset [of k ?cs] by simp
  ultimately show ?thesis using chat_loop.add_new_grows [of "take k ?cs" "chats db"] by fastforce
qed

lemma apply_delta_distinct:
  assumes "\<forall>r. fault r \<noteq> Some ''UNIQUE constraint failed: chats.id''" and "distinct (map cr_id (chats db))"
  shows "distinct (map cr_id (chats (apply_delta fault sfault d db)))"
proof -
  let ?cs = "map to_row (d_chats d)"
  obtain k where "chats (apply_delta fault sfault d db) = chat_loop.add_new (take k ?cs) (chats db)"
    using chat_loop.prefix_applied [of fault ?cs "chats db"] assms(1) by (auto simp: apply_delta_def)
  with assms(2) show ?thesis by (simp add: chat_loop.add_new_distinct)
qed

lemma apply_delta_other:
  assumes "\<forall>c\<in>set (d_chats d). c_user c \<noteq> uid"
    and "\<forall>r. fault r \<noteq> Some ''UNIQUE constraint failed: chats.id''"
  shows "rows_of uid (apply_delta fault sfault d db) = rows_of uid db"
proof -
  obtain ys where "chats (apply_delta fault sfault d db) = chats db @ ys"
    and "set ys \<subseteq> to_row ` set (d_chats d)"
    using apply_delta_grows [OF assms(2)] by blast
  moreover have "cr_user (to_row c) = c_user c" for c by (simp add: to_row_def)
  ultimately have "\<forall>r\<in>set ys. cr_user r \<noteq> uid" using assms(1) by fastforce
  with \<open>chats (apply_delta fault sfault d db) = chats db @ ys\<close> show ?thesis
    by (simp add: rows_of_def filter_empty_conv)
qed

text \<open>One lemma per step for the first invariant: the owner saves, the replica grows, a delta
  is sent.\<close>

lemma copy_inv_save_own:
  assumes I: "copy_inv uid s" and save: "save_chat uid resp uuid now (owner s) = Inr (c, db)"
    and new: "\<forall>r\<in>set (chats (owner s)). cr_user r = uid \<longrightarrow> cr_id r < uuid"
      "uuid \<notin> cr_id ` set (chats (replica s))"
  shows "rows_of uid db = rows_of uid (owner s) @ [to_row c] \<and> copy_inv uid (s\<lparr>owner := db\<rparr>)"
proof -
  let ?rs = "rows_of uid (owner s)"
  from save have db: "db = (owner s)\<lparr>chats := chats (owner s) @ [to_row c]\<rparr>"
    and c: "c_id c = uuid" "c_user c = uid" "c_counter c = get_last_row_counter uid (owner s) + 1"
    by (auto simp: save_chat_eq Let_def split: if_splits)
  have rows: "rows_of uid db = ?rs @ [to_row c]" by (simp add: db rows_of_def to_row_def c)
  have own: "own_rows uid ?rs" using I by (simp add: copy_inv_def)
  have "own_rows uid (?rs @ [to_row c])"
  proof (rule own_rows_snoc [OF own])
    show "cr_counter (to_row c) = int (length ?rs) + 1"
      using own_rows_last [OF own, of "length ?rs" "owner s"] by (simp add: to_row_def c)
    show "\<forall>x\<in>set ?rs. cr_id x < cr_id (to_row c)"
      using new(1) by (auto simp: to_row_def c rows_of_def)
  qed (simp_all add: saved_row_reads, simp add: to_row_def c)
  moreover have "\<exists>j. map to_row (d_chats (an_delta x)) = take j (drop (nat (an_since x)) (?rs @ [to_row c]))"
    if "x \<in> set (flight s)" for x
  proof -
    from I that obtain j where "map to_row (d_chats (an_delta x)) = take j (drop (nat (an_since x)) ?rs)"
      by (auto simp: copy_inv_def)
    then show ?thesis by (intro exI [of _ "min j (length ?rs - nat (an_since x))"]) (auto simp: min_def)
  qed
  moreover have "\<forall>r\<in>set (chats (replica s)). cr_user r \<noteq> uid \<longrightarrow> cr_id r \<notin> cr_id ` set (?rs @ [to_row c])"
    using I new(2) by (auto simp: copy_inv_def to_row_def c)
  ultimately show ?thesis using I unfolding copy_inv_def by (simp add: rows) blast
qed

lemma copy_inv_replica:
  assumes "copy_inv uid s" and "chats db = chats (replica s) @ ys" and "distinct (map cr_id (chats db))"
    and "\<forall>r\<in>set ys. if cr_user r = uid then r \<in> set (rows_of uid (owner s))
           else cr_id r \<notin> cr_id ` set (rows_of uid (owner s))"
  shows "copy_inv uid (s\<lparr>replica := db\<rparr>)"
proof -
  have "rows_of uid db = rows_of uid (replica s) @ filter (\<lambda>r. cr_user r = uid) ys"
    by (simp add: rows_of_def assms(2))
  with assms(1,4) have "set (rows_of uid db) \<subseteq> set (rows_of uid (owner s))"
    by (auto simp: copy_inv_def split: if_splits)
  moreover have "\<forall>r\<in>set (chats db). cr_user r \<noteq> uid \<longrightarrow> cr_id r \<notin> cr_id ` set (rows_of uid (owner s))"
    using assms(1,2,4) by (auto simp: copy_inv_def split: if_splits)
  ultimately show ?thesis using assms(1,3) by (simp add: copy_inv_def)
qed

lemma copy_inv_send:
  assumes "copy_inv uid s" and "get_delta uid (an_since x) (owner s) = Inr (an_delta x)"
  shows "copy_inv uid (s\<lparr>flight := x # flight s\<rparr>)"
proof -
  have "own_rows uid (rows_of uid (owner s))" using assms(1) by (simp add: copy_inv_def)
  from own_delta [OF this assms(2)] have
    "\<exists>j. map to_row (d_chats (an_delta x)) = take j (drop (nat (an_since x)) (rows_of uid (owner s)))"
    by (intro exI [of _ "length (rows_of uid (owner s))"]) simp
  with assms(1) show ?thesis by (simp add: copy_inv_def)
qed

lemma copy_inv_deliver:
  assumes I: "copy_inv uid s" and "x \<in> set (flight s)"
    and fault: "\<forall>r. fault r \<noteq> Some ''UNIQUE constraint failed: chats.id''"
  shows "copy_inv uid (s\<lparr>replica := apply_delta fault sfault (an_delta x) (replica s)\<rparr>)"
proof -
  let ?rs = "rows_of uid (owner s)" and ?ds = "map to_row (d_chats (an_delta x))"
  from assms(1,2) obtain j where "?ds = take j (drop (nat (an_since x)) ?rs)"
    by (auto simp: copy_inv_def)
  then have ds: "set ?ds \<subseteq> set ?rs" by (metis order_trans set_drop_subset set_take_subset)
  obtain ys where ys: "chats (apply_delta fault sfault (an_delta x) (replica s)) = chats (replica s) @ ys"
    "set ys \<subseteq> to_row ` set (d_chats (an_delta x))"
    using apply_delta_grows [OF fault] by blast
  have di: "distinct (map cr_id (chats (apply_delta fault sfault (an_delta x) (replica s))))"
    using I by (intro apply_delta_distinct [OF fault]) (simp add: copy_inv_def)
  have "r \<in> set ?rs \<and> cr_user r = uid" if "r \<in> set ys" for r
    using that ys(2) ds by (auto simp: rows_of_def)
  then show ?thesis by (intro copy_inv_replica [OF I ys(1) di]) simp
qed

lemma copy_inv_other:
  assumes "copy_inv uid s" and "\<forall>c\<in>set (d_chats d). c_user c \<noteq> uid \<and> c_id c \<notin> cr_id ` set (chats (owner s))"
    and fault: "\<forall>r. fault r \<noteq> Some ''UNIQUE constraint failed: chats.id''"
  shows "copy_inv uid (s\<lparr>replica := apply_delta fault sfault d (replica s)\<rparr>)"
proof -
  obtain ys where ys: "chats (apply_delta fault sfault d (replica s)) = chats (replica s) @ ys"
    "set ys \<subseteq> to_row ` set (d_chats d)"
    using apply_delta_grows [OF fault] by blast
  have di: "distinct (map cr_id (chats (apply_delta fault sfault d (replica s))))"
    using assms(1) by (intro apply_delta_distinct [OF fault]) (simp add: copy_inv_def)
  have "set (rows_of uid (owner s)) \<subseteq> set (chats (owner s))" by (auto simp: rows_of_def)
  with ys(2) assms(2) have "\<forall>r\<in>set ys. cr_user r \<noteq> uid \<and> cr_id r \<notin> cr_id ` set (rows_of uid (owner s))"
    by (fastforce simp: to_row_def)
  then show ?thesis by (intro copy_inv_replica [OF assms(1) ys(1) di]) simp
qed

lemma copy_inv_save_other:
  assumes "copy_inv uid s" and save: "save_chat other resp uuid now (replica s) = Inr (c, db)"
    and "other \<noteq> uid" and new: "uuid \<notin> cr_id ` set (chats (owner s))"
  shows "copy_inv uid (s\<lparr>replica := db\<rparr>)"
proof -
  from save have db: "chats db = chats (replica s) @ [to_row c]" "cr_id (to_row c) = uuid"
      "cr_user (to_row c) = other" "uuid \<notin> cr_id ` set (chats (replica s))"
    by (auto simp: save_chat_eq Let_def to_row_def split: if_splits)
  have "set (rows_of uid (owner s)) \<subseteq> set (chats (owner s))" by (auto simp: rows_of_def)
  then show ?thesis
    using assms(1,3) new db by (intro copy_inv_replica [OF assms(1) db(1)]) (auto simp: copy_inv_def)
qed

lemma copy_inv_step: "sync_step astray uid s s' \<Longrightarrow> copy_inv uid s \<Longrightarrow> copy_inv uid s'"
proof (induction rule: sync_step.induct)
  case (save_own resp uuid now s c db)
  then show ?case using copy_inv_save_own by blast
next
  case (save_other_owner other resp uuid now s c db)
  then have "rows_of uid db = rows_of uid (owner s)" by (intro rows_of_other)
  with save_other_owner show ?case by (simp add: copy_inv_def)
next
  case (save_other other resp uuid now s c db)
  then show ?case by (intro copy_inv_save_other)
next
  case (deliver_owner d fault s sfault)
  then have "rows_of uid (apply_delta fault sfault d (owner s)) = rows_of uid (owner s)"
    by (intro apply_delta_other)
  with deliver_owner.prems show ?case by (simp add: copy_inv_def)
next
  case (deliver_other d s fault sfault)
  then show ?case by (intro copy_inv_other)
next
  case (request s d)
  then show ?case by (intro copy_inv_send) simp_all
next
  case (request_elsewhere lrc s d)
  then show ?case by (intro copy_inv_send) simp_all
next
  case (deliver x s fault sfault)
  then show ?case by (intro copy_inv_deliver)
next
  case (lose x s)
  have "set (remove1 x (flight s)) \<subseteq> set (flight s)" by (rule set_remove1_subset)
  with lose.prems show ?case unfolding copy_inv_def by simp (meson subsetD)
qed

text \<open>In step, the replica has the first of the owner's chats, and its counter is their number.\<close>

lemma net_inv_copy: "net_inv uid s \<Longrightarrow> copy_inv uid s" and copy_inv_own: "copy_inv uid s \<Longrightarrow> own_rows uid (rows_of uid (owner s))"
  by (simp_all add: net_inv_def copy_inv_def)

lemma net_inv_prefix:
  assumes "net_inv uid s"
  obtains m where "m \<le> length (rows_of uid (owner s))"
    and "rows_of uid (replica s) = take m (rows_of uid (owner s))"
    and "get_last_row_counter uid (replica s) = int m"
    and "\<forall>x\<in>set (flight s). an_ours x \<longrightarrow> nat (an_since x) \<le> m"
  using assms own_rows_last unfolding net_inv_def copy_inv_def by blast

lemma deliver_prefix:
  assumes I: "net_inv uid s" and x: "x \<in> set (flight s)" and "in_step uid (replica s) x"
    and fault: "\<forall>r. fault r \<noteq> Some ''UNIQUE constraint failed: chats.id''"
  shows "\<exists>n\<ge>length (rows_of uid (replica s)).
    rows_of uid (apply_delta fault sfault (an_delta x) (replica s)) = take n (rows_of uid (owner s))"
proof -
  let ?rs = "rows_of uid (owner s)" and ?b = "replica s"
  let ?ds = "map to_row (d_chats (an_delta x))" and ?i = "nat (an_since x)"
  obtain m where m: "m \<le> length ?rs" "rows_of uid ?b = take m ?rs" "get_last_row_counter uid ?b = int m"
    and f: "\<forall>x\<in>set (flight s). an_ours x \<longrightarrow> nat (an_since x) \<le> m"
    using net_inv_prefix [OF I] by blast
  have i: "?i \<le> m" using f x assms(3) m(3) by (auto simp: in_step_def)
  from I x obtain j where seg: "?ds = take j (drop ?i ?rs)"
    by (auto simp: net_inv_def copy_inv_def)
  obtain k where k: "chats (apply_delta fault sfault (an_delta x) ?b) = chat_loop.add_new (take k ?ds) (chats ?b)"
    using chat_loop.prefix_applied [of fault ?ds "chats ?b"] fault by (auto simp: apply_delta_def)
  have "filter (\<lambda>r. cr_user r = uid) (chat_loop.add_new (take k ?ds) (chats ?b))
      = take (max m (?i + length (take k ?ds))) ?rs"
  proof (rule rows_of_add_new [OF m(2,1) i])
    show "take k ?ds = take (min k j) (drop ?i ?rs)" by (simp only: seg take_take)
  qed (use I in \<open>auto simp: net_inv_def copy_inv_def own_rows_def strict_sorted_iff\<close>)
  then have "rows_of uid (apply_delta fault sfault (an_delta x) ?b) = take (max m (?i + length (take k ?ds))) ?rs"
    by (simp add: rows_of_def [of _ "apply_delta fault sfault (an_delta x) ?b"] k)
  then show ?thesis using m(1,2)
    by (intro exI [of _ "max m (?i + length (take k ?ds))"]) simp
qed

lemma net_inv_grown:
  assumes "net_inv uid s" and "copy_inv uid (s\<lparr>replica := db\<rparr>)" and "n \<ge> length (rows_of uid (replica s))"
    and "rows_of uid db = take n (rows_of uid (owner s))"
  shows "net_inv uid (s\<lparr>replica := db\<rparr>)"
proof -
  let ?n = "min n (length (rows_of uid (owner s)))"
  obtain m where m: "m \<le> length (rows_of uid (owner s))"
    "rows_of uid (replica s) = take m (rows_of uid (owner s))"
    and f: "\<forall>x\<in>set (flight s). an_ours x \<longrightarrow> nat (an_since x) \<le> m"
    using net_inv_prefix [OF assms(1)] by blast
  have "m \<le> ?n" using assms(3) m by simp
  moreover have "rows_of uid db = take ?n (rows_of uid (owner s))" using assms(4) by (simp add: min_def)
  ultimately show ?thesis using assms(2) f unfolding net_inv_def
    by (intro conjI exI [of _ ?n]) auto
qed

lemma net_inv_save_own:
  assumes I: "net_inv uid s" and "save_chat uid resp uuid now (owner s) = Inr (c, db)"
    and "\<forall>r\<in>set (chats (owner s)). cr_user r = uid \<longrightarrow> cr_id r < uuid"
    and "uuid \<notin> cr_id ` set (chats (replica s))"
  shows "net_inv uid (s\<lparr>owner := db\<rparr>)"
proof -
  have "rows_of uid db = rows_of uid (owner s) @ [to_row c]" "copy_inv uid (s\<lparr>owner := db\<rparr>)"
    using copy_inv_save_own [OF net_inv_copy [OF I] assms(2-4)] by simp_all
  moreover obtain m where "m \<le> length (rows_of uid (owner s))"
    "rows_of uid (replica s) = take m (rows_of uid (owner s))"
    "\<forall>x\<in>set (flight s). an_ours x \<longrightarrow> nat (an_since x) \<le> m"
    using net_inv_prefix [OF I] by blast
  ultimately show ?thesis unfolding net_inv_def by (intro conjI exI [of _ m]) auto
qed

lemma net_inv_request:
  assumes I: "net_inv uid s"
    and "get_delta uid (get_last_row_counter uid (replica s)) (owner s) = Inr d"
  shows "net_inv uid (s\<lparr>flight := \<lparr>an_ours = True,
    an_since = get_last_row_counter uid (replica s), an_delta = d\<rparr> # flight s\<rparr>)" (is "net_inv uid ?s")
proof -
  have "copy_inv uid ?s" using assms(2) by (intro copy_inv_send [OF net_inv_copy [OF I]]) simp
  moreover obtain m where "m \<le> length (rows_of uid (owner s))"
    "rows_of uid (replica s) = take m (rows_of uid (owner s))" "get_last_row_counter uid (replica s) = int m"
    "\<forall>x\<in>set (flight s). an_ours x \<longrightarrow> nat (an_since x) \<le> m"
    using net_inv_prefix [OF I] by blast
  ultimately show ?thesis unfolding net_inv_def by (intro conjI exI [of _ m]) auto
qed

lemma net_inv_step: "sync_step astray uid s s' \<Longrightarrow> \<not> astray \<Longrightarrow> net_inv uid s \<Longrightarrow> net_inv uid s'"
proof (induction rule: sync_step.induct)
  case (save_own resp uuid now s c db)
  then show ?case by (intro net_inv_save_own)
next
  case (save_other_owner other resp uuid now s c db)
  then have "rows_of uid db = rows_of uid (owner s)" by (intro rows_of_other)
  with save_other_owner.prems show ?case by (simp add: net_inv_def copy_inv_def)
next
  case (save_other other resp uuid now s c db)
  then have "rows_of uid db = rows_of uid (replica s)" by (intro rows_of_other)
  moreover from save_other have "copy_inv uid (s\<lparr>replica := db\<rparr>)"
    by (intro copy_inv_save_other net_inv_copy)
  ultimately show ?case using save_other.prems by (auto simp: net_inv_def)
next
  case (deliver_owner d fault s sfault)
  then have "rows_of uid (apply_delta fault sfault d (owner s)) = rows_of uid (owner s)"
    by (intro apply_delta_other)
  with deliver_owner.prems show ?case by (simp add: net_inv_def copy_inv_def)
next
  case (deliver_other d s fault sfault)
  then have "rows_of uid (apply_delta fault sfault d (replica s)) = rows_of uid (replica s)"
    by (intro apply_delta_other) auto
  moreover from deliver_other have "copy_inv uid (s\<lparr>replica := apply_delta fault sfault d (replica s)\<rparr>)"
    by (intro copy_inv_other net_inv_copy)
  ultimately show ?case using deliver_other.prems by (auto simp: net_inv_def)
next
  case (request s d)
  then show ?case by (intro net_inv_request)
next
  case (request_elsewhere lrc s d)
  then have "copy_inv uid (s\<lparr>flight := \<lparr>an_ours = False, an_since = lrc, an_delta = d\<rparr> # flight s\<rparr>)"
    by (intro copy_inv_send net_inv_copy) simp_all
  with request_elsewhere.prems show ?case by (auto simp: net_inv_def)
next
  case (deliver x s fault sfault)
  then have "copy_inv uid (s\<lparr>replica := apply_delta fault sfault (an_delta x) (replica s)\<rparr>)"
    by (intro copy_inv_deliver net_inv_copy)
  moreover obtain n where "n \<ge> length (rows_of uid (replica s))"
    "rows_of uid (apply_delta fault sfault (an_delta x) (replica s)) = take n (rows_of uid (owner s))"
    using deliver_prefix [of uid s x fault sfault] deliver by blast
  ultimately show ?case using deliver.prems by (intro net_inv_grown)
next
  case (lose x s)
  then have "copy_inv uid (s\<lparr>flight := remove1 x (flight s)\<rparr>)"
    by (intro copy_inv_step [OF sync_step.lose [where astray = astray]] net_inv_copy)
  moreover have "set (remove1 x (flight s)) \<subseteq> set (flight s)" by (rule set_remove1_subset)
  ultimately show ?case using lose.prems unfolding net_inv_def by simp (meson subsetD)
qed

lemma copy_inv_reachable: "sync_reachable astray uid s \<Longrightarrow> copy_inv uid s"
proof (induction rule: sync_reachable.induct)
  case start
  show ?case by (simp add: copy_inv_def rows_of_def empty_chats_def own_rows_def)
next
  case (step s s')
  then show ?case by (blast intro: copy_inv_step)
qed

lemma net_inv_reachable: "sync_reachable astray uid s \<Longrightarrow> \<not> astray \<Longrightarrow> net_inv uid s"
proof (induction rule: sync_reachable.induct)
  case start
  show ?case by (simp add: net_inv_def copy_inv_def rows_of_def empty_chats_def own_rows_def)
next
  case (step s s')
  then show ?case by (blast intro: net_inv_step)
qed

text \<open>A delta of the rows after the replica's counter: all of them are new to it.\<close>

lemma add_new_fresh:
  assumes "distinct (map cr_id seg)" and "cr_id ` set seg \<inter> cr_id ` set t = {}"
  shows "chat_loop.add_new seg t = t @ seg"
  using assms by (induction seg arbitrary: t) auto

lemma own_row_at:
  assumes "own_rows uid rs" and "r \<in> set rs"
  shows "r \<in> set (drop (nat k) rs) \<longleftrightarrow> cr_counter r > k"
  using assms by (simp flip: own_rows_after)

lemma delta_applied:
  assumes I: "copy_inv uid s"
    and get: "get_delta uid (get_last_row_counter uid (replica s)) (owner s) = Inr d"
  shows "rows_of uid (apply_delta (\<lambda>_. None) (\<lambda>_. None) d (replica s)) =
    rows_of uid (replica s) @ drop (nat (get_last_row_counter uid (replica s))) (rows_of uid (owner s))"
proof -
  let ?rs = "rows_of uid (owner s)" and ?b = "replica s" and ?k = "get_last_row_counter uid (replica s)"
  let ?new = "drop (nat ?k) ?rs"
  have own: "own_rows uid ?rs" using I by (rule copy_inv_own)
  have d: "map to_row (d_chats d) = ?new" by (rule own_delta [OF own get])
  have di: "distinct (map cr_id ?rs)" by (rule own_rows_distinct [OF own])
  have "cr_id r \<noteq> cr_id x" if r: "r \<in> set ?new" and x: "x \<in> set (chats ?b)" for r x
  proof
    assume eq: "cr_id r = cr_id x"
    have r': "r \<in> set ?rs" using r by (rule in_set_dropD)
    have "cr_id x \<in> cr_id ` set ?rs" using r' by (simp flip: eq)
    with I x have "cr_user x = uid" unfolding copy_inv_def by blast
    with x have x': "x \<in> set (rows_of uid ?b)" by (simp add: rows_of_def)
    with I have "x \<in> set ?rs" by (auto simp: copy_inv_def)
    with di r' eq have "x = r" by (simp add: distinct_map inj_on_def)
    moreover have "cr_counter r > ?k" using r r' by (simp add: own_row_at [OF own])
    moreover have "cr_counter x \<le> ?k" using x' by (intro counter_le_last) (auto simp: rows_of_def)
    ultimately show False by simp
  qed
  then have "chat_loop.add_new ?new (chats ?b) = chats ?b @ ?new"
    using di by (intro add_new_fresh) (auto simp flip: drop_map)
  moreover have "filter (\<lambda>r. cr_user r = uid) ?new = ?new"
    using own by (auto simp: filter_id_conv own_rows_def dest: in_set_dropD)
  ultimately show ?thesis
    by (simp add: apply_delta_def chat_loop.no_fault d rows_of_def [of uid "_\<lparr>chats := _, sessions := _\<rparr>"])
      (simp add: rows_of_def)
qed

lemma caught_up:
  assumes I: "net_inv uid s"
    and get: "get_delta uid (get_last_row_counter uid (replica s)) (owner s) = Inr d"
  shows "rows_of uid (apply_delta (\<lambda>_. None) (\<lambda>_. None) d (replica s)) = rows_of uid (owner s)"
proof -
  obtain m where "rows_of uid (replica s) = take m (rows_of uid (owner s))"
    "get_last_row_counter uid (replica s) = int m"
    using net_inv_prefix [OF I] by blast
  with delta_applied [OF net_inv_copy [OF I] get] show ?thesis by simp
qed

lemma last_counter_snoc:
  "get_last_row_counter uid (db\<lparr>chats := chats db @ [r]\<rparr>) =
     (if cr_user r = uid
      then if rows_of uid db = [] then cr_counter r else max (cr_counter r) (get_last_row_counter uid db)
      else get_last_row_counter uid db)"
proof (cases "cr_user r = uid")
  case True
  have "rows_of uid (db\<lparr>chats := chats db @ [r]\<rparr>) = rows_of uid db @ [r]"
    using True by (simp add: rows_of_def)
  then show ?thesis using True
    by (cases "rows_of uid db = []") (simp_all add: get_last_row_counter_def Let_def max.commute)
qed (simp add: get_last_row_counter_def rows_of_def)

section \<open>Properties\<close>

text \<open>Saving a chat gives it the next counter of its user and appends its row; the
  counters of the other users stay. The rows from it on can be read back, and so synced,
  exactly when its role is one of system, user and assistant.\<close>

theorem save_chat_correct:
  assumes "save_chat uid resp uuid now db = Inr (c, db')"
  shows "c_counter c = get_last_row_counter uid db + 1 \<and>
    get_last_row_counter uid db' = c_counter c \<and>
    (other \<noteq> uid \<longrightarrow> get_last_row_counter other db' = get_last_row_counter other db) \<and>
    chats db' = chats db @ [to_row c] \<and> sessions db' = sessions db \<and>
    (is_ok (get_delta uid (c_counter c - 1) db') \<longleftrightarrow> readable (rp_role resp))"
proof -
  from assms have db: "db' = db\<lparr>chats := chats db @ [to_row c]\<rparr>"
    and c: "c_user c = uid" "c_role c = rp_role resp"
      "c_counter c = get_last_row_counter uid db + 1"
    by (auto simp: save_chat_eq Let_def split: if_splits)
  have r: "cr_user (to_row c) = uid" "cr_counter (to_row c) = get_last_row_counter uid db + 1"
    by (simp_all add: to_row_def c)
  have "filter (\<lambda>r. cr_user r = uid \<and> cr_counter r > get_last_row_counter uid db) (chats db) = []"
    using counter_le_last by (fastforce simp: filter_empty_conv)
  then have "is_ok (get_delta uid (c_counter c - 1) db') \<longleftrightarrow> readable_row (to_row c)"
    by (simp add: get_delta_ok_iff db r c)
  moreover have "readable_row (to_row c) \<longleftrightarrow> readable (rp_role resp)"
    by (simp add: readable_to_row c(2))
  moreover have "get_last_row_counter uid db' = c_counter c"
    using c(3) by (simp add: db last_counter_snoc r max_def)
  moreover have "get_last_row_counter other db' = get_last_row_counter other db" if "other \<noteq> uid"
    using that by (simp add: db last_counter_snoc r)
  ultimately show ?thesis by (simp add: db c)
qed

text \<open>C5. A delta holds the user's chats after the given counter, each one in full and in
  the order of their ids, and every session those chats name, once.\<close>

theorem get_delta_exact:
  assumes "get_delta uid lrc db = Inr d"
  shows "d_chats d = map read_row (sort_key cr_id (filter (\<lambda>r. cr_user r = uid \<and> cr_counter r > lrc) (chats db))) \<and>
    distinct (map s_id (d_sessions d)) \<and>
    set (d_sessions d) =
      {s. \<exists>r\<in>set (chats db). cr_user r = uid \<and> cr_counter r > lrc \<and>
            unwrap_or_empty (cr_session r) \<noteq> [] \<and>
            fetch_session db (unwrap_or_empty (cr_session r)) = Some s}"
proof -
  let ?P = "\<lambda>r. cr_user r = uid \<and> cr_counter r > lrc"
  have "list_all readable_row (filter ?P (chats db))"
    using assms get_delta_ok_iff [of uid lrc db] by (simp add: is_ok_def)
  then have "get_delta uid lrc db = Inr \<lparr>d_chats = map read_row (sort_key cr_id (filter ?P (chats db))),
      d_sessions = note_all db (sort_key cr_id (filter ?P (chats db))) []\<rparr>"
    unfolding get_delta_def by (intro fetch_delta_ok) (auto simp: list_all_iff)
  with assms have d: "d = \<lparr>d_chats = map read_row (sort_key cr_id (filter ?P (chats db))),
      d_sessions = note_all db (sort_key cr_id (filter ?P (chats db))) []\<rparr>" by simp
  have "distinct (map s_id (d_sessions d)) \<and> set (d_sessions d) =
      set [] \<union> {s. \<exists>r\<in>set (sort_key cr_id (filter ?P (chats db))).
        unwrap_or_empty (cr_session r) \<noteq> [] \<and> fetch_session db (unwrap_or_empty (cr_session r)) = Some s}"
    unfolding d delta.select_convs by (rule note_all_spec) simp_all
  then show ?thesis by (simp add: d conj_assoc Bex_def)
qed

text \<open>C4. Applying a delta only appends rows, keeps the ids of both tables unique, and a
  delta whose application stopped anywhere can be applied again: that gives exactly what one
  undisturbed application gives, so applying a delta twice changes nothing either.\<close>

theorem apply_delta_resume:
  assumes "\<forall>r. fault r \<noteq> Some ''UNIQUE constraint failed: chats.id''"
    and "\<forall>s. sfault s \<noteq> Some ''UNIQUE constraint failed: sessions.id''"
  shows "(\<exists>ys zs. chats (apply_delta fault sfault d db) = chats db @ ys \<and> set ys \<subseteq> to_row ` set (d_chats d) \<and>
      sessions (apply_delta fault sfault d db) = sessions db @ zs) \<and>
    (wf_chats db \<longrightarrow> wf_chats (apply_delta fault sfault d db)) \<and>
    apply_delta (\<lambda>_. None) (\<lambda>_. None) d (apply_delta fault sfault d db) = apply_delta (\<lambda>_. None) (\<lambda>_. None) d db"
proof -
  let ?cs = "map to_row (d_chats d)" and ?ss = "map (\<lambda>s. s\<lparr>s_snapshot := None\<rparr>) (d_sessions d)"
  let ?db = "apply_delta fault sfault d db"
  obtain k where k: "chats ?db = chat_loop.add_new (take k ?cs) (chats db)"
    using chat_loop.prefix_applied [of fault ?cs "chats db"] assms(1) by (auto simp: apply_delta_def)
  obtain l where l: "sessions ?db = session_loop.add_new (take l ?ss) (sessions db)"
    using session_loop.prefix_applied [of sfault ?ss "sessions db"] assms(2) by (auto simp: apply_delta_def)
  obtain ys where ys: "chats ?db = chats db @ ys" "set ys \<subseteq> set (take k ?cs)"
    using chat_loop.add_new_grows [of "take k ?cs" "chats db"] k by auto
  obtain zs where zs: "sessions ?db = sessions db @ zs"
    using session_loop.add_new_grows [of "take l ?ss" "sessions db"] l by auto
  have uc: "wf_table chat_indexes t \<longleftrightarrow> distinct (map cr_id t)" for t
    by (simp add: wf_table_def chat_indexes_def unique_on_def List.map_filter_def distinct_map inj_on_def Ball_def)
  have us: "wf_table session_indexes t \<longleftrightarrow> distinct (map s_id t)" for t
    by (simp add: wf_table_def session_indexes_def unique_on_def List.map_filter_def distinct_map inj_on_def Ball_def)
  have "set ys \<subseteq> to_row ` set (d_chats d)"
    using ys(2) set_take_subset [of k ?cs] by auto
  moreover have "wf_chats db \<longrightarrow> wf_chats ?db"
    by (simp add: wf_chats_def uc us k l chat_loop.add_new_distinct session_loop.add_new_distinct)
  moreover have "apply_delta (\<lambda>_. None) (\<lambda>_. None) d ?db = apply_delta (\<lambda>_. None) (\<lambda>_. None) d db"
    unfolding apply_delta_def [of "\<lambda>_. None"] chat_loop.no_fault session_loop.no_fault k l
      chat_loop.add_new_resume session_loop.add_new_resume
    by (simp add: apply_delta_def)
  ultimately show ?thesis using ys(1) zs by blast
qed

text \<open>C1. However requests, deliveries, losses, failures and saves of any role interleave,
  and whichever device asked for a delta, the chats of the user that the replica has are
  chats of the owner, each one once and unchanged. As long as it is given only deltas it asked
  for, or that begin no later than what it has, they are the owner's first chats, in order:
  then no counter is skipped, and the counter it asks from is their number. (A delta asked for
  by a device that is further ahead, which goes to every device, can skip some:
  \<open>misdirected_delta_loses_chats\<close>.)\<close>

theorem sync_prefix:
  assumes "sync_reachable astray uid s"
  shows "set (rows_of uid (replica s)) \<subseteq> set (rows_of uid (owner s)) \<and>
    distinct (map cr_id (rows_of uid (replica s))) \<and>
    (\<not> astray \<longrightarrow> (\<exists>m\<le>length (rows_of uid (owner s)).
      rows_of uid (replica s) = take m (rows_of uid (owner s)) \<and>
      get_last_row_counter uid (replica s) = int m))"
proof -
  have "copy_inv uid s" by (rule copy_inv_reachable [OF assms])
  then have "set (rows_of uid (replica s)) \<subseteq> set (rows_of uid (owner s))"
    "distinct (map cr_id (rows_of uid (replica s)))"
    by (simp_all add: copy_inv_def rows_of_def distinct_map_filter)
  then show ?thesis using net_inv_prefix [OF net_inv_reachable [OF assms]] by metis
qed

text \<open>C2. From every reachable state, the owner answers the replica's request exactly if each
  of its chats after the replica's last counter has a role that can be read back. Then one
  delivery without a fault adds exactly those chats, in order. It makes the replica level
  with the owner if it was never given a delta that begins after what it had; chats skipped
  that way stay missing.\<close>

theorem sync_converges:
  assumes "sync_reachable astray uid s" and "k = get_last_row_counter uid (replica s)"
  shows "((\<exists>d. get_delta uid k (owner s) = Inr d) \<longleftrightarrow>
      (\<forall>r\<in>set (rows_of uid (owner s)). cr_counter r > k \<longrightarrow> readable_row r)) \<and>
    (\<forall>d. get_delta uid k (owner s) = Inr d \<longrightarrow>
      rows_of uid (apply_delta (\<lambda>_. None) (\<lambda>_. None) d (replica s)) =
        rows_of uid (replica s) @ filter (\<lambda>r. cr_counter r > k) (rows_of uid (owner s)) \<and>
      (\<not> astray \<longrightarrow>
        rows_of uid (apply_delta (\<lambda>_. None) (\<lambda>_. None) d (replica s)) = rows_of uid (owner s)))"
proof -
  have I: "copy_inv uid s" by (rule copy_inv_reachable [OF assms(1)])
  have own: "own_rows uid (rows_of uid (owner s))" by (rule copy_inv_own [OF I])
  have "(\<exists>d. get_delta uid k (owner s) = Inr d) \<longleftrightarrow>
      (\<forall>r\<in>set (rows_of uid (owner s)). cr_counter r > k \<longrightarrow> readable_row r)"
    using delta_there [OF own, of k]
    by (auto simp: is_ok_def list_all_iff simp flip: own_rows_after [OF own] split: sum.splits)
  then show ?thesis
    using delta_applied [OF I] caught_up [OF net_inv_reachable [OF assms(1)]]
    by (simp add: assms(2) own_rows_after [OF own])
qed

section \<open>Witnesses\<close>

text \<open>A short run: the owner saves a chat, the replica asks for it and applies the delta.\<close>

definition hello :: chat_response where
  "hello = \<lparr>rp_input = ''hi'', rp_session_id = ''s1'', rp_role = User, rp_parent = None, rp_model = ''m''\<rparr>"

definition hello_chat :: chat where
  "hello_chat = \<lparr>c_id = ''1'', c_content = ''hi'', c_resp = None, c_role = User, c_user = ''a'',
     c_ctx = None, c_created = 7, c_updated = 7, c_counter = 1, c_session = ''s1'', c_model = ''m''\<rparr>"

definition hello_db :: chat_db where
  "hello_db = \<lparr>chats = [to_row hello_chat], sessions = []\<rparr>"

definition hello_delta :: delta where
  "hello_delta = \<lparr>d_chats = [hello_chat], d_sessions = []\<rparr>"

lemma hello_saved: "save_chat ''a'' hello ''1'' 7 empty_chats = Inr (hello_chat, hello_db)"
  by (simp add: save_chat_eq Let_def empty_chats_def hello_def hello_chat_def hello_db_def
      get_last_row_counter_def rows_of_def)

lemma hello_got: "get_delta ''a'' 0 hello_db = Inr hello_delta"
proof -
  have r: "from_row (to_row hello_chat) = Inr hello_chat"
    by (simp add: from_row_to_row hello_chat_def readable_def)
  have "sort_key cr_id (filter (\<lambda>r. cr_user r = ''a'' \<and> cr_counter r > 0) (chats hello_db)) = [to_row hello_chat]"
    by (simp add: hello_db_def to_row_def hello_chat_def)
  moreover have "note_session hello_db x [] = []" for x
    by (simp add: note_session_def fetch_session_def hello_db_def query_row_def ok_def)
  ultimately show ?thesis
    by (simp add: get_delta_def fetch_delta_chats_def r Let_def hello_delta_def)
qed

lemma hello_applied: "apply_delta (\<lambda>_. None) (\<lambda>_. None) hello_delta empty_chats = hello_db"
  by (simp add: apply_delta_def hello_delta_def empty_chats_def hello_db_def exec_insert_def insert_chat)

definition hello_answer :: answer where
  "hello_answer = \<lparr>an_ours = True, an_since = 0, an_delta = hello_delta\<rparr>"

lemma hello_run: "sync_reachable astray ''a'' \<lparr>owner = hello_db, replica = hello_db, flight = [hello_answer]\<rparr>"
proof -
  let ?s0 = "\<lparr>owner = empty_chats, replica = empty_chats, flight = []\<rparr>"
  let ?s1 = "\<lparr>owner = hello_db, replica = empty_chats, flight = []\<rparr>"
  let ?s2 = "\<lparr>owner = hello_db, replica = empty_chats, flight = [hello_answer]\<rparr>"
  have zero: "get_last_row_counter ''a'' empty_chats = 0"
    by (simp add: get_last_row_counter_def rows_of_def empty_chats_def)
  have "sync_step astray ''a'' ?s0 (?s0\<lparr>owner := hello_db\<rparr>)"
    by (rule save_own [where resp = hello and uuid = "''1''" and now = 7 and c = hello_chat])
      (simp_all only: net.select_convs hello_saved, simp_all add: empty_chats_def)
  then have "sync_reachable astray ''a'' ?s1" by (auto intro: sync_reachable.intros)
  moreover have "sync_step astray ''a'' ?s1 (?s1\<lparr>flight := hello_answer # flight ?s1\<rparr>)"
    using request [of "''a''" ?s1 hello_delta astray] by (simp add: zero hello_got hello_answer_def)
  ultimately have "sync_reachable astray ''a'' ?s2" by (auto intro: sync_reachable.step)
  moreover have "sync_step astray ''a'' ?s2
      (?s2\<lparr>replica := apply_delta (\<lambda>_. None) (\<lambda>_. None) (an_delta hello_answer) (replica ?s2)\<rparr>)"
    by (rule deliver) (simp_all add: in_step_def hello_answer_def)
  ultimately show ?thesis by (auto intro: sync_reachable.step simp: hello_applied hello_answer_def)
qed

lemma save_chat_correct_witness:
  "c_counter hello_chat = 1 \<and> get_last_row_counter ''a'' hello_db = 1 \<and> is_ok (get_delta ''a'' 0 hello_db)"
  using save_chat_correct [OF hello_saved, of "''b''"]
  by (simp add: hello_chat_def hello_def readable_def)

lemma get_delta_exact_witness:
  "d_chats hello_delta = [read_row (to_row hello_chat)] \<and> d_sessions hello_delta = []"
  using get_delta_exact [OF hello_got]
  by (simp add: hello_db_def to_row_def hello_chat_def fetch_session_def query_row_def ok_def)

lemma apply_delta_resume_witness:
  "apply_delta (\<lambda>_. None) (\<lambda>_. None) hello_delta
     (apply_delta (\<lambda>_. Some ''disk full'') (\<lambda>_. None) hello_delta empty_chats) = hello_db"
  using apply_delta_resume [of "\<lambda>_. Some ''disk full''" "\<lambda>_. None" hello_delta empty_chats]
  by (simp add: hello_applied)

lemma sync_prefix_witness:
  "\<exists>m\<le>1. rows_of ''a'' hello_db = take m [to_row hello_chat] \<and> get_last_row_counter ''a'' hello_db = int m"
  using sync_prefix [OF hello_run [of False]]
  by (simp add: rows_of_def hello_db_def to_row_def hello_chat_def)

lemma sync_converges_witness:
  "\<exists>d. get_delta ''a'' 1 hello_db = Inr d \<and>
     rows_of ''a'' (apply_delta (\<lambda>_. None) (\<lambda>_. None) d hello_db) = rows_of ''a'' hello_db"
proof -
  have "get_last_row_counter ''a'' hello_db = 1" "\<forall>r\<in>set (rows_of ''a'' hello_db). cr_counter r \<le> 1"
    by (simp_all add: get_last_row_counter_def rows_of_def hello_db_def to_row_def hello_chat_def)
  with sync_converges [OF hello_run [of False], of 1] show ?thesis by fastforce
qed

end
