(* ===== verification/Network.thy ===== *)
theory Network
  imports Chats
begin

text \<open>
  The peer-to-peer protocol (\<open>tiles/src/core/network/mod.rs\<close>, \<open>ticket.rs\<close>): linking
  two devices and syncing their chats over a gossip topic. A node is its user, its two
  databases and whether its database task (\<open>chats.rs\<close>, \<open>create_db_channel\<close>) still runs. Every
  handler is a function from the node and a message to what the loop does next, the new node,
  the messages it broadcasts and the events it sends to its caller. What comes from outside
  the sources (gossip, blobs, postcard, keys, UCAN) is the record \<open>peer_env\<close>; what a handler
  draws afresh (nonce, ids, time) or meets by chance (write errors) is the record \<open>inputs\<close>.
  Sending on a channel or a topic is taken to succeed.
\<close>

section \<open>Data\<close>

datatype body =
    LinkRequest string string "string option"
  | LinkAccepted
  | LinkRejected string
  | SyncStart "int option" string
  | SyncSendDeltaInfo string "int option"
  | SyncEnd
  | SyncRejected string

datatype msg_type = LinkMsg | SyncMsg

record net_msg =
  nm_did :: string
  nm_nick :: string
  nm_online :: bool
  nm_body :: body
  nm_nonce :: string
  nm_type :: msg_type

datatype process_type = Listener | Initiator

datatype loop_code = Exit | Continue

datatype api_event = DeviceLinkFailed string | DeviceLinkSuccess | SyncFailed string | SyncSuccess | OtherApiEvent

record ('d, 'i, 'c) peer_env =
  pe_debug :: bool
  pe_did_of_key :: "string \<Rightarrow> acct_error + string"
  pe_decode_msg :: "string \<Rightarrow> acct_error + net_msg"
  pe_encode_delta :: "delta \<Rightarrow> string"
  pe_decode_delta :: "string \<Rightarrow> acct_error + delta"
  pe_ticket :: "string \<Rightarrow> string \<Rightarrow> string"
  pe_parse_ticket :: "string \<Rightarrow> acct_error + string"
  pe_download :: "string \<Rightarrow> string \<Rightarrow> acct_error + string"
  pe_ucan :: "'d ucan"
  pe_verifier :: "('d, 'i, 'c) verifier"

record inputs =
  in_nonce :: string
  in_uuid :: string
  in_uuid2 :: string
  in_now :: nat
  in_fault :: "chat_row \<Rightarrow> string option"
  in_sfault :: "session \<Rightarrow> string option"

record node =
  n_user :: user
  n_common :: common_db
  n_chat :: chat_db
  n_worker :: bool

type_synonym outcome = "(acct_error + loop_code) \<times> node \<times> net_msg list \<times> api_event list"

definition max_downloaded_bytes :: nat where
  "max_downloaded_bytes = 50 * 1024 * 1024"

definition new_msg :: "inputs \<Rightarrow> user \<Rightarrow> bool \<Rightarrow> body \<Rightarrow> msg_type \<Rightarrow> net_msg" where
  "new_msg I user online b ty =
     \<lparr>nm_did = u_user_id user, nm_nick = (case u_username user of Some n \<Rightarrow> n | None \<Rightarrow> ''''),
      nm_online = online, nm_body = b, nm_nonce = in_nonce I, nm_type = ty\<rparr>"

section \<open>The database task\<close>

text \<open>A task that ended no longer answers. A delta that does not decode ends it.\<close>

definition closed :: acct_error where
  "closed = Msg ''channel closed''"

definition fetch_last_row_counter :: "string \<Rightarrow> node \<Rightarrow> acct_error + int" where
  "fetch_last_row_counter uid n =
     (if n_worker n then Inr (get_last_row_counter uid (n_chat n)) else Inl closed)"

definition fetch_encoded_delta_ticket ::
  "('d, 'i, 'c) peer_env \<Rightarrow> string \<Rightarrow> int \<Rightarrow> string \<Rightarrow> node \<Rightarrow> acct_error + string" where
  "fetch_encoded_delta_ticket E uid lrc key n =
     (if n_worker n
      then res_bind (get_encoded_delta (pe_encode_delta E) uid lrc (n_chat n))
             (\<lambda>bytes. Inr (pe_ticket E key bytes))
      else Inl closed)"

definition request_apply_delta ::
  "('d, 'i, 'c) peer_env \<Rightarrow> inputs \<Rightarrow> string \<Rightarrow> node \<Rightarrow> (acct_error + unit) \<times> node" where
  "request_apply_delta E I bytes n =
     (if n_worker n
      then (case pe_decode_delta E bytes of
              Inl e \<Rightarrow> (Inl closed, n\<lparr>n_worker := False\<rparr>)
            | Inr d \<Rightarrow> (Inr (), n\<lparr>n_chat := apply_delta (in_fault I) (in_sfault I) d (n_chat n)\<rparr>))
      else (Inl closed, n))"

section \<open>Handlers\<close>

definition is_did_valid :: "('d, 'i, 'c) peer_env \<Rightarrow> string \<Rightarrow> string \<Rightarrow> acct_error + bool" where
  "is_did_valid E did key =
     (if pe_debug E then Inr True
      else res_bind (pe_did_of_key E key) (\<lambda>d. Inr (d = did)))"

definition handle_device_link_rejection_by_listener ::
  "inputs \<Rightarrow> string \<Rightarrow> bool \<Rightarrow> node \<Rightarrow> outcome" where
  "handle_device_link_rejection_by_listener I reason online n =
     (Inr Continue, n, [new_msg I (n_user n) online (LinkRejected reason) LinkMsg], [])"

definition handle_sync_rejection_by_listener ::
  "inputs \<Rightarrow> string \<Rightarrow> bool \<Rightarrow> loop_code \<Rightarrow> node \<Rightarrow> outcome" where
  "handle_sync_rejection_by_listener I reason online code n =
     (Inr code, n, [new_msg I (n_user n) online (SyncRejected reason) SyncMsg], [])"

text \<open>How an error is shown: the reason of a rejection depends on it.\<close>

definition show_acct_error :: "acct_error \<Rightarrow> string" where
  "show_acct_error e = (case e of Sql s \<Rightarrow> show_sql s | Msg m \<Rightarrow> m | Panic m \<Rightarrow> m)"

definition handle_device_link_events ::
  "('d, 'i, 'c) peer_env \<Rightarrow> process_type \<Rightarrow> inputs \<Rightarrow> net_msg \<Rightarrow> node \<Rightarrow> outcome" where
  "handle_device_link_events E p I m n =
     (case nm_body m of
        LinkRequest auth peer nick \<Rightarrow>
          if p = Initiator then (Inr Continue, n, [], [])
          else
            (case process_invocation_verification (pe_ucan E) (pe_verifier E) auth (n_common n) of
               Inl e \<Rightarrow> handle_device_link_rejection_by_listener I
                          (''link token invocation verification failed due to '' @ show_acct_error e)
                          (nm_online m) n
             | Inr _ \<Rightarrow>
                 (case add_token (pe_ucan E) peer nick (in_uuid I) (in_uuid2 I) (in_now I) (n_common n) of
                    Inl e \<Rightarrow> handle_device_link_rejection_by_listener I
                               (''adding peer delegation token failed due to '' @ show_acct_error e)
                               (nm_online m) n
                  | Inr (_, db) \<Rightarrow>
                      (Inr Continue, n\<lparr>n_common := db\<rparr>,
                       [new_msg I (n_user n) (nm_online m) LinkAccepted LinkMsg], [])))
      | LinkAccepted \<Rightarrow>
          if p = Listener then (Inr Continue, n, [], []) else (Inr Exit, n, [], [DeviceLinkSuccess])
      | LinkRejected reason \<Rightarrow>
          if p = Listener then (Inr Continue, n, [], [])
          else (Inr Exit, n, [], [DeviceLinkFailed reason])
      | _ \<Rightarrow> (Inr Continue, n, [], []))"

definition on_sync_start_event ::
  "('d, 'i, 'c) peer_env \<Rightarrow> inputs \<Rightarrow> string \<Rightarrow> net_msg \<Rightarrow> node \<Rightarrow> outcome" where
  "on_sync_start_event E I key m n =
     (case nm_body m of
        SyncStart lrc auth \<Rightarrow>
          (case process_invocation_verification (pe_ucan E) (pe_verifier E) auth (n_common n) of
             Inl e \<Rightarrow> handle_sync_rejection_by_listener I
                        (''Sync request failed due to '' @ show_acct_error e) (nm_online m) Continue n
           | Inr _ \<Rightarrow>
               (case res_bind (pe_did_of_key E key) (\<lambda>sender.
                     res_bind (ok_or (Msg ''lrc failed'') lrc) (\<lambda>c.
                     res_bind (fetch_encoded_delta_ticket E (u_user_id (n_user n)) c key n) (\<lambda>ticket.
                     res_bind (fetch_last_row_counter sender n) (\<lambda>mine. Inr (ticket, mine))))) of
                  Inl e \<Rightarrow> (Inl e, n, [], [])
                | Inr (ticket, mine) \<Rightarrow>
                    (Inr Continue, n,
                     [new_msg I (n_user n) (nm_online m) (SyncSendDeltaInfo ticket (Some mine)) SyncMsg], [])))
      | _ \<Rightarrow> (Inr Continue, n, [], []))"

text \<open>The second half of \<open>on_sync_send_delta_info\<close>: the answer once the delta is applied.\<close>

definition answer_delta_info ::
  "('d, 'i, 'c) peer_env \<Rightarrow> inputs \<Rightarrow> string \<Rightarrow> bool \<Rightarrow> int option \<Rightarrow> node \<Rightarrow> outcome" where
  "answer_delta_info E I key online lrc n =
     (case lrc of
        Some c \<Rightarrow>
          (case fetch_encoded_delta_ticket E (u_user_id (n_user n)) c key n of
             Inl e \<Rightarrow> (Inl e, n, [], [])
           | Inr ticket \<Rightarrow>
               (Inr Continue, n,
                [new_msg I (n_user n) online (SyncSendDeltaInfo ticket None) SyncMsg], []))
      | None \<Rightarrow> (Inr Continue, n, [new_msg I (n_user n) online SyncEnd SyncMsg], []))"

definition on_sync_send_delta_info ::
  "('d, 'i, 'c) peer_env \<Rightarrow> inputs \<Rightarrow> string \<Rightarrow> net_msg \<Rightarrow> node \<Rightarrow> outcome" where
  "on_sync_send_delta_info E I key m n =
     (case nm_body m of
        SyncSendDeltaInfo blob lrc \<Rightarrow>
          (case res_bind (pe_parse_ticket E blob) (\<lambda>hash. pe_download E hash key) of
             Inl e \<Rightarrow> (Inl e, n, [], [])
           | Inr data \<Rightarrow>
               if length data > max_downloaded_bytes
               then handle_sync_rejection_by_listener I
                      (''Downloaded delta is greater than '' @ show_nat max_downloaded_bytes
                        @ '', skipping the sync'')
                      (nm_online m) (if lrc = None then Continue else Exit) n
               else
                 (case request_apply_delta E I data n of
                    (Inl e, n') \<Rightarrow> (Inl e, n', [], [])
                  | (Inr _, n') \<Rightarrow> answer_delta_info E I key (nm_online m) lrc n'))
      | _ \<Rightarrow> (Inr Continue, n, [], []))"

definition handle_sync_events ::
  "('d, 'i, 'c) peer_env \<Rightarrow> process_type \<Rightarrow> inputs \<Rightarrow> string \<Rightarrow> net_msg \<Rightarrow> node \<Rightarrow> outcome" where
  "handle_sync_events E p I key m n =
     (case nm_body m of
        SyncStart _ _ \<Rightarrow>
          if p = Initiator then (Inr Continue, n, [], []) else on_sync_start_event E I key m n
      | SyncSendDeltaInfo _ _ \<Rightarrow> on_sync_send_delta_info E I key m n
      | SyncEnd \<Rightarrow>
          if p = Listener then (Inr Continue, n, [], []) else (Inr Exit, n, [], [SyncSuccess])
      | SyncRejected reason \<Rightarrow>
          if p = Listener then (Inr Continue, n, [], []) else (Inr Exit, n, [], [SyncFailed reason])
      | _ \<Rightarrow> (Inr Continue, n, [], []))"

section \<open>The gossip loop\<close>

text \<open>
  One event of the loop, and the loop over the events that arrive. An error of a handler is
  logged and the loop goes on. A linking process has no sync helpers (\<open>has_helpers\<close>).
\<close>

datatype gossip_event = Received string string inputs | OtherGossipEvent

definition gossip_step ::
  "('d, 'i, 'c) peer_env \<Rightarrow> process_type \<Rightarrow> bool \<Rightarrow> gossip_event \<Rightarrow> node
     \<Rightarrow> loop_code \<times> node \<times> net_msg list \<times> api_event list" where
  "gossip_step E p has_helpers ev n =
     (case ev of
        OtherGossipEvent \<Rightarrow> (Continue, n, [], [])
      | Received key content I \<Rightarrow>
          (case pe_decode_msg E content of
             Inl _ \<Rightarrow> (Continue, n, [], [])
           | Inr m \<Rightarrow>
               (case is_did_valid E (nm_did m) key of
                  Inl _ \<Rightarrow> (Continue, n, [], [])
                | Inr False \<Rightarrow> (Continue, n, [], [])
                | Inr True \<Rightarrow>
                    (case (case nm_type m of
                             LinkMsg \<Rightarrow> handle_device_link_events E p I m n
                           | SyncMsg \<Rightarrow> if has_helpers then handle_sync_events E p I key m n
                                       else (Inr Exit, n, [], [])) of
                       (Inl _, n', out, evs) \<Rightarrow> (Continue, n', out, evs)
                     | (Inr code, n', out, evs) \<Rightarrow> (code, n', out, evs)))))"

fun process_gossip_network_events ::
  "('d, 'i, 'c) peer_env \<Rightarrow> process_type \<Rightarrow> bool \<Rightarrow> gossip_event list \<Rightarrow> node
     \<Rightarrow> loop_code \<times> node \<times> net_msg list \<times> api_event list" where
  "process_gossip_network_events E p h [] n = (Continue, n, [], [])"
| "process_gossip_network_events E p h (ev # evs) n =
     (case gossip_step E p h ev n of
        (Exit, n', out, es) \<Rightarrow> (Exit, n', out, es)
      | (Continue, n', out, es) \<Rightarrow>
          (case process_gossip_network_events E p h evs n' of
             (c, n'', out', es') \<Rightarrow> (c, n'', out @ out', es @ es')))"

section \<open>The initiators\<close>

text \<open>
  Linking: the delegation the peer gets in return is one this device gave it before, or a new
  one. The result is the first message of the linking process; the tables keep a new token
  even where a later step fails. Joining the topic and waiting for the answer are the network's.
\<close>

definition peer_delegation_token ::
  "'d ucan \<Rightarrow> (string \<Rightarrow> string \<Rightarrow> string list \<Rightarrow> acct_error + 'd) \<Rightarrow> (string \<Rightarrow> acct_error + string)
   \<Rightarrow> inputs \<Rightarrow> user \<Rightarrow> token \<Rightarrow> common_db \<Rightarrow> acct_error + (token \<times> common_db)" where
  "peer_delegation_token U bld signer I user link db =
     (case find (\<lambda>t. t_aud t = t_did link) (fetch_delegated_tokens (t_aud link) (Some Linked) db) of
        Some t \<Rightarrow> Inr (t, db)
      | None \<Rightarrow> create_token U bld signer (t_did link) (u_username user) CapAll
                  (in_uuid I) (in_uuid2 I) (in_now I) db)"

definition initiate_device_linking ::
  "'d ucan \<Rightarrow> (string \<Rightarrow> string \<Rightarrow> string list \<Rightarrow> acct_error + 'd)
   \<Rightarrow> (string \<Rightarrow> string \<Rightarrow> string list \<Rightarrow> acct_error + string) \<Rightarrow> (string \<Rightarrow> acct_error + string)
   \<Rightarrow> (string \<Rightarrow> acct_error + string) \<Rightarrow> inputs \<Rightarrow> string \<Rightarrow> common_db
   \<Rightarrow> (acct_error + string \<times> net_msg) \<times> common_db" where
  "initiate_device_linking U bld build_inv signer key_of_did I link_token db =
     (case res_bind (get_current_user db) (\<lambda>user.
             res_bind (parse_ucan_delegation U (in_uuid I) (in_now I) link_token) (\<lambda>link.
             res_bind (peer_delegation_token U bld signer I user link db) (\<lambda>(peer, db).
             Inr (user, link, peer, db)))) of
        Inl e \<Rightarrow> (Inl e, db)
      | Inr (user, link, peer, db) \<Rightarrow>
          (res_bind (create_invocation_token U build_inv signer [link_token] db) (\<lambda>inv.
           res_bind (key_of_did (t_did link)) (\<lambda>_.
             Inr (''tiles:'' @ t_did link,
                  new_msg I user True (LinkRequest inv (t_token peer) (u_username user)) LinkMsg))),
           db))"

definition start_sync ::
  "'d ucan \<Rightarrow> (string \<Rightarrow> string \<Rightarrow> string list \<Rightarrow> acct_error + string) \<Rightarrow> (string \<Rightarrow> acct_error + string)
   \<Rightarrow> (string \<Rightarrow> acct_error + string) \<Rightarrow> inputs \<Rightarrow> string \<Rightarrow> common_db \<Rightarrow> chat_db
   \<Rightarrow> acct_error + string \<times> net_msg" where
  "start_sync U build_inv signer key_of_did I did db cdb =
     res_bind (get_current_user db) (\<lambda>user.
     res_bind (key_of_did did) (\<lambda>_.
     res_bind (create_invocation_token U build_inv signer
                 (map t_token (fetch_delegated_tokens did None db)) db) (\<lambda>inv.
       Inr (''tiles:'' @ did,
            new_msg I user True (SyncStart (Some (get_last_row_counter did cdb)) inv) SyncMsg))))"

text \<open>What the caller of the process makes of the first event, of a closed channel and of none.\<close>

datatype wait = Got api_event | ChannelClosed | TimedOut

definition link_response :: "wait \<Rightarrow> acct_error + unit" where
  "link_response w =
     (case w of
        Got (DeviceLinkFailed reason) \<Rightarrow> Inl (Msg reason)
      | Got DeviceLinkSuccess \<Rightarrow> Inr ()
      | Got _ \<Rightarrow> Inl (Msg ''Invalid event'')
      | ChannelClosed \<Rightarrow> Inl (Msg ''Network process closed unexpectedly'')
      | TimedOut \<Rightarrow> Inl (Msg ''Timed out waiting for linking response''))"

definition sync_response :: "wait \<Rightarrow> acct_error + unit" where
  "sync_response w =
     (case w of
        Got (SyncFailed reason) \<Rightarrow> Inl (Msg reason)
      | Got SyncSuccess \<Rightarrow> Inr ()
      | Got _ \<Rightarrow> Inl (Msg ''Invalid event'')
      | ChannelClosed \<Rightarrow> Inl (Msg ''Network process closed unexpectedly'')
      | TimedOut \<Rightarrow> Inl (Msg ''Timed out waiting for syncing response''))"

section \<open>Tickets\<close>

text \<open>A ticket is the lower-case base32 of its bytes, and is parsed in either case. Base32 and
  the bytes (\<open>postcard\<close>) are arguments, an endpoint address and a topic abstract.\<close>

record ('a, 'b) link_ticket =
  lt_nickname :: string
  lt_did :: string
  lt_addr :: 'a
  lt_topic :: 'b

record endpoint_user_data =
  eu_did :: string
  eu_nickname :: string

definition ticket_to_string :: "(string \<Rightarrow> string) \<Rightarrow> ('t \<Rightarrow> string) \<Rightarrow> 't \<Rightarrow> string" where
  "ticket_to_string b32 enc t = to_lowercase (b32 (enc t))"

definition ticket_from_str ::
  "(string \<Rightarrow> string option) \<Rightarrow> (string \<Rightarrow> 't option) \<Rightarrow> string \<Rightarrow> acct_error + 't" where
  "ticket_from_str b32d dec s =
     res_bind (ok_or (Msg ''invalid base32'') (b32d (to_uppercase s)))
       (\<lambda>bytes. ok_or (Msg ''invalid ticket'') (dec bytes))"

definition link_ticket_new :: "'b \<Rightarrow> 'a \<Rightarrow> string \<Rightarrow> string \<Rightarrow> ('a, 'b) link_ticket" where
  "link_ticket_new topic addr did nickname =
     \<lparr>lt_nickname = nickname, lt_did = did, lt_addr = addr, lt_topic = topic\<rparr>"

definition endpoint_user_data_new :: "string \<Rightarrow> string \<Rightarrow> endpoint_user_data" where
  "endpoint_user_data_new did nickname = \<lparr>eu_did = did, eu_nickname = nickname\<rparr>"

section \<open>What one event does\<close>

lemma reject_simps [simp]:
  "handle_device_link_rejection_by_listener I r b n =
     (Inr Continue, n, [new_msg I (n_user n) b (LinkRejected r) LinkMsg], [])"
  "handle_sync_rejection_by_listener I r b c n =
     (Inr c, n, [new_msg I (n_user n) b (SyncRejected r) SyncMsg], [])"
  by (simp_all add: handle_device_link_rejection_by_listener_def handle_sync_rejection_by_listener_def)

lemma new_msg_simps [simp]:
  "nm_body (new_msg I u b x t) = x" "nm_type (new_msg I u b x t) = t"
  "nm_did (new_msg I u b x t) = u_user_id u" "nm_online (new_msg I u b x t) = b"
  by (simp_all add: new_msg_def)

text \<open>The message of an event that the loop hands to a handler.\<close>

definition delivered_msg :: "('d, 'i, 'c) peer_env \<Rightarrow> gossip_event \<Rightarrow> (string \<times> inputs \<times> net_msg) option" where
  "delivered_msg E ev =
     (case ev of
        Received key content I \<Rightarrow>
          (case pe_decode_msg E content of
             Inr m \<Rightarrow> if is_did_valid E (nm_did m) key = Inr True then Some (key, I, m) else None
           | Inl _ \<Rightarrow> None)
      | OtherGossipEvent \<Rightarrow> None)"

lemma gossip_step_ignored: "delivered_msg E ev = None \<Longrightarrow> gossip_step E p h ev n = (Continue, n, [], [])"
  by (auto simp: delivered_msg_def gossip_step_def split: gossip_event.splits sum.splits bool.splits if_splits)

lemma gossip_step_accepted:
  "delivered_msg E ev = Some (key, I, m) \<Longrightarrow> gossip_step E p h ev n =
     (case (case nm_type m of
              LinkMsg \<Rightarrow> handle_device_link_events E p I m n
            | SyncMsg \<Rightarrow> if h then handle_sync_events E p I key m n else (Inr Exit, n, [], [])) of
        (Inl _, n', out, evs) \<Rightarrow> (Continue, n', out, evs)
      | (Inr code, n', out, evs) \<Rightarrow> (code, n', out, evs))"
  by (auto simp: delivered_msg_def gossip_step_def split: gossip_event.splits sum.splits if_splits)

text \<open>A delta that a listener finds too large, sent to it as to an initiator.\<close>

definition fetched :: "('d, 'i, 'c) peer_env \<Rightarrow> string \<Rightarrow> string \<Rightarrow> acct_error + string" where
  "fetched E key blob = res_bind (pe_parse_ticket E blob) (\<lambda>hash. pe_download E hash key)"

definition oversize_info :: "('d, 'i, 'c) peer_env \<Rightarrow> gossip_event \<Rightarrow> bool" where
  "oversize_info E ev =
     (case delivered_msg E ev of
        Some (key, I, m) \<Rightarrow>
          nm_type m = SyncMsg \<and>
          (case nm_body m of
             SyncSendDeltaInfo blob (Some c) \<Rightarrow>
               (case fetched E key blob of Inr data \<Rightarrow> length data > max_downloaded_bytes | Inl _ \<Rightarrow> False)
           | _ \<Rightarrow> False)
      | None \<Rightarrow> False)"

lemma answer_continues [simp]: "answer_delta_info E I key b lrc n = (Inr Exit, x) \<longleftrightarrow> False"
  by (auto simp: answer_delta_info_def split: option.splits sum.splits)

lemma start_continues [simp]: "on_sync_start_event E I key m n = (Inr Exit, x) \<longleftrightarrow> False"
  by (auto simp: on_sync_start_event_def split: body.splits sum.splits)

lemma link_listener_continues:
  "fst (handle_device_link_events E Listener I m n) = Inr Continue"
  by (auto simp: handle_device_link_events_def split: body.splits sum.splits)

lemma delta_info_exit:
  "fst (on_sync_send_delta_info E I key m n) = Inr Exit \<longleftrightarrow>
     (case nm_body m of
        SyncSendDeltaInfo blob (Some c) \<Rightarrow>
          (case fetched E key blob of Inr data \<Rightarrow> length data > max_downloaded_bytes | Inl _ \<Rightarrow> False)
      | _ \<Rightarrow> False)"
proof (cases "nm_body m")
  case (SyncSendDeltaInfo blob lrc)
  have a: "fst (answer_delta_info E I key b l x) \<noteq> Inr Exit" for b l x
    using answer_continues [of E I key b l x "snd (answer_delta_info E I key b l x)"]
    by (metis prod.collapse)
  show ?thesis
  proof (cases "fetched E key blob")
    case (Inr data)
    then show ?thesis using a
      by (cases lrc; cases "request_apply_delta E I data n"; cases "fst (request_apply_delta E I data n)")
        (auto simp: on_sync_send_delta_info_def SyncSendDeltaInfo fetched_def)
  next
    case (Inl e)
    then show ?thesis
      by (cases lrc) (simp_all add: on_sync_send_delta_info_def SyncSendDeltaInfo fetched_def)
  qed
qed (simp_all add: on_sync_send_delta_info_def)

lemma start_fst [simp]: "fst (on_sync_start_event E I key m n) \<noteq> Inr Exit"
  using start_continues [of E I key m n "snd (on_sync_start_event E I key m n)"]
  by (metis prod.collapse)

lemma sync_listener_exit:
  "fst (handle_sync_events E Listener I key m n) = Inr Exit \<longleftrightarrow>
     fst (on_sync_send_delta_info E I key m n) = Inr Exit"
  by (cases "nm_body m") (simp_all add: handle_sync_events_def on_sync_send_delta_info_def)

lemma step_code:
  "fst (case r of (Inl e, n', out, evs) \<Rightarrow> (Continue, n', out, evs)
         | (Inr code, n', out, evs) \<Rightarrow> (code, n', out, evs)) = Exit \<longleftrightarrow> fst r = Inr Exit"
  by (cases r; cases "fst r") auto

lemma listener_step_exit:
  "fst (gossip_step E Listener True ev n) = Exit \<longleftrightarrow> oversize_info E ev"
proof (cases "delivered_msg E ev")
  case None
  then show ?thesis by (simp add: gossip_step_ignored oversize_info_def)
next
  case (Some x)
  obtain key I m where x: "x = (key, I, m)" by (cases x)
  show ?thesis
  proof (cases "nm_type m")
    case LinkMsg
    then show ?thesis
      unfolding gossip_step_accepted [OF Some [unfolded x]] step_code
      using link_listener_continues [of E I m n] by (simp add: Some x oversize_info_def)
  next
    case SyncMsg
    then show ?thesis
      unfolding gossip_step_accepted [OF Some [unfolded x]] step_code
      by (simp add: Some x oversize_info_def sync_listener_exit delta_info_exit split: body.splits)
  qed
qed

text \<open>A linking process has no sync helpers, so it ends on any sync message of the topic.\<close>

lemma link_initiator_exit:
  "fst (handle_device_link_events E Initiator I m n) = Inr Exit \<longleftrightarrow>
     nm_body m = LinkAccepted \<or> (\<exists>r. nm_body m = LinkRejected r)"
  by (cases "nm_body m") (simp_all add: handle_device_link_events_def)

lemma linking_step_exit:
  "fst (gossip_step E Initiator False ev n) = Exit \<longleftrightarrow>
     (case delivered_msg E ev of
        Some (key, I, m) \<Rightarrow>
          nm_type m = SyncMsg \<or> nm_body m = LinkAccepted \<or> (\<exists>r. nm_body m = LinkRejected r)
      | None \<Rightarrow> False)"
proof (cases "delivered_msg E ev")
  case (Some x)
  obtain key I m where x: "x = (key, I, m)" by (cases x)
  show ?thesis
    unfolding gossip_step_accepted [OF Some [unfolded x]] step_code
    by (cases "nm_type m") (simp_all add: Some x link_initiator_exit)
qed (simp add: gossip_step_ignored)

lemma gossip_loop_exit:
  assumes "\<And>ev n. fst (gossip_step E p h ev n) = Exit \<longleftrightarrow> Q ev"
  shows "fst (process_gossip_network_events E p h evs n) = Exit \<longleftrightarrow> list_ex Q evs"
proof (induction evs arbitrary: n)
  case (Cons ev evs)
  obtain c n' out es where g: "gossip_step E p h ev n = (c, n', out, es)" by (metis prod_cases4)
  with assms [of ev n] have Q: "Q ev \<longleftrightarrow> c = Exit" by auto
  obtain c' n'' out' es' where r: "process_gossip_network_events E p h evs n' = (c', n'', out', es')"
    by (metis prod_cases4)
  from Cons.IH [of n'] r have "list_ex Q evs \<longleftrightarrow> c' = Exit" by auto
  then show ?case using g r Q by (cases c) simp_all
qed simp

section \<open>A sync between two devices\<close>

text \<open>What the libraries promise of a delta that is sent: it fits, it decodes to itself, and its
  blob is downloaded as it was added, whoever it is downloaded from.\<close>

definition carries :: "('d, 'i, 'c) peer_env \<Rightarrow> delta \<Rightarrow> bool" where
  "carries E d \<longleftrightarrow>
     length (pe_encode_delta E d) \<le> max_downloaded_bytes \<and>
     pe_decode_delta E (pe_encode_delta E d) = Inr d \<and>
     (\<forall>key key'. fetched E key' (pe_ticket E key (pe_encode_delta E d)) = Inr (pe_encode_delta E d))"

definition no_faults :: "inputs \<Rightarrow> bool" where
  "no_faults I \<longleftrightarrow> in_fault I = (\<lambda>_. None) \<and> in_sfault I = (\<lambda>_. None)"


lemma delta_info_done:
  assumes "carries E d" and "n_worker n"
    and "nm_body m = SyncSendDeltaInfo (pe_ticket E key' (pe_encode_delta E d)) lrc"
  shows "on_sync_send_delta_info E I key m n = answer_delta_info E I key (nm_online m) lrc
     (n\<lparr>n_chat := apply_delta (in_fault I) (in_sfault I) d (n_chat n)\<rparr>)"
  using assms
  by (simp add: on_sync_send_delta_info_def fetched_def carries_def request_apply_delta_def)




section \<open>A delta meant for another device\<close>

lemma last_counter_gap:
  assumes own: "own_rows uid rs" and "k < length rs" and "rows_of uid db = take m rs @ drop k rs"
  shows "get_last_row_counter uid db = int (length rs)"
proof -
  let ?S = "set (map cr_counter (rows_of uid db))"
  have le: "cr_counter r \<le> int (length rs)" if "r \<in> set rs" for r
    using that own_rows_counter [OF own] by (fastforce simp: in_set_conv_nth)
  have "set (rows_of uid db) \<subseteq> set rs"
    unfolding assms(3) using set_take_subset set_drop_subset by fastforce
  then have ub: "\<forall>c\<in>?S. c \<le> int (length rs)" using le by auto
  have "last (drop k rs) \<in> set (rows_of uid db)"
    unfolding assms(3) using assms(2) by (simp del: last_drop)
  moreover have "cr_counter (last (drop k rs)) = int (length rs)"
    using assms(2) own_rows_counter [OF own, of "length rs - 1"] by (auto simp: last_conv_nth)
  ultimately have "int (length rs) \<in> ?S" by force
  with ub have "Max ?S = int (length rs)" by (intro Max_eqI) auto
  moreover have "rows_of uid db \<noteq> []" using assms(2,3) by simp
  ultimately show ?thesis by (simp add: get_last_row_counter_def Let_def)
qed

lemma gap_applied:
  assumes own: "own_rows uid (rows_of uid a)" and m: "rows_of uid b = take m (rows_of uid a)"
    and "m < k" and "k < length (rows_of uid a)"
    and others: "\<forall>r\<in>set (chats b). cr_user r \<noteq> uid \<longrightarrow> cr_id r \<notin> cr_id ` set (rows_of uid a)"
    and get: "get_delta uid (int k) a = Inr d"
  shows "rows_of uid (apply_delta (\<lambda>_. None) (\<lambda>_. None) d b) = take m (rows_of uid a) @ drop k (rows_of uid a)"
proof -
  let ?rs = "rows_of uid a"
  from own_delta [OF own get] have d: "map to_row (d_chats d) = drop k ?rs" by simp
  have di: "distinct (map cr_id ?rs)" by (rule own_rows_distinct [OF own])
  have sub: "set (drop k ?rs) \<subseteq> set ?rs" by (rule set_drop_subset)
  have "distinct (map cr_id (take m ?rs @ drop k ?rs))"
  proof -
    have "set (take m ?rs) \<subseteq> set (take k ?rs)" using assms(3) by (simp add: set_take_subset_set_take)
    moreover have "distinct (map cr_id (take k ?rs) @ map cr_id (drop k ?rs))"
      using di by (metis append_take_drop_id map_append)
    moreover have "distinct (map cr_id (take m ?rs))" using di by (metis distinct_take take_map)
    ultimately show ?thesis by auto
  qed
  then have 1: "distinct (map cr_id (drop k ?rs))"
    and 2: "cr_id ` set (drop k ?rs) \<inter> cr_id ` set (take m ?rs) = {}" by auto
  have ids: "cr_id r \<notin> cr_id ` set (drop k ?rs)" if "r \<in> set (chats b)" for r
  proof (cases "cr_user r = uid")
    case True
    with that have "r \<in> set (rows_of uid b)" by (simp add: rows_of_def)
    then have "r \<in> set (take m ?rs)" using m by simp
    with 2 show ?thesis by blast
  qed (use others that sub in blast)
  have "cr_id ` set (drop k ?rs) \<inter> cr_id ` set (chats b) = {}"
  proof (rule equals0I)
    fix v
    assume "v \<in> cr_id ` set (drop k ?rs) \<inter> cr_id ` set (chats b)"
    then obtain r where "r \<in> set (chats b)" and "v = cr_id r" and "v \<in> cr_id ` set (drop k ?rs)" by blast
    with ids [of r] show False by simp
  qed
  then have "chat_loop.add_new (drop k ?rs) (chats b) = chats b @ drop k ?rs"
    by (rule add_new_fresh [OF 1])
  moreover have "filter (\<lambda>r. cr_user r = uid) (drop k ?rs) = drop k ?rs"
    using sub by (auto simp: filter_id_conv rows_of_def)
  moreover have "filter (\<lambda>r. cr_user r = uid) (chats b) = take m ?rs" using m by (simp add: rows_of_def)
  ultimately show ?thesis
    by (simp add: apply_delta_def chat_loop.no_fault d rows_of_def [of uid "_\<lparr>chats := _, sessions := _\<rparr>"])
qed

section \<open>Properties\<close>

text \<open>The listener's loop ends exactly on a delta that is too large and that carries a
  counter, which only an initiator should be sent: nothing else a peer sends, and no failure
  of a handler, stops it.\<close>

theorem listener_loop_exit:
  "fst (process_gossip_network_events E Listener True evs n) = Exit \<longleftrightarrow> list_ex (oversize_info E) evs"
  by (rule gossip_loop_exit) (rule listener_step_exit)

text \<open>The loop of a linking process ends exactly on an answer to a link request or on any
  sync message, of whichever device on the topic.\<close>

theorem linking_loop_exit:
  "fst (process_gossip_network_events E Initiator False evs n) = Exit \<longleftrightarrow>
     list_ex (\<lambda>ev. case delivered_msg E ev of
         Some (key, I, m) \<Rightarrow> nm_type m = SyncMsg \<or> nm_body m = LinkAccepted \<or> (\<exists>r. nm_body m = LinkRejected r)
       | None \<Rightarrow> False) evs"
  by (rule gossip_loop_exit) (rule linking_step_exit)

text \<open>A listener answers every link request with one message, accepts it exactly when the
  invocation verifies and the peer's delegation is added, and otherwise changes nothing.\<close>

theorem link_request_correct:
  assumes "nm_body m = LinkRequest auth peer nick"
  shows "\<exists>n' b. handle_device_link_events E Listener I m n =
      (Inr Continue, n', [new_msg I (n_user n) (nm_online m) b LinkMsg], []) \<and>
    n_chat n' = n_chat n \<and>
    (if is_ok (process_invocation_verification (pe_ucan E) (pe_verifier E) auth (n_common n)) \<and>
        is_ok (add_token (pe_ucan E) peer nick (in_uuid I) (in_uuid2 I) (in_now I) (n_common n))
     then b = LinkAccepted \<and>
       (\<exists>t. add_token (pe_ucan E) peer nick (in_uuid I) (in_uuid2 I) (in_now I) (n_common n) = Inr (t, n_common n'))
     else (\<exists>r. b = LinkRejected r) \<and> n' = n)"
  using assms
  by (cases "process_invocation_verification (pe_ucan E) (pe_verifier E) auth (n_common n)";
      cases "add_token (pe_ucan E) peer nick (in_uuid I) (in_uuid2 I) (in_now I) (n_common n)")
     (auto simp: handle_device_link_events_def is_ok_def)

text \<open>A sync request changes nothing, and chats leave the device only for a request whose
  invocation verifies: then the delta is the listener's own chats after the counter asked for.\<close>

theorem sync_start_guarded:
  assumes "on_sync_start_event E I key m n = (r, n', out, evs)"
    and "x \<in> set out" and "nm_body x = SyncSendDeltaInfo ticket c"
  shows "n' = n \<and> (\<exists>lrc auth d sender.
    nm_body m = SyncStart (Some lrc) auth \<and>
    process_invocation_verification (pe_ucan E) (pe_verifier E) auth (n_common n) = Inr () \<and>
    get_delta (u_user_id (n_user n)) lrc (n_chat n) = Inr d \<and>
    ticket = pe_ticket E key (pe_encode_delta E d) \<and>
    pe_did_of_key E key = Inr sender \<and> c = Some (get_last_row_counter sender (n_chat n)))"
  using assms
  by (auto simp: on_sync_start_event_def fetch_encoded_delta_ticket_def get_encoded_delta_def
      fetch_last_row_counter_def ok_or_def res_bind_eq_Inr
      split: body.splits sum.splits if_splits option.splits)

text \<open>A delta is applied whoever announces it: neither the tokens of the device nor its
  part in the sync are looked at, and a blob that is no delta ends the database task.\<close>

theorem delta_info_unauthenticated:
  assumes "nm_body m = SyncSendDeltaInfo blob lrc" and "fetched E key blob = Inr data"
    and "length data \<le> max_downloaded_bytes" and "n_worker n"
  shows "fst (snd (handle_sync_events E p I key m (n\<lparr>n_common := any\<rparr>))) =
    (case pe_decode_delta E data of
       Inr d \<Rightarrow> n\<lparr>n_common := any, n_chat := apply_delta (in_fault I) (in_sfault I) d (n_chat n)\<rparr>
     | Inl _ \<Rightarrow> n\<lparr>n_common := any, n_worker := False\<rparr>)"
  using assms
  by (cases "pe_decode_delta E data"; cases lrc)
     (auto simp: handle_sync_events_def on_sync_send_delta_info_def fetched_def request_apply_delta_def
      answer_delta_info_def split: sum.splits)


text \<open>A delta meant for another device that is further ahead is applied too, as it goes to
  the whole topic. The chats between the two counters are then missing for good: the next
  request is answered with an empty delta, which reports success and adds nothing.\<close>

theorem misdirected_delta_loses_chats:
  assumes "own_rows uid (rows_of uid a)" and "rows_of uid (n_chat n) = take m (rows_of uid a)"
    and "m < k" and "k < length (rows_of uid a)"
    and "\<forall>r\<in>set (chats (n_chat n)). cr_user r \<noteq> uid \<longrightarrow> cr_id r \<notin> cr_id ` set (rows_of uid a)"
    and "get_delta uid (int k) a = Inr d" and "carries E d" and "no_faults I" and "n_worker n"
    and "nm_body x = SyncSendDeltaInfo (pe_ticket E key (pe_encode_delta E d)) c"
  shows "\<exists>n' d'. fst (snd (handle_sync_events E Initiator I key' x n)) = n' \<and>
    rows_of uid (n_chat n') = take m (rows_of uid a) @ drop k (rows_of uid a) \<and>
    rows_of uid (n_chat n') \<noteq> rows_of uid a \<and>
    get_delta uid (get_last_row_counter uid (n_chat n')) a = Inr d' \<and> d_chats d' = []"
proof -
  let ?c' = "apply_delta (\<lambda>_. None) (\<lambda>_. None) d (n_chat n)"
  have h: "fst (snd (handle_sync_events E Initiator I key' x n)) = n\<lparr>n_chat := ?c'\<rparr>"
    using delta_info_done [OF assms(7,9,10), of I key'] assms(8,10)
    by (auto simp: handle_sync_events_def answer_delta_info_def no_faults_def split: option.splits sum.splits)
  have rows: "rows_of uid ?c' = take m (rows_of uid a) @ drop k (rows_of uid a)"
    by (rule gap_applied [OF assms(1-6)])
  have "length (rows_of uid ?c') < length (rows_of uid a)" unfolding rows using assms(3,4) by simp
  then have "rows_of uid ?c' \<noteq> rows_of uid a" by (metis less_irrefl)
  moreover have "get_last_row_counter uid ?c' = int (length (rows_of uid a))"
    by (rule last_counter_gap [OF assms(1,4) rows])
  moreover obtain d' where d': "get_delta uid (int (length (rows_of uid a))) a = Inr d'"
    using delta_there [OF assms(1), of "int (length (rows_of uid a))"] by (auto simp: is_ok_def split: sum.splits)
  moreover have "d_chats d' = []" using own_delta [OF assms(1) d'] by simp
  ultimately show ?thesis using h rows by (intro exI [of _ "n\<lparr>n_chat := ?c'\<rparr>"] exI [of _ d']) auto
qed

definition base32_text :: "string \<Rightarrow> bool" where
  "base32_text s \<longleftrightarrow> list_all (\<lambda>c. c \<in> set ''ABCDEFGHIJKLMNOPQRSTUVWXYZ234567'') s"

lemma upper_lower_b32: "base32_text s \<Longrightarrow> to_uppercase (to_lowercase s) = s \<and> to_uppercase s = s"
  unfolding base32_text_def
  by (induction s) (auto simp: to_uppercase_def to_lowercase_def upper_char_def lower_char_def)

text \<open>The text of a ticket, in lower case as it is printed or in upper case, parses back
  to the ticket.\<close>

theorem ticket_roundtrip:
  assumes "b32d (b32 (enc t)) = Some (enc t)" and "base32_text (b32 (enc t))" and "dec (enc t) = Some t"
  shows "ticket_from_str b32d dec (ticket_to_string b32 enc t) = Inr t \<and>
    ticket_from_str b32d dec (to_uppercase (ticket_to_string b32 enc t)) = Inr t"
  using assms upper_lower_b32 [OF assms(2)]
  by (simp add: ticket_from_str_def ticket_to_string_def ok_or_def)

section \<open>Witnesses\<close>

type_synonym sample_d = "string \<times> string \<times> string list"

definition sample_inputs :: inputs where
  "sample_inputs = \<lparr>in_nonce = ''n'', in_uuid = ''i1'', in_uuid2 = ''i2'', in_now = 9,
     in_fault = (\<lambda>_. None), in_sfault = (\<lambda>_. None)\<rparr>"

definition no_delta :: delta where
  "no_delta = \<lparr>d_chats = [], d_sessions = []\<rparr>"

definition sample_env :: "(sample_d, string, string) peer_env" where
  "sample_env = \<lparr>pe_debug = False, pe_did_of_key = Inr, pe_decode_msg = (\<lambda>_. Inl (Msg '''')),
     pe_encode_delta = (\<lambda>d. if d = hello_delta then ''h'' else if d = no_delta then ''o'' else ''''),
     pe_decode_delta = (\<lambda>s. if s = ''h'' then Inr hello_delta else if s = ''o'' then Inr no_delta else Inl (Msg '''')),
     pe_ticket = (\<lambda>_ b. b), pe_parse_ticket = Inr, pe_download = (\<lambda>h _. Inr h),
     pe_ucan = sample_ucan, pe_verifier = sample_verifier\<rparr>"

definition linked_db :: common_db where
  "linked_db = \<lparr>users = [sample_root], tokens = [sample_link ''c1'' ''did:me'' ''did:peer'']\<rparr>"

definition sample_node :: "string \<Rightarrow> chat_db \<Rightarrow> node" where
  "sample_node did db = \<lparr>n_user = sample_root\<lparr>u_user_id := did\<rparr>, n_common = linked_db, n_chat = db, n_worker = True\<rparr>"

definition sample_msg :: "body \<Rightarrow> net_msg" where
  "sample_msg b = new_msg sample_inputs sample_root True b SyncMsg"

lemma deltas_differ: "hello_delta \<noteq> no_delta"
  by (simp add: hello_delta_def no_delta_def)


lemma sample_verified:
  "process_invocation_verification sample_ucan sample_verifier ''did:me'' linked_db = Inr ()"
  by (simp add: process_invocation_verification_def sample_verifier_def fetch_delegated_tokens_def linked_db_def
      fetch_tokens_def token_clauses_def sample_link_def decode_delegation_def sample_ucan_def)

lemma sample_env_simps [simp]:
  "pe_ucan sample_env = sample_ucan" "pe_verifier sample_env = sample_verifier"
  "pe_did_of_key sample_env = Inr" "pe_encode_delta sample_env hello_delta = ''h''"
  "pe_encode_delta sample_env no_delta = ''o''" "pe_ticket sample_env k b = b"
  "fetched sample_env k t = Inr t" "pe_decode_delta sample_env ''h'' = Inr hello_delta"
  using deltas_differ by (auto simp: sample_env_def fetched_def)

lemma sample_node_simps [simp]:
  "n_chat (sample_node a db) = db" "n_worker (sample_node a db)" "n_common (sample_node a db) = linked_db"
  "u_user_id (n_user (sample_node a db)) = a"
  by (simp_all add: sample_node_def)

lemma sample_msg_simps [simp]: "nm_body (sample_msg b) = b" "nm_online (sample_msg b)"
  by (simp_all add: sample_msg_def)

lemma empty_rows [simp]: "rows_of u empty_chats = []" "get_last_row_counter u empty_chats = 0"
  by (simp_all add: rows_of_def empty_chats_def get_last_row_counter_def)

lemma empty_chats_chats [simp]: "chats empty_chats = []"
  by (simp add: empty_chats_def)




theorem link_request_correct_witness:
  "\<exists>n' r. handle_device_link_events sample_env Listener sample_inputs
      (sample_msg (LinkRequest ''did:me'' ''bad'' None)) (sample_node ''did:me'' empty_chats)
    = (Inr Continue, n', [new_msg sample_inputs (n_user (sample_node ''did:me'' empty_chats)) True (LinkRejected r) LinkMsg], [])
    \<and> n' = sample_node ''did:me'' empty_chats"
proof -
  have "nm_body (sample_msg (LinkRequest ''did:me'' ''bad'' None)) = LinkRequest ''did:me'' ''bad'' None"
    by simp
  moreover have "\<not> is_ok (add_token sample_ucan ''bad'' None i j t linked_db)" for i j t
    by (simp add: add_token_def decode_delegation_def sample_ucan_def ok_or_def is_ok_def)
  ultimately show ?thesis
    using link_request_correct [of "sample_msg (LinkRequest ''did:me'' ''bad'' None)" "''did:me''" "''bad''" None
        sample_env sample_inputs "sample_node ''did:me'' empty_chats"]
    by auto
qed

theorem sync_start_guarded_witness:
  "\<exists>d. get_delta ''a'' 0 hello_db = Inr d \<and> ''h'' = pe_ticket sample_env ''k'' (pe_encode_delta sample_env d)"
proof -
  let ?n = "sample_node ''a'' hello_db" and ?m = "sample_msg (SyncStart (Some 0) ''did:me'')"
  let ?x = "new_msg sample_inputs (n_user ?n) True (SyncSendDeltaInfo ''h'' (Some (get_last_row_counter ''k'' hello_db))) SyncMsg"
  have "on_sync_start_event sample_env sample_inputs ''k'' ?m ?n = (Inr Continue, ?n, [?x], [])"
    by (simp add: on_sync_start_event_def sample_verified ok_or_def fetch_encoded_delta_ticket_def
        get_encoded_delta_def hello_got fetch_last_row_counter_def)
  from sync_start_guarded [OF this, of ?x] show ?thesis by auto
qed

theorem delta_info_unauthenticated_witness:
  "n_chat (fst (snd (handle_sync_events sample_env Listener sample_inputs ''stranger''
     (sample_msg (SyncSendDeltaInfo ''h'' None)) ((sample_node ''b'' empty_chats)\<lparr>n_common := \<lparr>users = [], tokens = []\<rparr>\<rparr>))))
   = hello_db"
  using delta_info_unauthenticated [of "sample_msg (SyncSendDeltaInfo ''h'' None)" "''h''" None sample_env "''stranger''"
      "''h''" "sample_node ''b'' empty_chats" Listener sample_inputs "\<lparr>users = [], tokens = []\<rparr>"]
  by (simp add: max_downloaded_bytes_def sample_inputs_def hello_applied)


text \<open>Three chats of the owner; this device has none, the other has one.\<close>

definition nth_chat :: "string \<Rightarrow> int \<Rightarrow> chat" where
  "nth_chat i c = hello_chat\<lparr>c_id := i, c_counter := c\<rparr>"

definition three_db :: chat_db where
  "three_db = \<lparr>chats = map to_row [nth_chat ''1'' 1, nth_chat ''2'' 2, nth_chat ''3'' 3], sessions = []\<rparr>"

lemma three_rows: "rows_of ''a'' three_db = map to_row [nth_chat ''1'' 1, nth_chat ''2'' 2, nth_chat ''3'' 3]"
  by (simp add: rows_of_def three_db_def nth_chat_def hello_chat_def to_row_def)

lemma nth_chat_row: "readable_row (to_row (nth_chat i c)) \<and> to_row (read_row (to_row (nth_chat i c))) = to_row (nth_chat i c)"
  by (rule saved_row) (simp add: nth_chat_def hello_chat_def readable_def)

lemma three_own: "own_rows ''a'' (rows_of ''a'' three_db)"
  unfolding three_rows own_rows_def
  by (simp add: nth_chat_row) (simp add: to_row_def nth_chat_def hello_chat_def)

theorem misdirected_delta_loses_chats_witness:
  "\<exists>b. rows_of ''a'' b = map to_row [nth_chat ''2'' 2, nth_chat ''3'' 3] \<and>
     (\<exists>d'. get_delta ''a'' (get_last_row_counter ''a'' b) three_db = Inr d' \<and> d_chats d' = [])"
proof -
  obtain d where d: "get_delta ''a'' (int 1) three_db = Inr d"
    using delta_there [OF three_own, of 1]
    by (auto simp: three_rows nth_chat_row is_ok_def split: sum.splits)
  let ?E = "sample_env\<lparr>pe_encode_delta := \<lambda>_. ''d'', pe_decode_delta := \<lambda>_. Inr d\<rparr>"
  have "carries ?E d" by (simp add: carries_def max_downloaded_bytes_def fetched_def sample_env_def)
  moreover have "no_faults sample_inputs" by (simp add: no_faults_def sample_inputs_def)
  ultimately show ?thesis
    using misdirected_delta_loses_chats [of "''a''" three_db "sample_node ''b'' empty_chats" 0 1 d ?E sample_inputs
        "sample_msg (SyncSendDeltaInfo ''d'' (Some 0))" "''k''" "Some 0" "''k''"] three_own d
    by (auto simp: three_rows)
qed

theorem ticket_roundtrip_witness:
  "ticket_from_str (\<lambda>s. if s = ''PA'' then Some ''x'' else None) (\<lambda>_. Some (endpoint_user_data_new ''did:key'' ''machine''))
     (to_lowercase ''PA'') = Inr (endpoint_user_data_new ''did:key'' ''machine'')"
  using ticket_roundtrip [of "\<lambda>s. if s = ''PA'' then Some ''x'' else None" "\<lambda>_. ''PA''" "\<lambda>_. ''x''"
      "endpoint_user_data_new ''did:key'' ''machine''" "\<lambda>_. Some (endpoint_user_data_new ''did:key'' ''machine'')"]
  by (simp add: base32_text_def ticket_to_string_def)

end
