(* ===== verification/Daemon.thy ===== *)
theory Daemon
  imports Network
begin

text \<open>
  The daemon's HTTP interface over the core (\<open>tiles/src/daemon/mod.rs\<close>, \<open>session.rs\<close>,
  \<open>authz.rs\<close>, \<open>account.rs\<close>, \<open>net.rs\<close>, \<open>agent.rs\<close>, \<open>server.rs\<close>): the errors and their
  status codes, the two checks every request passes, and the handlers as functions of the
  state they read and change. The HTTP server, opening the databases, the agent process and the endpoint
  are arguments; the routes are in the theory \<open>Routes\<close>.
\<close>

section \<open>Errors\<close>

datatype app_error =
    NotFound string
  | InternalServerError string
  | RequestTimeout
  | BadRequest string
  | AlreadyExists string
  | Conflict string
  | CannotProcess string
  | Forbidden string
  | MethodNotAllowed string
  | UnsupportedMediaType string
  | ServiceUnavailable string
  | InsufficientStorage string

definition parts :: "app_error \<Rightarrow> nat \<times> string" where
  "parts e =
     (case e of
        NotFound s \<Rightarrow> (404, s)
      | InternalServerError s \<Rightarrow> (500, s)
      | RequestTimeout \<Rightarrow> (408, ''request timedout'')
      | BadRequest s \<Rightarrow> (400, s)
      | AlreadyExists s \<Rightarrow> (409, s)
      | Conflict s \<Rightarrow> (409, s)
      | CannotProcess s \<Rightarrow> (422, s)
      | Forbidden s \<Rightarrow> (403, s)
      | MethodNotAllowed s \<Rightarrow> (405, s)
      | UnsupportedMediaType s \<Rightarrow> (415, s)
      | ServiceUnavailable s \<Rightarrow> (503, s)
      | InsufficientStorage s \<Rightarrow> (507, s))"

definition reason :: "app_error \<Rightarrow> string" where
  "reason e = snd (parts e)"

definition from_json_rejection :: "nat \<Rightarrow> string \<Rightarrow> app_error" where
  "from_json_rejection status body =
     (if status = 422 then CannotProcess body
      else if status = 415 then UnsupportedMediaType body else BadRequest body)"

section \<open>The checks on every request\<close>

text \<open>A header may be absent, or have no text form. The parser of an authority gives its host.\<close>

datatype http_method = GET | POST | OtherMethod string

record request =
  rq_method :: http_method
  rq_host :: "string option option"
  rq_authority :: "string option"
  rq_content_type :: "string option option"

definition local_hosts :: "string list" where
  "local_hosts = [''127.0.0.1'', ''localhost'', ''[::1]'']"

definition is_local_host :: "(string \<Rightarrow> string option) \<Rightarrow> request \<Rightarrow> bool" where
  "is_local_host parse_authority rq =
     (case Option.bind (case rq_host rq of Some value \<Rightarrow> value | None \<Rightarrow> rq_authority rq) parse_authority of
        Some host \<Rightarrow> list_ex (\<lambda>name. to_lowercase host = to_lowercase name) local_hosts
      | None \<Rightarrow> False)"

definition is_json :: "request \<Rightarrow> bool" where
  "is_json rq =
     (case Option.bind (rq_content_type rq) (\<lambda>v. v) of
        Some value \<Rightarrow> to_lowercase (trim (takeWhile (\<lambda>c. c \<noteq> CHR '';'') value)) = ''application/json''
      | None \<Rightarrow> False)"

definition require_local_host ::
  "(string \<Rightarrow> string option) \<Rightarrow> (request \<Rightarrow> app_error + 'r) \<Rightarrow> request \<Rightarrow> app_error + 'r" where
  "require_local_host parse_authority next_step rq =
     (if \<not> is_local_host parse_authority rq
      then Inl (Forbidden ''The Tiles daemon only answers requests made to localhost'')
      else next_step rq)"

definition require_json :: "(request \<Rightarrow> app_error + 'r) \<Rightarrow> request \<Rightarrow> app_error + 'r" where
  "require_json next_step rq =
     (if rq_method rq = POST \<and> \<not> is_json rq
      then Inl (UnsupportedMediaType ''Expected a `Content-Type: application/json` header'')
      else next_step rq)"

text \<open>A request that matches a route passes both, the host first.\<close>

definition routed ::
  "(string \<Rightarrow> string option) \<Rightarrow> (request \<Rightarrow> app_error + 'r) \<Rightarrow> request \<Rightarrow> app_error + 'r" where
  "routed parse_authority handler = require_local_host parse_authority (require_json handler)"

section \<open>Sessions\<close>

record save_chat_request =
  sr_text :: string
  sr_session_id :: string
  sr_role :: role
  sr_parent :: "string option"

text \<open>The agent: whether it runs, and the model it was started with, where that is known.\<close>

record agent_state =
  ag_running :: bool
  ag_model :: "string option"

definition agent_model :: "(app_error + string \<times> string) \<Rightarrow> agent_state \<Rightarrow> app_error + string" where
  "agent_model start_params ag =
     (case ag_model ag of
        Some model \<Rightarrow> Inr model
      | None \<Rightarrow> res_bind start_params (\<lambda>(model, _). Inr model))"

definition do_save_chat ::
  "(app_error + string \<times> string) \<Rightarrow> agent_state \<Rightarrow> save_chat_request \<Rightarrow> common_db \<Rightarrow> string \<Rightarrow> nat
     \<Rightarrow> chat_db \<Rightarrow> app_error + chat \<times> chat_db" where
  "do_save_chat start_params ag req db uuid now cdb =
     res_bind (map_err (\<lambda>e. if e = Sql NoRows then NotFound ''No local account, create one first''
                            else InternalServerError (show_acct_error e)) (get_current_user db)) (\<lambda>user.
       let session = fetch_session cdb (sr_session_id req) in
       if session = None \<and> sr_role req \<noteq> User then Inl (NotFound ''Session doesnt exist'')
       else
         res_bind (agent_model start_params ag) (\<lambda>model.
           let resp = \<lparr>rp_input = sr_text req, rp_session_id = sr_session_id req, rp_role = sr_role req,
                       rp_parent = sr_parent req, rp_model = model\<rparr>
           in map_err (\<lambda>e. InternalServerError (''Saving chat failed due to '' @ show_acct_error e))
                (if session = None
                 then save_first_chat (u_user_id user) (sr_text req) resp uuid now cdb
                 else save_chat (u_user_id user) resp uuid now cdb)))"

definition do_fetch_sessions :: "chat_db \<Rightarrow> app_error + session list" where
  "do_fetch_sessions cdb = Inr (fetch_sessions None cdb)"

definition fetch_chats_by_session :: "string \<Rightarrow> chat_db \<Rightarrow> app_error + delta" where
  "fetch_chats_by_session sid cdb =
     res_bind (ok_or (NotFound (''No session '' @ sid)) (fetch_session cdb sid)) (\<lambda>_.
       map_err (\<lambda>e. InternalServerError (show_acct_error e)) (fetch_chats_by_session_id sid cdb))"

text \<open>
  A new session, in the running agent or in one that is started for it. What the agent process
  answers is an argument: the result of starting it (\<open>spawn\<close>), of opening a session in it
  (\<open>open_session\<close>) and of asking a fresh one for its state (\<open>pi_state\<close>).
\<close>

definition do_create_session ::
  "(app_error + string \<times> string) \<Rightarrow> (string \<Rightarrow> string \<Rightarrow> string + unit) \<Rightarrow> (string + string)
   \<Rightarrow> (string + string) \<Rightarrow> agent_state \<Rightarrow> (app_error + string) \<times> agent_state" where
  "do_create_session start_params spawn open_session pi_state ag =
     (let wanted = (if \<not> ag_running ag \<or> ag_model ag \<noteq> None
                    then res_bind start_params (\<lambda>p. Inr (Some p)) else Inr None) in
      case wanted of
        Inl e \<Rightarrow> (Inl e, ag)
      | Inr params \<Rightarrow>
          let ag = (case (ag_model ag, params) of
                      (Some running, Some (model, _)) \<Rightarrow>
                        if running \<noteq> model then ag\<lparr>ag_running := False\<rparr> else ag
                    | _ \<Rightarrow> ag) in
          if ag_running ag then (map_err CannotProcess open_session, ag)
          else
            (case params of
               None \<Rightarrow> (Inl (InternalServerError ''No model to start the agent with''), ag)
             | Some (model, prompt) \<Rightarrow>
                 (case spawn model prompt of
                    Inl e \<Rightarrow> (Inl (InternalServerError e), ag)
                  | Inr _ \<Rightarrow>
                      (map_err InternalServerError pi_state,
                       ag\<lparr>ag_running := True, ag_model := Some model\<rparr>))))"

definition start_agent ::
  "(app_error + string \<times> string) \<Rightarrow> (string \<Rightarrow> string \<Rightarrow> string + unit) \<Rightarrow> agent_state
     \<Rightarrow> (app_error + string) \<times> agent_state" where
  "start_agent start_params spawn ag =
     (case start_params of
        Inl e \<Rightarrow> (Inl e, ag)
      | Inr (model, prompt) \<Rightarrow>
          if ag_running ag then (Inr ''Agent already started'', ag)
          else
            (case spawn model prompt of
               Inl e \<Rightarrow> (Inl (InternalServerError e), ag)
             | Inr _ \<Rightarrow> (Inr ''started agent'', ag\<lparr>ag_running := True, ag_model := Some model\<rparr>)))"

section \<open>Tokens and peers\<close>

definition create_token_api ::
  "'d ucan \<Rightarrow> (string \<Rightarrow> string \<Rightarrow> string list \<Rightarrow> acct_error + 'd) \<Rightarrow> (string \<Rightarrow> acct_error + string)
   \<Rightarrow> string \<Rightarrow> string option \<Rightarrow> capability \<Rightarrow> string \<Rightarrow> string \<Rightarrow> nat \<Rightarrow> common_db
     \<Rightarrow> app_error + token \<times> common_db" where
  "create_token_api U bld signer aud nick cap uuid uuid2 now db =
     map_err (\<lambda>e. CannotProcess (show_acct_error e)) (create_token U bld signer aud nick cap uuid uuid2 now db)"

definition add_token_api ::
  "'d ucan \<Rightarrow> string \<Rightarrow> string option \<Rightarrow> string \<Rightarrow> string \<Rightarrow> nat \<Rightarrow> common_db \<Rightarrow> app_error + token \<times> common_db" where
  "add_token_api U tok nick uuid uuid2 now db =
     map_err (\<lambda>e. CannotProcess (show_acct_error e)) (add_token U tok nick uuid uuid2 now db)"

definition fetch_token_info :: "string \<Rightarrow> common_db \<Rightarrow> app_error + token" where
  "fetch_token_info cid db = ok_or (NotFound ''Token not found'') (fetch_token_by_cid cid (tokens db))"

definition fetch_linked_devices :: "common_db \<Rightarrow> app_error + user list" where
  "fetch_linked_devices db =
     res_bind (map_err (\<lambda>e. NotFound (show_acct_error e)) (get_current_user db)) (\<lambda>user.
       let toks = fetch_tokens \<lparr>q_issuer = None, q_aud = Some (u_user_id user), q_type = Some Linked\<rparr> db in
       if toks = [] then Inr []
       else Inr (fetch_users \<lparr>uq_user_id = None, uq_username = None, uq_user_ids = Some (map t_did toks)\<rparr> db))"

definition revoke_token_api :: "string \<Rightarrow> common_db \<Rightarrow> app_error + common_db" where
  "revoke_token_api peer db =
     res_bind (map_err (\<lambda>e. NotFound (show_acct_error e)) (get_current_user db)) (\<lambda>user.
       map_err (\<lambda>e. CannotProcess (show_acct_error e)) (revoke_token peer user db))"

definition update_peer_in_db ::
  "string \<Rightarrow> string option \<Rightarrow> nat \<Rightarrow> common_db \<Rightarrow> app_error + user \<times> common_db" where
  "update_peer_in_db user_did username now db =
     (if fetch_users \<lparr>uq_user_id = Some user_did, uq_username = None, uq_user_ids = None\<rparr> db = []
      then Inl (NotFound ''Peer not found'')
      else map_err (\<lambda>e. CannotProcess (show_acct_error e)) (update_user user_did username now db))"

section \<open>The account\<close>

text \<open>The configuration is a value that is read and written back. \<open>store\<close> says whether the
  write of the new configuration succeeds.\<close>

definition get_account_status :: "toml_table \<Rightarrow> app_error + root_user" where
  "get_account_status config =
     res_bind (map_err (\<lambda>e. InternalServerError (show_acct_error e)) (get_root_user_details config)) (\<lambda>r.
       if ru_id r = [] then Inl (NotFound ''Not local account found, please create one'') else Inr r)"

definition do_create_account ::
  "(acct_error + string) \<Rightarrow> (acct_error + unit) \<Rightarrow> string \<Rightarrow> toml_table
     \<Rightarrow> (app_error + root_user) \<times> toml_table" where
  "do_create_account create_identity store nickname config =
     (case map_err (\<lambda>e. InternalServerError (show_acct_error e)) (get_root_user_details config) of
        Inl e \<Rightarrow> (Inl e, config)
      | Inr details \<Rightarrow>
          if ru_id details \<noteq> []
          then (Inl (AlreadyExists (''Local Identity exists with id: '' @ ru_id details)), config)
          else
            (case map_err (\<lambda>e. InternalServerError (show_acct_error e))
                    (res_bind (create_root_account create_identity config (Some nickname)) root_user_new) of
               Inl e \<Rightarrow> (Inl e, config)
             | Inr r \<Rightarrow>
                 (case store of
                    Inl e \<Rightarrow> (Inl (InternalServerError (show_acct_error e)), config)
                  | Inr _ \<Rightarrow> (Inr r, save_root_account config (root_user_to_table r)))))"

text \<open>An account that exists gets its row too. A failed write of the row is the answer.\<close>

definition save_account_to_db :: "toml_table \<Rightarrow> string \<Rightarrow> nat \<Rightarrow> common_db \<Rightarrow> app_error + common_db" where
  "save_account_to_db config uuid now db =
     map_err (\<lambda>e. InternalServerError (show_acct_error e))
       (save_root_account_db (get_root_user_details config) uuid now db)"

definition create_account ::
  "(acct_error + string) \<Rightarrow> (acct_error + unit) \<Rightarrow> string \<Rightarrow> string \<Rightarrow> nat \<Rightarrow> toml_table \<Rightarrow> common_db
     \<Rightarrow> (app_error + root_user) \<times> toml_table \<times> common_db" where
  "create_account create_identity store nickname uuid now config db =
     (case do_create_account create_identity store nickname config of
        (created, config') \<Rightarrow>
          if (case created of Inr _ \<Rightarrow> True | Inl (AlreadyExists _) \<Rightarrow> True | _ \<Rightarrow> False)
          then (case save_account_to_db config' uuid now db of
                  Inl e \<Rightarrow> (Inl e, config', db)
                | Inr db' \<Rightarrow> (created, config', db'))
          else (created, config', db))"

section \<open>The network\<close>

text \<open>The network state is absent until the first start and stays once it is there. What the
  background task first says is an argument, as is the endpoint.\<close>

type_synonym network_state = "bool option"

datatype started = NetworkStarted | OtherEvent | NoEvent

definition do_start_network ::
  "(string + unit) \<Rightarrow> started \<Rightarrow> common_db \<Rightarrow> network_state \<Rightarrow> (app_error + string) \<times> network_state" where
  "do_start_network endpoint first_event db st =
     (if st = Some True then (Inr ''Tiles Network already running'', st)
      else
        (case get_current_user db of
           Inl e \<Rightarrow> (Inl (NotFound (show_acct_error e)), st)
         | Inr _ \<Rightarrow>
             (case endpoint of
                Inl e \<Rightarrow> (Inl (CannotProcess e), st)
              | Inr _ \<Rightarrow>
                  (case first_event of
                     NetworkStarted \<Rightarrow> (Inr ''Started Tiles Network successfully'', Some True)
                   | OtherEvent \<Rightarrow>
                       (Inl (CannotProcess ''Failed to start network due to received wrong event on creating network''), st)
                   | NoEvent \<Rightarrow>
                       (Inl (InternalServerError ''Failed to start network due to received wrong event on creating network''), st)))))"

definition stop_network :: "network_state \<Rightarrow> (app_error + string) \<times> network_state" where
  "stop_network st =
     (if st = Some True then (Inr ''Stopped Tiles network successfully'', Some False)
      else (Inl (NotFound ''Tiles Network not running''), st))"

definition get_network_status :: "network_state \<Rightarrow> bool" where
  "get_network_status st = (case st of Some running \<Rightarrow> running | None \<Rightarrow> False)"

definition link_device :: "(acct_error + unit) \<Rightarrow> network_state \<Rightarrow> app_error + string" where
  "link_device linked st =
     (case st of
        Some _ \<Rightarrow> res_bind (map_err (\<lambda>e. CannotProcess (show_acct_error e)) linked)
                    (\<lambda>_. Inr ''Device linking successfull'')
      | None \<Rightarrow> Inl (CannotProcess ''Failed to get the network state''))"

definition get_did_from_device_handle :: "string \<Rightarrow> common_db \<Rightarrow> acct_error + string" where
  "get_did_from_device_handle handle db =
     (if starts_with handle ''did:key'' then Inr handle
      else case fetch_users \<lparr>uq_user_id = None, uq_username = Some handle, uq_user_ids = None\<rparr> db of
             [] \<Rightarrow> Inl (Msg (''No peer found by the nickname '' @ handle))
           | u # _ \<Rightarrow> Inr (u_user_id u))"

definition sync_with_device ::
  "(string \<Rightarrow> acct_error + unit) \<Rightarrow> string \<Rightarrow> common_db \<Rightarrow> network_state \<Rightarrow> app_error + string" where
  "sync_with_device run_sync handle db st =
     res_bind (map_err (\<lambda>e. CannotProcess (show_acct_error e)) (get_did_from_device_handle handle db)) (\<lambda>did.
       case st of
         Some _ \<Rightarrow> res_bind (map_err (\<lambda>e. CannotProcess (show_acct_error e)) (run_sync did))
                     (\<lambda>_. Inr ''syncing successfull'')
       | None \<Rightarrow> Inl (CannotProcess ''Failed to get the network state''))"

section \<open>Sharing the inference server\<close>

record remote_state =
  rm_running :: bool
  rm_ticket :: "string option"
  rm_stop :: bool

text \<open>\<open>rm_stop\<close> is whether a proxy runs that can be told to stop. The proxy is told at most
  once: the last component is whether it was.\<close>

definition share_remote_inference ::
  "(string + string) \<Rightarrow> common_db \<Rightarrow> remote_state \<Rightarrow> (app_error + string) \<times> remote_state" where
  "share_remote_inference endpoint db st =
     (if rm_running st then (Inl (AlreadyExists ''Remote inference is already being shared''), st)
      else
        (case get_current_user db of
           Inl e \<Rightarrow> (Inl (InternalServerError (show_acct_error e)), st)
         | Inr _ \<Rightarrow>
             (case endpoint of
                Inl e \<Rightarrow> (Inl (InternalServerError (''Failed to create the endpoint: '' @ e)), st)
              | Inr ticket \<Rightarrow> (Inr ticket, \<lparr>rm_running = True, rm_ticket = Some ticket, rm_stop = True\<rparr>))))"

definition unshare_remote_inference :: "remote_state \<Rightarrow> string \<times> remote_state \<times> bool" where
  "unshare_remote_inference st =
     (''shutdown inference proxy'', \<lparr>rm_running = False, rm_ticket = None, rm_stop = False\<rparr>, rm_stop st)"

definition show_remote_status :: "remote_state \<Rightarrow> (bool \<times> string option) \<times> remote_state" where
  "show_remote_status st = ((rm_running st, rm_ticket st), st)"

section \<open>The sign-in callback and the inference server's errors\<close>

text \<open>Each sender is taken once. The result says what was sent.\<close>

definition callback :: "'p \<Rightarrow> bool \<times> bool \<Rightarrow> 'p option \<times> bool \<times> (bool \<times> bool)" where
  "callback params st =
     (if fst st then Some params else None, snd st, (False, False))"

datatype server_error = PortInUse | NotReady | NotRunning

definition to_app_error :: "server_error option \<Rightarrow> string \<Rightarrow> app_error" where
  "to_app_error err text =
     (case err of
        Some PortInUse \<Rightarrow> AlreadyExists text
      | Some NotReady \<Rightarrow> ServiceUnavailable text
      | Some NotRunning \<Rightarrow> ServiceUnavailable text
      | None \<Rightarrow> InternalServerError text)"

section \<open>Helpers\<close>

lemma map_err_Inr: "map_err f r = Inr x \<longleftrightarrow> r = Inr x"
  by (cases r) (simp_all add: map_err_def)

lemma map_err_Inl: "map_err f (Inl e) = Inl (f e)"
  by (simp add: map_err_def)

lemma set_fetch_users: "set (fetch_users q db) = {u \<in> set (users db). list_all (\<lambda>c. c u) (user_clauses q)}"
  by (simp add: fetch_users_def)

lemma first_chat_eq:
  "save_first_chat uid name resp uuid now db =
     (case fetch_session db (rp_session_id resp) of
        Some s \<Rightarrow> save_chat uid resp uuid now db
      | None \<Rightarrow> save_chat uid resp uuid now (db\<lparr>sessions := sessions db @
          [\<lparr>s_id = rp_session_id resp, s_name = name, s_created = now, s_creator = uid, s_snapshot = None\<rparr>]\<rparr>))"
  by (simp add: save_first_chat_def create_session_eq Let_def split: option.splits)

lemma saved_chat:
  "save_chat uid resp uuid now db = Inr (c, db') \<Longrightarrow>
     db' = db\<lparr>chats := chats db @ [to_row c]\<rparr> \<and> c_user c = uid \<and> c_session c = rp_session_id resp \<and>
     c_role c = rp_role resp \<and> c_content c = rp_input resp \<and> c_model c = rp_model resp"
  by (auto simp: save_chat_eq Let_def split: if_splits)

lemma do_save_chat_cases:
  assumes "do_save_chat params ag req db uuid now cdb = Inr (c, cdb')"
  obtains u model where "get_current_user db = Inr u" and "agent_model params ag = Inr model"
    and "fetch_session cdb (sr_session_id req) = None \<Longrightarrow> sr_role req = User"
    and "(if fetch_session cdb (sr_session_id req) = None
          then save_first_chat (u_user_id u) (sr_text req) \<lparr>rp_input = sr_text req, rp_session_id = sr_session_id req,
                 rp_role = sr_role req, rp_parent = sr_parent req, rp_model = model\<rparr> uuid now cdb
          else save_chat (u_user_id u) \<lparr>rp_input = sr_text req, rp_session_id = sr_session_id req,
                 rp_role = sr_role req, rp_parent = sr_parent req, rp_model = model\<rparr> uuid now cdb) = Inr (c, cdb')"
  using assms
  by (auto simp: do_save_chat_def Let_def res_bind_eq_Inr map_err_Inr split: if_splits)

lemma fetch_session_chats [simp]: "fetch_session (db\<lparr>chats := t\<rparr>) = fetch_session db"
  by (simp add: fetch_session_def fun_eq_iff)

lemma unreadable_fails:
  assumes "r \<in> set (chats cdb)" and "cr_session r = Some sid" and "\<not> readable_row r"
  shows "\<exists>e. fetch_chats_by_session_id sid cdb = Inl e"
  unfolding fetch_chats_by_session_id_def by (rule fetch_delta_fails [where r = r]) (simp_all add: assms)

section \<open>Properties\<close>

text \<open>A handler runs only for a request addressed to this machine by its Host header, or
  by its authority where there is no such header, and a POST only if it says it is JSON.\<close>

theorem routed_guard:
  "routed parse_authority (\<lambda>_. Inr ()) rq = Inr () \<longleftrightarrow>
     (\<exists>h host. (case rq_host rq of Some v \<Rightarrow> v | None \<Rightarrow> rq_authority rq) = Some h \<and> parse_authority h = Some host \<and>
        to_lowercase host \<in> to_lowercase ` {''127.0.0.1'', ''localhost'', ''[::1]''}) \<and>
     (if rq_method rq = POST
      then (\<exists>v. rq_content_type rq = Some (Some v) \<and>
              to_lowercase (trim (takeWhile (\<lambda>c. c \<noteq> CHR '';'') v)) = ''application/json'')
      else True)"
proof -
  let ?h = "case rq_host rq of Some v \<Rightarrow> v | None \<Rightarrow> rq_authority rq"
  have "is_local_host parse_authority rq \<longleftrightarrow>
      (\<exists>h host. ?h = Some h \<and> parse_authority h = Some host \<and>
        to_lowercase host \<in> to_lowercase ` {''127.0.0.1'', ''localhost'', ''[::1]''})"
    by (cases ?h; cases "parse_authority (the ?h)") (auto simp: is_local_host_def local_hosts_def)
  moreover have "is_json rq \<longleftrightarrow> (\<exists>v. rq_content_type rq = Some (Some v) \<and>
              to_lowercase (trim (takeWhile (\<lambda>c. c \<noteq> CHR '';'') v)) = ''application/json'')"
    by (cases "rq_content_type rq"; cases "the (rq_content_type rq)") (simp_all add: is_json_def)
  ultimately show ?thesis by (simp add: routed_def require_local_host_def require_json_def)
qed

text \<open>Saving a chat over the API: it is the current user's, in the session asked for,
  which exists afterwards, and which only a user's message can start, named by its text.\<close>

theorem do_save_chat_correct:
  assumes "do_save_chat params ag req db uuid now cdb = Inr (c, cdb')"
  shows "(\<exists>u. get_current_user db = Inr u \<and> c_user c = u_user_id u) \<and>
    c_session c = sr_session_id req \<and> c_role c = sr_role req \<and> c_content c = sr_text req \<and>
    chats cdb' = chats cdb @ [to_row c] \<and>
    (case fetch_session cdb (sr_session_id req) of
       Some s \<Rightarrow> sessions cdb' = sessions cdb
     | None \<Rightarrow> sr_role req = User \<and>
         (\<exists>s. sessions cdb' = sessions cdb @ [s] \<and> s_id s = sr_session_id req \<and> s_name s = sr_text req \<and>
            fetch_session cdb' (sr_session_id req) = Some s))"
  using assms
proof (rule do_save_chat_cases)
  fix u model
  assume u: "get_current_user db = Inr u" and role: "fetch_session cdb (sr_session_id req) = None \<Longrightarrow> sr_role req = User"
    and save: "(if fetch_session cdb (sr_session_id req) = None
          then save_first_chat (u_user_id u) (sr_text req) \<lparr>rp_input = sr_text req, rp_session_id = sr_session_id req,
                 rp_role = sr_role req, rp_parent = sr_parent req, rp_model = model\<rparr> uuid now cdb
          else save_chat (u_user_id u) \<lparr>rp_input = sr_text req, rp_session_id = sr_session_id req,
                 rp_role = sr_role req, rp_parent = sr_parent req, rp_model = model\<rparr> uuid now cdb) = Inr (c, cdb')"
  show ?thesis
  proof (cases "fetch_session cdb (sr_session_id req)")
    case None
    with save saved_chat show ?thesis
      by (fastforce simp: first_chat_eq u role fetch_session_append)
  next
    case (Some s)
    with save saved_chat show ?thesis by (fastforce simp: u)
  qed
qed

text \<open>The linked devices are exactly the users who issued a linked delegation to this
  one: with no such delegation, none, and never everybody.\<close>

theorem fetch_linked_devices_exact:
  assumes "get_current_user db = Inr me"
  shows "\<exists>us. fetch_linked_devices db = Inr us \<and>
    set us = {u \<in> set (users db). \<exists>t\<in>set (tokens db).
      t_type t = Linked \<and> t_aud t = u_user_id me \<and> t_did t = u_user_id u}"
proof -
  let ?toks = "fetch_tokens \<lparr>q_issuer = None, q_aud = Some (u_user_id me), q_type = Some Linked\<rparr> db"
  have t: "set ?toks = {t \<in> set (tokens db). t_aud t = u_user_id me \<and> t_type t = Linked}"
    by (auto simp: fetch_tokens_def token_clauses_def)
  show ?thesis
  proof (cases "?toks = []")
    case True
    with t have "{t \<in> set (tokens db). t_aud t = u_user_id me \<and> t_type t = Linked} = {}" by simp
    then show ?thesis using True by (auto simp: fetch_linked_devices_def assms map_err_def)
  next
    case False
    then have "fetch_linked_devices db = Inr (fetch_users
        \<lparr>uq_user_id = None, uq_username = None, uq_user_ids = Some (map t_did ?toks)\<rparr> db)"
      by (simp add: fetch_linked_devices_def assms map_err_def)
    moreover have "set (fetch_users \<lparr>uq_user_id = None, uq_username = None, uq_user_ids = Some (map t_did ?toks)\<rparr> db)
        = {u \<in> set (users db). u_user_id u \<in> t_did ` set ?toks}"
      using False by (simp add: set_fetch_users user_clauses_def)
    ultimately show ?thesis by (auto simp: t image_iff)
  qed
qed

lemma root_table: "root_user_new (root_user_to_table r) = Inr r"
  by (simp add: root_user_new_def root_user_to_table_def ok_or_def)

text \<open>A created account is the one the configuration and the database both have: the
  status shows it, and it is the active user, so that chats can be saved.\<close>

theorem create_account_correct:
  assumes "create_account (Inr did) store nickname uuid now config db = (Inr r, config', db')"
    and "did \<noteq> []" and "acct_inv db" and "filter u_root (users db) = []"
  shows "ru_id r = did \<and> ru_nickname r = nickname \<and> get_account_status config' = Inr r \<and>
    (\<exists>u. get_current_user db' = Inr u \<and> u_user_id u = did \<and> u_username u = Some nickname)"
proof -
  from assms(1) have created: "do_create_account (Inr did) store nickname config = (Inr r, config')"
    and saved: "save_account_to_db config' uuid now db = Inr db'"
    by (auto simp: create_account_def split: prod.splits sum.splits app_error.splits if_splits)
  from created obtain details t where "get_root_user_details config = Inr details" and "ru_id details = []"
    and t: "create_root_account (Inr did) config (Some nickname) = Inr t" "root_user_new t = Inr r"
    and c: "config' = save_root_account config (root_user_to_table r)"
    by (auto simp: do_create_account_def map_err_Inr res_bind_eq_Inr split: sum.splits if_splits)
  have details: "get_root_user_details config' = Inr r"
    by (simp add: c get_root_user_details_def save_root_account_def ok_or_def root_table)
  obtain tt where "config ''root-user'' = Some (TTable tt)" "root_user_new tt = Inr details"
    using \<open>get_root_user_details config = Inr details\<close>
    by (auto simp: get_root_user_details_def res_bind_eq_Inr ok_or_def split: option.splits elim!: as_table.elims)
  with t \<open>ru_id details = []\<close> have "t = tt(''id'' \<mapsto> TStr did, ''nickname'' \<mapsto> TStr nickname)"
    by (simp add: create_root_account_def create_root_user_def ok_or_def)
  with t(2) have r: "ru_id r = did" "ru_nickname r = nickname"
    by (auto simp: root_user_new_def ok_or_def)
  let ?u = "\<lparr>u_id = uuid, u_user_id = did, u_username = Some nickname, u_active = True, u_account = LOCAL,
    u_root = True, u_created = now, u_updated = now\<rparr>"
  have "query_one u_root (users db) = Inl NoRows" using assms(4) by (simp add: query_one_def)
  with saved have "insert_user ?u db = Inr db'"
    by (simp add: save_account_to_db_def map_err_Inr details save_root_account_db_def r)
  then have db': "users db' = users db @ [?u]"
    by (auto simp: insert_user_def res_bind_eq_Inr insert_row_Inr)
  have "filter u_active (users db) = filter u_root (users db)"
    using assms(3) by (auto simp: acct_inv_def roots_ok_def list_all_iff intro!: filter_cong)
  then have "get_current_user db' = Inr ?u"
    using assms(4) by (simp add: get_current_user_def query_one_def db' map_err_def)
  then show ?thesis using r assms(2) by (simp add: get_account_status_def details map_err_def)
qed

text \<open>A new session is given by a running agent. The agent runs the model that is picked
  now, unless it was running before and nobody knows with which model.\<close>

theorem do_create_session_correct:
  assumes "do_create_session start_params spawn open_session pi_state ag = (Inr sid, ag')"
  shows "ag_running ag' \<and>
    (if ag_running ag \<and> ag_model ag = None then ag' = ag \<and> open_session = Inr sid
     else (case start_params of
         Inr (model, prompt) \<Rightarrow> ag_model ag' = Some model \<and>
           (if ag_running ag \<and> ag_model ag = Some model then ag' = ag \<and> open_session = Inr sid
            else spawn model prompt = Inr () \<and> pi_state = Inr sid)
       | Inl _ \<Rightarrow> False))"
  using assms
  by (cases start_params)
     (auto simp: do_create_session_def Let_def map_err_Inr
      split: sum.splits option.splits prod.splits if_splits)

text \<open>A handle that is not a DID names the one user with that nickname.\<close>

theorem device_handle_unique:
  assumes "acct_inv db" and "\<not> starts_with handle ''did:key''"
  shows "get_did_from_device_handle handle db = Inr did \<longleftrightarrow>
    (\<exists>u\<in>set (users db). u_username u = Some handle \<and> u_user_id u = did)"
proof -
  let ?us = "fetch_users \<lparr>uq_user_id = None, uq_username = Some handle, uq_user_ids = None\<rparr> db"
  have us: "set ?us = {u \<in> set (users db). u_username u = Some handle}"
    by (simp add: set_fetch_users user_clauses_def)
  have wf: "wf_table user_indexes (users db)" using assms(1) by (simp add: acct_inv_def)
  have one: "u = v" if "u \<in> set ?us" "v \<in> set ?us" for u v
    using users_by_name.wf_key [OF wf, of u v "[handle]"] that by (auto simp: us)
  show ?thesis
  proof (cases ?us)
    case Nil
    with us show ?thesis by (auto simp: get_did_from_device_handle_def assms(2))
  next
    case (Cons u vs)
    then have "u \<in> set ?us" by simp
    then have "{u \<in> set (users db). u_username u = Some handle} = {u}" using one us by blast
    then show ?thesis using Cons by (auto simp: get_did_from_device_handle_def assms(2))
  qed
qed

text \<open>A chat whose role is \<open>developer\<close> or \<open>toolResult\<close> is accepted in a session that
  exists, and from then on the chats of that session cannot be fetched any more, whatever is
  saved after it.\<close>

theorem unreadable_role_locks_session:
  assumes "do_save_chat params ag req db uuid now cdb = Inr (c, cdb')" and "\<not> readable (sr_role req)"
    and "chats cdb2 = chats cdb' @ later"
    and "fetch_session cdb2 (sr_session_id req) = fetch_session cdb' (sr_session_id req)"
  shows "\<exists>e. fetch_chats_by_session (sr_session_id req) cdb2 = Inl (InternalServerError e)"
  using assms(1)
proof (rule do_save_chat_cases)
  fix u model
  let ?sid = "sr_session_id req"
  assume role: "fetch_session cdb ?sid = None \<Longrightarrow> sr_role req = User"
    and save: "(if fetch_session cdb ?sid = None
          then save_first_chat (u_user_id u) (sr_text req) \<lparr>rp_input = sr_text req, rp_session_id = sr_session_id req,
                 rp_role = sr_role req, rp_parent = sr_parent req, rp_model = model\<rparr> uuid now cdb
          else save_chat (u_user_id u) \<lparr>rp_input = sr_text req, rp_session_id = sr_session_id req,
                 rp_role = sr_role req, rp_parent = sr_parent req, rp_model = model\<rparr> uuid now cdb) = Inr (c, cdb')"
  from role assms(2) obtain s where s: "fetch_session cdb ?sid = Some s"
    by (cases "fetch_session cdb ?sid") (auto simp: readable_def)
  with save have "save_chat (u_user_id u) \<lparr>rp_input = sr_text req, rp_session_id = sr_session_id req,
      rp_role = sr_role req, rp_parent = sr_parent req, rp_model = model\<rparr> uuid now cdb = Inr (c, cdb')" by simp
  from saved_chat [OF this] have cdb': "cdb' = cdb\<lparr>chats := chats cdb @ [to_row c]\<rparr>"
    and c: "c_session c = ?sid" "c_role c = sr_role req" by simp_all
  have "to_row c \<in> set (chats cdb2)" using assms(3) by (simp add: cdb')
  moreover have "cr_session (to_row c) = Some ?sid" by (simp add: to_row_def c)
  moreover have "\<not> readable_row (to_row c)" using assms(2) by (simp add: readable_to_row c)
  ultimately obtain e where "fetch_chats_by_session_id ?sid cdb2 = Inl e"
    using unreadable_fails by blast
  moreover have "fetch_session cdb2 ?sid = Some s" using s assms(4) by (simp add: fetch_session_def cdb')
  ultimately show ?thesis by (auto simp: fetch_chats_by_session_def ok_or_def map_err_def)
qed

section \<open>Witnesses\<close>

definition my_db :: common_db where
  "my_db = \<lparr>users = [sample_root, sample_peer], tokens = [sample_link ''c1'' ''did:peer'' ''did:me'']\<rparr>"

definition idle_agent :: agent_state where
  "idle_agent = \<lparr>ag_running = False, ag_model = None\<rparr>"

definition ask :: "role \<Rightarrow> save_chat_request" where
  "ask role = \<lparr>sr_text = ''hi'', sr_session_id = ''s1'', sr_role = role, sr_parent = None\<rparr>"

definition one_session :: chat_db where
  "one_session = \<lparr>chats = [], sessions =
     [\<lparr>s_id = ''s1'', s_name = ''hi'', s_created = 1, s_creator = ''did:me'', s_snapshot = None\<rparr>]\<rparr>"

lemma my_user: "get_current_user my_db = Inr sample_root"
  by (simp add: my_db_def sample_current)

lemma my_inv: "acct_inv my_db"
  by (simp add: acct_inv_def my_db_def wf_table_def user_indexes_def token_indexes_def unique_on_def
      List.map_filter_simps sample_root_def sample_peer_def roots_ok_def account_to_string_def link_key_def
      sample_link_def)

lemma asked:
  "\<exists>c db. do_save_chat (Inr (''m'', '''')) idle_agent (ask User) my_db ''1'' 7 empty_chats = Inr (c, db)"
  by (simp add: do_save_chat_def my_user ask_def agent_model_def idle_agent_def Let_def fetch_session_def
      empty_chats_def query_row_def ok_def first_chat_eq save_chat_eq map_err_def)

lemma tool_saved:
  "\<exists>c db. do_save_chat (Inr (''m'', '''')) idle_agent (ask ToolResult) my_db ''1'' 7 one_session = Inr (c, db)"
  by (simp add: do_save_chat_def my_user ask_def agent_model_def idle_agent_def Let_def fetch_session_def
      one_session_def query_row_def ok_def save_chat_eq map_err_def)

theorem do_save_chat_correct_witness:
  "\<exists>c db. do_save_chat (Inr (''m'', '''')) idle_agent (ask User) my_db ''1'' 7 empty_chats = Inr (c, db) \<and>
     c_user c = ''did:me'' \<and> (\<exists>s. sessions db = [s] \<and> s_name s = ''hi'')"
proof -
  from asked obtain c db
    where a: "do_save_chat (Inr (''m'', '''')) idle_agent (ask User) my_db ''1'' 7 empty_chats = Inr (c, db)"
    by blast
  have "fetch_session empty_chats ''s1'' = None" and "sessions empty_chats = []"
    by (simp_all add: fetch_session_def empty_chats_def query_row_def ok_def)
  with do_save_chat_correct [OF a] a show ?thesis
    by (auto simp: my_user ask_def sample_root_def)
qed

theorem fetch_linked_devices_exact_witness:
  "\<exists>us. fetch_linked_devices my_db = Inr us \<and> set us = {sample_peer}"
proof -
  have "{u \<in> set (users my_db). \<exists>t\<in>set (tokens my_db).
      t_type t = Linked \<and> t_aud t = u_user_id sample_root \<and> t_did t = u_user_id u} = {sample_peer}"
    by (auto simp: my_db_def sample_link_def sample_root_def sample_peer_def)
  with fetch_linked_devices_exact [OF my_user] show ?thesis by simp
qed

theorem create_account_correct_witness:
  "\<exists>r config db. create_account (Inr ''did:new'') (Inr ()) ''me'' ''u1'' 1
      [''root-user'' \<mapsto> TTable [''id'' \<mapsto> TStr '''', ''nickname'' \<mapsto> TStr '''']] \<lparr>users = [], tokens = []\<rparr>
      = (Inr r, config, db) \<and> ru_id r = ''did:new'' \<and> get_account_status config = Inr r"
proof -
  let ?config = "[''root-user'' \<mapsto> TTable [''id'' \<mapsto> TStr '''', ''nickname'' \<mapsto> TStr '''']]"
  have "\<exists>r config db. create_account (Inr ''did:new'') (Inr ()) ''me'' ''u1'' 1 ?config \<lparr>users = [], tokens = []\<rparr>
      = (Inr r, config, db)"
    by (simp add: create_account_def do_create_account_def get_root_user_details_def ok_or_def
        root_user_new_def map_err_def create_root_account_def create_root_user_def save_account_to_db_def
        save_root_account_def root_user_to_table_def save_root_account_db_def query_one_def insert_user_def
        insert_row_def user_indexes_def)
  then obtain r config db where c: "create_account (Inr ''did:new'') (Inr ()) ''me'' ''u1'' 1 ?config
      \<lparr>users = [], tokens = []\<rparr> = (Inr r, config, db)" by blast
  have "acct_inv \<lparr>users = [], tokens = []\<rparr>" by (simp add: acct_inv_def roots_ok_def)
  with create_account_correct [OF c] c show ?thesis by simp
qed

theorem do_create_session_correct_witness:
  "\<exists>ag. do_create_session (Inr (''new'', '''')) (\<lambda>_ _. Inr ()) (Inr ''s'') (Inr ''s2'')
      \<lparr>ag_running = True, ag_model = Some ''old''\<rparr> = (Inr ''s2'', ag) \<and> ag_model ag = Some ''new''"
proof -
  have "\<exists>ag. do_create_session (Inr (''new'', '''')) (\<lambda>_ _. Inr ()) (Inr ''s'') (Inr ''s2'')
      \<lparr>ag_running = True, ag_model = Some ''old''\<rparr> = (Inr ''s2'', ag)"
    by (simp add: do_create_session_def map_err_def)
  then obtain ag where ag: "do_create_session (Inr (''new'', '''')) (\<lambda>_ _. Inr ()) (Inr ''s'') (Inr ''s2'')
      \<lparr>ag_running = True, ag_model = Some ''old''\<rparr> = (Inr ''s2'', ag)" by blast
  from do_create_session_correct [OF ag] ag show ?thesis by simp
qed

theorem device_handle_unique_witness:
  "get_did_from_device_handle ''peer'' my_db = Inr ''did:peer''"
proof -
  have "\<not> starts_with ''peer'' ''did:key''" by (simp add: starts_with_def)
  from device_handle_unique [OF my_inv this, of "''did:peer''"] show ?thesis
    by (auto simp: my_db_def sample_root_def sample_peer_def)
qed

theorem unreadable_role_locks_session_witness:
  "\<exists>c db e. do_save_chat (Inr (''m'', '''')) idle_agent (ask ToolResult) my_db ''1'' 7 one_session = Inr (c, db) \<and>
     fetch_chats_by_session ''s1'' db = Inl (InternalServerError e)"
proof -
  from tool_saved obtain c db
    where t: "do_save_chat (Inr (''m'', '''')) idle_agent (ask ToolResult) my_db ''1'' 7 one_session = Inr (c, db)"
    by blast
  from unreadable_role_locks_session [OF t, of db "[]"] t show ?thesis
    by (auto simp: ask_def readable_def)
qed

end
