(* ===== verification/Download.thy ===== *)
theory Download
  imports Modelfile "HOL-Library.Sublist"
begin

text \<open>
  The model downloader (\<open>tiles/src/utils/hf_model_downloader\<close>): choosing the files of a
  repository (\<open>plan.rs\<close>), downloading one file with resume and retries (\<open>fetch.rs\<close>), the
  cache on disk (\<open>cache.rs\<close>) and the whole download (\<open>mod.rs\<close>). The server is what it
  answers to a request from an offset; a file is the list of its bytes; the blobs folder
  is a map from names. SHA-256 is the argument \<open>sha\<close>. Sizes are natural numbers: the sum of the
  sizes of a plan is taken to fit in 64 bits. Errors of the file system are not modelled, but
  for a rename of a file that is not there.
\<close>

section \<open>Files and plans\<close>

record model_file =
  fl_name :: string
  fl_size :: nat
  fl_blob :: string
  fl_sha :: "string option"

record download_plan =
  pl_repo :: string
  pl_commit :: string
  pl_files :: "model_file list"

definition plan_total :: "download_plan \<Rightarrow> nat" where
  "plan_total p = sum_list (map fl_size (pl_files p))"

datatype download_event = Progress nat nat | Verifying string

record sibling =
  sb_rfilename :: string
  sb_size :: nat
  sb_blob_id :: string
  sb_lfs :: "string option"

record repo_info =
  ri_sha :: string
  ri_siblings :: "sibling list"

definition model_file_of :: "sibling \<Rightarrow> model_file" where
  "model_file_of s =
     \<lparr>fl_name = sb_rfilename s, fl_size = sb_size s,
      fl_blob = (case sb_lfs s of Some h \<Rightarrow> h | None \<Rightarrow> sb_blob_id s), fl_sha = sb_lfs s\<rparr>"

definition default_quant :: string where
  "default_quant = ''Q4_K_M''"

definition metadata_suffixes :: "string list" where
  "metadata_suffixes = [''.json'', ''.txt'', ''.md'', ''.gitattributes'', ''LICENSE'']"

definition is_main_gguf :: "string \<Rightarrow> bool" where
  "is_main_gguf filename =
     (let name = to_lowercase filename in
      ends_with name ''.gguf'' \<and> \<not> contains name ''mmproj'' \<and> \<not> contains name ''mtp'')"

definition wanted :: "string \<Rightarrow> string \<Rightarrow> bool" where
  "wanted name quant_gguf =
     (let lower = to_lowercase name; top_level = CHR ''/'' \<notin> set name in
      list_ex (ends_with name) metadata_suffixes
      \<or> is_main_gguf name \<and> ends_with lower quant_gguf
      \<or> top_level \<and> ends_with lower ''.gguf'' \<and> contains lower ''mtp'')"

text \<open>The components of a path: repeated slashes and inner dots are skipped, as in Rust.\<close>

datatype component = RootDir | CurDir | ParentDir | Normal string

definition components :: "string \<Rightarrow> component list" where
  "components path =
     (let parts = split_on (CHR ''/'') path in
      (if starts_with path ''/'' then [RootDir] else if hd parts = ''.'' then [CurDir] else [])
      @ map (\<lambda>p. if p = ''..'' then ParentDir else Normal p)
          (filter (\<lambda>p. p \<noteq> '''' \<and> p \<noteq> ''.'') parts))"

definition is_plain_path :: "string \<Rightarrow> bool" where
  "is_plain_path name = (name \<noteq> '''' \<and> list_all (\<lambda>c. case c of Normal _ \<Rightarrow> True | _ \<Rightarrow> False) (components name))"

definition is_hexdigit :: "char \<Rightarrow> bool" where
  "is_hexdigit c = (c \<in> set ''0123456789abcdefABCDEF'')"

definition is_hex :: "string \<Rightarrow> bool" where
  "is_hex s = (s \<noteq> '''' \<and> list_all is_hexdigit s)"

text \<open>The plan from the Hub's answer. The texts of the errors are shortened.\<close>

definition plan :: "string \<Rightarrow> string option \<Rightarrow> repo_info \<Rightarrow> string + download_plan" where
  "plan repo quant info =
     (let quant = (case quant of Some q \<Rightarrow> q | None \<Rightarrow> default_quant);
          quant_gguf = to_lowercase quant @ ''.gguf'';
          has_quant = list_ex (\<lambda>s. is_main_gguf (sb_rfilename s) \<and> wanted (sb_rfilename s) quant_gguf) (ri_siblings info);
          available = filter is_main_gguf (map sb_rfilename (ri_siblings info));
          files = map model_file_of (filter (\<lambda>s. wanted (sb_rfilename s) quant_gguf) (ri_siblings info))
      in
      if \<not> has_quant
      then Inl (''No GGUF matching quant '' @ quant @ '' found in '' @ repo @
             (if available = [] then '': the repo has no GGUF files'' else ''. Available: '' @ join '', '' available))
      else if \<not> is_hex (ri_sha info) then Inl (repo @ '' has a commit that is not a commit id'')
      else
        (case find (\<lambda>f. \<not> is_plain_path (fl_name f) \<or> \<not> is_hex (fl_blob f)) files of
           Some f \<Rightarrow> Inl (''a file that is not safe to save: '' @ fl_name f)
         | None \<Rightarrow> Inr \<lparr>pl_repo = repo, pl_commit = ri_sha info, pl_files = files\<rparr>))"

text \<open>The Hub's refusals, by status. Other client and server errors keep their status.\<close>

datatype fetch_error = Interrupted nat nat | HttpStatus nat | HttpFailed | Other string

definition check :: "nat \<Rightarrow> string \<Rightarrow> fetch_error + unit" where
  "check status repo =
     (if status = 401 \<or> status = 404 then Inl (Other (''No model '' @ repo @ '' on Hugging Face''))
      else if status = 403 then Inl (Other (repo @ '' needs access''))
      else if 400 \<le> status \<and> status < 600 then Inl (HttpStatus status) else Inr ())"

section \<open>One file\<close>

text \<open>A reply is a failed or cancelled request, or a status and the chunks of a body that ends,
  breaks off with an error or is cancelled.\<close>

datatype body_end = Eof | BodyError | BodyCancelled

datatype reply = SendCancelled | SendFailed | Response nat "string list" body_end

record attempt =
  at_reply :: "nat \<Rightarrow> reply"
  at_cancelled :: bool

definition retries_max :: nat where
  "retries_max = 5"

definition is_transient :: "fetch_error \<Rightarrow> bool" where
  "is_transient e =
     (case e of
        Interrupted _ _ \<Rightarrow> True
      | HttpStatus s \<Rightarrow> 500 \<le> s \<and> s < 600 \<or> s = 429
      | HttpFailed \<Rightarrow> True
      | Other _ \<Rightarrow> False)"

definition file_len :: "string option \<Rightarrow> nat" where
  "file_len part = (case part of Some c \<Rightarrow> length c | None \<Rightarrow> 0)"

definition content :: "string option \<Rightarrow> string" where
  "content part = (case part of Some c \<Rightarrow> c | None \<Rightarrow> '''')"

text \<open>The progress told while the chunks arrive.\<close>

fun chunk_events :: "nat \<Rightarrow> nat \<Rightarrow> string list \<Rightarrow> download_event list" where
  "chunk_events sz got [] = []"
| "chunk_events sz got (c # cs) =
     Progress (got + length c) sz # chunk_events sz (got + length c) cs"

definition fetch_once ::
  "(string \<Rightarrow> string) \<Rightarrow> string \<Rightarrow> string \<Rightarrow> nat \<Rightarrow> (nat \<Rightarrow> reply) \<Rightarrow> string option
     \<Rightarrow> (fetch_error + string option) \<times> string option \<times> download_event list" where
  "fetch_once sha repo name sz srv part =
     (let part = (if file_len part > sz then None else part);
          offset = file_len part;
          told = Progress offset sz # (if offset > 0 then [Verifying name] else [])
      in
      if offset = sz then (Inr (Some (sha (content part))), part, told)
      else
        (case srv offset of
           SendCancelled \<Rightarrow> (Inr None, part, told)
         | SendFailed \<Rightarrow> (Inl HttpFailed, part, told)
         | Response status chunks e \<Rightarrow>
             (case check status repo of
                Inl err \<Rightarrow> (Inl err, part, told)
              | Inr _ \<Rightarrow>
                  let base = (if offset > 0 \<and> status \<noteq> 206 then '''' else content part);
                      written = base @ concat chunks;
                      told = told @ chunk_events sz (length base) chunks
                  in
                  (case e of
                     BodyCancelled \<Rightarrow> (Inr None, Some written, told)
                   | BodyError \<Rightarrow> (Inl HttpFailed, Some written, told)
                   | Eof \<Rightarrow>
                       if length written \<noteq> sz
                       then (Inl (Interrupted (length written) sz), Some written, told)
                       else (Inr (Some (sha written)), Some written, told)))))"

text \<open>The loop over the attempts. Any progress resets the retries. There is no result when the
  attempts given run out.\<close>

fun fetch ::
  "(string \<Rightarrow> string) \<Rightarrow> string \<Rightarrow> string \<Rightarrow> nat \<Rightarrow> attempt list \<Rightarrow> nat \<Rightarrow> string option
     \<Rightarrow> (fetch_error + string option) option \<times> string option \<times> download_event list" where
  "fetch sha repo name sz [] retries part = (None, part, [])"
| "fetch sha repo name sz (a # as) retries part =
     (case fetch_once sha repo name sz (at_reply a) part of
        (Inr fetched, part', told) \<Rightarrow> (Some (Inr fetched), part', told)
      | (Inl err, part', told) \<Rightarrow>
          let retries = (if file_len part' > file_len part then 0 else retries) in
          if retries = retries_max \<or> \<not> is_transient err then (Some (Inl err), part', told)
          else if at_cancelled a then (Some (Inr None), part', told)
          else (case fetch sha repo name sz as (Suc retries) part' of
                  (r, part'', told') \<Rightarrow> (r, part'', told @ told')))"

section \<open>The cache\<close>

text \<open>
  The folder of one repository: the files of its \<open>blobs\<close> folder by name (a blob, its part, the
  part an older version left), the links of its snapshots, by the commit and the components of the name, and
  \<open>refs/main\<close>. A link's target is relative to the folder that holds it.
\<close>

record cache =
  ca_files :: "string \<Rightarrow> string option"
  ca_links :: "(string \<times> component list) \<Rightarrow> string list option"
  ca_main :: "string option"

definition part_name :: "string \<Rightarrow> string" where
  "part_name blob = blob @ ''.part''"

definition is_complete :: "cache \<Rightarrow> model_file \<Rightarrow> bool" where
  "is_complete c f = (case ca_files c (fl_blob f) of Some b \<Rightarrow> length b = fl_size f | None \<Rightarrow> False)"

definition on_disk :: "download_plan \<Rightarrow> cache \<Rightarrow> nat" where
  "on_disk p c =
     sum_list (map (\<lambda>f. if is_complete c f then fl_size f
                         else min (file_len (ca_files c (part_name (fl_blob f)))) (fl_size f)) (pl_files p))"

text \<open>An older part is the whole size plus 8 bytes, little-endian, that count the bytes written.\<close>

fun from_le_bytes :: "string \<Rightarrow> nat" where
  "from_le_bytes [] = 0"
| "from_le_bytes (c # cs) = of_char c + 256 * from_le_bytes cs"

definition reuse_sync_part :: "model_file \<Rightarrow> cache \<Rightarrow> cache" where
  "reuse_sync_part f c =
     (let old = fl_blob f @ ''.sync.part''; part = part_name (fl_blob f) in
      case ca_files c old of
        None \<Rightarrow> c
      | Some b \<Rightarrow>
          if length b = fl_size f + 8 \<and> ca_files c part = None
          then let committed = min (from_le_bytes (drop (fl_size f) b)) (fl_size f) in
               c\<lparr>ca_files := (ca_files c)(old := None, part := Some (take committed b))\<rparr>
          else c\<lparr>ca_files := (ca_files c)(old := None)\<rparr>)"

definition link :: "string \<Rightarrow> string \<Rightarrow> string \<Rightarrow> cache \<Rightarrow> cache" where
  "link commit name blob c =
     (let depth = length (components name) + 1 in
      c\<lparr>ca_links := (ca_links c)((commit, components name) \<mapsto> replicate depth ''..'' @ [''blobs'', blob])\<rparr>)"

text \<open>Where a link leads: its target from the folder of the link in the repository's folder.\<close>

fun resolve :: "string list \<Rightarrow> string list \<Rightarrow> string list option" where
  "resolve dir [] = Some dir"
| "resolve dir (c # cs) =
     (if c = ''..'' then (if dir = [] then None else resolve (butlast dir) cs)
      else resolve (dir @ [c]) cs)"

fun normal :: "component \<Rightarrow> string" where
  "normal (Normal s) = s" | "normal RootDir = ''/''" | "normal CurDir = ''.''" | "normal ParentDir = ''..''"

section \<open>The whole download\<close>

text \<open>
  What one blob meets: the wait for its lock, after which the cache may have changed
  (\<open>None\<close> when cancelled), and the attempts of the download.
\<close>

record meeting =
  mt_wait :: "cache \<Rightarrow> cache option"
  mt_attempts :: "attempt list"

datatype download_error = Failed fetch_error | Mismatch string | NoSuchFile | OutOfAttempts

definition fetch_blob ::
  "(string \<Rightarrow> string) \<Rightarrow> download_plan \<Rightarrow> model_file \<Rightarrow> meeting \<Rightarrow> cache
     \<Rightarrow> (download_error + bool) \<times> cache \<times> download_event list" where
  "fetch_blob sha p f m c =
     (if is_complete c f then (Inr True, c, [])
      else
        (case mt_wait m c of
           None \<Rightarrow> (Inr False, c, [])
         | Some c \<Rightarrow>
             if is_complete c f then (Inr True, c, [])
             else
               let c = reuse_sync_part f c; part = part_name (fl_blob f) in
               (case fetch sha (pl_repo p) (fl_name f) (fl_size f) (mt_attempts m) 0 (ca_files c part) of
                  (r, got, told) \<Rightarrow>
                    let c = c\<lparr>ca_files := (ca_files c)(part := got)\<rparr> in
                    (case r of
                       None \<Rightarrow> (Inl OutOfAttempts, c, told)
                     | Some (Inl e) \<Rightarrow> (Inl (Failed e), c, told)
                     | Some (Inr None) \<Rightarrow> (Inr False, c, told)
                     | Some (Inr (Some h)) \<Rightarrow>
                         if (case fl_sha f of Some expected \<Rightarrow> expected \<noteq> h | None \<Rightarrow> False)
                         then (Inl (Mismatch (fl_name f)), c\<lparr>ca_files := (ca_files c)(part := None)\<rparr>, told)
                         else
                           (case got of
                              None \<Rightarrow> (Inl NoSuchFile, c, told)
                            | Some b \<Rightarrow>
                                (Inr True, c\<lparr>ca_files := (ca_files c)(part := None, fl_blob f := Some b)\<rparr>, told))))))"

definition shift_event :: "nat \<Rightarrow> nat \<Rightarrow> download_event \<Rightarrow> download_event" where
  "shift_event finished overall e =
     (case e of Progress d _ \<Rightarrow> Progress (finished + d) overall | Verifying n \<Rightarrow> Verifying n)"

text \<open>The blobs in order: the first that fails or is cancelled ends it. The result says whether
  all are there.\<close>

fun fetch_blobs ::
  "(string \<Rightarrow> string) \<Rightarrow> download_plan \<Rightarrow> model_file list \<Rightarrow> meeting list \<Rightarrow> nat \<Rightarrow> cache
     \<Rightarrow> (download_error + bool) \<times> cache \<times> download_event list" where
  "fetch_blobs sha p [] ms finished c = (Inr True, c, [])"
| "fetch_blobs sha p (f # fs) [] finished c = (Inl OutOfAttempts, c, [])"
| "fetch_blobs sha p (f # fs) (m # ms) finished c =
     (case fetch_blob sha p f m c of
        (r, c', told) \<Rightarrow>
          let told = map (shift_event finished (plan_total p)) told in
          (case r of
             Inl e \<Rightarrow> (Inl e, c', told)
           | Inr False \<Rightarrow> (Inr False, c', told)
           | Inr True \<Rightarrow>
               let finished = finished + fl_size f in
               (case fetch_blobs sha p fs ms finished c' of
                  (r', c'', told') \<Rightarrow> (r', c'', told @ Progress finished (plan_total p) # told'))))"

datatype download_outcome = Done | Paused

text \<open>Linked last, so that a half done snapshot is never loaded.\<close>

definition download ::
  "(string \<Rightarrow> string) \<Rightarrow> download_plan \<Rightarrow> meeting list \<Rightarrow> cache
     \<Rightarrow> (download_error + download_outcome) \<times> cache \<times> download_event list" where
  "download sha p ms c =
     (case fetch_blobs sha p (pl_files p) ms 0 c of
        (Inl e, c', told) \<Rightarrow> (Inl e, c', told)
      | (Inr False, c', told) \<Rightarrow> (Inr Paused, c', told)
      | (Inr True, c', told) \<Rightarrow>
          (Inr Done,
           (fold (\<lambda>f. link (pl_commit p) (fl_name f) (fl_blob f)) (pl_files p) c')\<lparr>ca_main := Some (pl_commit p)\<rparr>,
           told))"

section \<open>One attempt\<close>

text \<open>What an attempt leaves: where it hands out a hash, that of exactly the bytes on disk.\<close>

lemma fetch_once_hash:
  assumes "fetch_once sha repo name sz srv part = (Inr (Some h), part', told)"
  shows "length (content part') = sz \<and> h = sha (content part') \<and> (sz > 0 \<longrightarrow> part' \<noteq> None)"
  using assms
  by (auto simp: fetch_once_def Let_def content_def file_len_def
      split: if_splits reply.splits sum.splits body_end.splits option.splits)

lemma fetch_hash:
  assumes "fetch sha repo name sz as r part = (Some (Inr (Some h)), part', told)"
  shows "length (content part') = sz \<and> h = sha (content part') \<and> (sz > 0 \<longrightarrow> part' \<noteq> None)"
  using assms
proof (induction as arbitrary: r part told)
  case (Cons a as)
  obtain res p' t where o: "fetch_once sha repo name sz (at_reply a) part = (res, p', t)" by (metis prod_cases3)
  show ?case
  proof (cases res)
    case (Inr x)
    with Cons.prems o fetch_once_hash [of sha repo name sz "at_reply a" part h] show ?thesis by auto
  next
    case (Inl e)
    obtain r2 p2 t2 where rec: "fetch sha repo name sz as
        (Suc (if file_len p' > file_len part then 0 else r)) p' = (r2, p2, t2)" by (metis prod_cases3)
    with Cons.prems o Inl have "r2 = Some (Inr (Some h))" and "p2 = part'"
      by (auto simp: Let_def split: if_splits)
    with Cons.IH rec show ?thesis by blast
  qed
qed simp

text \<open>An honest server sends a piece of the file from where the part ends, or from the start
  when it does not do ranges; a server that does answers 206 to them.\<close>

definition honest :: "string \<Rightarrow> (nat \<Rightarrow> reply) \<Rightarrow> bool" where
  "honest f srv \<longleftrightarrow> (\<forall>off. case srv off of
     Response status chunks e \<Rightarrow> prefix (concat chunks) (if off > 0 \<and> status = 206 then drop off f else f)
   | _ \<Rightarrow> True)"

definition does_ranges :: "(nat \<Rightarrow> reply) \<Rightarrow> bool" where
  "does_ranges srv \<longleftrightarrow> (\<forall>off > 0. case srv off of Response status _ _ \<Rightarrow> status = 206 | _ \<Rightarrow> True)"

lemma prefix_drop_append: "prefix p f \<Longrightarrow> prefix x (drop (length p) f) \<Longrightarrow> prefix (p @ x) f"
  by (auto simp: prefix_def)

lemma fetch_once_honest:
  assumes "honest f srv" and "prefix (content part) f" and "sz = length f"
    and "fetch_once sha repo name sz srv part = (res, part', told)"
  shows "prefix (content part') f \<and> (does_ranges srv \<longrightarrow> file_len part \<le> file_len part')"
proof -
  have le: "length (content part) \<le> sz" using assms(2,3) by (simp add: prefix_length_le)
  have len: "file_len part = length (content part)" by (simp add: file_len_def content_def split: option.splits)
  have keep: "(if file_len part > sz then None else part) = part" using le len by simp
  show ?thesis
  proof (cases "file_len part = sz \<or> srv (file_len part) = SendCancelled \<or> srv (file_len part) = SendFailed")
    case True
    with assms(4) have "part' = part" unfolding fetch_once_def keep by (auto simp: Let_def split: if_splits)
    then show ?thesis using assms(2) by simp
  next
    case False
    then obtain status chunks e where r: "srv (file_len part) = Response status chunks e"
      by (cases "srv (file_len part)") auto
    let ?base = "if file_len part > 0 \<and> status \<noteq> 206 then '''' else content part"
    show ?thesis
    proof (cases "check status repo")
      case (Inl err)
      with assms(4) False r have "part' = part" unfolding fetch_once_def keep by (auto simp: Let_def)
      then show ?thesis using assms(2) by simp
    next
      case (Inr u)
      with assms(4) False r have part': "part' = Some (?base @ concat chunks)"
        unfolding fetch_once_def keep by (auto simp: Let_def split: body_end.splits if_splits)
      from assms(1) r have pre: "prefix (concat chunks) (if file_len part > 0 \<and> status = 206 then drop (file_len part) f else f)"
        using spec [OF assms(1) [unfolded honest_def], of "file_len part"] by simp
      have "prefix (?base @ concat chunks) f"
        using pre prefix_drop_append [OF assms(2), of "concat chunks"] len by (auto split: if_splits)
      moreover have "file_len part \<le> length (?base @ concat chunks)" if "does_ranges srv"
      proof (cases "file_len part > 0")
        case True
        then have "status = 206"
          using spec [OF that [unfolded does_ranges_def], of "file_len part"] r by simp
        then show ?thesis using len by simp
      qed simp
      ultimately show ?thesis by (auto simp: part' content_def file_len_def)
    qed
  qed
qed

lemma fetch_honest:
  assumes "list_all (\<lambda>a. honest f (at_reply a)) as" and "prefix (content part) f" and "sz = length f"
    and "fetch sha repo name sz as r part = (res, part', told)"
  shows "prefix (content part') f"
  using assms
proof (induction as arbitrary: r part part' res told)
  case (Cons a as)
  obtain x p' t where o: "fetch_once sha repo name sz (at_reply a) part = (x, p', t)" by (metis prod_cases3)
  have p': "prefix (content p') f"
    using fetch_once_honest [OF _ Cons.prems(2,3) o] Cons.prems(1) by simp
  show ?case
  proof (cases x)
    case (Inr y)
    with Cons.prems(4) o p' show ?thesis by simp
  next
    case (Inl e)
    let ?r = "Suc (if file_len p' > file_len part then 0 else r)"
    obtain r2 p2 t2 where rec: "fetch sha repo name sz as ?r p' = (r2, p2, t2)" by (metis prod_cases3)
    have "prefix (content p2) f" using Cons.IH [OF _ p' Cons.prems(3) rec] Cons.prems(1) by simp
    with Cons.prems(4) o Inl rec p' show ?thesis by (auto simp: Let_def split: if_splits)
  qed
qed simp

text \<open>Each attempt that is not the last either gets further or uses up one of the retries.\<close>

lemma fetch_bound:
  assumes "list_all (\<lambda>a. honest f (at_reply a) \<and> does_ranges (at_reply a)) as"
    and "prefix (content part) f" and "sz = length f" and "r \<le> retries_max"
    and "6 * (sz - file_len part) + (6 - r) \<le> length as"
  shows "fst (fetch sha repo name sz as r part) \<noteq> None"
  using assms
proof (induction as arbitrary: r part)
  case Nil
  then show ?case by (simp add: retries_max_def)
next
  case (Cons a as)
  obtain x p' t where o: "fetch_once sha repo name sz (at_reply a) part = (x, p', t)" by (metis prod_cases3)
  have a: "honest f (at_reply a)" "does_ranges (at_reply a)" using Cons.prems(1) by simp_all
  have p': "prefix (content p') f" and grow: "file_len part \<le> file_len p'"
    using fetch_once_honest [OF a(1) Cons.prems(2,3) o] a(2) by simp_all
  have le: "file_len p' \<le> sz"
    using prefix_length_le [OF p'] Cons.prems(3) by (simp add: file_len_def content_def split: option.splits)
  show ?case
  proof (cases x)
    case (Inr y)
    then show ?thesis using o by simp
  next
    case (Inl e)
    let ?r = "if file_len p' > file_len part then 0 else r"
    show ?thesis
    proof (cases "?r = retries_max \<or> \<not> is_transient e \<or> at_cancelled a")
      case True
      then show ?thesis using o Inl by (auto simp: Let_def)
    next
      case False
      have "fst (fetch sha repo name sz as (Suc ?r) p') \<noteq> None"
      proof (rule Cons.IH [OF _ p' Cons.prems(3)])
        show "list_all (\<lambda>a. honest f (at_reply a) \<and> does_ranges (at_reply a)) as" using Cons.prems(1) by simp
        show "Suc ?r \<le> retries_max" using False Cons.prems(4) by (auto simp: retries_max_def)
        have "?r \<noteq> retries_max" using False by blast
        then show "6 * (sz - file_len p') + (6 - Suc ?r) \<le> length as"
          using Cons.prems(4,5) grow le by (auto simp: retries_max_def)
      qed
      then show ?thesis using o Inl False by (auto simp: Let_def split: prod.splits)
    qed
  qed
qed

section \<open>The cache stays sound\<close>

text \<open>What a plan promises (the Hub's listing does, by the checks of \<open>plan\<close>): safe names and
  ids, one name per file, and one content per blob.\<close>

definition plan_ok :: "download_plan \<Rightarrow> bool" where
  "plan_ok p \<longleftrightarrow>
     (\<forall>f\<in>set (pl_files p). is_plain_path (fl_name f) \<and> is_hex (fl_blob f)) \<and>
     distinct (map (\<lambda>f. components (fl_name f)) (pl_files p)) \<and>
     (\<forall>f\<in>set (pl_files p). \<forall>g\<in>set (pl_files p). fl_blob f = fl_blob g \<longrightarrow> fl_sha f = fl_sha g \<and> fl_size f = fl_size g)"

text \<open>Every blob of the plan that has its size has its hash, and a file of the snapshot that is
  linked is complete.\<close>

definition cache_ok :: "(string \<Rightarrow> string) \<Rightarrow> download_plan \<Rightarrow> cache \<Rightarrow> bool" where
  "cache_ok sha p c \<longleftrightarrow>
     (\<forall>f\<in>set (pl_files p). \<forall>b h. ca_files c (fl_blob f) = Some b \<and> length b = fl_size f \<and> fl_sha f = Some h \<longrightarrow> sha b = h) \<and>
     (\<forall>f\<in>set (pl_files p). ca_links c (pl_commit p, components (fl_name f)) \<noteq> None \<longrightarrow> is_complete c f)"

text \<open>Other downloads, while this one waits for a lock: they keep the cache sound and do not
  undo a blob that is complete.\<close>

definition considerate :: "(string \<Rightarrow> string) \<Rightarrow> download_plan \<Rightarrow> meeting \<Rightarrow> bool" where
  "considerate sha p m \<longleftrightarrow> (\<forall>c c'. mt_wait m c = Some c' \<and> cache_ok sha p c \<longrightarrow>
     cache_ok sha p c' \<and> (\<forall>f\<in>set (pl_files p). is_complete c f \<longrightarrow> is_complete c' f))"

lemma hex_no_dot: "is_hex s \<Longrightarrow> CHR ''.'' \<notin> set s"
proof -
  have "\<not> is_hexdigit CHR ''.''" by (simp add: is_hexdigit_def)
  then show "is_hex s \<Longrightarrow> CHR ''.'' \<notin> set s" by (auto simp: is_hex_def list_all_iff)
qed

lemma hex_not_part: "is_hex s \<Longrightarrow> s \<noteq> part_name t" "is_hex s \<Longrightarrow> s \<noteq> t @ ''.sync.part''"
  by (auto simp: part_name_def dest: hex_no_dot)

text \<open>Changes of files other than the blobs of the plan do not matter.\<close>

lemma cache_ok_cong:
  assumes "\<And>f. f \<in> set (pl_files p) \<Longrightarrow> ca_files c' (fl_blob f) = ca_files c (fl_blob f)"
    and "ca_links c' = ca_links c"
  shows "cache_ok sha p c' = cache_ok sha p c"
    and "f \<in> set (pl_files p) \<Longrightarrow> is_complete c' f = is_complete c f"
  by (simp_all add: cache_ok_def is_complete_def assms cong: ball_cong)

lemma reuse_sync_other:
  assumes "is_hex b"
  shows "ca_files (reuse_sync_part f c) b = ca_files c b" and "ca_links (reuse_sync_part f c) = ca_links c"
  using hex_not_part [OF assms] by (auto simp: reuse_sync_part_def Let_def split: option.splits)

text \<open>Putting a checked file of the plan in place.\<close>

lemma place_blob:
  assumes ok: "plan_ok p" and c: "cache_ok sha p c" and f: "f \<in> set (pl_files p)"
    and b: "length b = fl_size f" "\<And>h. fl_sha f = Some h \<Longrightarrow> sha b = h"
    and c': "\<And>g. g \<in> set (pl_files p) \<Longrightarrow>
        ca_files c' (fl_blob g) = (if fl_blob g = fl_blob f then Some b else ca_files c (fl_blob g))"
      "ca_links c' = ca_links c"
  shows "cache_ok sha p c' \<and> is_complete c' f \<and>
    (\<forall>g\<in>set (pl_files p). is_complete c g \<longrightarrow> is_complete c' g)"
proof -
  have same: "fl_sha g = fl_sha f \<and> fl_size g = fl_size f" if "g \<in> set (pl_files p)" "fl_blob g = fl_blob f" for g
    using ok f that unfolding plan_ok_def by blast
  have keep: "is_complete c' g" if g: "g \<in> set (pl_files p)" "is_complete c g" for g
    using g b(1) same [OF g(1)] by (auto simp: is_complete_def c'(1) split: option.splits if_splits)
  have "sha x = h" if "g \<in> set (pl_files p)" "ca_files c' (fl_blob g) = Some x" "length x = fl_size g" "fl_sha g = Some h" for g x h
    using that c b(2) same [OF that(1)] by (auto simp: cache_ok_def c'(1) split: if_splits)
  moreover have "is_complete c' g" if "g \<in> set (pl_files p)" "ca_links c' (pl_commit p, components (fl_name g)) \<noteq> None" for g
  proof -
    have "is_complete c g" using that c unfolding cache_ok_def c'(2) by blast
    with that(1) show ?thesis by (rule keep)
  qed
  moreover have "is_complete c' f" by (simp add: is_complete_def c'(1) [OF f] b(1))
  ultimately show ?thesis using keep unfolding cache_ok_def by blast
qed

lemma fetch_blob_tried:
  assumes ok: "plan_ok p" and f: "f \<in> set (pl_files p)" and r: "fetch_blob sha p f m c = (res, c', told)"
    and nc: "\<not> is_complete c f" and c1: "mt_wait m c = Some c1" and nc1: "\<not> is_complete c1 f" and ok1: "cache_ok sha p c1"
  shows "cache_ok sha p c' \<and> (\<forall>g\<in>set (pl_files p). is_complete c1 g \<longrightarrow> is_complete c' g) \<and>
    (res = Inr True \<longrightarrow> is_complete c' f)"
proof -
  define c2 where "c2 = reuse_sync_part f c1"
  obtain fr part told' where fr: "fetch sha (pl_repo p) (fl_name f) (fl_size f) (mt_attempts m) 0
      (ca_files c2 (part_name (fl_blob f))) = (fr, part, told')" by (metis prod_cases3)
  define c3 where "c3 = c2\<lparr>ca_files := (ca_files c2)(part_name (fl_blob f) := part)\<rparr>"
  have hex: "is_hex (fl_blob g)" if "g \<in> set (pl_files p)" for g using ok that by (simp add: plan_ok_def)
  have b3: "ca_files c3 (fl_blob g) = ca_files c1 (fl_blob g)" if "g \<in> set (pl_files p)" for g
    using hex_not_part(1) [OF hex [OF that]] reuse_sync_other(1) [OF hex [OF that]]
    by (simp add: c3_def c2_def)
  have l3: "ca_links c3 = ca_links c1" using reuse_sync_other(2) [OF hex [OF f]] by (simp add: c3_def c2_def)
  have r': "(case fr of
       None \<Rightarrow> (Inl OutOfAttempts, c3, told')
     | Some (Inl e) \<Rightarrow> (Inl (Failed e), c3, told')
     | Some (Inr None) \<Rightarrow> (Inr False, c3, told')
     | Some (Inr (Some h)) \<Rightarrow>
         if (case fl_sha f of Some expected \<Rightarrow> expected \<noteq> h | None \<Rightarrow> False)
         then (Inl (Mismatch (fl_name f)), c3\<lparr>ca_files := (ca_files c3)(part_name (fl_blob f) := None)\<rparr>, told')
         else
           (case part of
              None \<Rightarrow> (Inl NoSuchFile, c3, told')
            | Some b \<Rightarrow>
                (Inr True, c3\<lparr>ca_files := (ca_files c3)(part_name (fl_blob f) := None, fl_blob f := Some b)\<rparr>, told')))
     = (res, c', told)"
    unfolding c3_def using r nc c1 nc1 fr by (simp add: fetch_blob_def c2_def [symmetric] Let_def)
  show ?thesis
  proof (cases "res = Inr True")
    case True
    then obtain h b where h: "fr = Some (Inr (Some h))" "part = Some b"
      "\<not> (case fl_sha f of Some expected \<Rightarrow> expected \<noteq> h | None \<Rightarrow> False)"
      and c': "c' = c3\<lparr>ca_files := (ca_files c3)(part_name (fl_blob f) := None, fl_blob f := Some b)\<rparr>"
      using r' by (auto split: option.splits sum.splits if_splits)
    from fetch_hash [of sha _ _ "fl_size f" "mt_attempts m" 0 _ h part told'] fr h(1,2)
    have b: "length b = fl_size f" "h = sha b" by (auto simp: content_def)
    have "cache_ok sha p c' \<and> is_complete c' f \<and> (\<forall>g\<in>set (pl_files p). is_complete c1 g \<longrightarrow> is_complete c' g)"
    proof (rule place_blob [OF ok ok1 f b(1)])
      show "sha b = x" if "fl_sha f = Some x" for x using that h(3) b(2) by auto
      show "ca_files c' (fl_blob g) = (if fl_blob g = fl_blob f then Some b else ca_files c1 (fl_blob g))"
        if "g \<in> set (pl_files p)" for g
        using b3 [OF that] hex_not_part(1) [OF hex [OF that]] by (simp add: c')
      show "ca_links c' = ca_links c1" by (simp add: c' l3)
    qed
    then show ?thesis by blast
  next
    case False
    then have "\<exists>x. c' = c3\<lparr>ca_files := (ca_files c3)(part_name (fl_blob f) := x)\<rparr>"
      using r' by (auto split: option.splits sum.splits if_splits intro: exI [of _ part] simp: c3_def)
    then obtain x where c': "c' = c3\<lparr>ca_files := (ca_files c3)(part_name (fl_blob f) := x)\<rparr>" ..
    have same: "ca_files c' (fl_blob g) = ca_files c1 (fl_blob g)" if "g \<in> set (pl_files p)" for g
      using b3 [OF that] hex_not_part(1) [OF hex [OF that]] by (simp add: c')
    have "ca_links c' = ca_links c1" by (simp add: c' l3)
    from cache_ok_cong [OF same this] ok1 False show ?thesis by simp
  qed
qed

lemma fetch_blob_ok:
  assumes ok: "plan_ok p" and f: "f \<in> set (pl_files p)" and m: "considerate sha p m" and c: "cache_ok sha p c"
    and r: "fetch_blob sha p f m c = (res, c', told)"
  shows "cache_ok sha p c' \<and> (\<forall>g\<in>set (pl_files p). is_complete c g \<longrightarrow> is_complete c' g) \<and>
    (res = Inr True \<longrightarrow> is_complete c' f)"
proof (cases "is_complete c f \<or> mt_wait m c = None")
  case True
  then have "c' = c \<and> (res = Inr True \<longrightarrow> is_complete c f)"
    using r by (cases "is_complete c f"; cases "mt_wait m c") (auto simp: fetch_blob_def)
  with c show ?thesis by simp
next
  case False
  then obtain c1 where c1: "mt_wait m c = Some c1" and nc: "\<not> is_complete c f" by auto
  from m c c1 have ok1: "cache_ok sha p c1" and k1: "\<forall>g\<in>set (pl_files p). is_complete c g \<longrightarrow> is_complete c1 g"
    unfolding considerate_def by blast+
  show ?thesis
  proof (cases "is_complete c1 f")
    case True
    with r nc c1 ok1 k1 show ?thesis by (simp add: fetch_blob_def)
  next
    case False
    from fetch_blob_tried [OF ok f r nc c1 this ok1] k1 show ?thesis by blast
  qed
qed

lemma fetch_blobs_ok:
  assumes "plan_ok p" and "set fs \<subseteq> set (pl_files p)" and "list_all (considerate sha p) ms" and "cache_ok sha p c"
    and "fetch_blobs sha p fs ms n c = (res, c', told)"
  shows "cache_ok sha p c' \<and> (\<forall>g\<in>set (pl_files p). is_complete c g \<longrightarrow> is_complete c' g) \<and>
    (res = Inr True \<longrightarrow> (\<forall>f\<in>set fs. is_complete c' f))"
  using assms
proof (induction sha p fs ms n c arbitrary: res c' told rule: fetch_blobs.induct)
  case (3 sha p f fs m ms n c)
  obtain r1 c1 t1 where one: "fetch_blob sha p f m c = (r1, c1, t1)" by (metis prod_cases3)
  have ok1: "cache_ok sha p c1" and k1: "\<forall>g\<in>set (pl_files p). is_complete c g \<longrightarrow> is_complete c1 g"
    and f1: "r1 = Inr True \<longrightarrow> is_complete c1 f"
    using fetch_blob_ok [OF "3.prems"(1) _ _ "3.prems"(4) one] "3.prems"(2,3) by auto
  show ?case
  proof (cases "r1 = Inr True")
    case True
    obtain r2 c2 t2 where two: "fetch_blobs sha p fs ms (n + fl_size f) c1 = (r2, c2, t2)" by (metis prod_cases3)
    have "cache_ok sha p c2 \<and> (\<forall>g\<in>set (pl_files p). is_complete c1 g \<longrightarrow> is_complete c2 g) \<and>
        (r2 = Inr True \<longrightarrow> (\<forall>f\<in>set fs. is_complete c2 f))"
      by (rule "3.IH" [OF one [symmetric] refl refl True _ refl "3.prems"(1) _ _ ok1 two])
        (use "3.prems"(2,3) in auto)
    moreover have "res = r2" "c' = c2" using "3.prems"(5) one True two by (simp_all add: Let_def)
    ultimately show ?thesis using f1 True k1 "3.prems"(2) by auto
  next
    case False
    then have "c' = c1" "res \<noteq> Inr True"
      using "3.prems"(5) one by (auto simp: Let_def split: sum.splits bool.splits)
    then show ?thesis using ok1 k1 by simp
  qed
qed auto

section \<open>Links\<close>

lemma linked_others: "key \<notin> (\<lambda>f. (commit, components (fl_name f))) ` set fs \<Longrightarrow>
    ca_links (fold (\<lambda>f. link commit (fl_name f) (fl_blob f)) fs c) key = ca_links c key"
  by (induction fs arbitrary: c) (auto simp: link_def Let_def)

lemma linked_files [simp]: "ca_files (fold (\<lambda>f. link commit (fl_name f) (fl_blob f)) fs c) = ca_files c"
  by (induction fs arbitrary: c) (auto simp: link_def Let_def)

lemma linked_each:
  assumes "distinct (map (\<lambda>f. components (fl_name f)) fs)" and "f \<in> set fs"
  shows "ca_links (fold (\<lambda>f. link commit (fl_name f) (fl_blob f)) fs c) (commit, components (fl_name f)) =
    Some (replicate (length (components (fl_name f)) + 1) ''..'' @ [''blobs'', fl_blob f])"
  using assms
proof (induction fs arbitrary: c)
  case (Cons g fs)
  show ?case
  proof (cases "f = g")
    case True
    have "(commit, components (fl_name f)) \<notin> (\<lambda>f. (commit, components (fl_name f))) ` set fs"
      using Cons.prems(1) True by auto
    then show ?thesis by (simp add: linked_others True) (simp add: link_def)
  next
    case False
    with Cons.prems Cons.IH show ?thesis by auto
  qed
qed simp

lemma resolve_up: "resolve (dir @ ds) (replicate (length ds) ''..'' @ cs) = resolve dir cs"
proof (induction ds rule: rev_induct)
  case (snoc d ds)
  have "butlast (dir @ ds @ [d]) = dir @ ds" by (metis append_assoc butlast_snoc)
  with snoc show ?case by simp
qed simp

lemma link_leads:
  assumes "is_plain_path name" and "is_hex blob"
  shows "resolve ([''snapshots'', commit] @ map normal (butlast (components name)))
    (replicate (length (components name) + 1) ''..'' @ [''blobs'', blob]) = Some [''blobs'', blob]"
proof -
  let ?ds = "[''snapshots'', commit] @ map normal (butlast (components name))"
  have "components name \<noteq> []"
  proof
    assume "components name = []"
    then have e: "\<not> starts_with name ''/''" "hd (split_on CHR ''/'' name) \<noteq> ''.''"
      "filter (\<lambda>p. p \<noteq> '''' \<and> p \<noteq> ''.'') (split_on CHR ''/'' name) = []"
      by (auto simp: components_def Let_def split: if_splits)
    from assms(1) obtain x xs where n: "name = x # xs" by (cases name) (auto simp: is_plain_path_def)
    with e(1) have "x \<noteq> CHR ''/''" by (simp add: starts_with_def)
    then obtain w ws where "split_on CHR ''/'' name = (x # w) # ws"
      using n by (cases "split_on CHR ''/'' xs") simp_all
    with e(2,3) show False by (auto split: if_splits)
  qed
  then have "length ?ds = length (components name) + 1" by simp
  then have "resolve ([] @ ?ds) (replicate (length (components name) + 1) ''..'' @ [''blobs'', blob])
      = resolve [] [''blobs'', blob]" using resolve_up [of "[]" ?ds] by metis
  moreover have "blob \<noteq> ''..''" using assms(2) hex_no_dot [of blob] by auto
  ultimately show ?thesis by simp
qed

section \<open>Properties\<close>

text \<open>A plan holds a model of the quant asked for, and every file it names is safe to
  save: a name that stays in its folder and an id that is hexadecimal.\<close>

theorem plan_safe:
  assumes "plan repo quant info = Inr p"
  shows "pl_repo p = repo \<and> pl_commit p = ri_sha info \<and> is_hex (pl_commit p) \<and>
    list_all (\<lambda>f. is_plain_path (fl_name f) \<and> is_hex (fl_blob f) \<and> (fl_sha f = None \<or> fl_sha f = Some (fl_blob f)))
      (pl_files p) \<and>
    list_ex (\<lambda>f. is_main_gguf (fl_name f) \<and>
      wanted (fl_name f) (to_lowercase (case quant of Some q \<Rightarrow> q | None \<Rightarrow> default_quant) @ ''.gguf'')) (pl_files p)"
proof -
  let ?g = "to_lowercase (case quant of Some q \<Rightarrow> q | None \<Rightarrow> default_quant) @ ''.gguf''"
  let ?fs = "map model_file_of (filter (\<lambda>s. wanted (sb_rfilename s) ?g) (ri_siblings info))"
  from assms have has: "list_ex (\<lambda>s. is_main_gguf (sb_rfilename s) \<and> wanted (sb_rfilename s) ?g) (ri_siblings info)"
    and hex: "is_hex (ri_sha info)"
    and none: "find (\<lambda>f. \<not> is_plain_path (fl_name f) \<or> \<not> is_hex (fl_blob f)) ?fs = None"
    and p: "p = \<lparr>pl_repo = repo, pl_commit = ri_sha info, pl_files = ?fs\<rparr>"
    unfolding plan_def Let_def by (simp_all split: if_splits option.splits)
  have "is_plain_path (fl_name f) \<and> is_hex (fl_blob f)" if "f \<in> set ?fs" for f
    using none that unfolding find_None_iff by blast
  moreover have "fl_sha f = None \<or> fl_sha f = Some (fl_blob f)" if "f \<in> set ?fs" for f
    using that by (auto simp: model_file_of_def split: option.splits)
  moreover have "list_ex (\<lambda>f. is_main_gguf (fl_name f) \<and> wanted (fl_name f) ?g) ?fs"
    using has by (auto simp: list_ex_iff model_file_of_def)
  ultimately show ?thesis using hex by (simp add: p list_all_iff del: set_map)
qed

text \<open>From an honest server the part is at every end a piece of the file from its start,
  so that a download continues where it stopped, and a finished one is the whole file.\<close>

theorem fetch_resumes:
  assumes "list_all (\<lambda>a. honest f (at_reply a)) as" and "prefix (content part) f" and "sz = length f"
    and "fetch sha repo name sz as r part = (res, part', told)"
  shows "prefix (content part') f \<and>
    (\<forall>h. res = Some (Inr (Some h)) \<longrightarrow> content part' = f \<and> h = sha f)"
proof -
  have p: "prefix (content part') f" by (rule fetch_honest [OF assms])
  obtain z where z: "f = content part' @ z" using p by (rule prefixE)
  have "content part' = f \<and> h = sha f" if "res = Some (Inr (Some h))" for h
  proof -
    have "length (content part') = sz \<and> h = sha (content part')"
      using fetch_hash [of sha repo name sz as r part h part' told] assms(4) that by simp
    moreover from this have "z = []" using assms(3) z by (metis append_eq_conv_conj drop_all order_refl)
    ultimately show ?thesis using z by simp
  qed
  with p show ?thesis by blast
qed

text \<open>A download ends: against an honest server that does ranges, six attempts per byte
  that is left and six more are enough, whichever fail.\<close>

theorem fetch_ends:
  assumes "list_all (\<lambda>a. honest f (at_reply a) \<and> does_ranges (at_reply a)) as"
    and "prefix (content part) f" and "6 * (length f - file_len part) + 6 \<le> length as"
  shows "fst (fetch sha repo name (length f) as 0 part) \<noteq> None"
  by (rule fetch_bound [OF assms(1,2) refl]) (use assms(3) in \<open>simp_all add: retries_max_def\<close>)

text \<open>C22. The cache stays sound however a download ends: a blob that has its size has its
  hash, and a linked file is complete. After a finished one every file of the plan is complete
  and its link leads to its blob, and the commit is the main one.\<close>

theorem download_correct:
  assumes ok: "plan_ok p" and ms: "list_all (considerate sha p) ms" and c: "cache_ok sha p c"
    and d: "download sha p ms c = (res, c', told)"
  shows "cache_ok sha p c' \<and>
    (res = Inr Done \<longrightarrow> ca_main c' = Some (pl_commit p) \<and>
      (\<forall>f\<in>set (pl_files p). is_complete c' f \<and>
        (\<exists>target. ca_links c' (pl_commit p, components (fl_name f)) = Some target \<and>
          resolve ([''snapshots'', pl_commit p] @ map normal (butlast (components (fl_name f)))) target
            = Some [''blobs'', fl_blob f])))"
proof -
  obtain r1 c1 t1 where one: "fetch_blobs sha p (pl_files p) ms 0 c = (r1, c1, t1)" by (metis prod_cases3)
  have ok1: "cache_ok sha p c1" and all: "r1 = Inr True \<longrightarrow> (\<forall>f\<in>set (pl_files p). is_complete c1 f)"
    using fetch_blobs_ok [OF ok order_refl ms c one] by simp_all
  show ?thesis
  proof (cases "r1 = Inr True")
    case False
    then have "c' = c1" "res \<noteq> Inr Done"
      using d one by (auto simp: download_def split: sum.splits bool.splits)
    with ok1 show ?thesis by simp
  next
    case True
    let ?c' = "(fold (\<lambda>f. link (pl_commit p) (fl_name f) (fl_blob f)) (pl_files p) c1)\<lparr>ca_main := Some (pl_commit p)\<rparr>"
    from True d one have c': "c' = ?c'" by (simp add: download_def)
    have comp: "is_complete c' f" if "f \<in> set (pl_files p)" for f
      using that all True by (simp add: c' is_complete_def)
    have "sha b = h" if "f \<in> set (pl_files p)" "ca_files c' (fl_blob f) = Some b" "length b = fl_size f"
      "fl_sha f = Some h" for f b h
      using that ok1 by (simp add: c' cache_ok_def)
    with comp have "cache_ok sha p c'" unfolding cache_ok_def by blast
    moreover have "ca_links c' (pl_commit p, components (fl_name f)) =
        Some (replicate (length (components (fl_name f)) + 1) ''..'' @ [''blobs'', fl_blob f])"
      if "f \<in> set (pl_files p)" for f
      unfolding c' using linked_each [OF _ that] ok by (simp add: plan_ok_def)
    moreover have "ca_main c' = Some (pl_commit p)" by (simp add: c')
    ultimately show ?thesis using comp link_leads ok unfolding plan_ok_def by blast
  qed
qed

text \<open>What is on disk never counts for more than the plan, so the room a download still
  needs is not negative; with every file complete it is all of it.\<close>

theorem on_disk_bounds:
  "on_disk p c \<le> plan_total p \<and> (list_all (is_complete c) (pl_files p) \<longrightarrow> on_disk p c = plan_total p)"
proof -
  have "on_disk p c \<le> plan_total p"
    unfolding on_disk_def plan_total_def by (rule sum_list_mono) simp
  moreover have "on_disk p c = plan_total p" if "list_all (is_complete c) (pl_files p)"
    using that unfolding on_disk_def plan_total_def by (auto simp: list_all_iff cong: map_cong)
  ultimately show ?thesis by blast
qed

text \<open>A file of no bytes is never downloaded: no attempt writes its part, and the part
  that is not there cannot be moved into place. A model with such a file stays unfinished.\<close>

theorem empty_file_fails:
  assumes "f \<in> set (pl_files p)" and "fl_size f = 0" and "fl_sha f = None" and "ca_files c (fl_blob f) = None"
    and "ca_files c (part_name (fl_blob f)) = None" and "ca_files c (fl_blob f @ ''.sync.part'') = None"
    and "mt_wait m c = Some c" and "mt_attempts m \<noteq> []"
  shows "fst (fetch_blob sha p f m c) = Inl NoSuchFile \<and>
    fst (snd (fetch_blob sha p f m c)) = c"
proof -
  obtain a as where a: "mt_attempts m = a # as" using assms(8) by (cases "mt_attempts m") auto
  have "(ca_files c)(part_name (fl_blob f) := None) = ca_files c" using assms(5) by auto
  then show ?thesis
    using assms by (simp add: fetch_blob_def is_complete_def reuse_sync_part_def Let_def a fetch_once_def file_len_def)
qed

section \<open>Witnesses\<close>

definition sample_info :: repo_info where
  "sample_info = \<lparr>ri_sha = ''c0'', ri_siblings =
     [\<lparr>sb_rfilename = ''a-q8_0.gguf'', sb_size = 2, sb_blob_id = ''b0'', sb_lfs = Some ''ab''\<rparr>,
      \<lparr>sb_rfilename = ''x.md'', sb_size = 0, sb_blob_id = ''ee'', sb_lfs = None\<rparr>]\<rparr>"

definition gguf_file :: model_file where
  "gguf_file = \<lparr>fl_name = ''a-q8_0.gguf'', fl_size = 2, fl_blob = ''ab'', fl_sha = Some ''ab''\<rparr>"

definition empty_file :: model_file where
  "empty_file = \<lparr>fl_name = ''x.md'', fl_size = 0, fl_blob = ''ee'', fl_sha = None\<rparr>"

definition sample_plan :: download_plan where
  "sample_plan = \<lparr>pl_repo = ''o/n'', pl_commit = ''c0'', pl_files = [gguf_file]\<rparr>"

definition hi_server :: attempt where
  "hi_server = \<lparr>at_reply = \<lambda>off. Response (if off > 0 then 206 else 200) [drop off ''hi''] Eof, at_cancelled = False\<rparr>"

definition alone :: meeting where
  "alone = \<lparr>mt_wait = Some, mt_attempts = replicate 18 hi_server\<rparr>"

definition empty_cache :: cache where
  "empty_cache = \<lparr>ca_files = Map.empty, ca_links = Map.empty, ca_main = None\<rparr>"

lemma lower_sample:
  "to_lowercase ''a-q8_0.gguf'' = ''a-q8_0.gguf''" "to_lowercase ''x.md'' = ''x.md''" "to_lowercase ''Q8_0'' = ''q8_0''"
  by (simp_all add: to_lowercase_def lower_char_def)

lemma hi_honest: "honest ''hi'' (at_reply hi_server)" "does_ranges (at_reply hi_server)"
  by (simp_all add: honest_def does_ranges_def hi_server_def)

theorem plan_safe_witness:
  "\<exists>p. plan ''o/n'' (Some ''Q8_0'') sample_info = Inr p \<and> is_hex (pl_commit p)"
proof -
  have "\<exists>p. plan ''o/n'' (Some ''Q8_0'') sample_info = Inr p"
    by (simp add: plan_def sample_info_def Let_def is_main_gguf_def wanted_def lower_sample ends_with_def
        starts_with_def metadata_suffixes_def model_file_of_def is_hex_def is_hexdigit_def is_plain_path_def
        components_def)
  then obtain p where p: "plan ''o/n'' (Some ''Q8_0'') sample_info = Inr p" ..
  from plan_safe [OF p] p show ?thesis by blast
qed

theorem fetch_resumes_witness:
  "\<exists>part told. fetch (\<lambda>s. s) ''r'' ''n'' 2 [hi_server] 0 (Some ''h'') = (Some (Inr (Some ''hi'')), part, told) \<and>
     content part = ''hi''"
proof -
  have "\<exists>part told. fetch (\<lambda>s. s) ''r'' ''n'' 2 [hi_server] 0 (Some ''h'') = (Some (Inr (Some ''hi'')), part, told)"
    by (simp add: fetch_once_def file_len_def hi_server_def check_def content_def Let_def)
  then obtain part told
    where f: "fetch (\<lambda>s. s) ''r'' ''n'' 2 [hi_server] 0 (Some ''h'') = (Some (Inr (Some ''hi'')), part, told)" by blast
  from fetch_resumes [OF _ _ _ f, of "''hi''"] f show ?thesis by (auto simp: hi_honest content_def)
qed

theorem fetch_ends_witness:
  "fst (fetch (\<lambda>s. s) ''r'' ''n'' 2 (replicate 18 hi_server) 0 None) \<noteq> None"
  using fetch_ends [of "''hi''" "replicate 18 hi_server" None "\<lambda>s. s" "''r''" "''n''"]
  by (simp add: list_all_iff hi_honest content_def file_len_def numeral_2_eq_2)

lemma sample_plan_ok: "plan_ok sample_plan"
  by (simp add: plan_ok_def sample_plan_def gguf_file_def is_plain_path_def components_def is_hex_def
      is_hexdigit_def starts_with_def)

theorem download_correct_witness:
  "\<exists>c told. download (\<lambda>_. ''ab'') sample_plan [alone] empty_cache = (Inr Done, c, told) \<and>
     ca_main c = Some ''c0'' \<and> is_complete c gguf_file"
proof -
  have a: "mt_attempts alone = hi_server # replicate 17 hi_server" "mt_wait alone = Some"
    by (simp_all add: alone_def numeral_eq_Suc)
  have "\<exists>c told. download (\<lambda>_. ''ab'') sample_plan [alone] empty_cache = (Inr Done, c, told)"
    by (simp add: download_def sample_plan_def gguf_file_def fetch_blob_def is_complete_def empty_cache_def a
        reuse_sync_part_def Let_def fetch_once_def file_len_def hi_server_def check_def content_def)
  then obtain c told where d: "download (\<lambda>_. ''ab'') sample_plan [alone] empty_cache = (Inr Done, c, told)" by blast
  have "considerate (\<lambda>_. ''ab'') sample_plan alone" by (simp add: considerate_def a)
  moreover have "cache_ok (\<lambda>_. ''ab'') sample_plan empty_cache" by (simp add: cache_ok_def empty_cache_def)
  ultimately show ?thesis
    using download_correct [OF sample_plan_ok _ _ d] d by (auto simp: sample_plan_def)
qed

theorem on_disk_bounds_witness:
  "on_disk sample_plan (empty_cache\<lparr>ca_files := [''ab'' \<mapsto> ''hi'']\<rparr>) = plan_total sample_plan"
  using on_disk_bounds [of sample_plan "empty_cache\<lparr>ca_files := [''ab'' \<mapsto> ''hi'']\<rparr>"]
  by (simp add: sample_plan_def gguf_file_def is_complete_def)

theorem empty_file_fails_witness:
  "fst (fetch_blob (\<lambda>s. s) (sample_plan\<lparr>pl_files := [empty_file]\<rparr>) empty_file alone empty_cache) = Inl NoSuchFile"
proof -
  have "mt_wait alone empty_cache = Some empty_cache" "mt_attempts alone \<noteq> []" by (simp_all add: alone_def)
  then show ?thesis
    using empty_file_fails [of empty_file "sample_plan\<lparr>pl_files := [empty_file]\<rparr>" empty_cache alone "\<lambda>s. s"]
    by (simp add: empty_file_def empty_cache_def)
qed

end
