(* ===== verification/Models.thy ===== *)
theory Models
  imports Daemon Download "HOL-Library.AList"
begin

text \<open>
  The models the daemon downloads (\<open>tiles/src/daemon/model\<close>) and the background jobs they
  run as (\<open>daemon/job.rs\<close>): names of models, the state of one model's download and the calls
  that change it, and the model that chats use. A job is its state and its task. What the
  downloader, the disk and the configuration answer is given to each call; a speed is an
  argument, as it is measured in real time.
\<close>

section \<open>Names of models\<close>

record spec =
  sp_repo :: string
  sp_quant :: string

definition is_name_char :: "char \<Rightarrow> bool" where
  "is_name_char c =
     (let n = (of_char c :: nat) in
      48 \<le> n \<and> n \<le> 57 \<or> 65 \<le> n \<and> n \<le> 90 \<or> 97 \<le> n \<and> n \<le> 122 \<or> c \<in> set ''-_.'')"

definition is_name_part :: "string \<Rightarrow> bool" where
  "is_name_part p = (p \<noteq> '''' \<and> p \<noteq> ''.'' \<and> p \<noteq> ''..'' \<and> list_all is_name_char p)"

definition spec_new :: "string \<Rightarrow> string option \<Rightarrow> string + spec" where
  "spec_new repo quant =
     (case split_on CHR ''/'' repo of
        [org, name] \<Rightarrow>
          if is_name_part org \<and> is_name_part name
          then Inr \<lparr>sp_repo = repo, sp_quant = to_uppercase (case quant of Some q \<Rightarrow> q | None \<Rightarrow> default_quant)\<rparr>
          else Inl ''Name a model as org/name:quant, like unsloth/gemma-4-12b-it-GGUF:Q4_K_M''
      | _ \<Rightarrow> Inl ''Name a model as org/name:quant, like unsloth/gemma-4-12b-it-GGUF:Q4_K_M'')"

definition spec_parse :: "string \<Rightarrow> string + spec" where
  "spec_parse model = (let (repo, quant) = split_model_spec (trim model) in spec_new repo quant)"

definition show_spec :: "spec \<Rightarrow> string" where
  "show_spec s = sp_repo s @ CHR '':'' # sp_quant s"

section \<open>Jobs\<close>

text \<open>A task works (\<open>Live\<close>), then sets its last state and is about to return (\<open>Ending\<close>), then
  has finished: a finished task is not live, though its handle may still be there.\<close>

datatype task = NoTask | Live | Ending | Finished

record 's job =
  jb_state :: 's
  jb_task :: task

definition job_new :: "'s \<Rightarrow> 's job" where
  "job_new s = \<lparr>jb_state = s, jb_task = NoTask\<rparr>"

text \<open>Whether the state changed comes with the new job.\<close>

definition job_set :: "'s \<Rightarrow> 's job \<Rightarrow> bool \<times> 's job" where
  "job_set s j = (jb_state j \<noteq> s, j\<lparr>jb_state := s\<rparr>)"

definition is_live :: "'s job \<Rightarrow> bool" where
  "is_live j = (jb_task j = Live \<or> jb_task j = Ending)"

text \<open>Pausing cancels a live task and waits until it has ended, with the state it then sets
  (\<open>final\<close>) unless it has set its last one. The task is taken either way.\<close>

definition job_pause :: "'s \<Rightarrow> 's job \<Rightarrow> 's option \<times> 's job" where
  "job_pause final j =
     (if is_live j
      then let s = (if jb_task j = Live then final else jb_state j) in (Some s, \<lparr>jb_state = s, jb_task = NoTask\<rparr>)
      else (None, j\<lparr>jb_task := NoTask\<rparr>))"

section \<open>One model's download\<close>

datatype download_state =
    Idle
  | Downloading nat nat nat
  | VerifyingState nat nat
  | PausedAt nat nat
  | Downloaded
  | DownloadFailed string

definition is_running :: "download_state \<Rightarrow> bool" where
  "is_running s = (case s of Downloading _ _ _ \<Rightarrow> True | VerifyingState _ _ \<Rightarrow> True | _ \<Rightarrow> False)"

definition is_unfinished :: "download_state \<Rightarrow> bool" where
  "is_unfinished s = (case s of Idle \<Rightarrow> False | Downloaded \<Rightarrow> False | _ \<Rightarrow> True)"

definition from_disk :: "nat \<Rightarrow> nat \<Rightarrow> download_state" where
  "from_disk got all = (if got = 0 then Idle else if got \<ge> all then Downloaded else PausedAt got all)"

record model_status =
  ms_total :: "nat option"
  ms_on_disk :: "nat option"
  ms_free_disk :: "nat option"
  ms_download :: download_state

text \<open>What a call finds: whether the model is ready to load, its plan (fetched once, then kept),
  the bytes on disk, and the free space where that can be read.\<close>

record found =
  fd_ready :: bool
  fd_plan :: "app_error + download_plan"
  fd_cache :: cache
  fd_free :: "nat option"

definition download_status ::
  "found \<Rightarrow> download_state job \<Rightarrow> (app_error + model_status) \<times> download_state job" where
  "download_status fd j =
     (if \<not> is_live j \<and> fd_ready fd
      then (Inr \<lparr>ms_total = None, ms_on_disk = None, ms_free_disk = fd_free fd, ms_download = Downloaded\<rparr>,
            snd (job_set Downloaded j))
      else
        (case fd_plan fd of
           Inl e \<Rightarrow> (Inl e, j)
         | Inr p \<Rightarrow>
             let all = plan_total p; got = on_disk p (fd_cache fd);
                 failed = (case jb_state j of DownloadFailed _ \<Rightarrow> True | _ \<Rightarrow> False);
                 j = (if \<not> is_live j \<and> \<not> failed then snd (job_set (from_disk got all) j) else j)
             in (Inr \<lparr>ms_total = Some all, ms_on_disk = Some got, ms_free_disk = fd_free fd,
                      ms_download = jb_state j\<rparr>, j)))"

definition download_start ::
  "nat \<Rightarrow> found \<Rightarrow> download_state job \<Rightarrow> (app_error + download_state) \<times> download_state job" where
  "download_start spare_room fd j =
     (if is_live j then (Inr (jb_state j), j)
      else
        (case fd_plan fd of
           Inl e \<Rightarrow> (Inl e, j)
         | Inr p \<Rightarrow>
             let all = plan_total p; got = on_disk p (fd_cache fd); needed = all - got + spare_room in
             if got < all \<and> (case fd_free fd of Some free \<Rightarrow> free < needed | None \<Rightarrow> False)
             then (Inl (InsufficientStorage ''The model needs more free disk space''), j)
             else let j = \<lparr>jb_state = Downloading got all 0, jb_task = Live\<rparr> in (Inr (jb_state j), j)))"

text \<open>What the task makes of the downloader's events and of its outcome.\<close>

record progress =
  pg_done :: nat
  pg_total :: nat

definition progress_update ::
  "nat option \<Rightarrow> download_event \<Rightarrow> progress \<Rightarrow> download_state option \<times> progress" where
  "progress_update speed ev p =
     (case ev of
        Verifying _ \<Rightarrow> (Some (VerifyingState (pg_done p) (pg_total p)), p)
      | Progress got _ \<Rightarrow>
          let p = p\<lparr>pg_done := got\<rparr> in
          (map_option (\<lambda>bps. Downloading got (pg_total p) bps) speed, p))"

definition run_outcome ::
  "download_plan \<Rightarrow> cache \<Rightarrow> string + download_outcome \<Rightarrow> download_state" where
  "run_outcome p c r =
     (case r of
        Inr Done \<Rightarrow> Downloaded
      | Inr Paused \<Rightarrow> PausedAt (on_disk p c) (plan_total p)
      | Inl e \<Rightarrow> DownloadFailed e)"

definition download_pause ::
  "spec \<Rightarrow> download_state \<Rightarrow> download_state job \<Rightarrow> (app_error + download_state) \<times> download_state job" where
  "download_pause s final j =
     (case job_pause final j of
        (r, j') \<Rightarrow> (ok_or (NotFound (show_spec s @ '' isn't downloading'')) r, j'))"

text \<open>The removal of the folder of the repository: the bytes freed, nothing there (\<open>None\<close>), or an
  error. On success every quant of the repository is idle.\<close>

definition download_delete ::
  "spec \<Rightarrow> (string + nat option) \<Rightarrow> (spec \<times> download_state job) list
     \<Rightarrow> (app_error + nat) \<times> (spec \<times> download_state job) list" where
  "download_delete s removal quants =
     (case find (\<lambda>q. is_live (snd q)) quants of
        Some q \<Rightarrow>
          (Inl (Conflict (show_spec (fst q) @ '' is downloading, pause it before deleting '' @ show_spec s)), quants)
      | None \<Rightarrow>
          (case removal of
             Inl e \<Rightarrow> (Inl (InternalServerError (''Couldn't delete '' @ show_spec s @ '': '' @ e)), quants)
           | Inr None \<Rightarrow> (Inl (NotFound (show_spec s @ '' isn't on this computer'')), quants)
           | Inr (Some freed) \<Rightarrow> (Inr freed, map (\<lambda>(q, j). (q, snd (job_set Idle j))) quants)))"

section \<open>All models\<close>

text \<open>The models Tiles has a Modelfile for. What a Modelfile names is an argument.\<close>

definition bundled :: "(string \<times> string) list" where
  "bundled = [(''gemma-4-e2b-gguf'', ''Gemma 4 E2B''), (''gemma-4-e4b-gguf'', ''Gemma 4 E4B''),
     (''gemma-4-12b-gguf'', ''Gemma 4 12B''), (''gemma-4-26b-a4b-gguf'', ''Gemma 4 26B-A4B''),
     (''gemma-4-31b-gguf'', ''Gemma 4 31B'')]"

definition modelfile_spec :: "(string + 'f modelfile) \<Rightarrow> string + spec" where
  "modelfile_spec parsed =
     res_bind parsed (\<lambda>m.
     res_bind (ok_or ''the Modelfile has no FROM'' (mf_from m)) (\<lambda>repo. spec_new repo (mf_quant m)))"

definition modelfile_for :: "(string \<Rightarrow> string + 'f modelfile) \<Rightarrow> spec \<Rightarrow> string option" where
  "modelfile_for read s = find (\<lambda>path. modelfile_spec (read path) = Inr s) (map fst bundled)"

definition picked_modelfile :: "(string \<Rightarrow> string + 'f modelfile) \<Rightarrow> string \<Rightarrow> string option" where
  "picked_modelfile read picked = Option.bind (ok (spec_parse picked)) (modelfile_for read)"

type_synonym jobs = "(spec \<times> download_state job) list"

record models =
  md_jobs :: jobs
  md_default :: "spec option"
  md_picked :: "string option"

definition models_get :: "string option \<Rightarrow> models \<Rightarrow> app_error + spec" where
  "models_get model ms =
     (case model of
        Some m \<Rightarrow> map_err BadRequest (spec_parse m)
      | None \<Rightarrow> ok_or (NotFound ''No model was named, and there's no default model'') (md_default ms))"

text \<open>The download of a model, made when it is first asked for.\<close>

definition job_of :: "spec \<Rightarrow> models \<Rightarrow> download_state job" where
  "job_of s ms = (case map_of (md_jobs ms) s of Some j \<Rightarrow> j | None \<Rightarrow> job_new Idle)"

definition put_job :: "spec \<Rightarrow> download_state job \<Rightarrow> models \<Rightarrow> models" where
  "put_job s j ms = ms\<lparr>md_jobs := AList.update s j (md_jobs ms)\<rparr>"

definition quants :: "string \<Rightarrow> models \<Rightarrow> jobs" where
  "quants repo ms = sort_key (\<lambda>q. sp_quant (fst q)) (filter (\<lambda>q. sp_repo (fst q) = repo) (md_jobs ms))"

definition current_model :: "(string \<Rightarrow> string + 'f modelfile) \<Rightarrow> models \<Rightarrow> spec option" where
  "current_model read ms =
     Option.bind (md_picked ms) (\<lambda>picked.
       case spec_parse picked of
         Inr s \<Rightarrow> if modelfile_for read s \<noteq> None then Some s else None
       | Inl _ \<Rightarrow> None)"

definition unfinished :: "models \<Rightarrow> jobs" where
  "unfinished ms = filter (\<lambda>q. is_unfinished (jb_state (snd q))) (md_jobs ms)"

definition select_model ::
  "(string \<Rightarrow> string + 'f modelfile) \<Rightarrow> string option \<Rightarrow> found \<Rightarrow> (string + unit) \<Rightarrow> models
     \<Rightarrow> (app_error + spec) \<times> models" where
  "select_model read model fd store ms =
     (case models_get model ms of
        Inl e \<Rightarrow> (Inl e, ms)
      | Inr s \<Rightarrow>
          let j = job_of s ms in
          if modelfile_for read s = None
          then (Inl (NotFound (''Tiles has no Modelfile for '' @ show_spec s)), put_job s j ms)
          else
            (case download_status fd j of
               (Inl e, j) \<Rightarrow> (Inl e, put_job s j ms)
             | (Inr st, j) \<Rightarrow>
                 if ms_download st \<noteq> Downloaded
                 then (Inl (Conflict (''Download '' @ show_spec s @ '' before using it'')), put_job s j ms)
                 else
                   (case store of
                      Inl e \<Rightarrow> (Inl (InternalServerError e), put_job s j ms)
                    | Inr _ \<Rightarrow> (Inr s, (put_job s j ms)\<lparr>md_picked := Some (show_spec s)\<rparr>))))"

definition delete_model ::
  "(string \<Rightarrow> string + 'f modelfile) \<Rightarrow> string option \<Rightarrow> (string + nat option) \<Rightarrow> models
     \<Rightarrow> (app_error + spec \<times> nat) \<times> models" where
  "delete_model read model removal ms =
     (case models_get model ms of
        Inl e \<Rightarrow> (Inl e, ms)
      | Inr s \<Rightarrow>
          let ms = put_job s (job_of s ms) ms in
          (case (case current_model read ms of Some c \<Rightarrow> Some c | None \<Rightarrow> md_default ms) of
             Some in_use \<Rightarrow>
               if sp_repo in_use = sp_repo s
               then (Inl (Conflict (''Chats use '' @ show_spec in_use @ '', pick another model before deleting '' @ show_spec s)), ms)
               else
                 (case download_delete s removal (quants (sp_repo s) ms) of
                    (r, qs) \<Rightarrow> (res_bind r (\<lambda>freed. Inr (s, freed)), fold (\<lambda>(q, j). put_job q j) qs ms))
           | None \<Rightarrow>
               (case download_delete s removal (quants (sp_repo s) ms) of
                  (r, qs) \<Rightarrow> (res_bind r (\<lambda>freed. Inr (s, freed)), fold (\<lambda>(q, j). put_job q j) qs ms))))"

definition follow_guard :: "bool \<Rightarrow> bool \<Rightarrow> app_error + unit" where
  "follow_guard pause_on_close has_client_header =
     (if pause_on_close \<and> \<not> has_client_header
      then Inl (BadRequest ''pause_on_close needs the x-tiles-client header'') else Inr ())"

section \<open>A download's state tells whether it runs\<close>

inductive job_step :: "download_state job \<Rightarrow> download_state job \<Rightarrow> bool" where
  start: "download_start spare fd j = (r, j') \<Longrightarrow> job_step j j'"
| status: "download_status fd j = (r, j') \<Longrightarrow> job_step j j'"
| event: "jb_task j = Live \<Longrightarrow> progress_update speed ev pg = (Some s, pg') \<Longrightarrow> job_step j (snd (job_set s j))"
| last: "jb_task j = Live \<Longrightarrow> job_step j ((snd (job_set (run_outcome p c out) j))\<lparr>jb_task := Ending\<rparr>)"
| finish: "jb_task j = Ending \<Longrightarrow> job_step j (j\<lparr>jb_task := Finished\<rparr>)"
| pause: "download_pause s (run_outcome p c out) j = (r, j') \<Longrightarrow> job_step j j'"
| delete: "\<not> is_live j \<Longrightarrow> job_step j (snd (job_set Idle j))"

inductive job_reachable :: "download_state job \<Rightarrow> bool" where
  new: "job_reachable (job_new Idle)"
| step: "job_reachable j \<Longrightarrow> job_step j j' \<Longrightarrow> job_reachable j'"

lemma running_simps [simp]:
  "is_running (Downloading a b n)" "is_running (VerifyingState a b)" "\<not> is_running Idle"
  "\<not> is_running Downloaded" "\<not> is_running (PausedAt a b)" "\<not> is_running (DownloadFailed e)"
  "\<not> is_running (from_disk a b)" "\<not> is_running (run_outcome p c out)"
  by (auto simp: is_running_def from_disk_def run_outcome_def split: sum.splits download_outcome.splits)

lemma job_simps [simp]:
  "jb_state (snd (job_set s j)) = s" "jb_task (snd (job_set s j)) = jb_task j"
  by (simp_all add: job_set_def)

lemma status_running:
  assumes "download_status fd j = (r, j')" and "is_running (jb_state j) \<longleftrightarrow> jb_task j = Live"
  shows "is_running (jb_state j') \<longleftrightarrow> jb_task j' = Live"
proof (cases "is_live j")
  case True
  with assms have "j' = j" by (simp add: download_status_def Let_def split: sum.splits)
  with assms(2) show ?thesis by simp
next
  case dead: False
  then have n: "jb_task j \<noteq> Live" by (simp add: is_live_def)
  show ?thesis
  proof (cases "fd_ready fd")
    case True
    with assms(1) dead n show ?thesis by (auto simp: download_status_def)
  next
    case False
    with assms dead n show ?thesis
      by (cases "fd_plan fd"; cases "jb_state j") (auto simp: download_status_def Let_def)
  qed
qed

lemma start_running:
  assumes "download_start spare fd j = (r, j')" and "is_running (jb_state j) \<longleftrightarrow> jb_task j = Live"
  shows "is_running (jb_state j') \<longleftrightarrow> jb_task j' = Live"
proof (cases "is_live j")
  case True
  with assms show ?thesis by (simp add: download_start_def)
next
  case False
  then have "j' = j \<or> (\<exists>a b. j' = \<lparr>jb_state = Downloading a b 0, jb_task = Live\<rparr>)"
    using assms(1) by (cases "fd_plan fd") (simp_all add: download_start_def Let_def split: if_splits, blast+)
  with assms(2) show ?thesis by auto
qed

lemma progress_running: "progress_update speed ev pg = (Some s, pg') \<Longrightarrow> is_running s"
  by (cases ev; cases speed) (auto simp: progress_update_def Let_def)

lemma job_step_running:
  "job_step j j' \<Longrightarrow> is_running (jb_state j) = (jb_task j = Live) \<Longrightarrow> is_running (jb_state j') = (jb_task j' = Live)"
proof (induction rule: job_step.induct)
  case (start spare fd j r j')
  from start_running [OF this] show ?case .
next
  case (status fd j r j')
  then show ?case by (rule status_running)
next
  case (event j speed ev pg s pg')
  from progress_running [OF event(2)] event(1) show ?case by simp
next
  case (pause s p c out j r j')
  then show ?case by (auto simp: download_pause_def job_pause_def is_live_def Let_def split: if_splits)
qed (auto simp: is_live_def)

section \<open>Deleting\<close>

text \<open>After the quants of a repository are put back as idle, they all are.\<close>

lemma put_jobs_idle_aux:
  assumes "map_of (md_jobs (fold (\<lambda>(q, j). put_job q j) (map (\<lambda>(q, j). (q, snd (job_set Idle j))) qs) ms)) q = Some j"
  shows "jb_state j = Idle \<or> q \<notin> fst ` set qs \<and> map_of (md_jobs ms) q = Some j"
  using assms
proof (induction qs arbitrary: ms)
  case (Cons a qs)
  obtain k l where a: "a = (k, l)" by (cases a)
  let ?ms = "put_job k (snd (job_set Idle l)) ms"
  have "jb_state j = Idle \<or> q \<notin> fst ` set qs \<and> map_of (md_jobs ?ms) q = Some j"
    by (rule Cons.IH) (use Cons.prems a in simp)
  then show ?case by (auto simp: put_job_def update_conv' a job_set_def split: if_splits)
qed simp

lemma put_jobs_idle:
  assumes "map_of (md_jobs (fold (\<lambda>(q, j). put_job q j) (map (\<lambda>(q, j). (q, snd (job_set Idle j))) qs) ms)) q = Some j"
    and "set qs = {x \<in> set (md_jobs ms). sp_repo (fst x) = repo}" and "sp_repo q = repo"
  shows "jb_state j = Idle"
proof (rule ccontr)
  assume "jb_state j \<noteq> Idle"
  with put_jobs_idle_aux [OF assms(1)] have "q \<notin> fst ` set qs" "map_of (md_jobs ms) q = Some j" by auto
  then show False using assms(2,3) map_of_SomeD [of "md_jobs ms" q j] by force
qed

section \<open>Properties\<close>

text \<open>In every reachable state of a download the state shown is one of a running download
  exactly while its task works, so only while the task is live: a client that follows the states
  never waits for a download that has ended, and never takes a working one for over.\<close>

theorem running_iff_live:
  assumes "job_reachable j"
  shows "(is_running (jb_state j) \<longleftrightarrow> jb_task j = Live) \<and> (is_live j \<longleftrightarrow> is_running (jb_state j) \<or> jb_task j = Ending)"
proof -
  from assms have "is_running (jb_state j) \<longleftrightarrow> jb_task j = Live"
  proof (induction rule: job_reachable.induct)
    case new
    show ?case by (simp add: job_new_def)
  qed (rule job_step_running)
  then show ?thesis by (auto simp: is_live_def)
qed

definition found_sample :: found where
  "found_sample = \<lparr>fd_ready = False, fd_plan = Inr sample_plan, fd_cache = empty_cache, fd_free = None\<rparr>"

theorem running_iff_live_witness:
  "is_live (snd (download_start 1 found_sample (job_new Idle)))"
proof -
  let ?j = "snd (download_start 1 found_sample (job_new Idle))"
  have "job_reachable ?j"
    by (rule job_reachable.step [OF job_reachable.new]) (rule job_step.start [OF prod.collapse [symmetric]])
  then have "is_live ?j \<longleftrightarrow> is_running (jb_state ?j) \<or> jb_task ?j = Ending"
    by (rule conjunct2 [OF running_iff_live])
  then show ?thesis
    by (simp add: download_start_def found_sample_def job_new_def is_live_def Let_def)
qed

text \<open>A model is deleted only if chats use none of its repository and none of the
  repository's quants is downloading; they are all idle then.\<close>

theorem delete_model_safe:
  assumes "delete_model read model removal ms = (Inr (s, freed), ms')"
  shows "removal = Inr (Some freed) \<and>
    (case current_model read ms of Some c \<Rightarrow> sp_repo c \<noteq> sp_repo s
     | None \<Rightarrow> (case md_default ms of Some d \<Rightarrow> sp_repo d \<noteq> sp_repo s | None \<Rightarrow> True)) \<and>
    (\<forall>q j. map_of (md_jobs ms) q = Some j \<and> sp_repo q = sp_repo s \<longrightarrow> \<not> is_live j) \<and>
    (\<forall>q j. map_of (md_jobs ms') q = Some j \<and> sp_repo q = sp_repo s \<longrightarrow> jb_state j = Idle)"
proof -
  from assms have s: "models_get model ms = Inr s"
    by (auto simp: delete_model_def Let_def res_bind_eq_Inr split: sum.splits option.splits prod.splits if_splits)
  define ms1 where "ms1 = put_job s (job_of s ms) ms"
  have cur: "current_model read ms1 = current_model read ms" "md_default ms1 = md_default ms"
    by (simp_all add: ms1_def put_job_def current_model_def)
  obtain r qs where del: "download_delete s removal (quants (sp_repo s) ms1) = (r, qs)" by (metis prod.exhaust)
  have use: "(case current_model read ms of Some c \<Rightarrow> sp_repo c \<noteq> sp_repo s
     | None \<Rightarrow> (case md_default ms of Some d \<Rightarrow> sp_repo d \<noteq> sp_repo s | None \<Rightarrow> True))"
    and r: "r = Inr freed" and ms': "ms' = fold (\<lambda>(q, j). put_job q j) qs ms1"
    using assms del cur
    by (auto simp: delete_model_def s Let_def ms1_def [symmetric] res_bind_eq_Inr
        split: option.splits if_splits)
  from del r have live: "find (\<lambda>q. is_live (snd q)) (quants (sp_repo s) ms1) = None"
    and rem: "removal = Inr (Some freed)"
    and qs: "qs = map (\<lambda>(q, j). (q, snd (job_set Idle j))) (quants (sp_repo s) ms1)"
    by (auto simp: download_delete_def split: option.splits sum.splits)
  have set_q: "set (quants (sp_repo s) ms1) = {q \<in> set (md_jobs ms1). sp_repo (fst q) = sp_repo s}"
    by (simp add: quants_def)
  have m1: "map_of (md_jobs ms1) = (map_of (md_jobs ms))(s \<mapsto> job_of s ms)"
    by (simp add: ms1_def put_job_def update_conv')
  have "\<not> is_live j" if "map_of (md_jobs ms) q = Some j" "sp_repo q = sp_repo s" for q j
  proof -
    have "map_of (md_jobs ms1) q = Some j" using that(1) by (auto simp: m1 job_of_def)
    then have "(q, j) \<in> set (quants (sp_repo s) ms1)" using that(2) by (simp add: set_q map_of_SomeD)
    with live show ?thesis by (auto simp: find_None_iff)
  qed
  moreover have "jb_state j = Idle" if "map_of (md_jobs ms') q = Some j" "sp_repo q = sp_repo s" for q j
    by (rule put_jobs_idle [OF _ set_q that(2)]) (use that(1) in \<open>simp add: ms' qs\<close>)
  ultimately show ?thesis using use rem by blast
qed

definition no_modelfile :: "string \<Rightarrow> string + unit modelfile" where
  "no_modelfile path = Inl ''no Modelfile''"

definition other_model :: models where
  "other_model = \<lparr>md_jobs = [], md_default = Some \<lparr>sp_repo = ''a/b'', sp_quant = ''Q8_0''\<rparr>, md_picked = None\<rparr>"

theorem delete_model_safe_witness:
  "\<exists>s ms'. delete_model no_modelfile (Some ''o/n:Q8_0'') (Inr (Some 5)) other_model = (Inr (s, 5), ms') \<and>
     sp_repo s \<noteq> ''a/b''"
proof -
  have "spec_parse ''o/n:Q8_0'' = Inr \<lparr>sp_repo = ''o/n'', sp_quant = ''Q8_0''\<rparr>" by code_simp
  then have "\<exists>s ms'. delete_model no_modelfile (Some ''o/n:Q8_0'') (Inr (Some 5)) other_model = (Inr (s, 5), ms')"
    by (simp add: delete_model_def models_get_def other_model_def current_model_def put_job_def Let_def
        download_delete_def quants_def job_of_def job_new_def is_live_def res_bind_def)
  then obtain s ms' where d:
    "delete_model no_modelfile (Some ''o/n:Q8_0'') (Inr (Some 5)) other_model = (Inr (s, 5), ms')" by blast
  have "sp_repo s \<noteq> ''a/b''"
    using delete_model_safe [OF d] by (auto simp: other_model_def current_model_def)
  with d show ?thesis by blast
qed

end
