(* ===== verification/Textual.thy ===== *)
theory Textual
  imports Prelude
begin

text \<open>
  The line and word functions of the Rust library that the components reading the output of
  other programs use: \<open>str::lines\<close>, \<open>split_whitespace\<close>, \<open>rsplitn\<close> and the text after a first
  occurrence. White space is that of ASCII, as in \<open>Prelude\<close>. A string is the bytes of its UTF-8 form;
  the last section reads bytes as such a string.
\<close>

fun split_by :: "(char \<Rightarrow> bool) \<Rightarrow> string \<Rightarrow> string list" where
  "split_by P [] = [[]]"
| "split_by P (x # xs) =
     (if P x then [] # split_by P xs
      else case split_by P xs of [] \<Rightarrow> [[x]] | w # ws \<Rightarrow> (x # w) # ws)"

definition split_whitespace :: "string \<Rightarrow> string list" where
  "split_whitespace s = filter (\<lambda>w. w \<noteq> []) (split_by is_space s)"

text \<open>A line ends with a line feed, a carriage return before it goes with it; what follows the
  last line feed is a line if it is not empty.\<close>

definition chop_cr :: "string \<Rightarrow> string" where
  "chop_cr l = (if l \<noteq> [] \<and> last l = CHR 0x0D then butlast l else l)"

definition str_lines :: "string \<Rightarrow> string list" where
  "str_lines s =
     (let parts = split_on (CHR 0x0A) s in
      map chop_cr (butlast parts) @ (if last parts = [] then [] else [last parts]))"

fun rsplitn :: "nat \<Rightarrow> char \<Rightarrow> string \<Rightarrow> string list" where
  "rsplitn 0 c s = []"
| "rsplitn (Suc 0) c s = [s]"
| "rsplitn (Suc (Suc n)) c s =
     (case rsplit_once c s of None \<Rightarrow> [s] | Some (a, b) \<Rightarrow> b # rsplitn (Suc n) c a)"

fun text_after :: "string \<Rightarrow> string \<Rightarrow> string option" where
  "text_after p [] = (if p = [] then Some [] else None)"
| "text_after p (x # xs) = (case strip_prefix p (x # xs) of Some r \<Rightarrow> Some r | None \<Rightarrow> text_after p xs)"

text \<open>The first result of a function on a list that is not \<open>None\<close>.\<close>

fun find_map :: "('a \<Rightarrow> 'b option) \<Rightarrow> 'a list \<Rightarrow> 'b option" where
  "find_map f [] = None"
| "find_map f (x # xs) = (case f x of Some y \<Rightarrow> Some y | None \<Rightarrow> find_map f xs)"

fun map_while :: "('a \<Rightarrow> 'b option) \<Rightarrow> 'a list \<Rightarrow> 'b list" where
  "map_while f [] = []"
| "map_while f (x # xs) = (case f x of Some y \<Rightarrow> y # map_while f xs | None \<Rightarrow> [])"

definition filter_map :: "('a \<Rightarrow> 'b option) \<Rightarrow> 'a list \<Rightarrow> 'b list" where
  "filter_map f xs = map (\<lambda>x. the (f x)) (filter (\<lambda>x. f x \<noteq> None) xs)"

lemma filter_map_simps [simp]:
  "filter_map f [] = []"
  "filter_map f (x # xs) = (case f x of Some y \<Rightarrow> y # filter_map f xs | None \<Rightarrow> filter_map f xs)"
  by (auto simp: filter_map_def split: option.splits)

lemma set_filter_map: "y \<in> set (filter_map f xs) \<longleftrightarrow> (\<exists>x \<in> set xs. f x = Some y)"
  by (force simp: filter_map_def)

lemma filter_map_append [simp]: "filter_map f (xs @ ys) = filter_map f xs @ filter_map f ys"
  by (simp add: filter_map_def)

section \<open>UTF-8\<close>

text \<open>\<open>String::from_utf8_lossy\<close>, what is left of bytes that are read as text: the bytes of a character stay,
  and a sequence that is none, or is cut off, is replaced as far as it could have been one.\<close>

definition byte_in :: "nat \<Rightarrow> nat \<Rightarrow> char \<Rightarrow> bool" where
  "byte_in lo hi c \<longleftrightarrow> lo \<le> of_char c \<and> of_char c \<le> hi"

text \<open>What may follow a first byte: the range of the second, and how many more there are.\<close>

definition utf8_follow :: "char \<Rightarrow> ((nat \<times> nat) \<times> nat) option" where
  "utf8_follow b =
     (if byte_in 0xC2 0xDF b then Some ((0x80, 0xBF), 0)
      else if byte_in 0xE0 0xE0 b then Some ((0xA0, 0xBF), 1)
      else if byte_in 0xE1 0xEC b \<or> byte_in 0xEE 0xEF b then Some ((0x80, 0xBF), 1)
      else if byte_in 0xED 0xED b then Some ((0x80, 0x9F), 1)
      else if byte_in 0xF0 0xF0 b then Some ((0x90, 0xBF), 2)
      else if byte_in 0xF1 0xF3 b then Some ((0x80, 0xBF), 2)
      else if byte_in 0xF4 0xF4 b then Some ((0x80, 0x8F), 2)
      else None)"

text \<open>How many bytes the next sequence takes up after its first byte, and if it is a character.\<close>

definition utf8_rest :: "char \<Rightarrow> string \<Rightarrow> bool \<times> nat" where
  "utf8_rest b s =
     (if of_char b < (0x80 :: nat) then (True, 0)
      else case utf8_follow b of
        None \<Rightarrow> (False, 0)
      | Some ((lo, hi), n) \<Rightarrow>
          (case s of
             [] \<Rightarrow> (False, 0)
           | c # cs \<Rightarrow>
               if byte_in lo hi c
               then (let m = length (takeWhile (byte_in 0x80 0xBF) (take n cs)) in (m = n, Suc m))
               else (False, 0)))"

fun utf8_lossy :: "string \<Rightarrow> string" where
  "utf8_lossy [] = []"
| "utf8_lossy (b # s) =
     (case utf8_rest b s of
        (True, n) \<Rightarrow> b # take n s @ utf8_lossy (drop n s)
      | (False, n) \<Rightarrow> [CHR 0xEF, CHR 0xBF, CHR 0xBD] @ utf8_lossy (drop n s))"

fun utf8_valid :: "string \<Rightarrow> bool" where
  "utf8_valid [] = True"
| "utf8_valid (b # s) = (case utf8_rest b s of (valid, n) \<Rightarrow> valid \<and> utf8_valid (drop n s))"

lemma utf8_rest_append:
  assumes "utf8_rest b s = (True, n)"
  shows "utf8_rest b (s @ u) = (True, n) \<and> n \<le> length s"
proof (cases "of_char b < (0x80 :: nat)")
  case False
  with assms obtain lo hi k c cs where f: "utf8_follow b = Some ((lo, hi), k)" "s = c # cs" "byte_in lo hi c"
    by (auto simp: utf8_rest_def split: option.splits list.splits if_splits)
  with assms False have k: "length (takeWhile (byte_in 0x80 0xBF) (take k cs)) = k" "n = Suc k"
    by (auto simp: utf8_rest_def Let_def)
  from k(1) have "k \<le> length cs"
    by (metis length_take length_takeWhile_le min.cobounded1 min_def nat_le_linear)
  with f k False show ?thesis by (simp add: utf8_rest_def)
qed (use assms in \<open>auto simp: utf8_rest_def\<close>)

lemma utf8_lossy_append: "utf8_valid s \<Longrightarrow> utf8_lossy (s @ u) = s @ utf8_lossy u"
proof (induction s rule: utf8_valid.induct)
  case (2 b s)
  then obtain n where n: "utf8_rest b s = (True, n)" by (auto split: prod.splits)
  with utf8_rest_append [OF this, of u] "2.IH" "2.prems" show ?case
    by (simp flip: append_assoc)
qed simp

lemma utf8_lossy_concat: "(\<And>c. c \<in> set cs \<Longrightarrow> utf8_valid c) \<Longrightarrow> utf8_lossy (concat cs) = concat cs"
  by (induction cs) (simp_all add: utf8_lossy_append)

lemma utf8_lossy_valid: "utf8_valid s \<Longrightarrow> utf8_lossy s = s"
  using utf8_lossy_append [of s "[]"] by simp

text \<open>A character that is read in two parts is lost.\<close>

lemma cut_character_is_lost:
  "utf8_lossy [CHR 0xC3, CHR 0xA9] = [CHR 0xC3, CHR 0xA9] \<and>
   utf8_lossy [CHR 0xC3] @ utf8_lossy [CHR 0xA9] =
     [CHR 0xEF, CHR 0xBF, CHR 0xBD, CHR 0xEF, CHR 0xBF, CHR 0xBD]"
  by (simp add: utf8_rest_def utf8_follow_def byte_in_def)

end
