(* ===== verification/Engines.thy ===== *)
theory Engines
  imports Textual "HOL-Library.List_Lexorder"
begin

text \<open>
  The llama.cpp builds Tiles runs models with and the choice between them
  (\<open>crates/tiles-engine/src/lib.rs\<close>), and what is read off the computer to choose
  (\<open>detect.rs\<close>). What programs print and what files of the system hold is the record \<open>probe\<close>; the answer of the
  driver libraries arrives parsed.
\<close>

section \<open>Engines and builds\<close>

datatype engine = Cuda13 | Cuda12 | Vulkan | Cpu | Metal

definition all_engines :: "engine list" where
  "all_engines = [Cuda13, Cuda12, Vulkan, Cpu, Metal]"

fun engine_name :: "engine \<Rightarrow> string" where
  "engine_name Cuda13 = ''cuda-13''"
| "engine_name Cuda12 = ''cuda-12''"
| "engine_name Vulkan = ''vulkan''"
| "engine_name Cpu = ''cpu''"
| "engine_name Metal = ''metal''"

definition engine_from_name :: "string \<Rightarrow> engine option" where
  "engine_from_name name = find (\<lambda>e. engine_name e = name) all_engines"

definition is_bundled :: "engine \<Rightarrow> bool" where
  "is_bundled e = (e = Cpu \<or> e = Metal)"

record build_file =
  bf_name :: string
  bf_size :: nat
  bf_unpacked :: nat
  bf_sha :: string

record engine_build =
  eb_engine :: engine
  eb_arch :: string
  eb_version :: "string option"
  eb_files :: "build_file list"

record builds =
  bs_tag :: string
  bs_engines :: "engine_build list"

text \<open>\<open>here\<close> is the processor Tiles was compiled for.\<close>

definition builds_find :: "string \<Rightarrow> builds \<Rightarrow> engine \<Rightarrow> engine_build option" where
  "builds_find here bs e = find (\<lambda>b. eb_engine b = e \<and> eb_arch b = here) (bs_engines bs)"

section \<open>What the computer has\<close>

datatype vendor = Nvidia | Amd | Intel | Apple | OtherVendor

record gpu =
  gp_vendor :: vendor
  gp_name :: "string option"
  gp_capability :: "(nat \<times> nat) option"
  gp_vram :: "nat option"

record hardware =
  hw_os :: string
  hw_arch :: string
  hw_gpus :: "gpu list"
  hw_driver :: "string option"
  hw_cuda :: "(nat \<times> nat) option"
  hw_vulkan :: bool

definition nvidia_gpus :: "hardware \<Rightarrow> gpu list" where
  "nvidia_gpus hw = filter (\<lambda>g. gp_vendor g = Nvidia) (hw_gpus hw)"

record nvidia_info =
  nv_gpus :: "gpu list"
  nv_driver :: "string option"
  nv_cuda :: "(nat \<times> nat) option"

definition parse_dotted :: "string \<Rightarrow> (nat \<times> nat) option" where
  "parse_dotted text =
     (case split_once CHR ''.'' text of
        None \<Rightarrow> None
      | Some (major, minor) \<Rightarrow>
          (case (parse_unsigned 32 major, parse_unsigned 32 minor) of
             (Some a, Some b) \<Rightarrow> Some (a, b)
           | _ \<Rightarrow> None))"

definition parse_sysctl :: "string \<Rightarrow> gpu option" where
  "parse_sysctl text =
     (case map trim (str_lines text) of
        [] \<Rightarrow> None
      | name # rest \<Rightarrow>
          if starts_with name ''Apple''
          then Some \<lparr>gp_vendor = Apple, gp_name = Some name, gp_capability = None,
                 gp_vram = (case rest of [] \<Rightarrow> None | bytes # _ \<Rightarrow> parse_unsigned 64 bytes)\<rparr>
          else None)"

text \<open>The product of the mebibytes wraps, as it does in a release build.\<close>

definition smi_gpu :: "string \<Rightarrow> (string \<times> gpu) option" where
  "smi_gpu line =
     (case map trim (rsplitn 4 CHR '','' line) of
        [vram, cc, version, name] \<Rightarrow>
          Some (version,
            \<lparr>gp_vendor = Nvidia, gp_name = Some name, gp_capability = parse_dotted cc,
             gp_vram = map_option (\<lambda>mib. mib * 1024 * 1024 mod 2 ^ 64) (parse_unsigned 64 vram)\<rparr>)
      | _ \<Rightarrow> None)"

definition parse_nvidia_smi :: "string \<Rightarrow> nvidia_info" where
  "parse_nvidia_smi text =
     (let rows = filter_map smi_gpu (str_lines text) in
      \<lparr>nv_gpus = map snd rows, nv_driver = (case rows of [] \<Rightarrow> None | (v, _) # _ \<Rightarrow> Some v), nv_cuda = None\<rparr>)"

definition proc_gpu_model :: "string \<Rightarrow> string option" where
  "proc_gpu_model text = map_option trim (find_map (strip_prefix ''Model:'') (str_lines text))"

text \<open>\<open>folders\<close> are the texts of the information files, in the order of their folders.\<close>

definition proc_gpus :: "string option list \<Rightarrow> gpu list" where
  "proc_gpus folders =
     map (\<lambda>info. \<lparr>gp_vendor = Nvidia, gp_name = Option.bind info proc_gpu_model, gp_capability = None,
        gp_vram = None\<rparr>) folders"

definition packed :: "int \<Rightarrow> (nat \<times> nat) option" where
  "packed v = (if v > 0 then Some (nat v div 1000, nat v mod 1000 div 10) else None)"

definition proc_driver_version :: "string \<Rightarrow> string option" where
  "proc_driver_version text =
     Option.bind (find (\<lambda>line. starts_with line ''NVRM version'') (str_lines text)) (\<lambda>line.
     find (\<lambda>word. CHR ''.'' \<in> set word \<and> list_all (\<lambda>part. parse_unsigned 32 part \<noteq> None) (split_on CHR ''.'' word))
       (split_whitespace line))"

definition drm_vendor :: "string \<Rightarrow> vendor" where
  "drm_vendor text =
     (let i = trim text in
      if i = ''0x10de'' then Nvidia else if i = ''0x1002'' then Amd else if i = ''0x8086'' then Intel
      else OtherVendor)"

text \<open>The cards are the entries of \<open>/sys/class/drm\<close> in the order of their paths, with the text
  of their vendor file.\<close>

definition is_card :: "string \<Rightarrow> bool" where
  "is_card name =
     (case strip_prefix ''card'' name of Some n \<Rightarrow> n \<noteq> [] \<and> list_all is_digit n | None \<Rightarrow> False)"

definition drm_vendors :: "(string \<times> string option) list \<Rightarrow> vendor list" where
  "drm_vendors entries = map drm_vendor (filter_map snd (filter (\<lambda>e. is_card (fst e)) entries))"

record probe =
  pr_os :: string
  pr_arch :: string
  pr_sysctl :: "string option"
  pr_smi :: "string option"
  pr_proc_gpus :: "string option list"
  pr_libraries :: "nvidia_info option"
  pr_proc_version :: "string option"
  pr_drm :: "(string \<times> string option) list"
  pr_vulkan :: bool

definition bare_gpu :: "vendor \<Rightarrow> gpu" where
  "bare_gpu v = \<lparr>gp_vendor = v, gp_name = None, gp_capability = None, gp_vram = None\<rparr>"

definition or_else :: "'a option \<Rightarrow> 'a option \<Rightarrow> 'a option" where
  "or_else a b = (case a of Some _ \<Rightarrow> a | None \<Rightarrow> b)"

definition ask_libraries :: "nvidia_info option \<Rightarrow> nvidia_info \<Rightarrow> nvidia_info" where
  "ask_libraries answer nv =
     (let incomplete = nv_gpus nv = [] \<or> nv_driver nv = None \<or> list_ex (\<lambda>g. gp_capability g = None) (nv_gpus nv) in
      case answer of
        Some found \<Rightarrow>
          if incomplete
          then \<lparr>nv_gpus = (if nv_gpus found \<noteq> [] then nv_gpus found else nv_gpus nv),
                 nv_driver = or_else (nv_driver nv) (nv_driver found), nv_cuda = nv_cuda found\<rparr>
          else nv
      | None \<Rightarrow> nv)"

definition detect :: "probe \<Rightarrow> hardware" where
  "detect pr =
     (if pr_os pr = ''macos''
      then \<lparr>hw_os = pr_os pr, hw_arch = pr_arch pr,
            hw_gpus = (case Option.bind (pr_sysctl pr) parse_sysctl of Some g \<Rightarrow> [g] | None \<Rightarrow> []),
            hw_driver = None, hw_cuda = None, hw_vulkan = False\<rparr>
      else
        let nv = (case pr_smi pr of Some t \<Rightarrow> parse_nvidia_smi t
                  | None \<Rightarrow> \<lparr>nv_gpus = [], nv_driver = None, nv_cuda = None\<rparr>);
            nv = (if nv_gpus nv = [] then nv\<lparr>nv_gpus := proc_gpus (pr_proc_gpus pr)\<rparr> else nv);
            nv = ask_libraries (pr_libraries pr) nv;
            nv = (if nv_driver nv = None
                  then nv\<lparr>nv_driver := Option.bind (pr_proc_version pr) proc_driver_version\<rparr> else nv)
        in \<lparr>hw_os = pr_os pr, hw_arch = pr_arch pr,
            hw_gpus = nv_gpus nv @
              map bare_gpu (filter (\<lambda>v. v \<noteq> Nvidia \<or> nv_gpus nv = []) (drm_vendors (pr_drm pr))),
            hw_driver = nv_driver nv, hw_cuda = nv_cuda nv, hw_vulkan = pr_vulkan pr\<rparr>)"

section \<open>Choosing\<close>

record choice =
  ch_engine :: engine
  ch_label :: string
  ch_download :: nat
  ch_unavailable :: "string option"

definition version :: "string \<Rightarrow> nat list" where
  "version text = map_while (parse_unsigned 32) (split_on CHR ''.'' text)"

definition cuda_12_driver :: "string \<times> nat \<times> nat" where "cuda_12_driver = (''570.26'', 12, 8)"
definition cuda_13_driver :: "string \<times> nat \<times> nat" where "cuda_13_driver = (''580.65.06'', 13, 0)"

definition cuda_13_native :: "(nat \<times> nat) list" where
  "cuda_13_native = [(8, 6), (8, 9), (12, 0), (12, 1)]"

definition show_cuda :: "nat \<times> nat \<Rightarrow> string" where
  "show_cuda v = show_nat (fst v) @ ''.'' @ show_nat (snd v)"

definition cuda :: "hardware \<Rightarrow> string \<times> nat \<times> nat \<Rightarrow> string option" where
  "cuda hw need =
     (let (oldest, needs) = need in
      if nvidia_gpus hw = [] then Some ''No NVIDIA GPU found''
      else case (hw_driver hw, hw_cuda hw) of
        (Some driver, _) \<Rightarrow>
          if version driver < version oldest
          then Some (''Needs NVIDIA driver '' @ oldest @ '' or newer, this one is '' @ driver) else None
      | (None, Some c) \<Rightarrow>
          if fst c < fst needs \<or> fst c = fst needs \<and> snd c < snd needs
          then Some (''Needs an NVIDIA driver for CUDA '' @ show_cuda needs @ '' or newer, this one is for CUDA ''
                 @ show_cuda c)
          else None
      | (None, None) \<Rightarrow> Some ''The NVIDIA driver isn't running'')"

fun unavailable :: "engine \<Rightarrow> hardware \<Rightarrow> bool \<Rightarrow> string option" where
  "unavailable Cpu hw built = None"
| "unavailable e hw False = Some ''llama.cpp has no build of it for this processor''"
| "unavailable Cuda13 hw True = cuda hw cuda_13_driver"
| "unavailable Cuda12 hw True = cuda hw cuda_12_driver"
| "unavailable Vulkan hw True =
     (if hw_gpus hw = [] then Some ''No GPU found''
      else if \<not> hw_vulkan hw
      then Some ''No Vulkan driver found. Install your distro's Vulkan packages, like mesa-vulkan-drivers''
      else None)"
| "unavailable Metal hw True = Some ''Metal is only on macOS''"

definition label :: "engine \<Rightarrow> engine_build option \<Rightarrow> string" where
  "label e build =
     (case (e, Option.bind build eb_version) of
        (Cuda13, Some v) \<Rightarrow> ''CUDA '' @ v
      | (Cuda12, Some v) \<Rightarrow> ''CUDA '' @ v
      | (Cuda13, None) \<Rightarrow> ''CUDA 13''
      | (Cuda12, None) \<Rightarrow> ''CUDA 12''
      | (Vulkan, _) \<Rightarrow> ''Vulkan''
      | (Cpu, _) \<Rightarrow> ''CPU''
      | (Metal, _) \<Rightarrow> ''Metal'')"

definition choice_of :: "hardware \<Rightarrow> builds \<Rightarrow> engine \<Rightarrow> choice" where
  "choice_of hw bs e =
     (let build = find (\<lambda>b. eb_engine b = e \<and> eb_arch b = hw_arch hw) (bs_engines bs) in
      \<lparr>ch_engine = e, ch_label = label e build,
       ch_download = (if e = Cpu then 0
         else case build of None \<Rightarrow> 0 | Some b \<Rightarrow> sum_list (map bf_size (eb_files b))),
       ch_unavailable = unavailable e hw (build \<noteq> None)\<rparr>)"

definition choices :: "hardware \<Rightarrow> builds \<Rightarrow> choice list" where
  "choices hw bs =
     (if hw_os hw = ''macos''
      then [\<lparr>ch_engine = Metal, ch_label = ''Metal'', ch_download = 0, ch_unavailable = None\<rparr>]
      else map (choice_of hw bs) [Cuda13, Cuda12, Vulkan, Cpu])"

definition suits :: "hardware \<Rightarrow> choice \<Rightarrow> bool" where
  "suits hw c =
     (let nvidia = nvidia_gpus hw;
          native = nvidia \<noteq> [] \<and>
            list_all (\<lambda>g. case gp_capability g of Some cc \<Rightarrow> cc \<in> set cuda_13_native | None \<Rightarrow> False) nvidia;
          known = list_ex (\<lambda>g. gp_vendor g \<noteq> OtherVendor) (hw_gpus hw)
      in case ch_engine c of
           Cuda13 \<Rightarrow> native \<or> hw_arch hw = ''aarch64''
         | Vulkan \<Rightarrow> known
         | _ \<Rightarrow> True)"

definition auto_engine :: "hardware \<Rightarrow> choice list \<Rightarrow> engine" where
  "auto_engine hw cs =
     (case find (suits hw) (filter (\<lambda>c. ch_unavailable c = None) cs) of
        Some c \<Rightarrow> ch_engine c
      | None \<Rightarrow> Cpu)"

definition can_run :: "choice list \<Rightarrow> engine \<Rightarrow> bool" where
  "can_run cs e = list_ex (\<lambda>c. ch_engine c = e \<and> ch_unavailable c = None) cs"

definition engine_to_run :: "engine option \<Rightarrow> hardware \<Rightarrow> choice list \<Rightarrow> engine" where
  "engine_to_run backend hw cs =
     (case backend of
        Some e \<Rightarrow> if can_run cs e then e else auto_engine hw cs
      | None \<Rightarrow> auto_engine hw cs)"

section \<open>Failed checks\<close>

text \<open>The file of failures: for an engine the llama.cpp build that failed its check, and why.\<close>

type_synonym failures = "engine \<Rightarrow> (string \<times> string) option"

definition failures_for :: "string \<Rightarrow> failures \<Rightarrow> engine \<Rightarrow> string option" where
  "failures_for tag fs e = Option.bind (fs e) (\<lambda>(t, reason). if t = tag then Some reason else None)"

definition mark_failures :: "string \<Rightarrow> failures \<Rightarrow> choice list \<Rightarrow> choice list" where
  "mark_failures tag fs cs =
     map (\<lambda>c. if ch_unavailable c = None then c\<lparr>ch_unavailable := failures_for tag fs (ch_engine c)\<rparr> else c) cs"

text \<open>How a write of the file ends: it goes through, it fails before the file is opened, or
  after it was cut off. A file that is cut off no longer parses, so it counts as empty.\<close>

datatype write_end = Written | NotOpened string | TornWrite string

definition write_failures :: "write_end \<Rightarrow> failures \<Rightarrow> failures \<Rightarrow> (string + unit) \<times> failures" where
  "write_failures w new old =
     (case w of
        Written \<Rightarrow> (Inr (), new)
      | NotOpened err \<Rightarrow> (Inl err, old)
      | TornWrite err \<Rightarrow> (Inl err, \<lambda>_. None))"

definition record_failure ::
  "write_end \<Rightarrow> engine \<Rightarrow> string \<Rightarrow> string \<Rightarrow> failures \<Rightarrow> (string + unit) \<times> failures" where
  "record_failure w e tag reason fs = write_failures w (fs(e \<mapsto> (tag, reason))) fs"

definition clear_failure :: "write_end \<Rightarrow> engine \<Rightarrow> failures \<Rightarrow> (string + unit) \<times> failures" where
  "clear_failure w e fs = (if fs e = None then (Inr (), fs) else write_failures w (fs(e := None)) fs)"

definition engine_choices :: "hardware \<Rightarrow> builds \<Rightarrow> failures \<Rightarrow> choice list" where
  "engine_choices hw bs fs = mark_failures (bs_tag bs) fs (choices hw bs)"

section \<open>The engine that runs can run\<close>

lemma can_run_iff: "can_run cs e \<longleftrightarrow> (\<exists>c \<in> set cs. ch_engine c = e \<and> ch_unavailable c = None)"
  by (auto simp: can_run_def list_ex_iff)

lemma bundled_runs:
  assumes "\<And>b. is_bundled b \<Longrightarrow> failures_for (bs_tag bs) fs b = None"
  shows "can_run (engine_choices hw bs fs) (if hw_os hw = ''macos'' then Metal else Cpu)"
  using assms [of Cpu] assms [of Metal]
  by (simp add: can_run_def engine_choices_def mark_failures_def choices_def choice_of_def is_bundled_def Let_def)

lemma auto_runs:
  assumes "\<And>b. is_bundled b \<Longrightarrow> failures_for (bs_tag bs) fs b = None"
  shows "can_run (engine_choices hw bs fs) (auto_engine hw (engine_choices hw bs fs))"
proof -
  let ?cs = "engine_choices hw bs fs"
  let ?b = "if hw_os hw = ''macos'' then Metal else Cpu"
  from bundled_runs [OF assms] obtain c where c: "c \<in> set ?cs" "ch_engine c = ?b" "ch_unavailable c = None"
    by (auto simp: can_run_iff)
  then have "c \<in> set (filter (\<lambda>c. ch_unavailable c = None) ?cs)" "suits hw c"
    by (auto simp: suits_def Let_def)
  then obtain d where d: "find (suits hw) (filter (\<lambda>c. ch_unavailable c = None) ?cs) = Some d"
    by (cases "find (suits hw) (filter (\<lambda>c. ch_unavailable c = None) ?cs)") (auto simp: find_None_iff)
  from find_SomeD [OF d] d show ?thesis by (auto simp: auto_engine_def can_run_iff)
qed

lemma can_run_marked: "can_run (mark_failures tag fs cs) e \<Longrightarrow> can_run cs e"
  by (auto simp: can_run_iff mark_failures_def split: if_splits)

lemma can_run_choices: "can_run (choices hw bs) e \<Longrightarrow> e = Metal \<or> (\<exists>built. unavailable e hw built = None)"
  by (auto simp: can_run_iff choices_def choice_of_def Let_def split: if_splits)

lemma choices_cuda:
  assumes "can_run (engine_choices hw bs fs) e" and "e = Cuda13 \<or> e = Cuda12"
  shows "cuda hw (if e = Cuda13 then cuda_13_driver else cuda_12_driver) = None"
proof -
  from assms(1) have "can_run (choices hw bs) e"
    unfolding engine_choices_def by (rule can_run_marked)
  with assms(2) obtain built where "unavailable e hw built = None"
    by (auto dest!: can_run_choices)
  with assms(2) show ?thesis by (cases built) auto
qed

lemma cuda_None:
  "cuda hw (oldest, needs) = None \<longleftrightarrow>
     nvidia_gpus hw \<noteq> [] \<and>
     (case hw_driver hw of
        Some d \<Rightarrow> version oldest \<le> version d
      | None \<Rightarrow> (\<exists>a b. hw_cuda hw = Some (a, b) \<and> (fst needs < a \<or> fst needs = a \<and> snd needs \<le> b)))"
  by (auto simp: cuda_def split: option.splits if_splits prod.splits)

lemma auto_suits:
  "auto_engine hw cs = e \<Longrightarrow> e \<noteq> Cpu \<Longrightarrow> \<exists>c. ch_engine c = e \<and> suits hw c"
  by (auto simp: auto_engine_def dest!: find_SomeD split: option.splits)

lemma suits_native:
  assumes "ch_engine c = Cuda13" and "suits hw c" and "hw_arch hw \<noteq> ''aarch64''" and "g \<in> set (nvidia_gpus hw)"
  shows "\<exists>cc. gp_capability g = Some cc \<and> cc \<in> set cuda_13_native"
proof -
  have "list_all (\<lambda>g. case gp_capability g of Some cc \<Rightarrow> cc \<in> set cuda_13_native | None \<Rightarrow> False) (nvidia_gpus hw)"
    using assms(1-3) by (simp add: suits_def Let_def)
  with assms(4) show ?thesis by (cases "gp_capability g") (auto simp: list_all_iff)
qed

text \<open>The engine Tiles runs can run on this computer: it is one of the choices with nothing
  against it, and the one picked by hand if that can run. A CUDA engine runs only with an NVIDIA
  card and a driver that is new enough, and CUDA 13 is chosen by itself, but for ARM, only where
  every NVIDIA card is one it was compiled for.\<close>

theorem engine_to_run_correct:
  assumes "\<And>b. is_bundled b \<Longrightarrow> failures_for (bs_tag bs) fs b = None"
    and "e = engine_to_run backend hw (engine_choices hw bs fs)"
  shows "can_run (engine_choices hw bs fs) e \<and>
    (\<forall>w. backend = Some w \<and> can_run (engine_choices hw bs fs) w \<longrightarrow> e = w) \<and>
    (e = Cuda13 \<or> e = Cuda12 \<longrightarrow> nvidia_gpus hw \<noteq> [] \<and>
       (\<forall>d. hw_driver hw = Some d \<longrightarrow>
          version (if e = Cuda13 then ''580.65.06'' else ''570.26'') \<le> version d)) \<and>
    (e = Cuda13 \<and> backend \<noteq> Some Cuda13 \<and> hw_arch hw \<noteq> ''aarch64'' \<longrightarrow>
       (\<forall>g \<in> set (nvidia_gpus hw). \<exists>cc. gp_capability g = Some cc \<and> cc \<in> set cuda_13_native))"
proof -
  let ?cs = "engine_choices hw bs fs"
  have run: "can_run ?cs e"
    using auto_runs [OF assms(1)] assms(2) by (auto simp: engine_to_run_def split: option.splits if_splits)
  have "nvidia_gpus hw \<noteq> [] \<and> (\<forall>d. hw_driver hw = Some d \<longrightarrow>
      version (if e = Cuda13 then ''580.65.06'' else ''570.26'') \<le> version d)" if "e = Cuda13 \<or> e = Cuda12"
    using choices_cuda [OF run that] that
    by (auto simp: cuda_13_driver_def cuda_12_driver_def cuda_None split: option.splits)
  moreover have "\<exists>cc. gp_capability g = Some cc \<and> cc \<in> set cuda_13_native"
    if h: "e = Cuda13" "backend \<noteq> Some Cuda13" "hw_arch hw \<noteq> ''aarch64''" and g: "g \<in> set (nvidia_gpus hw)" for g
  proof -
    have "auto_engine hw ?cs = e"
      using assms(2) h(1,2) by (auto simp: engine_to_run_def split: option.splits if_splits)
    with h(1) obtain c where c: "ch_engine c = Cuda13" "suits hw c" using auto_suits by blast
    show ?thesis by (rule suits_native [OF c h(3) g])
  qed
  moreover have "\<forall>w. backend = Some w \<and> can_run ?cs w \<longrightarrow> e = w"
    unfolding assms(2) by (simp add: engine_to_run_def)
  ultimately show ?thesis using run by blast
qed

definition new_card :: hardware where
  "new_card = \<lparr>hw_os = ''linux'', hw_arch = ''x86_64'',
     hw_gpus = [\<lparr>gp_vendor = Nvidia, gp_name = None, gp_capability = Some (12, 0), gp_vram = None\<rparr>],
     hw_driver = None, hw_cuda = Some (13, 1), hw_vulkan = True\<rparr>"

definition cuda_builds :: builds where
  "cuda_builds = \<lparr>bs_tag = ''b1'',
     bs_engines = [\<lparr>eb_engine = Cuda13, eb_arch = ''x86_64'', eb_version = None, eb_files = []\<rparr>]\<rparr>"

theorem engine_to_run_correct_witness:
  "can_run (engine_choices new_card cuda_builds (\<lambda>_. None)) Cuda13 \<and> nvidia_gpus new_card \<noteq> []"
proof -
  have "Cuda13 = engine_to_run None new_card (engine_choices new_card cuda_builds (\<lambda>_. None))"
    by (simp add: engine_to_run_def auto_engine_def engine_choices_def mark_failures_def failures_for_def choices_def
        choice_of_def Let_def new_card_def cuda_builds_def cuda_13_driver_def cuda_None nvidia_gpus_def suits_def
        cuda_13_native_def)
  from engine_to_run_correct [OF _ this] show ?thesis by (simp add: failures_for_def)
qed

end
