(* ===== verification/EngineStore.thy ===== *)
theory EngineStore
  imports Engines Models
begin

text \<open>
  The folder engines are installed in (\<open>crates/tiles-engine/src/install.rs\<close>) and the daemon's
  installation of one (\<open>tiles/src/daemon/engine\<close>). A folder is the list of its entries in the order
  they are read, a directory in it the list of its files with their sizes. Every call of the file
  system takes one of the steps left; with none left it stops, which is an error of that call as
  much as the end of the process: what a run with fewer steps leaves is what a crash leaves. A
  directory tree is deleted in two steps, the function \<open>torn\<close> is what there is between them.
\<close>

section \<open>Calls of the file system\<close>

datatype entry = DirEntry "(string \<times> nat) list" | FileEntry nat

type_synonym folder = "(string \<times> entry) list"

datatype io_error = IoStopped | IoNotFound | IoOther

type_synonym 'a io = "folder \<times> nat \<Rightarrow> (io_error + 'a) \<times> folder \<times> nat"

definition io_call :: "(folder \<Rightarrow> (io_error + 'a) \<times> folder) \<Rightarrow> 'a io" where
  "io_call f = (\<lambda>(fo, n). if n = 0 then (Inl IoStopped, fo, 0) else (let (r, fo') = f fo in (r, fo', n - 1)))"

definition io_return :: "'a \<Rightarrow> 'a io" where
  "io_return x = (\<lambda>s. (Inr x, s))"

definition io_bind :: "'a io \<Rightarrow> ('a \<Rightarrow> 'b io) \<Rightarrow> 'b io" where
  "io_bind m f = (\<lambda>s. case m s of (Inl e, s') \<Rightarrow> (Inl e, s') | (Inr x, s') \<Rightarrow> f x s')"

text \<open>A call whose \<open>NotFound\<close> is no error.\<close>

definition io_maybe :: "unit io \<Rightarrow> bool io" where
  "io_maybe m = (\<lambda>s. case m s of
     (Inl e, s') \<Rightarrow> if e = IoNotFound then (Inr False, s') else (Inl e, s')
   | (Inr _, s') \<Rightarrow> (Inr True, s'))"

fun io_each :: "('a \<Rightarrow> unit io) \<Rightarrow> 'a list \<Rightarrow> unit io" where
  "io_each f [] = io_return ()"
| "io_each f (x # xs) = io_bind (f x) (\<lambda>_. io_each f xs)"

definition drop_entry :: "string \<Rightarrow> folder \<Rightarrow> folder" where
  "drop_entry name fo = filter (\<lambda>e. fst e \<noteq> name) fo"

definition remove_dir_all :: "(entry \<Rightarrow> entry) \<Rightarrow> string \<Rightarrow> unit io" where
  "remove_dir_all torn name =
     io_bind
       (io_call (\<lambda>fo. case map_of fo name of
            None \<Rightarrow> (Inl IoNotFound, fo)
          | Some (FileEntry _) \<Rightarrow> (Inl IoOther, fo)
          | Some d \<Rightarrow> (Inr (), map (\<lambda>e. if fst e = name then (name, torn d) else e) fo)))
       (\<lambda>_. io_call (\<lambda>fo. (Inr (), drop_entry name fo)))"

definition rename_entry :: "string \<Rightarrow> string \<Rightarrow> unit io" where
  "rename_entry a b =
     io_call (\<lambda>fo. if map_of fo a = None then (Inl IoNotFound, fo)
       else if map_of fo b \<noteq> None then (Inl IoOther, fo)
       else (Inr (), map (\<lambda>e. if fst e = a then (b, snd e) else e) fo))"

definition read_folder :: "(string list) io" where
  "read_folder = io_call (\<lambda>fo. (Inr (map fst fo), fo))"

definition is_directory :: "string \<Rightarrow> folder \<Rightarrow> bool" where
  "is_directory name fo = (case map_of fo name of Some (DirEntry _) \<Rightarrow> True | _ \<Rightarrow> False)"

section \<open>The store\<close>

record installed =
  in_engine :: engine
  in_tag :: string
  in_dir :: string

definition build_number :: "string \<Rightarrow> nat" where
  "build_number tag =
     (case parse_unsigned 64 (dropWhile (\<lambda>c. c = CHR ''b'') tag) of Some n \<Rightarrow> n | None \<Rightarrow> 0)"

definition installed_entry :: "string \<times> entry \<Rightarrow> installed option" where
  "installed_entry e =
     (case rsplit_once CHR ''-'' (fst e) of
        None \<Rightarrow> None
      | Some (name, tag) \<Rightarrow>
          (case engine_from_name name of
             None \<Rightarrow> None
           | Some en \<Rightarrow>
               (case snd e of
                  FileEntry _ \<Rightarrow> None
                | DirEntry files \<Rightarrow>
                    if map_of files ''llama-server'' \<noteq> None
                    then Some \<lparr>in_engine = en, in_tag = tag, in_dir = fst e\<rparr> else None)))"

definition engines_in :: "folder \<Rightarrow> installed list" where
  "engines_in fo = filter_map installed_entry fo"

text \<open>The last of the elements with the greatest key.\<close>

fun max_by_key :: "('a \<Rightarrow> nat) \<Rightarrow> 'a list \<Rightarrow> 'a option" where
  "max_by_key key [] = None"
| "max_by_key key (x # xs) =
     (case max_by_key key xs of
        None \<Rightarrow> Some x
      | Some y \<Rightarrow> if key x > key y then Some x else Some y)"

definition store_installed :: "folder \<Rightarrow> installed option" where
  "store_installed fo =
     (case max_by_key build_number (map in_tag (engines_in fo)) of
        None \<Rightarrow> None
      | Some newest \<Rightarrow> find (\<lambda>i. in_tag i = newest) (engines_in fo))"

text \<open>Renamed away first, so that a half deleted engine never looks installed.\<close>

definition store_remove :: "(entry \<Rightarrow> entry) \<Rightarrow> string \<Rightarrow> unit io" where
  "store_remove torn name =
     io_bind (io_maybe (remove_dir_all torn ''.trash''))
       (\<lambda>_. io_bind (io_maybe (rename_entry name ''.trash''))
       (\<lambda>there. if there then remove_dir_all torn ''.trash'' else io_return ()))"

definition engine_dir :: "engine \<Rightarrow> string \<Rightarrow> string" where
  "engine_dir e tag = engine_name e @ ''-'' @ tag"

definition remove_other :: "(entry \<Rightarrow> entry) \<Rightarrow> string \<Rightarrow> string \<Rightarrow> unit io" where
  "remove_other torn dir name =
     (\<lambda>(fo, n). if name \<noteq> dir \<and> \<not> starts_with name ''.'' \<and> is_directory name fo
       then store_remove torn name (fo, n) else (Inr (), fo, n))"

definition store_finish :: "(entry \<Rightarrow> entry) \<Rightarrow> engine \<Rightarrow> string \<Rightarrow> installed io" where
  "store_finish torn e tag =
     (let dir = engine_dir e tag in
      io_bind (store_remove torn dir)
       (\<lambda>_. io_bind (rename_entry ''.staging'' dir)
       (\<lambda>_. io_bind read_folder
       (\<lambda>names. io_bind (io_each (remove_other torn dir) names)
       (\<lambda>_. io_bind (store_remove torn ''.downloads'')
       (\<lambda>_. io_return \<lparr>in_engine = e, in_tag = tag, in_dir = dir\<rparr>))))))"

definition dir_size :: "entry \<Rightarrow> nat" where
  "dir_size e = (case e of DirEntry files \<Rightarrow> sum_list (map snd files) | FileEntry n \<Rightarrow> n)"

text \<open>The bytes freed so far go along.\<close>

fun delete_each :: "(entry \<Rightarrow> entry) \<Rightarrow> nat \<Rightarrow> string list \<Rightarrow> nat io" where
  "delete_each torn freed [] = io_return freed"
| "delete_each torn freed (x # xs) =
     (\<lambda>(fo, n). if is_directory x fo
       then io_bind (store_remove torn x)
              (\<lambda>_. delete_each torn (freed + (case map_of fo x of Some d \<Rightarrow> dir_size d | None \<Rightarrow> 0)) xs) (fo, n)
       else delete_each torn freed xs (fo, n))"

definition store_delete :: "(entry \<Rightarrow> entry) \<Rightarrow> nat io" where
  "store_delete torn = io_bind read_folder (delete_each torn 0)"

section \<open>What the calls do to the folder\<close>

definition distinct_names :: "folder \<Rightarrow> bool" where
  "distinct_names fo = distinct (map fst fo)"

lemma map_of_wreck: "map_of (map (\<lambda>e. if fst e = name then (name, d) else e) fo) x =
    (if x = name \<and> map_of fo name \<noteq> None then Some d else map_of fo x)"
  by (induction fo) (auto split: if_splits)

lemma fst_wreck: "map fst (map (\<lambda>e. if fst e = name then (name, d) else e) fo) = map fst fo"
  by (induction fo) auto

lemma distinct_wreck [simp]:
  "distinct_names fo \<Longrightarrow> distinct_names (map (\<lambda>e. if fst e = name then (name, d) else e) fo)"
  by (simp only: distinct_names_def fst_wreck)

lemma map_of_drop [simp]: "map_of (drop_entry name fo) x = (if x = name then None else map_of fo x)"
  by (induction fo) (auto simp: drop_entry_def)

lemma distinct_drop [simp]: "distinct_names fo \<Longrightarrow> distinct_names (drop_entry name fo)"
  by (auto simp: distinct_names_def drop_entry_def distinct_map inj_on_def)

lemma map_of_moved:
  assumes "map_of fo b = None"
  shows "map_of (map (\<lambda>e. if fst e = a then (b, snd e) else e) fo) x =
    (if x = b then map_of fo a else if x = a then None else map_of fo x)"
  using assms by (induction fo) (auto split: if_splits)

lemma distinct_moved:
  "distinct_names fo \<Longrightarrow> map_of fo b = None \<Longrightarrow> distinct_names (map (\<lambda>e. if fst e = a then (b, snd e) else e) fo)"
  by (induction fo) (auto simp: distinct_names_def map_of_eq_None_iff image_iff split: if_splits)

text \<open>Besides \<open>name\<close> nothing changes; if \<open>name\<close> is what it was before or gone, \<open>touches\<close> says so.\<close>

definition touches :: "string set \<Rightarrow> folder \<Rightarrow> folder \<Rightarrow> bool" where
  "touches names fo fo' = (distinct_names fo' \<and> (\<forall>x. x \<notin> names \<longrightarrow> map_of fo' x = map_of fo x))"

lemma touches_refl [simp]: "distinct_names fo \<Longrightarrow> touches A fo fo"
  by (simp add: touches_def)

lemma touches_trans: "touches A fo fo' \<Longrightarrow> touches A fo' fo'' \<Longrightarrow> touches A fo fo''"
  by (simp add: touches_def)

lemma touches_mono: "touches A fo fo' \<Longrightarrow> A \<subseteq> B \<Longrightarrow> touches B fo fo'"
  by (auto simp: touches_def)

lemma remove_dir_all_touches:
  assumes "remove_dir_all torn name (fo, n) = (r, fo', n')" and "distinct_names fo"
  shows "touches {name} fo fo' \<and> (is_ok r \<or> r = Inl IoNotFound \<longrightarrow> map_of fo' name = None)"
  using assms
  by (auto simp: remove_dir_all_def io_bind_def io_call_def touches_def map_of_wreck is_ok_def
      split: option.splits entry.splits if_splits sum.splits)

lemma rename_entry_cases:
  assumes "rename_entry a b (fo, n) = (r, fo', n')" and "distinct_names fo"
  obtains (moved) d where "r = Inr ()" "map_of fo a = Some d" "map_of fo b = None" "distinct_names fo'"
      "\<And>x. map_of fo' x = (if x = b then Some d else if x = a then None else map_of fo x)"
  | (missing) "r = Inl IoNotFound" "fo' = fo" "map_of fo a = None"
  | (failed) e where "r = Inl e" "e \<noteq> IoNotFound" "fo' = fo"
  using assms
  by (auto simp: rename_entry_def io_call_def map_of_moved distinct_moved split: if_splits)

lemma store_remove_effect:
  assumes "store_remove torn name (fo, n) = (r, fo', n')" and "distinct_names fo" and "name \<noteq> ''.trash''"
  shows "touches {name, ''.trash''} fo fo'"
    and "map_of fo' name = map_of fo name \<or> map_of fo' name = None"
    and "is_ok r \<Longrightarrow> map_of fo' name = None"
proof -
  obtain r1 fo1 n1 where 1: "remove_dir_all torn ''.trash'' (fo, n) = (r1, fo1, n1)" by (metis prod_cases3)
  from remove_dir_all_touches [OF 1 assms(2)] have t1: "touches {''.trash''} fo fo1" by blast
  then have d1: "distinct_names fo1" and same1: "map_of fo1 name = map_of fo name"
    using assms(3) by (auto simp: touches_def)
  have all: "touches {name, ''.trash''} fo fo' \<and> (map_of fo' name = map_of fo name \<or> map_of fo' name = None) \<and>
    (is_ok r \<longrightarrow> map_of fo' name = None)"
  proof (cases "is_ok r1 \<or> r1 = Inl IoNotFound")
    case False
    then have "fo' = fo1" "\<not> is_ok r"
      using assms(1) 1 by (auto simp: store_remove_def io_bind_def io_maybe_def is_ok_def split: sum.splits if_splits)
    with t1 same1 show ?thesis using touches_mono [OF t1] by simp
  next
    case True
    then have go: "store_remove torn name (fo, n) = io_bind (io_maybe (rename_entry name ''.trash''))
       (\<lambda>there. if there then remove_dir_all torn ''.trash'' else io_return ()) (fo1, n1)"
      using 1 by (auto simp: store_remove_def io_bind_def io_maybe_def is_ok_def split: sum.splits)
    obtain r2 fo2 n2 where 2: "rename_entry name ''.trash'' (fo1, n1) = (r2, fo2, n2)" by (metis prod_cases3)
    from 2 d1 show ?thesis
    proof (cases rule: rename_entry_cases)
      case (moved d)
      then have "remove_dir_all torn ''.trash'' (fo2, n2) = (r, fo', n')"
        using assms(1) go 2 by (simp add: io_bind_def io_maybe_def)
      from remove_dir_all_touches [OF this moved(4)] have "touches {''.trash''} fo2 fo'" by blast
      then show ?thesis using moved t1 assms(3) by (auto simp: touches_def)
    next
      case missing
      then have "r = Inr ()" "fo' = fo1" using assms(1) go 2 by (simp_all add: io_bind_def io_maybe_def io_return_def)
      with missing show ?thesis using touches_mono [OF t1] same1 by simp
    next
      case (failed e)
      then have "\<not> is_ok r" "fo' = fo1" using assms(1) go 2 by (auto simp: io_bind_def io_maybe_def is_ok_def)
      then show ?thesis using touches_mono [OF t1] same1 by simp
    qed
  qed
  from all show "touches {name, ''.trash''} fo fo'" by (rule conjunct1)
  show "map_of fo' name = map_of fo name \<or> map_of fo' name = None" by (rule conjunct1 [OF conjunct2 [OF all]])
  show "is_ok r \<Longrightarrow> map_of fo' name = None" using conjunct2 [OF conjunct2 [OF all]] by (rule mp)
qed

section \<open>The engines on disk\<close>

definition engines_of :: "folder \<Rightarrow> installed set" where
  "engines_of fo = set (engines_in fo)"

text \<open>What an installation may do to the engines on disk, one step at a time: the new one comes in
  whole, the others go only once it is there, and an older copy of the new one is dropped only if
  something else can run meanwhile.\<close>

inductive switch_step :: "installed \<Rightarrow> installed set \<Rightarrow> installed set \<Rightarrow> bool" for new where
  discard: "S \<noteq> {new} \<Longrightarrow> switch_step new S (S - {new})"
| enter: "switch_step new S (insert new S)"
| retire: "new \<in> S \<Longrightarrow> e \<noteq> new \<Longrightarrow> switch_step new S (S - {e})"

inductive_cases switch_stepE: "switch_step new S T"

abbreviation switches :: "installed \<Rightarrow> installed set \<Rightarrow> installed set \<Rightarrow> bool" where
  "switches new \<equiv> (switch_step new)\<^sup>*\<^sup>*"

lemma switches_discard: "S \<noteq> {new} \<Longrightarrow> switches new S (S - {new})"
  by (rule r_into_rtranclp) (rule switch_step.discard)

lemma switches_enter: "switches new S (insert new S)"
  by (rule r_into_rtranclp) (rule switch_step.enter)

lemma switches_ext:
  "\<exists>S. (S = A \<or> S = B) \<and> switches new S T \<Longrightarrow> switches new T T' \<Longrightarrow> \<exists>S. (S = A \<or> S = B) \<and> switches new S T'"
  by (blast intro: rtranclp_trans)

lemma switches_nonempty:
  assumes "switches new S T" and "S \<noteq> {}"
  shows "T \<noteq> {}"
  using assms by (induction rule: rtranclp_induct) (auto elim!: switch_stepE)

lemma installed_entry_dir: "installed_entry e = Some i \<Longrightarrow> in_dir i = fst e"
  by (auto simp: installed_entry_def split: option.splits prod.splits entry.splits if_splits)

lemma engines_of_iff:
  assumes "distinct_names fo"
  shows "i \<in> engines_of fo \<longleftrightarrow>
    (\<exists>d. map_of fo (in_dir i) = Some d \<and> installed_entry (in_dir i, d) = Some i)"
proof
  assume "i \<in> engines_of fo"
  then obtain e where e: "e \<in> set fo" "installed_entry e = Some i"
    by (auto simp: engines_of_def engines_in_def set_filter_map)
  moreover from installed_entry_dir [OF e(2)] e(1) have "(in_dir i, snd e) \<in> set fo" by simp
  ultimately show "\<exists>d. map_of fo (in_dir i) = Some d \<and> installed_entry (in_dir i, d) = Some i"
    using assms installed_entry_dir [OF e(2)] by (auto simp: distinct_names_def intro!: exI [of _ "snd e"])
next
  assume "\<exists>d. map_of fo (in_dir i) = Some d \<and> installed_entry (in_dir i, d) = Some i"
  then show "i \<in> engines_of fo"
    by (auto simp: engines_of_def engines_in_def set_filter_map dest: map_of_SomeD)
qed

lemma installed_entry_hidden: "installed_entry (CHR ''.'' # name, d) = None"
proof (rule ccontr)
  assume "installed_entry (CHR ''.'' # name, d) \<noteq> None"
  then obtain a b en where r: "rsplit_once CHR ''-'' (CHR ''.'' # name) = Some (a, b)" and "engine_from_name a = Some en"
    by (auto simp: installed_entry_def split: option.splits prod.splits)
  then have "engine_name en = a" by (auto simp: engine_from_name_def dest: find_SomeD)
  with rsplit_once_Some(1) [OF r] show False by (cases en) auto
qed

lemma store_installed_in: "store_installed fo = Some i \<Longrightarrow> i \<in> engines_of fo"
  by (auto simp: store_installed_def engines_of_def dest!: find_SomeD split: option.splits)

lemma max_by_key_in: "max_by_key key xs = Some x \<Longrightarrow> x \<in> set xs"
  by (induction xs arbitrary: x) (auto split: option.splits if_splits)

lemma max_by_key_None: "max_by_key key xs = None \<longleftrightarrow> xs = []"
  by (induction xs) (auto split: option.splits)

lemma store_installed_None: "store_installed fo = None \<longleftrightarrow> engines_of fo = {}"
proof
  assume n: "store_installed fo = None"
  show "engines_of fo = {}"
  proof (rule ccontr)
    assume "engines_of fo \<noteq> {}"
    then obtain t where t: "max_by_key build_number (map in_tag (engines_in fo)) = Some t"
      by (cases "max_by_key build_number (map in_tag (engines_in fo))") (auto simp: max_by_key_None engines_of_def)
    from max_by_key_in [OF t] n t show False by (auto simp: store_installed_def find_None_iff)
  qed
qed (simp add: store_installed_def engines_of_def)

lemma engine_dir_entry:
  assumes "CHR ''-'' \<notin> set tag"
  shows "installed_entry (engine_dir e tag, DirEntry files) =
    (if map_of files ''llama-server'' \<noteq> None
     then Some \<lparr>in_engine = e, in_tag = tag, in_dir = engine_dir e tag\<rparr> else None)"
proof -
  have "engine_from_name (engine_name e) = Some e"
    by (cases e) (simp_all add: engine_from_name_def all_engines_def)
  then show ?thesis
    using rsplit_once_append [OF assms, of "engine_name e"] by (simp add: installed_entry_def engine_dir_def)
qed

lemma engine_dir_visible: "engine_dir e tag \<noteq> CHR ''.'' # name"
  by (cases e) (simp_all add: engine_dir_def)

lemma hidden_iff: "starts_with x ''.'' \<longleftrightarrow> (\<exists>name. x = CHR ''.'' # name)"
  by (auto simp: starts_with_iff)

text \<open>Removing a name takes away at most the engine in it.\<close>

lemma store_remove_engines:
  assumes "store_remove torn name (fo, n) = (r, fo', n')" and "distinct_names fo" and "name \<noteq> ''.trash''"
  shows "engines_of fo' = engines_of fo \<or> engines_of fo' = {i \<in> engines_of fo. in_dir i \<noteq> name}"
    and "is_ok r \<Longrightarrow> engines_of fo' = {i \<in> engines_of fo. in_dir i \<noteq> name}"
proof -
  note eff = store_remove_effect [OF assms]
  then have d: "distinct_names fo'" by (simp add: touches_def)
  have other: "i \<in> engines_of fo' \<longleftrightarrow> i \<in> engines_of fo" if "in_dir i \<noteq> name" for i
  proof (cases "in_dir i = ''.trash''")
    case True
    then show ?thesis using installed_entry_hidden by (simp add: engines_of_iff [OF d] engines_of_iff [OF assms(2)])
  next
    case False
    with eff(1) that show ?thesis
      by (simp add: touches_def engines_of_iff [OF d] engines_of_iff [OF assms(2)])
  qed
  have gone: "engines_of fo' = {i \<in> engines_of fo. in_dir i \<noteq> name}" if none: "map_of fo' name = None"
  proof -
    have "in_dir i \<noteq> name" if "i \<in> engines_of fo'" for i
      using that none by (auto simp: engines_of_iff [OF d])
    with other show ?thesis by blast
  qed
  from eff(2) show "engines_of fo' = engines_of fo \<or> engines_of fo' = {i \<in> engines_of fo. in_dir i \<noteq> name}"
  proof
    assume same: "map_of fo' name = map_of fo name"
    then have "i \<in> engines_of fo' \<longleftrightarrow> i \<in> engines_of fo" if "in_dir i = name" for i
      using that by (simp add: engines_of_iff [OF d] engines_of_iff [OF assms(2)])
    with other have "engines_of fo' = engines_of fo" by blast
    then show ?thesis ..
  next
    assume "map_of fo' name = None"
    then show ?thesis using gone by blast
  qed
  show "is_ok r \<Longrightarrow> engines_of fo' = {i \<in> engines_of fo. in_dir i \<noteq> name}" using eff(3) gone by blast
qed

text \<open>A name holds at most one engine.\<close>

lemma engines_of_dir:
  assumes "distinct_names fo" and "i \<in> engines_of fo"
  shows "{j \<in> engines_of fo. in_dir j \<noteq> in_dir i} = engines_of fo - {i}"
  using assms by (auto simp: engines_of_iff)

lemma store_remove_switches:
  assumes "store_remove torn name (fo, n) = (r, fo', n')" and "distinct_names fo" and "name \<noteq> ''.trash''"
    and "new \<in> engines_of fo" and "name \<noteq> in_dir new"
  shows "switches new (engines_of fo) (engines_of fo') \<and> new \<in> engines_of fo'"
proof (cases "\<exists>i \<in> engines_of fo. in_dir i = name")
  case True
  then obtain i where i: "i \<in> engines_of fo" "in_dir i = name" by blast
  then have "i \<noteq> new" using assms(5) by blast
  have gone: "{j \<in> engines_of fo. in_dir j \<noteq> name} = engines_of fo - {i}"
    using engines_of_dir [OF assms(2) i(1)] i(2) by simp
  from store_remove_engines(1) [OF assms(1-3)] show ?thesis
  proof
    assume "engines_of fo' = {j \<in> engines_of fo. in_dir j \<noteq> name}"
    with gone switch_step.retire [OF assms(4) \<open>i \<noteq> new\<close>] assms(4) \<open>i \<noteq> new\<close> show ?thesis by auto
  qed (use assms(4) in simp)
next
  case False
  then have "{j \<in> engines_of fo. in_dir j \<noteq> name} = engines_of fo" by blast
  with store_remove_engines(1) [OF assms(1-3)] assms(4) show ?thesis by auto
qed

text \<open>The loop over the other entries.\<close>

definition shrinks :: "string \<Rightarrow> folder \<Rightarrow> folder \<Rightarrow> bool" where
  "shrinks dir fo fo' = (distinct_names fo' \<and> map_of fo' dir = map_of fo dir \<and>
     (\<forall>x. x \<noteq> ''.trash'' \<longrightarrow> map_of fo' x = map_of fo x \<or> map_of fo' x = None))"

lemma shrinksD: "shrinks dir fo fo' \<Longrightarrow> x \<noteq> ''.trash'' \<Longrightarrow> map_of fo' x = map_of fo x \<or> map_of fo' x = None"
  by (simp add: shrinks_def)

lemma remove_other_shrinks:
  assumes "remove_other torn dir name (fo, n) = (r, fo', n')" and "distinct_names fo" and "dir \<noteq> ''.trash''"
  shows "shrinks dir fo fo'"
    and "is_ok r \<Longrightarrow> name \<noteq> dir \<Longrightarrow> \<not> starts_with name ''.'' \<Longrightarrow> \<not> is_directory name fo'"
proof -
  let ?do = "name \<noteq> dir \<and> \<not> starts_with name ''.'' \<and> is_directory name fo"
  have "shrinks dir fo fo' \<and> (is_ok r \<and> name \<noteq> dir \<and> \<not> starts_with name ''.'' \<longrightarrow> \<not> is_directory name fo')"
  proof (cases ?do)
    case True
    then have rem: "store_remove torn name (fo, n) = (r, fo', n')" and "name \<noteq> ''.trash''"
      using assms(1) by (auto simp: remove_other_def starts_with_def)
    note eff = store_remove_effect [OF rem assms(2) this(2)]
    have "map_of fo' x = map_of fo x \<or> map_of fo' x = None" if "x \<noteq> ''.trash''" for x
      using eff(1,2) that by (cases "x = name") (auto simp: touches_def)
    moreover have "map_of fo' dir = map_of fo dir"
    proof -
      have "dir \<notin> {name, ''.trash''}" using True assms(3) by auto
      then show ?thesis by (rule mp [OF spec [OF conjunct2 [OF eff(1) [unfolded touches_def]]]])
    qed
    ultimately show ?thesis using eff(1,3) by (auto simp: shrinks_def touches_def is_directory_def)
  next
    case False
    then have "fo' = fo" using assms(1) by (auto simp: remove_other_def split: if_splits)
    with False assms(2) show ?thesis by (auto simp: shrinks_def)
  qed
  then show "shrinks dir fo fo'"
    and "is_ok r \<Longrightarrow> name \<noteq> dir \<Longrightarrow> \<not> starts_with name ''.'' \<Longrightarrow> \<not> is_directory name fo'" by simp_all
qed

lemma shrinks_trans: "shrinks dir fo fo1 \<Longrightarrow> shrinks dir fo1 fo2 \<Longrightarrow> shrinks dir fo fo2"
  by (fastforce simp: shrinks_def)

lemma shrinks_directory: "shrinks dir fo fo' \<Longrightarrow> x \<noteq> ''.trash'' \<Longrightarrow> is_directory x fo' \<Longrightarrow> is_directory x fo"
  by (auto simp: shrinks_def is_directory_def)

lemma remove_other_switches:
  assumes "remove_other torn (in_dir new) name (fo, n) = (r, fo', n')" and "distinct_names fo" and "new \<in> engines_of fo"
  shows "switches new (engines_of fo) (engines_of fo') \<and> new \<in> engines_of fo'"
proof (cases "name \<noteq> in_dir new \<and> \<not> starts_with name ''.'' \<and> is_directory name fo")
  case True
  then have "store_remove torn name (fo, n) = (r, fo', n')" "name \<noteq> ''.trash''"
    using assms(1) by (auto simp: remove_other_def starts_with_def)
  from store_remove_switches [OF this(1) assms(2) this(2) assms(3)] True show ?thesis by blast
next
  case False
  then have "fo' = fo" using assms(1) by (auto simp: remove_other_def split: if_splits)
  with assms(3) show ?thesis by simp
qed

lemma remove_others:
  assumes "io_each (remove_other torn (in_dir new)) names (fo, n) = (r, fo', n')"
    and "distinct_names fo" and "new \<in> engines_of fo" and "in_dir new \<noteq> ''.trash''"
  shows "switches new (engines_of fo) (engines_of fo') \<and> new \<in> engines_of fo' \<and> shrinks (in_dir new) fo fo' \<and>
    (is_ok r \<longrightarrow> (\<forall>x \<in> set names. x \<noteq> in_dir new \<and> \<not> starts_with x ''.'' \<longrightarrow> \<not> is_directory x fo'))"
  using assms(1-3)
proof (induction names arbitrary: fo n)
  case Nil
  then show ?case by (simp add: io_return_def shrinks_def)
next
  case (Cons x xs)
  obtain r1 fo1 n1 where 1: "remove_other torn (in_dir new) x (fo, n) = (r1, fo1, n1)" by (metis prod_cases3)
  note s1 = remove_other_shrinks [OF 1 Cons.prems(2) assms(4)]
  note w1 = remove_other_switches [OF 1 Cons.prems(2,3)]
  show ?case
  proof (cases r1)
    case (Inl e)
    then have "fo' = fo1" "r = Inl e" using Cons.prems(1) 1 by (simp_all add: io_bind_def)
    with w1 s1(1) show ?thesis by (simp add: is_ok_def)
  next
    case (Inr u)
    have rest: "io_each (remove_other torn (in_dir new)) xs (fo1, n1) = (r, fo', n')"
      using Cons.prems(1) 1 Inr by (simp add: io_bind_def)
    from s1(1) have "distinct_names fo1" by (simp add: shrinks_def)
    note IH = Cons.IH [OF rest this conjunct2 [OF w1]]
    have sh: "shrinks (in_dir new) fo fo'" using shrinks_trans [OF s1(1)] IH by blast
    have sw: "switches new (engines_of fo) (engines_of fo')" using rtranclp_trans w1 IH by metis
    have "\<not> is_directory x fo'" if "x \<noteq> in_dir new" "\<not> starts_with x ''.''"
    proof -
      have "x \<noteq> ''.trash''" using that(2) by (auto simp: starts_with_def)
      then show ?thesis
        using s1(2) [OF _ that] Inr IH shrinks_directory [of "in_dir new" fo1 fo' x] by (auto simp: is_ok_def)
    qed
    with sh sw IH show ?thesis by auto
  qed
qed

section \<open>Finishing an installation\<close>

lemma rename_staging:
  assumes "rename_entry ''.staging'' dir (fo, n) = (r, fo', n')" and "distinct_names fo"
    and "map_of fo ''.staging'' = Some (DirEntry files)"
    and "installed_entry (dir, DirEntry files) = Some new"
  shows "r = Inl IoNotFound \<Longrightarrow> False"
    and "is_ok r \<Longrightarrow> distinct_names fo' \<and> engines_of fo' = insert new (engines_of fo)"
    and "\<not> is_ok r \<Longrightarrow> fo' = fo"
proof -
  from assms(1,2) have "(r \<noteq> Inl IoNotFound) \<and>
    (is_ok r \<longrightarrow> distinct_names fo' \<and> engines_of fo' = insert new (engines_of fo)) \<and> (\<not> is_ok r \<longrightarrow> fo' = fo)"
  proof (cases rule: rename_entry_cases)
    case (moved d)
    have dir: "in_dir new = dir" using installed_entry_dir [OF assms(4)] by simp
    have "i \<in> engines_of fo' \<longleftrightarrow> i = new \<or> i \<in> engines_of fo" for i
    proof (cases "in_dir i = dir")
      case True
      then show ?thesis
        using moved(2,3,5) assms(3,4) dir by (auto simp: engines_of_iff [OF moved(4)] engines_of_iff [OF assms(2)])
    next
      case False
      then have "i \<noteq> new" using dir by blast
      with False moved(5) installed_entry_hidden show ?thesis
        by (auto simp: engines_of_iff [OF moved(4)] engines_of_iff [OF assms(2)])
    qed
    then have "engines_of fo' = insert new (engines_of fo)" by blast
    with moved(1,4) show ?thesis by (simp add: is_ok_def)
  next
    case missing
    with assms(3) show ?thesis by simp
  next
    case (failed e)
    then show ?thesis by (simp add: is_ok_def)
  qed
  then show "r = Inl IoNotFound \<Longrightarrow> False"
    "is_ok r \<Longrightarrow> distinct_names fo' \<and> engines_of fo' = insert new (engines_of fo)"
    "\<not> is_ok r \<Longrightarrow> fo' = fo" by simp_all
qed

text \<open>The calls of \<open>store_finish\<close> one after another: where it stopped, or that it went through.\<close>

lemma store_finish_stages:
  assumes "store_finish torn e tag (fo, n) = (r, fo', n')"
  obtains (remove) r1 where "store_remove torn (engine_dir e tag) (fo, n) = (r1, fo', n')" "\<not> is_ok r1" "\<not> is_ok r"
  | (rename) fo1 n1 r2 where "store_remove torn (engine_dir e tag) (fo, n) = (Inr (), fo1, n1)"
      "rename_entry ''.staging'' (engine_dir e tag) (fo1, n1) = (r2, fo', n')" "\<not> is_ok r2" "\<not> is_ok r"
  | (read) fo1 n1 n2 where "store_remove torn (engine_dir e tag) (fo, n) = (Inr (), fo1, n1)"
      "rename_entry ''.staging'' (engine_dir e tag) (fo1, n1) = (Inr (), fo', n2)" "\<not> is_ok r"
  | (others) fo1 n1 fo2 n2 n3 r4 where "store_remove torn (engine_dir e tag) (fo, n) = (Inr (), fo1, n1)"
      "rename_entry ''.staging'' (engine_dir e tag) (fo1, n1) = (Inr (), fo2, n2)"
      "io_each (remove_other torn (engine_dir e tag)) (map fst fo2) (fo2, n3) = (r4, fo', n')" "\<not> is_ok r4" "\<not> is_ok r"
  | (downloads) fo1 n1 fo2 n2 n3 fo4 n4 r5 where "store_remove torn (engine_dir e tag) (fo, n) = (Inr (), fo1, n1)"
      "rename_entry ''.staging'' (engine_dir e tag) (fo1, n1) = (Inr (), fo2, n2)"
      "io_each (remove_other torn (engine_dir e tag)) (map fst fo2) (fo2, n3) = (Inr (), fo4, n4)"
      "store_remove torn ''.downloads'' (fo4, n4) = (r5, fo', n')"
      "is_ok r \<longleftrightarrow> is_ok r5" "is_ok r \<Longrightarrow> r = Inr \<lparr>in_engine = e, in_tag = tag, in_dir = engine_dir e tag\<rparr>"
proof -
  obtain r1 fo1 n1 where 1: "store_remove torn (engine_dir e tag) (fo, n) = (r1, fo1, n1)" by (metis prod_cases3)
  obtain r2 fo2 n2 where 2: "rename_entry ''.staging'' (engine_dir e tag) (fo1, n1) = (r2, fo2, n2)" by (metis prod_cases3)
  obtain r3 fo3 n3 where 3: "read_folder (fo2, n2) = (r3, fo3, n3)" by (metis prod_cases3)
  then have same: "fo3 = fo2" "is_ok r3 \<Longrightarrow> r3 = Inr (map fst fo2)"
    by (auto simp: read_folder_def io_call_def is_ok_def split: if_splits)
  obtain r4 fo4 n4 where 4: "io_each (remove_other torn (engine_dir e tag)) (map fst fo2) (fo2, n3) = (r4, fo4, n4)"
    by (metis prod_cases3)
  obtain r5 fo5 n5 where 5: "store_remove torn ''.downloads'' (fo4, n4) = (r5, fo5, n5)" by (metis prod_cases3)
  note run = assms [unfolded store_finish_def Let_def io_bind_def [of "store_remove torn (engine_dir e tag)"], simplified 1 prod.case]
  show thesis
  proof (cases r1)
    case (Inl x)
    with run show thesis by (intro remove [of r1]) (auto simp: 1 is_ok_def)
  next
    case i1: (Inr u)
    show thesis
    proof (cases r2)
      case (Inl x)
      with run i1 2 show thesis by (intro rename [of fo1 n1 r2]) (auto simp: 1 io_bind_def is_ok_def)
    next
      case i2: (Inr v)
      show thesis
      proof (cases r3)
        case (Inl x)
        with run i1 i2 2 3 same show thesis by (intro read [of fo1 n1 n2]) (auto simp: 1 io_bind_def is_ok_def)
      next
        case i3: (Inr w)
        then have w: "w = map fst fo2" using same by (simp add: is_ok_def)
        show thesis
        proof (cases r4)
          case (Inl x)
          with run i1 i2 i3 2 3 same(1) 4 w show thesis
            by (intro others [of fo1 n1 fo2 n2 n3 r4]) (auto simp: 1 io_bind_def is_ok_def)
        next
          case i4: (Inr y)
          with run i1 i2 i3 2 3 same(1) 4 5 w show thesis
            by (intro downloads [of fo1 n1 fo2 n2 n3 fo4 n4 r5])
               (cases r5; auto simp: 1 io_bind_def io_return_def is_ok_def)+
        qed
      qed
    qed
  qed
qed

lemma engine_in_dir:
  assumes "CHR ''-'' \<notin> set tag" and "distinct_names fo" and "i \<in> engines_of fo" and "in_dir i = engine_dir e tag"
  shows "i = \<lparr>in_engine = e, in_tag = tag, in_dir = engine_dir e tag\<rparr>"
proof -
  from assms(2-4) obtain d where d: "installed_entry (engine_dir e tag, d) = Some i" by (auto simp: engines_of_iff)
  then obtain files where "d = DirEntry files"
    by (auto simp: installed_entry_def split: option.splits prod.splits entry.splits)
  with d engine_dir_entry [OF assms(1), of e files] show ?thesis by (simp split: if_splits)
qed

text \<open>The three parts of it: what the first removal leaves, that the rename lets the new engine in,
  and that after the loop no other is left.\<close>

lemma finish_first:
  assumes "store_remove torn (engine_dir e tag) (fo, n) = (r1, fo1, n1)" and "distinct_names fo"
    and "map_of fo ''.staging'' = Some d" and "CHR ''-'' \<notin> set tag"
    and new: "new = \<lparr>in_engine = e, in_tag = tag, in_dir = engine_dir e tag\<rparr>"
  shows "(engines_of fo1 = engines_of fo \<or> engines_of fo1 = engines_of fo - {new}) \<and> distinct_names fo1 \<and>
    map_of fo1 ''.staging'' = Some d"
proof -
  have vis: "engine_dir e tag \<noteq> ''.trash''" "engine_dir e tag \<noteq> ''.staging''" by (rule engine_dir_visible)+
  have "in_dir i = engine_dir e tag \<longleftrightarrow> i = new" if i: "i \<in> engines_of fo" for i
  proof
    show "in_dir i = engine_dir e tag \<Longrightarrow> i = new" unfolding new by (rule engine_in_dir [OF assms(4,2) i])
  qed (simp add: new)
  then have cut: "{i \<in> engines_of fo. in_dir i \<noteq> engine_dir e tag} = engines_of fo - {new}" by blast
  have "engines_of fo1 = engines_of fo \<or> engines_of fo1 = engines_of fo - {new}"
    using store_remove_engines(1) [OF assms(1,2) vis(1)] unfolding cut .
  with store_remove_effect(1) [OF assms(1,2) vis(1)] vis assms(3) show ?thesis by (simp add: touches_def)
qed

lemma finish_second:
  assumes "store_remove torn (engine_dir e tag) (fo, n) = (r1, fo1, n1)" and "distinct_names fo"
    and "map_of fo ''.staging'' = Some (DirEntry files)" and "CHR ''-'' \<notin> set tag"
    and new: "new = \<lparr>in_engine = e, in_tag = tag, in_dir = engine_dir e tag\<rparr>"
    and "installed_entry (engine_dir e tag, DirEntry files) = Some new"
    and "rename_entry ''.staging'' (engine_dir e tag) (fo1, n1) = (Inr (), fo2, n2)"
  shows "distinct_names fo2 \<and> new \<in> engines_of fo2 \<and>
    (\<exists>S. (S = engines_of fo \<or> S = engines_of fo - {new}) \<and> switches new S (engines_of fo2))"
proof -
  from finish_first [OF assms(1-4) new] have "distinct_names fo1"
    and st: "map_of fo1 ''.staging'' = Some (DirEntry files)"
    and sw: "engines_of fo1 = engines_of fo \<or> engines_of fo1 = engines_of fo - {new}" by blast+
  from rename_staging(2) [OF assms(7) this(1) st assms(6)]
  have "distinct_names fo2 \<and> engines_of fo2 = insert new (engines_of fo1)" by (simp add: is_ok_def)
  with sw switches_enter [of new "engines_of fo1"] show ?thesis by (metis insertI1)
qed

lemma finish_only:
  assumes "io_each (remove_other torn (in_dir new)) (map fst fo2) (fo2, n3) = (Inr (), fo4, n4)"
    and "distinct_names fo2" and "new \<in> engines_of fo2" and "CHR ''-'' \<notin> set tag"
    and new: "new = \<lparr>in_engine = e, in_tag = tag, in_dir = engine_dir e tag\<rparr>"
  shows "engines_of fo4 \<subseteq> {new}"
proof
  fix i assume i: "i \<in> engines_of fo4"
  have vis: "in_dir new \<noteq> ''.trash''" unfolding new by (simp add: engine_dir_visible)
  note loop = remove_others [OF assms(1-3) vis]
  then have d4: "distinct_names fo4" by (simp add: shrinks_def)
  from i obtain d where d: "map_of fo4 (in_dir i) = Some d" "installed_entry (in_dir i, d) = Some i"
    by (auto simp: engines_of_iff [OF d4])
  have shown: "\<not> starts_with (in_dir i) ''.''" using d(2) installed_entry_hidden by (auto simp: hidden_iff)
  then have "in_dir i \<noteq> ''.trash''" by (auto simp: starts_with_def)
  with conjunct1 [OF conjunct2 [OF conjunct2 [OF loop]]]
  have "map_of fo4 (in_dir i) = map_of fo2 (in_dir i) \<or> map_of fo4 (in_dir i) = None" by (rule shrinksD)
  with d(1) have "(in_dir i, d) \<in> set fo2" by (simp add: map_of_SomeD)
  then have "in_dir i \<in> set (map fst fo2)" by (metis fst_conv image_eqI list.set_map)
  moreover have "is_directory (in_dir i) fo4"
    using d by (auto simp: is_directory_def installed_entry_def split: option.splits prod.splits entry.splits)
  ultimately have "in_dir i = in_dir new" using loop shown by (auto simp: is_ok_def)
  then show "i \<in> {new}" using engine_in_dir [OF assms(4) d4 i] unfolding new by simp
qed

lemma store_finish_switches:
  assumes "store_finish torn e tag (fo, n) = (r, fo', n')" and "distinct_names fo"
    and "map_of fo ''.staging'' = Some (DirEntry files)" and "map_of files ''llama-server'' \<noteq> None"
    and "CHR ''-'' \<notin> set tag"
    and new: "new = \<lparr>in_engine = e, in_tag = tag, in_dir = engine_dir e tag\<rparr>"
  shows "(\<exists>S. (S = engines_of fo \<or> S = engines_of fo - {new}) \<and> switches new S (engines_of fo')) \<and>
    (is_ok r \<longrightarrow> r = Inr new \<and>
       engines_of fo' = {new} \<and>
       distinct_names fo' \<and> map_of fo' ''.downloads'' = None)"
proof -
  let ?dir = "engine_dir e tag"
  have dir: "in_dir new = ?dir" by (simp add: new)
  have vis: "in_dir new \<noteq> ''.trash''" "in_dir new \<noteq> ''.downloads''" unfolding dir by (rule engine_dir_visible)+
  have entry: "installed_entry (?dir, DirEntry files) = Some new"
    unfolding new using engine_dir_entry [OF assms(5)] assms(4) by simp
  note first = finish_first [OF _ assms(2,3,5) new]
  note second = finish_second [OF _ assms(2,3,5) new entry]
  from assms(1) show ?thesis
  proof (cases rule: store_finish_stages)
    case (remove r1)
    with first [OF remove(1)] show ?thesis by blast
  next
    case (rename fo1 n1 r2)
    from first [OF rename(1)] rename_staging(3) [OF rename(2) _ _ entry rename(3)] rename(4) show ?thesis by blast
  next
    case (read fo1 n1 n2)
    with second [OF read(1,2)] show ?thesis by blast
  next
    case (others fo1 n1 fo2 n2 n3 r4)
    note s2 = second [OF others(1,2)]
    note loop = remove_others [OF others(3) [folded dir] conjunct1 [OF s2] conjunct1 [OF conjunct2 [OF s2]] vis(1)]
    with switches_ext [OF conjunct2 [OF conjunct2 [OF s2]] conjunct1 [OF loop]] others(5) show ?thesis by blast
  next
    case (downloads fo1 n1 fo2 n2 n3 fo4 n4 r5)
    note s2 = second [OF downloads(1,2)]
    note loop = remove_others [OF downloads(3) [folded dir] conjunct1 [OF s2] conjunct1 [OF conjunct2 [OF s2]] vis(1)]
    then have d4: "distinct_names fo4" by (simp add: shrinks_def)
    have ne: "''.downloads'' \<noteq> ''.trash''" by simp
    note last = store_remove_switches [OF downloads(4) d4 ne conjunct1 [OF conjunct2 [OF loop]] vis(2) [symmetric]]
    have sw: "\<exists>S. (S = engines_of fo \<or> S = engines_of fo - {new}) \<and> switches new S (engines_of fo')"
      using switches_ext [OF switches_ext [OF conjunct2 [OF conjunct2 [OF s2]] conjunct1 [OF loop]] conjunct1 [OF last]] .
    have "engines_of fo' \<subseteq> {new}"
      using finish_only [OF downloads(3) [folded dir] conjunct1 [OF s2] conjunct1 [OF conjunct2 [OF s2]] assms(5) new]
        store_remove_engines(1) [OF downloads(4) d4 ne] by auto
    moreover have "distinct_names fo'" "map_of fo' ''.downloads'' = None" if "is_ok r"
      using store_remove_effect [OF downloads(4) d4 ne] downloads(5) that by (simp_all add: touches_def)
    ultimately show ?thesis using sw last downloads(6) [folded new] by blast
  qed
qed

section \<open>Unpacking and checking\<close>

datatype tar_kind = TarRegular nat | TarDirectory | TarSymlink string | TarOther







definition put_entry :: "string \<Rightarrow> entry \<Rightarrow> folder \<Rightarrow> folder" where
  "put_entry name d fo = AList.update name d fo"






section \<open>Installing\<close>

datatype install_state =
    InsIdle
  | InsDownloading engine nat nat nat
  | InsUnpacking engine
  | InsChecking engine
  | InsPaused engine nat nat
  | InsDone engine
  | InsFailed engine string












record engines =
  en_folder :: folder
  en_failures :: failures
  en_job :: "install_state job"
  en_warnings :: "string list"

definition set_install :: "install_state \<Rightarrow> engines \<Rightarrow> engines" where
  "set_install s en = en\<lparr>en_job := snd (job_set s (en_job en))\<rparr>"

definition warn :: "string \<Rightarrow> engines \<Rightarrow> engines" where
  "warn msg en = en\<lparr>en_warnings := en_warnings en @ [msg]\<rparr>"

text \<open>The task: the engines are tried in order while their check fails. Why it failed is saved;
  that the saving failed is only logged.\<close>

definition note_failure :: "write_end \<Rightarrow> string \<Rightarrow> engine \<Rightarrow> string \<Rightarrow> engines \<Rightarrow> engines" where
  "note_failure w tag e why en =
     (let en = warn (''The '' @ engine_name e @ '' engine failed its check: '' @ why) en;
          (saved, fs) = record_failure w e tag why (en_failures en);
          en = en\<lparr>en_failures := fs\<rparr>
      in case saved of
           Inl err \<Rightarrow> warn (''Couldn't save why the '' @ engine_name e @ '' engine failed: '' @ err) en
         | Inr _ \<Rightarrow> en)"




definition engines_delete :: "(entry \<Rightarrow> entry) \<Rightarrow> nat \<Rightarrow> engines \<Rightarrow> (app_error + nat) \<times> engines" where
  "engines_delete torn steps en =
     (if is_live (en_job en)
      then (Inl (Conflict ''An engine is downloading, pause it before deleting''), en)
      else if store_installed (en_folder en) = None \<and> map_of (en_folder en) ''.downloads'' = None
      then (Inl (NotFound ''No engine is downloaded''), en)
      else
        (case store_delete torn (en_folder en, steps) of
           (Inl _, fo, _) \<Rightarrow> (Inl (InternalServerError ''Couldn't delete the engine''), en\<lparr>en_folder := fo\<rparr>)
         | (Inr freed, fo, _) \<Rightarrow> (Inr freed, set_install InsIdle (en\<lparr>en_folder := fo\<rparr>))))"

definition engines_pause :: "install_state \<Rightarrow> engines \<Rightarrow> (app_error + install_state) \<times> engines" where
  "engines_pause final en =
     (case job_pause final (en_job en) of
        (r, j) \<Rightarrow> (ok_or (NotFound ''No engine is downloading'') r, en\<lparr>en_job := j\<rparr>))"

text \<open>The llama-server replies run on; \<open>None\<close> is the one that comes with Tiles.\<close>

definition engines_server :: "engine option \<Rightarrow> engines \<Rightarrow> string option" where
  "engines_server pick en =
     (if pick = Some Cpu then None
      else map_option (\<lambda>i. in_dir i @ ''/llama-server'') (store_installed (en_folder en)))"

text \<open>The handlers \<open>select\<close> and \<open>start\<close>.\<close>

definition select_engine ::
  "write_end \<Rightarrow> string \<Rightarrow> hardware \<Rightarrow> builds \<Rightarrow> engines \<Rightarrow> (app_error + engine option) \<times> engines" where
  "select_engine w name hw bs en =
     (case (if name = ''auto'' then Inr None
            else ok_or (BadRequest (''No engine named '' @ name)) (map_option Some (engine_from_name name))) of
        Inl err \<Rightarrow> (Inl err, en)
      | Inr pick \<Rightarrow>
        if is_live (en_job en)
        then (Inl (Conflict ''An engine is downloading, pause it before picking another''), en)
        else
          (case pick of
             None \<Rightarrow> (Inr None, en)
           | Some e \<Rightarrow>
               (case find (\<lambda>c. ch_engine c = e) (choices hw bs) of
                  None \<Rightarrow> (Inl (CannotProcess (engine_name e @ '' doesn't run on this computer'')), en)
                | Some c \<Rightarrow>
                    (case ch_unavailable c of
                       Some why \<Rightarrow> (Inl (CannotProcess why), en)
                     | None \<Rightarrow>
                         let (cleared, fs) = clear_failure w e (en_failures en);
                             en = en\<lparr>en_failures := fs\<rparr>
                         in case cleared of
                              Inl err \<Rightarrow> (Inl (InternalServerError (''Couldn't save the engine: '' @ err)), en)
                            | Inr _ \<Rightarrow> (Inr (Some e), en)))))"


section \<open>A task ends, with an engine that is there\<close>

lemma put_entry_distinct [simp]: "distinct_names fo \<Longrightarrow> distinct_names (put_entry name d fo)"
  by (simp add: distinct_names_def put_entry_def distinct_update)

lemma map_of_put [simp]: "map_of (put_entry name d fo) x = (if x = name then Some d else map_of fo x)"
  by (simp add: put_entry_def update_conv')




lemma singleton_installed:
  assumes "engines_of fo = {i}"
  shows "store_installed fo = Some i"
proof -
  have "store_installed fo \<noteq> None" by (simp add: store_installed_None assms)
  then show ?thesis using store_installed_in assms by fastforce
qed





lemma warn_simps [simp]:
  "en_folder (warn msg en) = en_folder en" "en_failures (warn msg en) = en_failures en"
  "en_job (warn msg en) = en_job en" "en_warnings (warn msg en) = en_warnings en @ [msg]"
  by (simp_all add: warn_def)


lemma note_failure_simps [simp]:
  "en_folder (note_failure w tag e why en) = en_folder en"
  "en_job (note_failure w tag e why en) = en_job en"
  by (simp_all add: note_failure_def Let_def split: prod.split sum.split)





lemma set_install_warnings [simp]: "en_warnings (set_install s en) = en_warnings en"
  by (simp add: set_install_def)






text \<open>C6. Whatever the number of calls that go through, so also when Tiles is killed in the middle,
  finishing an installation does to the engines on disk only what \<open>switch_step\<close> allows: from an
  engine that was there there is always one that runs. If it goes through, the new one is the
  only one, the one \<open>store_installed\<close> finds, and the archives are gone. The one case left out is
  an installation over the only engine on disk, of the same build.\<close>

theorem finish_refines:
  assumes "store_finish torn e tag (fo, n) = (r, fo', n')" and "distinct_names fo"
    and "map_of fo ''.staging'' = Some (DirEntry files)" and "map_of files ''llama-server'' \<noteq> None"
    and "CHR ''-'' \<notin> set tag"
    and "new = \<lparr>in_engine = e, in_tag = tag, in_dir = engine_dir e tag\<rparr>"
    and "engines_of fo \<noteq> {new}"
  shows "switches new (engines_of fo) (engines_of fo') \<and>
    (engines_of fo \<noteq> {} \<longrightarrow> store_installed fo' \<noteq> None) \<and>
    (is_ok r \<longrightarrow> r = Inr new \<and> engines_of fo' = {new} \<and> store_installed fo' = Some new \<and>
      map_of fo' ''.downloads'' = None)"
proof -
  note all = store_finish_switches [OF assms(1-6)]
  from all obtain S where S: "S = engines_of fo \<or> S = engines_of fo - {new}" "switches new S (engines_of fo')"
    by blast
  from S(1) have "switches new (engines_of fo) S" using switches_discard [OF assms(7)] by auto
  then have sw: "switches new (engines_of fo) (engines_of fo')" using S(2) by (rule rtranclp_trans)
  have "store_installed fo' = Some new" if "is_ok r"
    using all that singleton_installed [of fo' new] by simp
  with sw switches_nonempty [OF sw] conjunct2 [OF all] show ?thesis by (simp add: store_installed_None)
qed

definition old_and_staged :: folder where
  "old_and_staged =
     [(''vulkan-b1'', DirEntry [(''llama-server'', 5)]), (''.staging'', DirEntry [(''llama-server'', 7)]),
      (''.downloads'', DirEntry [(''a.tar.gz'', 3)])]"

theorem finish_refines_witness:
  "store_installed (fst (snd (store_finish (\<lambda>d. d) Cuda12 ''b2'' (old_and_staged, 3)))) \<noteq> None \<and>
   switches \<lparr>in_engine = Cuda12, in_tag = ''b2'', in_dir = ''cuda-12-b2''\<rparr> (engines_of old_and_staged)
     (engines_of (fst (snd (store_finish (\<lambda>d. d) Cuda12 ''b2'' (old_and_staged, 20)))))"
proof -
  let ?new = "\<lparr>in_engine = Cuda12, in_tag = ''b2'', in_dir = engine_dir Cuda12 ''b2''\<rparr>"
  have old: "engines_in old_and_staged = [\<lparr>in_engine = Vulkan, in_tag = ''b1'', in_dir = ''vulkan-b1''\<rparr>]"
    by code_simp
  then have ne: "engines_of old_and_staged \<noteq> {}" "engines_of old_and_staged \<noteq> {?new}" by (simp_all add: engines_of_def)
  have all: "distinct_names old_and_staged" "CHR ''-'' \<notin> set ''b2''"
    "map_of old_and_staged ''.staging'' = Some (DirEntry [(''llama-server'', 7)])"
    "map_of [(''llama-server'', 7 :: nat)] ''llama-server'' \<noteq> None"
    by (simp_all add: distinct_names_def old_and_staged_def)
  have fin: "\<exists>r fo' n'. store_finish (\<lambda>d. d) Cuda12 ''b2'' (old_and_staged, n) = (r, fo', n')" for n
    by (metis prod_cases3)
  have each: "switches ?new (engines_of old_and_staged) (engines_of (fst (snd (store_finish (\<lambda>d. d) Cuda12 ''b2'' (old_and_staged, n))))) \<and>
     store_installed (fst (snd (store_finish (\<lambda>d. d) Cuda12 ''b2'' (old_and_staged, n)))) \<noteq> None" for n
  proof -
    from fin [of n] obtain r fo' n' where run: "store_finish (\<lambda>d. d) Cuda12 ''b2'' (old_and_staged, n) = (r, fo', n')" by blast
    from finish_refines [OF run all(1,3,4,2) refl ne(2)] ne(1) show ?thesis unfolding run by simp
  qed
  have "engine_dir Cuda12 ''b2'' = ''cuda-12-b2''" by code_simp
  with each [of 3] each [of 20] show ?thesis by simp
qed







end
