(* ===== verification/Sleep.thy ===== *)
theory Sleep
  imports Prelude
begin

text \<open>
  Stay Awake in the menubar app: \<open>awake.rs\<close>, the session and the process that keeps the Mac up, and
  \<open>lid.rs\<close>, which turns sleep off altogether so that the lid can be shut. The setting outlives the
  app, so a marker file and a watching process, the sentinel, are there to turn it back. A step of
  the model is one command, one pass of \<open>reconcile\<close>, or something that happens to the app from
  outside; how the calls of a step turn out is an argument of it.
\<close>

section \<open>Sleep and its switch\<close>

text \<open>The Mac: whether sleep is off, the marker file, and the sentinels whose app is gone and that have
  yet to turn sleep back on. \<open>mc_ours\<close> is not read by the code: Tiles turned sleep off, and nobody
  turned it on since.\<close>

record mac =
  mc_disabled :: bool
  mc_marker :: bool
  mc_orphans :: nat
  mc_ours :: bool

text \<open>How the calls of a step turn out: writing the marker, starting a sentinel, \<open>pmset\<close> turning sleep
  off and on for the app, and turning it on for a sentinel.\<close>

record calls =
  ca_write :: bool
  ca_spawn :: bool
  ca_off :: bool
  ca_on :: bool
  ca_reset :: bool

datatype lid = Held | Refused | Cleared

text \<open>A sentinel that was started runs (\<open>Some True\<close>) or was killed by somebody (\<open>Some False\<close>).\<close>

record hold =
  ho_marker :: bool
  ho_owned :: bool
  ho_state :: "lid option"
  ho_sentinel :: "bool option"

definition new_hold :: "bool \<Rightarrow> hold" where
  "new_hold path = \<lparr>ho_marker = path, ho_owned = False, ho_state = None, ho_sentinel = None\<rparr>"

definition turn_sleep_off :: "calls \<Rightarrow> mac \<Rightarrow> bool \<times> mac" where
  "turn_sleep_off c m =
     (if ca_off c then (True, m\<lparr>mc_disabled := True, mc_ours := mc_ours m \<or> \<not> mc_disabled m\<rparr>) else (False, m))"

definition turn_sleep_on :: "calls \<Rightarrow> mac \<Rightarrow> bool \<times> mac" where
  "turn_sleep_on c m = (if ca_on c then (True, m\<lparr>mc_disabled := False, mc_ours := False\<rparr>) else (False, m))"

text \<open>What a sentinel does once its pipe is closed: it turns sleep on and then removes the marker. In the steps below
  nothing comes between its two commands; \<open>late_removal\<close> is what could.\<close>

definition sentinel_resets :: "mac \<Rightarrow> mac" where
  "sentinel_resets m = m\<lparr>mc_disabled := False, mc_ours := False\<rparr>"

definition sentinel_removes :: "mac \<Rightarrow> mac" where
  "sentinel_removes m = m\<lparr>mc_marker := False\<rparr>"

definition sentinel_ends :: "calls \<Rightarrow> mac \<Rightarrow> bool \<times> mac" where
  "sentinel_ends c m = (if ca_reset c then (True, sentinel_removes (sentinel_resets m)) else (False, m))"

definition arm :: "calls \<Rightarrow> hold \<times> mac \<Rightarrow> bool \<times> hold \<times> mac" where
  "arm c = (\<lambda>(h, m).
     if \<not> ho_marker h then (False, h, m)
     else if \<not> mc_marker m \<and> \<not> ca_write c then (False, h, m)
     else
       let m = m\<lparr>mc_marker := True\<rparr> in
       if ho_sentinel h = Some True then (True, h, m)
       else (ca_spawn c, h\<lparr>ho_sentinel := (if ca_spawn c then Some True else None)\<rparr>, m))"

definition disarm :: "hold \<Rightarrow> hold" where
  "disarm h = h\<lparr>ho_sentinel := None\<rparr>"

definition remove_marker :: "hold \<Rightarrow> mac \<Rightarrow> mac" where
  "remove_marker h m = (if ho_marker h then m\<lparr>mc_marker := False\<rparr> else m)"

definition take_hold :: "calls \<Rightarrow> hold \<times> mac \<Rightarrow> lid \<times> hold \<times> mac" where
  "take_hold c = (\<lambda>(h, m).
     if mc_disabled m then (Held, h, m)
     else
       (case arm c (h, m) of
          (armed, h, m) \<Rightarrow>
            (case (if armed then turn_sleep_off c m else (False, m)) of
               (True, m) \<Rightarrow> (Held, h\<lparr>ho_owned := True\<rparr>, m)
             | (False, m) \<Rightarrow> (Refused, disarm h, remove_marker h m))))"

definition settle :: "calls \<Rightarrow> hold \<times> mac \<Rightarrow> hold \<times> mac" where
  "settle c = (\<lambda>(h, m).
     if \<not> ho_owned h then (h, m)
     else
       let (reset, m) = (if ho_sentinel h = Some True then sentinel_ends c m else (False, m));
           h = h\<lparr>ho_owned := False, ho_sentinel := None\<rparr>
       in if reset then (h, m)
          else (case turn_sleep_on c m of (reset, m) \<Rightarrow> (h, if reset then remove_marker h m else m)))"

definition keep :: "calls \<Rightarrow> hold \<times> mac \<Rightarrow> lid \<times> hold \<times> mac" where
  "keep c = (\<lambda>(h, m).
     let (l, h, m) =
       (case ho_state h of
          None \<Rightarrow> take_hold c (h, m)
        | Some Held \<Rightarrow>
            if \<not> mc_disabled m then (Cleared, settle c (h, m))
            else (Held, if ho_owned h then snd (arm c (h, m)) else (h, m))
        | Some l \<Rightarrow> (l, h, m))
     in (l, h\<lparr>ho_state := Some l\<rparr>, m))"

definition release_hold :: "calls \<Rightarrow> hold \<Rightarrow> mac \<Rightarrow> mac" where
  "release_hold c h m = snd (settle c (h, m))"

definition recover :: "bool \<Rightarrow> calls \<Rightarrow> mac \<Rightarrow> mac" where
  "recover path c m =
     (if \<not> path \<or> \<not> mc_marker m then m
      else if \<not> mc_disabled m then m\<lparr>mc_marker := False\<rparr>
      else (case turn_sleep_on c m of (reset, m) \<Rightarrow> if reset then m\<lparr>mc_marker := False\<rparr> else m))"

section \<open>The session\<close>

record device_power =
  pw_plugged :: bool
  pw_percent :: "nat option"

definition allows_stay_awake :: "device_power \<Rightarrow> bool" where
  "allows_stay_awake p = (pw_plugged p \<or> (case pw_percent p of Some n \<Rightarrow> n > 10 | None \<Rightarrow> False))"

definition u64_max :: nat where
  "u64_max = 2 ^ 64 - 1"

definition sat_add :: "nat \<Rightarrow> nat \<Rightarrow> nat" where
  "sat_add a b = min (a + b) u64_max"

definition sat_mul :: "nat \<Rightarrow> nat \<Rightarrow> nat" where
  "sat_mul a b = min (a * b) u64_max"

text \<open>Subtraction of natural numbers saturates as \<open>saturating_sub\<close> does. \<open>now\<close> and \<open>wall\<close> are the two
  clocks.\<close>

definition wall_ms :: "nat \<Rightarrow> nat \<Rightarrow> nat \<Rightarrow> nat" where
  "wall_ms wall now at = (if at \<ge> now then sat_add wall (at - now) else wall - (now - at))"

record awake_session =
  se_length :: "nat option"
  se_elapsed :: nat
  se_started :: "nat option"

definition running :: "awake_session \<Rightarrow> bool" where
  "running s = (se_started s \<noteq> None)"

definition ran :: "awake_session \<Rightarrow> nat \<Rightarrow> nat" where
  "ran s now = sat_add (se_elapsed s) (case se_started s of Some at \<Rightarrow> now - at | None \<Rightarrow> 0)"

definition left :: "awake_session \<Rightarrow> nat \<Rightarrow> nat option" where
  "left s now = map_option (\<lambda>len. len - ran s now) (se_length s)"

definition expired :: "awake_session \<Rightarrow> nat \<Rightarrow> bool" where
  "expired s now = (case se_length s of Some len \<Rightarrow> ran s now \<ge> len | None \<Rightarrow> False)"

definition since :: "awake_session \<Rightarrow> nat option" where
  "since s = (if se_length s \<noteq> None then None else map_option (\<lambda>at. at - se_elapsed s) (se_started s))"

definition until_ms :: "awake_session \<Rightarrow> nat option" where
  "until_ms s = Option.bind (se_started s) (\<lambda>at. map_option (\<lambda>len. sat_add at (len - se_elapsed s)) (se_length s))"

definition div_ceil :: "nat \<Rightarrow> nat \<Rightarrow> nat" where
  "div_ceil a b = (a + b - 1) div b"

definition frozen :: "awake_session \<Rightarrow> nat" where
  "frozen s =
     (case se_length s of
        Some len \<Rightarrow> sat_mul (div_ceil (len - se_elapsed s) 1000) 1000
      | None \<Rightarrow> se_elapsed s div 1000 * 1000)"

section \<open>Staying awake\<close>

record shown =
  sh_active :: bool
  sh_paused :: bool
  sh_since :: "nat option"
  sh_until :: "nat option"
  sh_frozen :: "nat option"
  sh_power :: device_power
  sh_available :: bool
  sh_lid :: "lid option"
  sh_lid_offered :: bool

definition idle :: shown where
  "idle = \<lparr>sh_active = False, sh_paused = False, sh_since = None, sh_until = None, sh_frozen = None,
     sh_power = \<lparr>pw_plugged = False, pw_percent = None\<rparr>, sh_available = False, sh_lid = None,
     sh_lid_offered = False\<rparr>"

text \<open>\<open>caffeinate\<close> is known by its time limit in seconds.\<close>

record held =
  he_child :: "nat option option"
  he_lid :: "hold option"
  he_blanked :: bool
  he_session :: "awake_session option"

definition nothing_held :: held where
  "nothing_held = \<lparr>he_child = None, he_lid = None, he_blanked = False, he_session = None\<rparr>"

record awake =
  aw_held :: held
  aw_state :: shown
  aw_offered :: bool

definition describe :: "nat \<Rightarrow> nat \<Rightarrow> held \<Rightarrow> device_power \<Rightarrow> lid option \<Rightarrow> bool \<Rightarrow> shown" where
  "describe wall now he pw l offered =
     (let base = idle\<lparr>sh_power := pw, sh_available := allows_stay_awake pw, sh_lid_offered := offered\<rparr> in
      case he_session he of
        None \<Rightarrow> base
      | Some s \<Rightarrow>
          if running s
          then base\<lparr>sh_active := he_child he \<noteq> None, sh_since := map_option (wall_ms wall now) (since s),
                 sh_until := map_option (wall_ms wall now) (until_ms s), sh_lid := l\<rparr>
          else base\<lparr>sh_paused := True, sh_frozen := Some (frozen s)\<rparr>)"

definition release_held :: "calls \<Rightarrow> held \<times> mac \<Rightarrow> held \<times> mac" where
  "release_held c = (\<lambda>(he, m).
     (he\<lparr>he_child := None, he_lid := None\<rparr>, case he_lid he of None \<Rightarrow> m | Some h \<Rightarrow> release_hold c h m))"

text \<open>What a pass sees: the power, the clocks, whether \<open>caffeinate\<close> has exited and can be started, the
  lid, the displays, and whether there is a folder for the marker.\<close>

record view =
  vw_power :: device_power
  vw_now :: nat
  vw_wall :: nat
  vw_exited :: bool
  vw_spawn :: bool
  vw_closed :: bool
  vw_external :: bool
  vw_path :: bool
  vw_calls :: calls

text \<open>The session as a pass leaves it, but for a \<open>caffeinate\<close> that can't be started.\<close>

definition session_now :: "view \<Rightarrow> held \<Rightarrow> awake_session option" where
  "session_now v he =
     (if he_child he \<noteq> None \<and> vw_exited v then None
      else if \<not> allows_stay_awake (vw_power v) then None
      else (case he_session he of
              None \<Rightarrow> None
            | Some s \<Rightarrow> if expired s (vw_now v) then None else Some s))"

definition caffeinate_args :: "awake_session \<Rightarrow> nat \<Rightarrow> nat option" where
  "caffeinate_args s now = map_option (\<lambda>l. max (div_ceil l 1000) 1) (left s now)"

definition keep_child :: "view \<Rightarrow> held \<times> mac \<Rightarrow> held \<times> mac" where
  "keep_child v = (\<lambda>(he, m).
     case (he_session he, he_child he) of
       (Some s, None) \<Rightarrow>
         if running s
         then (if vw_spawn v then he\<lparr>he_child := Some (caffeinate_args s (vw_now v))\<rparr> else he\<lparr>he_session := None\<rparr>, m)
         else (he, m)
     | (Some s, Some _) \<Rightarrow> if running s then (he, m) else release_held (vw_calls v) (he, m)
     | (None, Some _) \<Rightarrow> release_held (vw_calls v) (he, m)
     | (None, None) \<Rightarrow> (he, m))"

definition keep_lid :: "bool \<Rightarrow> view \<Rightarrow> held \<times> mac \<Rightarrow> held \<times> mac" where
  "keep_lid offered v = (\<lambda>(he, m).
     if he_child he \<noteq> None \<and> offered
     then (he\<lparr>he_lid := Some (case he_lid he of None \<Rightarrow> new_hold (vw_path v) | Some h \<Rightarrow> h)\<rparr>, m)
     else (he\<lparr>he_lid := None\<rparr>, case he_lid he of None \<Rightarrow> m | Some h \<Rightarrow> release_hold (vw_calls v) h m))"

text \<open>A pass gives, besides the new state, whether the screen was blanked and the state announced.\<close>

definition reconcile :: "view \<Rightarrow> awake \<times> mac \<Rightarrow> (bool \<times> bool) \<times> awake \<times> mac" where
  "reconcile v = (\<lambda>(aw, m).
     let he = aw_held aw;
         ended = session_now v he;
         (he, m) = (if he_child he \<noteq> None \<and> vw_exited v then release_held (vw_calls v) (he, m) else (he, m));
         (he, m) = keep_child v (he\<lparr>he_session := ended\<rparr>, m);
         (he, m) = keep_lid (aw_offered aw) v (he, m);
         (l, he, m) =
           (case he_lid he of
              None \<Rightarrow> (None, he, m)
            | Some h \<Rightarrow> (case keep (vw_calls v) (h, m) of (l, h, m) \<Rightarrow> (Some l, he\<lparr>he_lid := Some h\<rparr>, m)));
         blank = (l = Some Held \<and> vw_closed v \<and> \<not> vw_external v);
         next_state = describe (vw_wall v) (vw_now v) he (vw_power v) l (aw_offered aw)
     in ((blank \<and> \<not> he_blanked he, next_state \<noteq> aw_state aw),
         aw\<lparr>aw_held := he\<lparr>he_blanked := blank\<rparr>, aw_state := next_state\<rparr>, m))"

definition shutdown :: "calls \<Rightarrow> awake \<times> mac \<Rightarrow> awake \<times> mac" where
  "shutdown c = (\<lambda>(aw, m).
     case release_held c (aw_held aw, m) of (he, m) \<Rightarrow> (aw\<lparr>aw_held := he\<lparr>he_session := None\<rparr>\<rparr>, m))"

definition awake_start :: "device_power \<Rightarrow> nat \<Rightarrow> nat option \<Rightarrow> awake \<Rightarrow> (string + unit) \<times> awake" where
  "awake_start pw now seconds aw =
     (if \<not> allows_stay_awake pw
      then (Inl ''Connect a charger or charge above 10% to use Stay Awake'', aw)
      else (Inr (), aw\<lparr>aw_held := (aw_held aw)
        \<lparr>he_child := None,
         he_session := Some \<lparr>se_length = map_option (\<lambda>s. sat_mul s 1000) seconds, se_elapsed = 0,
           se_started = Some now\<rparr>\<rparr>\<rparr>))"

definition awake_stop :: "awake \<Rightarrow> awake" where
  "awake_stop aw = aw\<lparr>aw_held := (aw_held aw)\<lparr>he_session := None\<rparr>\<rparr>"

definition pause_session :: "nat \<Rightarrow> awake_session \<Rightarrow> awake_session" where
  "pause_session now s =
     (case se_started s of
        None \<Rightarrow> s
      | Some at \<Rightarrow> s\<lparr>se_started := None, se_elapsed := sat_add (se_elapsed s) (now - at)\<rparr>)"

definition awake_pause :: "nat \<Rightarrow> awake \<Rightarrow> awake" where
  "awake_pause now aw =
     aw\<lparr>aw_held := (aw_held aw)\<lparr>he_session := map_option (pause_session now) (he_session (aw_held aw))\<rparr>\<rparr>"

definition resume_session :: "nat \<Rightarrow> awake_session \<Rightarrow> awake_session" where
  "resume_session now s = (if se_started s = None then s\<lparr>se_started := Some now\<rparr> else s)"

definition awake_resume :: "device_power \<Rightarrow> nat \<Rightarrow> awake \<Rightarrow> (string + unit) \<times> awake" where
  "awake_resume pw now aw =
     (if \<not> allows_stay_awake pw
      then (Inl ''Connect a charger or charge above 10% to resume Stay Awake'', aw)
      else (Inr (), aw\<lparr>aw_held := (aw_held aw)\<lparr>he_session := map_option (resume_session now) (he_session (aw_held aw))\<rparr>\<rparr>))"

section \<open>What can happen\<close>

record sleeper =
  sl_app :: "awake option"
  sl_mac :: mac

text \<open>Besides the commands and the passes: the app is started and quits, dies on the spot, an orphaned
  sentinel does its work, somebody kills a sentinel, or turns sleep off or on from outside.\<close>

datatype event =
    Launch bool bool calls
  | Start device_power nat "nat option"
  | Stop
  | Pause nat
  | Resume device_power nat
  | Pass view
  | Quit calls
  | Crash
  | Orphan calls
  | Kill
  | KillOrphan
  | Outside bool

definition awake_init :: "bool \<Rightarrow> awake" where
  "awake_init offered = \<lparr>aw_held = nothing_held, aw_state = idle, aw_offered = offered\<rparr>"

definition sentinel_of :: "awake \<Rightarrow> bool option" where
  "sentinel_of aw = Option.bind (he_lid (aw_held aw)) ho_sentinel"

definition kill_sentinel :: "hold \<Rightarrow> hold" where
  "kill_sentinel h = h\<lparr>ho_sentinel := map_option (\<lambda>_. False) (ho_sentinel h)\<rparr>"

fun app_step :: "event \<Rightarrow> awake \<times> mac \<Rightarrow> awake option \<times> mac" where
  "app_step (Start p now secs) (aw, m) = (Some (snd (awake_start p now secs aw)), m)"
| "app_step Stop (aw, m) = (Some (awake_stop aw), m)"
| "app_step (Pause now) (aw, m) = (Some (awake_pause now aw), m)"
| "app_step (Resume p now) (aw, m) = (Some (snd (awake_resume p now aw)), m)"
| "app_step (Pass v) (aw, m) = (case snd (reconcile v (aw, m)) of (aw, m) \<Rightarrow> (Some aw, m))"
| "app_step (Quit c) (aw, m) = (None, snd (shutdown c (aw, m)))"
| "app_step Crash (aw, m) =
     (None, if sentinel_of aw = Some True then m\<lparr>mc_orphans := mc_orphans m + 1\<rparr> else m)"
| "app_step Kill (aw, m) =
     (Some (aw\<lparr>aw_held := (aw_held aw)\<lparr>he_lid := map_option kill_sentinel (he_lid (aw_held aw))\<rparr>\<rparr>), m)"
| "app_step _ (aw, m) = (Some aw, m)"

fun mac_step :: "event \<Rightarrow> mac \<Rightarrow> mac" where
  "mac_step (Orphan c) m =
     (if mc_orphans m = 0 then m else (snd (sentinel_ends c m))\<lparr>mc_orphans := mc_orphans m - 1\<rparr>)"
| "mac_step KillOrphan m = m\<lparr>mc_orphans := mc_orphans m - 1\<rparr>"
| "mac_step (Outside off) m = m\<lparr>mc_disabled := off, mc_ours := off \<and> mc_ours m\<rparr>"
| "mac_step _ m = m"

definition sleep_step :: "event \<Rightarrow> sleeper \<Rightarrow> sleeper" where
  "sleep_step ev s =
     (let m = mac_step ev (sl_mac s) in
      case sl_app s of
        None \<Rightarrow>
          (case ev of
             Launch offered path c \<Rightarrow> \<lparr>sl_app = Some (awake_init offered), sl_mac = recover path c m\<rparr>
           | _ \<Rightarrow> \<lparr>sl_app = None, sl_mac = m\<rparr>)
      | Some aw \<Rightarrow> (case app_step ev (aw, m) of (app, m) \<Rightarrow> \<lparr>sl_app = app, sl_mac = m\<rparr>))"

definition sleep_run :: "event list \<Rightarrow> sleeper \<Rightarrow> sleeper" where
  "sleep_run evs s = fold sleep_step evs s"

text \<open>A Mac without Tiles, whose sleep may be off.\<close>

definition fresh_mac :: "bool \<Rightarrow> sleeper" where
  "fresh_mac off = \<lparr>sl_app = None, sl_mac = \<lparr>mc_disabled = off, mc_marker = False, mc_orphans = 0, mc_ours = False\<rparr>\<rparr>"

section \<open>Sleep is not left off unmarked\<close>

definition marked :: "mac \<Rightarrow> bool" where
  "marked m = (mc_ours m \<longrightarrow> mc_disabled m \<and> mc_marker m)"

lemma markedI [intro]: "\<not> mc_ours m \<Longrightarrow> marked m"
  by (simp add: marked_def)

named_theorems switch

lemmas [switch] = turn_sleep_off_def turn_sleep_on_def sentinel_ends_def sentinel_resets_def sentinel_removes_def remove_marker_def disarm_def

lemma arm_marked: "arm c (h, m) = (b, h', m') \<Longrightarrow> marked m \<Longrightarrow>
    marked m' \<and> mc_disabled m' = mc_disabled m \<and> mc_ours m' = mc_ours m \<and> (b \<longrightarrow> mc_marker m')"
  by (auto simp: arm_def marked_def Let_def split: if_splits)

lemma settle_marked: "settle c (h, m) = (h', m') \<Longrightarrow> marked m \<Longrightarrow> marked m'"
  by (auto simp: settle_def marked_def Let_def switch split: if_splits prod.splits)

lemma take_marked:
  assumes "take_hold c (h, m) = (l, h', m')" and "marked m"
  shows "marked m'"
proof (cases "mc_disabled m")
  case True
  with assms show ?thesis by (simp add: take_hold_def)
next
  case False
  obtain b h1 m1 where a: "arm c (h, m) = (b, h1, m1)" by (metis prod_cases3)
  from arm_marked [OF a assms(2)] assms(1) False a show ?thesis
    by (auto simp: take_hold_def marked_def switch split: if_splits)
qed

lemma keep_marked:
  assumes "keep c (h, m) = (l, h', m')" and "marked m"
  shows "marked m'"
proof (cases "ho_state h")
  case None
  with assms take_marked show ?thesis by (auto simp: keep_def Let_def split: prod.splits)
next
  case (Some k)
  show ?thesis
  proof (cases k)
    case Held
    obtain b h1 m1 where a: "arm c (h, m) = (b, h1, m1)" by (metis prod_cases3)
    obtain h2 m2 where s: "settle c (h, m) = (h2, m2)" by (metis prod.exhaust)
    from assms Some Held arm_marked [OF a assms(2)] settle_marked [OF s assms(2)] a s show ?thesis
      by (auto simp: keep_def Let_def split: if_splits)
  qed (use assms Some in \<open>auto simp: keep_def Let_def\<close>)
qed

lemma release_hold_marked: "marked m \<Longrightarrow> marked (release_hold c h m)"
  unfolding release_hold_def by (cases "settle c (h, m)") (auto dest: settle_marked)

lemma release_held_marked: "marked m \<Longrightarrow> marked (snd (release_held c (he, m)))"
  by (auto simp: release_held_def release_hold_marked split: option.splits)

lemma recover_marked: "marked m \<Longrightarrow> marked (recover path c m)"
  by (auto simp: recover_def marked_def switch)

lemma keep_child_marked: "marked m \<Longrightarrow> marked (snd (keep_child v (he, m)))"
  by (auto simp: keep_child_def release_held_marked split: option.splits)

lemma keep_lid_marked: "marked m \<Longrightarrow> marked (snd (keep_lid offered v (he, m)))"
  by (auto simp: keep_lid_def release_hold_marked split: option.splits)

text \<open>The stages of a pass.\<close>

lemma reconcile_stages:
  assumes "reconcile v (aw, m) = (out, aw', m')"
  obtains he1 m1 he2 m2 he3 m3 where
    "(if he_child (aw_held aw) \<noteq> None \<and> vw_exited v then release_held (vw_calls v) (aw_held aw, m)
      else (aw_held aw, m)) = (he1, m1)"
    "keep_child v (he1\<lparr>he_session := session_now v (aw_held aw)\<rparr>, m1) = (he2, m2)"
    "keep_lid (aw_offered aw) v (he2, m2) = (he3, m3)"
    "case he_lid he3 of
       None \<Rightarrow> m' = m3 \<and> he_lid (aw_held aw') = None \<and>
         aw_state aw' = describe (vw_wall v) (vw_now v) he3 (vw_power v) None (aw_offered aw)
     | Some h \<Rightarrow> (\<exists>l h'. keep (vw_calls v) (h, m3) = (l, h', m') \<and> he_lid (aw_held aw') = Some h' \<and>
         aw_state aw' = describe (vw_wall v) (vw_now v) he3 (vw_power v) (Some l) (aw_offered aw))"
    "he_child (aw_held aw') = he_child he3" "he_session (aw_held aw') = he_session he3" "aw_offered aw' = aw_offered aw"
proof -
  obtain he1 m1 where 1: "(if he_child (aw_held aw) \<noteq> None \<and> vw_exited v then release_held (vw_calls v) (aw_held aw, m)
      else (aw_held aw, m)) = (he1, m1)" by (metis prod.exhaust)
  obtain he2 m2 where 2: "keep_child v (he1\<lparr>he_session := session_now v (aw_held aw)\<rparr>, m1) = (he2, m2)"
    by (metis prod.exhaust)
  obtain he3 m3 where 3: "keep_lid (aw_offered aw) v (he2, m2) = (he3, m3)" by (metis prod.exhaust)
  have desc: "describe w n (he3\<lparr>he_lid := x\<rparr>) p l b = describe w n he3 p l b" for w n x p l b
    by (simp add: describe_def Let_def split: option.split)
  note run = assms [unfolded reconcile_def prod.case Let_def 1 2 3]
  show thesis
  proof (cases "he_lid he3")
    case None
    with run show thesis by (intro that [OF 1 2 3]) auto
  next
    case (Some h)
    obtain l h' m4 where k: "keep (vw_calls v) (h, m3) = (l, h', m4)" by (metis prod_cases3)
    from run Some show thesis by (intro that [OF 1 2 3]) (auto simp: k desc)
  qed
qed

text \<open>What a pass keeps of the Mac, if its parts do.\<close>

lemma reconcile_marked:
  assumes "reconcile v (aw, m) = (out, aw', m')" and "marked m"
  shows "marked m'"
  using assms(1)
proof (cases rule: reconcile_stages)
  case (1 he1 m1 he2 m2 he3 m3)
  have "marked m1" using 1(1) assms(2) release_held_marked [OF assms(2), of "vw_calls v" "aw_held aw"]
    by (auto split: if_splits)
  then have "marked m2" using keep_child_marked [of m1 v] 1(2) by (metis snd_conv)
  then have "marked m3" using keep_lid_marked [of m2] 1(3) by (metis snd_conv)
  with 1(4) show ?thesis by (auto dest: keep_marked split: option.splits)
qed

lemma app_step_marked: "app_step ev (aw, m) = (app, m') \<Longrightarrow> marked m \<Longrightarrow> marked m'"
proof (cases ev)
  case (Pass v)
  assume *: "app_step ev (aw, m) = (app, m')" "marked m"
  obtain out aw' m2 where r: "reconcile v (aw, m) = (out, aw', m2)" by (metis prod_cases3)
  from reconcile_marked [OF r *(2)] * r Pass show ?thesis by simp
next
  case (Quit c)
  assume *: "app_step ev (aw, m) = (app, m')" "marked m"
  with Quit release_held_marked [OF *(2), of c "aw_held aw"] show ?thesis by (auto simp: shutdown_def split: prod.splits)
qed (auto simp: marked_def split: if_splits)

lemma mac_step_marked: "marked m \<Longrightarrow> marked (mac_step ev m)"
  by (cases ev) (auto simp: marked_def switch)

lemma sleep_step_marked: "marked (sl_mac s) \<Longrightarrow> marked (sl_mac (sleep_step ev s))"
proof (cases "sl_app s")
  case None
  assume m: "marked (sl_mac s)"
  from mac_step_marked [OF m, of ev] None show ?thesis
    by (cases ev) (simp_all add: sleep_step_def recover_marked)
next
  case (Some aw)
  assume m: "marked (sl_mac s)"
  obtain app m' where a: "app_step ev (aw, mac_step ev (sl_mac s)) = (app, m')" by (metis prod.exhaust)
  from app_step_marked [OF a mac_step_marked [OF m]] Some a show ?thesis by (simp add: sleep_step_def)
qed




section \<open>Every way out turns sleep on\<close>

text \<open>The grant is there whenever sleep is turned on. Nothing else is asked of what happens before.\<close>

definition workable :: "calls \<Rightarrow> bool" where
  "workable c = (ca_on c \<and> ca_reset c)"

fun benign :: "event \<Rightarrow> bool" where
  "benign (Launch _ path c) = (path \<and> ca_on c)"
| "benign (Pass v) = workable (vw_calls v)"
| "benign (Quit c) = workable c"
| "benign (Orphan c) = workable c"
| "benign _ = True"

text \<open>While the app runs, sleep it turned off is owned by its hold.\<close>

definition hold_ok :: "hold \<Rightarrow> mac \<Rightarrow> bool" where
  "hold_ok h m = ((mc_ours m \<longrightarrow> ho_owned h) \<and> (ho_owned h \<longrightarrow> ho_state h = Some Held))"

definition lid_ok :: "held \<Rightarrow> mac \<Rightarrow> bool" where
  "lid_ok he m = (case he_lid he of None \<Rightarrow> \<not> mc_ours m | Some h \<Rightarrow> hold_ok h m)"

definition guarded :: "sleeper \<Rightarrow> bool" where
  "guarded s = (marked (sl_mac s) \<and> (case sl_app s of None \<Rightarrow> True | Some aw \<Rightarrow> lid_ok (aw_held aw) (sl_mac s)))"

definition resets :: "mac \<Rightarrow> mac \<Rightarrow> bool" where
  "resets m m' = (\<not> mc_ours m' \<and> (mc_ours m \<or> \<not> mc_disabled m \<longrightarrow> \<not> mc_disabled m'))"

lemma resets_refl: "\<not> mc_ours m \<Longrightarrow> resets m m"
  by (simp add: resets_def)

lemma resets_trans: "resets m m1 \<Longrightarrow> resets m1 m2 \<Longrightarrow> resets m m2"
  by (auto simp: resets_def)

lemma settle_resets:
  assumes "workable c" and "hold_ok h m" and "settle c (h, m) = (h', m')"
  shows "resets m m' \<and> \<not> ho_owned h'"
  using assms
  by (auto simp: settle_def hold_ok_def resets_def workable_def Let_def switch split: if_splits)

lemma release_hold_resets: "workable c \<Longrightarrow> hold_ok h m \<Longrightarrow> resets m (release_hold c h m)"
  unfolding release_hold_def by (cases "settle c (h, m)") (simp add: settle_resets)

lemma release_held_resets: "workable c \<Longrightarrow> lid_ok he m \<Longrightarrow> resets m (snd (release_held c (he, m)))"
  by (auto simp: release_held_def lid_ok_def release_hold_resets resets_refl split: option.splits)

lemma release_held_fst: "fst (release_held c (he, m)) = he\<lparr>he_child := None, he_lid := None\<rparr>"
  by (simp add: release_held_def)

lemma keep_child_ok:
  assumes "workable (vw_calls v)" and "lid_ok he m"
  shows "lid_ok (fst (keep_child v (he, m))) (snd (keep_child v (he, m)))"
  using assms(2) release_held_resets [OF assms]
  by (auto simp: keep_child_def lid_ok_def release_held_fst resets_def split: option.splits)

lemma keep_lid_ok:
  assumes "workable (vw_calls v)" and "lid_ok he m"
  shows "lid_ok (fst (keep_lid offered v (he, m))) (snd (keep_lid offered v (he, m)))"
  using assms release_hold_resets [OF assms(1)]
  by (auto simp: keep_lid_def lid_ok_def hold_ok_def new_hold_def resets_def split: option.splits)

lemma arm_hold:
  "arm c (h, m) = (b, h', m') \<Longrightarrow> ho_owned h' = ho_owned h \<and> ho_state h' = ho_state h \<and> ho_marker h' = ho_marker h"
  by (auto simp: arm_def Let_def split: if_splits)

lemma keep_ok:
  assumes "keep c (h, m) = (l, h', m')" and "workable c" and "hold_ok h m" and "marked m"
  shows "hold_ok h' m'"
proof -
  obtain b h1 m1 where a: "arm c (h, m) = (b, h1, m1)" by (metis prod_cases3)
  note arm = arm_hold [OF a] arm_marked [OF a assms(4)]
  show ?thesis
  proof (cases "ho_state h")
    case None
    with assms(3) have "\<not> ho_owned h" "\<not> mc_ours m" by (auto simp: hold_ok_def)
    with assms(1) None a arm show ?thesis
      by (auto simp: keep_def take_hold_def hold_ok_def Let_def switch split: if_splits)
  next
    case (Some k)
    show ?thesis
    proof (cases k)
      case Held
      obtain h2 m2 where s: "settle c (h, m) = (h2, m2)" by (metis prod.exhaust)
      from settle_resets [OF assms(2,3) s] have "\<not> ho_owned h2" "\<not> mc_ours m2" by (simp_all add: resets_def)
      with assms(1,3) Some Held a s arm show ?thesis
        by (auto simp: keep_def hold_ok_def Let_def split: if_splits)
    qed (use assms Some in \<open>auto simp: keep_def hold_ok_def Let_def\<close>)
  qed
qed

lemma reconcile_ok:
  assumes "reconcile v (aw, m) = (out, aw', m')" and "workable (vw_calls v)" and "lid_ok (aw_held aw) m" and "marked m"
  shows "lid_ok (aw_held aw') m'"
    and "he_session (aw_held aw) = None \<or> \<not> allows_stay_awake (vw_power v) \<Longrightarrow> resets m m'"
proof -
  have "lid_ok (aw_held aw') m' \<and>
      (he_session (aw_held aw) = None \<or> \<not> allows_stay_awake (vw_power v) \<longrightarrow> resets m m')"
    using assms(1)
  proof (cases rule: reconcile_stages)
    case (1 he1 m1 he2 m2 he3 m3)
    note rel = release_held_resets [OF assms(2,3)]
    have ok1: "lid_ok he1 m1 \<and> marked m1 \<and> (m1 = m \<and> he1 = aw_held aw \<or> resets m m1 \<and> he_lid he1 = None \<and> he_child he1 = None)"
      using 1(1) assms(3,4) rel release_held_marked [OF assms(4)]
      by (auto simp: lid_ok_def release_held_def resets_def split: if_splits)
    let ?he = "he1\<lparr>he_session := session_now v (aw_held aw)\<rparr>"
    from ok1 have "lid_ok ?he m1" by (simp add: lid_ok_def)
    from keep_child_ok [OF assms(2) this] 1(2) have ok2: "lid_ok he2 m2" by simp
    from keep_lid_ok [OF assms(2) this] 1(3) have ok3: "lid_ok he3 m3" by (metis fst_conv snd_conv)
    have m2: "marked m2" using keep_child_marked [of m1 v] ok1 1(2) by (metis snd_conv)
    then have m3: "marked m3" using keep_lid_marked [of m2] 1(3) by (metis snd_conv)
    have "lid_ok (aw_held aw') m'"
      using 1(4) ok3 m3 keep_ok [OF _ assms(2)] by (auto simp: lid_ok_def split: option.splits)
    moreover have "resets m m'" if h: "he_session (aw_held aw) = None \<or> \<not> allows_stay_awake (vw_power v)"
    proof -
      have none: "session_now v (aw_held aw) = None" using h by (auto simp: session_now_def)
      have c2: "he_child he2 = None \<and> (m2 = m1 \<and> he_lid he2 = he_lid he1 \<or> resets m1 m2 \<and> he_lid he2 = None)"
        using 1(2) none release_held_resets [OF assms(2) \<open>lid_ok ?he m1\<close>]
        by (auto simp: keep_child_def release_held_def split: option.splits)
      then have c3: "he_lid he3 = None \<and> (m3 = m2 \<and> he_lid he2 = None \<or> resets m2 m3)"
        using 1(3) ok2 release_hold_resets [OF assms(2)]
        by (auto simp: keep_lid_def lid_ok_def split: option.splits)
      then have "m' = m3" using 1(4) by simp
      with ok1 c2 c3 ok2 assms(3) show ?thesis by (auto simp: resets_def lid_ok_def)
    qed
    ultimately show ?thesis by blast
  qed
  then show "lid_ok (aw_held aw') m'"
    and "he_session (aw_held aw) = None \<or> \<not> allows_stay_awake (vw_power v) \<Longrightarrow> resets m m'" by simp_all
qed

lemma recover_clears: "marked m \<Longrightarrow> ca_on c \<Longrightarrow> \<not> mc_ours (recover True c m)"
  by (auto simp: recover_def turn_sleep_on_def marked_def)

text \<open>Only a pass and leaving touch the hold and sleep itself.\<close>

lemma app_step_ok:
  assumes "app_step ev (aw, m) = (Some aw', m')" and "benign ev" and "lid_ok (aw_held aw) m" and "marked m"
  shows "lid_ok (aw_held aw') m'"
proof (cases ev)
  case (Pass v)
  obtain out aw1 m1 where r: "reconcile v (aw, m) = (out, aw1, m1)" by (metis prod_cases3)
  from reconcile_ok(1) [OF r _ assms(3,4)] Pass assms(1,2) r show ?thesis by simp
next
  case Kill
  with assms show ?thesis by (auto simp: lid_ok_def hold_ok_def kill_sentinel_def split: option.splits)
qed (use assms in \<open>auto simp: lid_ok_def awake_start_def awake_stop_def awake_pause_def awake_resume_def split: if_splits\<close>)

lemma mac_step_ok: "lid_ok he m \<Longrightarrow> lid_ok he (mac_step ev m)"
  by (cases ev) (auto simp: lid_ok_def hold_ok_def switch split: option.splits)

lemma sleep_step_guarded:
  assumes "guarded s" and "benign ev"
  shows "guarded (sleep_step ev s)"
proof -
  from assms(1) have m: "marked (sl_mac s)" by (simp add: guarded_def)
  have m': "marked (mac_step ev (sl_mac s))" by (rule mac_step_marked [OF m])
  have "case sl_app (sleep_step ev s) of None \<Rightarrow> True | Some aw \<Rightarrow> lid_ok (aw_held aw) (sl_mac (sleep_step ev s))"
  proof (cases "sl_app s")
    case None
    with assms(2) recover_clears [OF m'] show ?thesis
      by (cases ev) (auto simp: sleep_step_def lid_ok_def awake_init_def nothing_held_def)
  next
    case (Some aw)
    obtain app m2 where a: "app_step ev (aw, mac_step ev (sl_mac s)) = (app, m2)" by (metis prod.exhaust)
    have "lid_ok (aw_held aw) (mac_step ev (sl_mac s))"
      by (rule mac_step_ok) (use assms(1) Some in \<open>simp add: guarded_def\<close>)
    with Some a app_step_ok [OF _ assms(2) _ m'] show ?thesis by (cases app) (simp_all add: sleep_step_def)
  qed
  with sleep_step_marked [OF m] show ?thesis by (simp add: guarded_def)
qed

interpretation guarding: machine sleep_step benign guarded
  by unfold_locales (rule sleep_step_guarded)

lemma sleep_run_guarded: "guarded s \<Longrightarrow> list_all benign evs \<Longrightarrow> guarded (sleep_run evs s)"
  unfolding sleep_run_def by (rule guarding.run_inv)

lemma pass_resets:
  assumes "guarded s" and "sl_app s = Some aw" and "workable (vw_calls v)"
    and "he_session (aw_held aw) = None \<or> \<not> allows_stay_awake (vw_power v)"
  shows "resets (sl_mac s) (sl_mac (sleep_step (Pass v) s))"
proof -
  obtain out aw1 m1 where r: "reconcile v (aw, sl_mac s) = (out, aw1, m1)" by (metis prod_cases3)
  from assms(1,2) have "lid_ok (aw_held aw) (sl_mac s)" "marked (sl_mac s)" by (simp_all add: guarded_def)
  from reconcile_ok(2) [OF r assms(3) this assms(4)] assms(2) r show ?thesis by (simp add: sleep_step_def)
qed

text \<open>C8. From any state the running app can get into, every way out turns sleep on again that it
  turned off: a stop and the pass after it, a pass that finds the battery low, quitting, and a crash,
  which the sentinel outlives. This holds wherever the grant was there when sleep had to be turned
  on, also if somebody killed sentinels or set sleep by hand in between.\<close>

theorem every_way_out_resets:
  assumes "s = sleep_run evs (fresh_mac off)" and "list_all benign evs" and "sl_app s = Some aw"
    and "workable c" and "vw_calls v = c"
  shows "resets (sl_mac s) (sl_mac (sleep_run [Stop, Pass v] s)) \<and>
    (\<not> allows_stay_awake (vw_power v) \<longrightarrow> resets (sl_mac s) (sl_mac (sleep_run [Pass v] s))) \<and>
    resets (sl_mac s) (sl_mac (sleep_run [Quit c] s)) \<and>
    (sentinel_of aw = Some True \<longrightarrow> resets (sl_mac s) (sl_mac (sleep_run [Crash, Orphan c] s)))"
proof -
  have g: "guarded s"
    unfolding assms(1) by (rule sleep_run_guarded) (simp_all add: assms(2) guarded_def fresh_mac_def marked_def)
  then have lid: "lid_ok (aw_held aw) (sl_mac s)" using assms(3) by (simp add: guarded_def)
  have w: "workable (vw_calls v)" using assms(4,5) by simp
  have stop: "sleep_step Stop s = s\<lparr>sl_app := Some (awake_stop aw)\<rparr>"
    using assms(3) by (simp add: sleep_step_def)
  have "guarded (sleep_step Stop s)" by (rule sleep_step_guarded [OF g]) simp
  from pass_resets [OF this _ w, of "awake_stop aw"]
  have "resets (sl_mac s) (sl_mac (sleep_run [Stop, Pass v] s))"
    by (simp add: sleep_run_def stop awake_stop_def)
  moreover have "\<not> allows_stay_awake (vw_power v) \<longrightarrow> resets (sl_mac s) (sl_mac (sleep_run [Pass v] s))"
    using pass_resets [OF g assms(3) w] by (simp add: sleep_run_def)
  moreover have "resets (sl_mac s) (sl_mac (sleep_run [Quit c] s))"
    using release_held_resets [OF assms(4) lid] assms(3)
    by (auto simp: sleep_run_def sleep_step_def shutdown_def split: prod.splits)
  moreover have "sentinel_of aw = Some True \<longrightarrow> resets (sl_mac s) (sl_mac (sleep_run [Crash, Orphan c] s))"
    using assms(3,4) by (simp add: sleep_run_def sleep_step_def Let_def sentinel_ends_def sentinel_resets_def sentinel_removes_def workable_def resets_def)
  ultimately show ?thesis by blast
qed

definition good_calls :: calls where
  "good_calls = \<lparr>ca_write = True, ca_spawn = True, ca_off = True, ca_on = True, ca_reset = True\<rparr>"

definition plugged_view :: "nat \<Rightarrow> view" where
  "plugged_view now = \<lparr>vw_power = \<lparr>pw_plugged = True, pw_percent = None\<rparr>, vw_now = now, vw_wall = now,
     vw_exited = False, vw_spawn = True, vw_closed = True, vw_external = False, vw_path = True, vw_calls = good_calls\<rparr>"

lemmas runs = sleep_run_def sleep_step_def awake_start_def allows_stay_awake_def awake_init_def nothing_held_def
  reconcile_def session_now_def expired_def keep_child_def running_def keep_lid_def new_hold_def keep_def
  take_hold_def arm_def recover_def turn_sleep_off_def plugged_view_def good_calls_def fresh_mac_def Let_def

definition shut_lid :: "event list" where
  "shut_lid = [Launch True True good_calls, Start (vw_power (plugged_view 0)) 5 None, Pass (plugged_view 7)]"


theorem every_way_out_resets_witness:
  "mc_ours (sl_mac (sleep_run shut_lid (fresh_mac False))) \<and>
   \<not> mc_disabled (sl_mac (sleep_run (shut_lid @ [Stop, Pass (plugged_view 9)]) (fresh_mac False)))"
proof -
  let ?s = "sleep_run shut_lid (fresh_mac False)"
  have ours: "mc_ours (sl_mac ?s)" and ben: "list_all benign shut_lid" and "sl_app ?s \<noteq> None"
    by (simp_all add: shut_lid_def runs workable_def)
  then obtain aw where aw: "sl_app ?s = Some aw" by blast
  have c: "workable good_calls" "vw_calls (plugged_view 9) = good_calls"
    by (simp_all add: workable_def good_calls_def plugged_view_def)
  from conjunct1 [OF every_way_out_resets [OF refl ben aw c]] ours show ?thesis
    by (simp add: resets_def sleep_run_def)
qed

section \<open>A pass\<close>

lemma div_ceil_le: "0 < b \<Longrightarrow> a \<le> div_ceil a b * b"
  using dividend_less_div_times [of b "a + b - 1"] by (simp add: div_ceil_def)

lemma div_ceil_less: "0 < b \<Longrightarrow> 0 < a \<Longrightarrow> div_ceil a b * b < a + b"
  unfolding div_ceil_def using div_times_less_eq_dividend [of "a + b - 1" b] by linarith

lemma caffeinate_lasts:
  assumes "\<not> expired s now" and "caffeinate_args s now = Some t"
  obtains l where "left s now = Some l" and "0 < l" and "l \<le> t * 1000" and "t * 1000 < l + 1000"
proof -
  from assms(2) obtain l where l: "left s now = Some l" and t: "t = max (div_ceil l 1000) 1"
    by (auto simp: caffeinate_args_def)
  from l assms(1) have pos: "0 < l" by (auto simp: left_def expired_def)
  then have "0 < div_ceil l 1000" by (simp add: div_ceil_def div_greater_zero_iff)
  with t have "t = div_ceil l 1000" by (simp add: max_def)
  then show thesis using that [OF l pos] div_ceil_le [of 1000 l] div_ceil_less [of 1000 l] pos by simp
qed

lemma session_now_Some:
  "session_now v he = Some s \<Longrightarrow> he_session he = Some s \<and> allows_stay_awake (vw_power v) \<and> \<not> expired s (vw_now v) \<and>
    \<not> (he_child he \<noteq> None \<and> vw_exited v)"
  by (auto simp: session_now_def split: if_splits option.splits)

lemma keep_child_correct:
  assumes "keep_child v (he, m) = (he', m')"
  shows "(he_child he' \<noteq> None \<longleftrightarrow> (\<exists>s. he_session he' = Some s \<and> running s)) \<and>
    (he_session he' = None \<or> he_session he' = he_session he) \<and>
    (he_child he' \<noteq> None \<and> he_child he' \<noteq> he_child he \<longrightarrow>
       (\<exists>s. he_session he' = Some s \<and> he_child he' = Some (caffeinate_args s (vw_now v))))"
  using assms by (auto simp: keep_child_def release_held_def split: option.splits if_splits)

lemma keep_lid_correct:
  assumes "keep_lid offered v (he, m) = (he', m')"
  shows "(he_lid he' \<noteq> None \<longleftrightarrow> he_child he \<noteq> None \<and> offered) \<and> he_child he' = he_child he \<and> he_session he' = he_session he"
  using assms by (auto simp: keep_lid_def split: if_splits)

lemma describe_flags:
  "sh_active (describe wall now he pw l offered) =
     (he_child he \<noteq> None \<and> (\<exists>s. he_session he = Some s \<and> running s))"
  "sh_paused (describe wall now he pw l offered) = (\<exists>s. he_session he = Some s \<and> \<not> running s)"
  by (cases "he_session he"; simp add: describe_def idle_def Let_def)+

text \<open>After a pass what Tiles holds fits the session: \<open>caffeinate\<close> runs exactly while a session
  does, the hold on the lid exists exactly while \<open>caffeinate\<close> runs and the install offers it. The
  session that is left is the one there was, it has not run out, the power allows it, and its
  \<open>caffeinate\<close> has not exited; a \<open>caffeinate\<close> started now lasts to the end of the session and less than a
  second longer. What is shown says active or paused accordingly.\<close>

theorem reconcile_correct:
  assumes "reconcile v (aw, m) = (out, aw', m')"
  shows "(he_child (aw_held aw') \<noteq> None \<longleftrightarrow> (\<exists>s. he_session (aw_held aw') = Some s \<and> running s)) \<and>
    (he_lid (aw_held aw') \<noteq> None \<longleftrightarrow> he_child (aw_held aw') \<noteq> None \<and> aw_offered aw) \<and>
    (\<forall>s. he_session (aw_held aw') = Some s \<longrightarrow>
       he_session (aw_held aw) = Some s \<and> allows_stay_awake (vw_power v) \<and> \<not> expired s (vw_now v) \<and>
       \<not> (he_child (aw_held aw) \<noteq> None \<and> vw_exited v) \<and>
       (\<forall>t. he_child (aw_held aw) = None \<and> he_child (aw_held aw') = Some (Some t) \<longrightarrow>
          (\<exists>l. left s (vw_now v) = Some l \<and> l \<le> t * 1000 \<and> t * 1000 < l + 1000))) \<and>
    sh_active (aw_state aw') = (he_child (aw_held aw') \<noteq> None) \<and>
    sh_paused (aw_state aw') = (\<exists>s. he_session (aw_held aw') = Some s \<and> \<not> running s)"
  using assms
proof (cases rule: reconcile_stages)
  case (1 he1 m1 he2 m2 he3 m3)
  note child = keep_child_correct [OF 1(2)]
  note lid = keep_lid_correct [OF 1(3)]
  have same: "he_child (aw_held aw') = he_child he2" "he_session (aw_held aw') = he_session he2"
    using lid 1(5,6) by simp_all
  have "he_lid (aw_held aw') \<noteq> None \<longleftrightarrow> he_child (aw_held aw') \<noteq> None \<and> aw_offered aw"
    using lid 1(4) same by (cases "he_lid he3") auto
  moreover have "he_session (aw_held aw) = Some s \<and> allows_stay_awake (vw_power v) \<and> \<not> expired s (vw_now v) \<and>
       \<not> (he_child (aw_held aw) \<noteq> None \<and> vw_exited v) \<and>
       (\<forall>t. he_child (aw_held aw) = None \<and> he_child (aw_held aw') = Some (Some t) \<longrightarrow>
          (\<exists>l. left s (vw_now v) = Some l \<and> l \<le> t * 1000 \<and> t * 1000 < l + 1000))"
    if s: "he_session (aw_held aw') = Some s" for s
  proof -
    from s child same have "session_now v (aw_held aw) = Some s" by auto
    note now = session_now_Some [OF this]
    have "\<exists>l. left s (vw_now v) = Some l \<and> l \<le> t * 1000 \<and> t * 1000 < l + 1000"
      if t: "he_child (aw_held aw) = None" "he_child (aw_held aw') = Some (Some t)" for t
    proof -
      have "he1 = aw_held aw" using 1(1) now by (auto split: if_splits)
      with t child same s have "caffeinate_args s (vw_now v) = Some t" by auto
      then show ?thesis using caffeinate_lasts now by metis
    qed
    with now show ?thesis by blast
  qed
  moreover have "sh_active (aw_state aw') = (he_child (aw_held aw') \<noteq> None) \<and>
      sh_paused (aw_state aw') = (\<exists>s. he_session (aw_held aw') = Some s \<and> \<not> running s)"
  proof -
    obtain l where "aw_state aw' = describe (vw_wall v) (vw_now v) he3 (vw_power v) l (aw_offered aw)"
      using 1(4) by (auto split: option.splits)
    then show ?thesis using lid child same by (simp add: describe_flags)
  qed
  ultimately show ?thesis using child same by simp
qed

theorem reconcile_correct_witness:
  "case reconcile (plugged_view 7) (snd (awake_start (vw_power (plugged_view 0)) 5 None (awake_init True)), sl_mac (fresh_mac False)) of
     (out, aw, m) \<Rightarrow> he_lid (aw_held aw) \<noteq> None \<and> he_child (aw_held aw) \<noteq> None"
proof -
  let ?aw = "snd (awake_start (vw_power (plugged_view 0)) 5 None (awake_init True))"
  obtain out aw m where r: "reconcile (plugged_view 7) (?aw, sl_mac (fresh_mac False)) = (out, aw, m)" by (metis prod_cases3)
  moreover have "aw_offered ?aw" by (simp add: runs)
  moreover have "he_child (aw_held (fst (snd (reconcile (plugged_view 7) (?aw, sl_mac (fresh_mac False)))))) \<noteq> None"
    by (simp add: runs)
  ultimately show ?thesis using reconcile_correct [OF r] by simp
qed

section \<open>The clock of a session\<close>

text \<open>The time a session that started at \<open>at\<close> runs up to \<open>now\<close>, paused and resumed at the times given.\<close>

fun run_time :: "nat \<Rightarrow> (nat \<times> nat) list \<Rightarrow> nat \<Rightarrow> nat" where
  "run_time at [] now = now - at"
| "run_time at ((p, r) # ps) now = (p - at) + run_time r ps now"

fun pause_resume :: "nat \<times> nat \<Rightarrow> awake_session \<Rightarrow> awake_session" where
  "pause_resume (p, r) s = resume_session r (pause_session p s)"

lemma ran_pauses:
  "ran (fold pause_resume ps \<lparr>se_length = len, se_elapsed = e, se_started = Some at\<rparr>) now =
    min (e + run_time at ps now) u64_max"
proof (induction ps arbitrary: e at)
  case (Cons x ps)
  obtain p r where x: "x = (p, r)" by (metis prod.exhaust)
  have "pause_resume x \<lparr>se_length = len, se_elapsed = e, se_started = Some at\<rparr> =
      \<lparr>se_length = len, se_elapsed = sat_add e (p - at), se_started = Some r\<rparr>"
    by (simp add: x resume_session_def pause_session_def)
  with Cons.IH show ?case by (simp add: x sat_add_def)
qed (simp add: ran_def sat_add_def)

text \<open>A session, however often it is paused and resumed, counts exactly the time it ran, up to
  the greatest time there is, and a timed one is over once that reaches its length.\<close>

theorem session_counts_run_time:
  assumes "awake_start pw at secs aw = (Inr (), aw1)" and "he_session (aw_held aw1) = Some s0"
    and "s = fold pause_resume ps s0"
  shows "ran s now = min (run_time at ps now) u64_max \<and>
    (expired s now \<longleftrightarrow> (\<exists>n. secs = Some n \<and> sat_mul n 1000 \<le> run_time at ps now))"
proof -
  from assms(1,2) have s0: "s0 = \<lparr>se_length = map_option (\<lambda>s. sat_mul s 1000) secs, se_elapsed = 0, se_started = Some at\<rparr>"
    by (auto simp: awake_start_def split: if_splits)
  have len: "se_length (fold pause_resume ps x) = se_length x" for x
    by (induction ps arbitrary: x) (auto simp: resume_session_def pause_session_def split: option.splits)
  have ran: "ran s now = min (run_time at ps now) u64_max"
    unfolding assms(3) s0 by (simp add: ran_pauses)
  moreover have "expired s now \<longleftrightarrow> (\<exists>n. secs = Some n \<and> sat_mul n 1000 \<le> run_time at ps now)"
    unfolding expired_def ran unfolding assms(3) len s0
    by (cases secs) (auto simp: sat_mul_def)
  ultimately show ?thesis by blast
qed

theorem session_counts_run_time_witness:
  "ran (fold pause_resume [(15, 20), (25, 35)] \<lparr>se_length = None, se_elapsed = 0, se_started = Some 5\<rparr>) 40 =
    min 20 u64_max"
proof -
  have "awake_start \<lparr>pw_plugged = True, pw_percent = None\<rparr> 5 None (awake_init True) =
      (Inr (), snd (awake_start \<lparr>pw_plugged = True, pw_percent = None\<rparr> 5 None (awake_init True)))"
    by (simp add: awake_start_def allows_stay_awake_def)
  from session_counts_run_time [OF this _ refl, of "\<lparr>se_length = None, se_elapsed = 0, se_started = Some 5\<rparr>" "[(15, 20), (25, 35)]" 40]
  show ?thesis by (simp add: awake_start_def allows_stay_awake_def)
qed

text \<open>A sentinel that outlives its app, and an app started again that turns sleep off between the two commands: the marker
  the new one relies on is removed.\<close>

lemma late_removal:
  assumes "ho_marker h" and "mc_marker m" and "ca_spawn c" and "ca_off c" and "take_hold c (h, sentinel_resets m) = (l, h', m')"
  shows "l = Held \<and> ho_owned h' \<and> mc_disabled (sentinel_removes m') \<and> \<not> mc_marker (sentinel_removes m')"
  using assms by (auto simp: take_hold_def arm_def turn_sleep_off_def sentinel_resets_def sentinel_removes_def Let_def split: if_splits)

end
