(* ===== verification/Uninstall.thy ===== *)
theory Uninstall
  imports Textual Accounts "HOL-Library.List_Lexorder" "HOL-Library.Char_ord" "HOL-Library.Sublist"
begin

text \<open>
  Where Tiles is installed, how it is updated in place and how it is removed: \<open>utils/uninstaller.rs\<close>
  and the layout of \<open>utils/installer.rs\<close>. A path is absolute, the list of its names from the root; the
  file system is a list of such paths. Resolving links, the folders of the user and how a removal
  goes are inputs.
\<close>

section \<open>Files\<close>

type_synonym path = "string list"

datatype file_node = FileNode | DirNode

type_synonym files = "(path \<times> file_node) list"

definition path_exists :: "files \<Rightarrow> path \<Rightarrow> bool" where
  "path_exists fs p = (map_of fs p \<noteq> None)"

definition is_dir :: "files \<Rightarrow> path \<Rightarrow> bool" where
  "is_dir fs p = (map_of fs p = Some DirNode)"

definition parent :: "path \<Rightarrow> path option" where
  "parent p = (if p = [] then None else Some (butlast p))"

definition file_name :: "path \<Rightarrow> string option" where
  "file_name p = (if p = [] then None else Some (last p))"

definition read_dir :: "files \<Rightarrow> path \<Rightarrow> path list" where
  "read_dir fs d = filter (\<lambda>p. parent p = Some d) (map fst fs)"

text \<open>A text as a path: a relative one is under the current folder.\<close>

definition to_path :: "path \<Rightarrow> string \<Rightarrow> path" where
  "to_path cwd s =
     (let names = filter (\<lambda>n. n \<noteq> [] \<and> n \<noteq> ''.'') (split_on (CHR ''/'') s) in
      if starts_with s ''/'' then names else cwd @ names)"

definition system_bin_dir :: path where
  "system_bin_dir = [''usr'', ''local'', ''bin'']"

definition system_bin_path :: path where
  "system_bin_path = [''usr'', ''local'', ''bin'', ''tiles'']"

definition system_lib_dir :: path where
  "system_lib_dir = [''usr'', ''local'', ''share'', ''tiles'']"

definition lib_runtime_dirs :: "string list" where
  "lib_runtime_dirs = [''server'', ''modelfiles'', ''pi'', ''ui'', ''models'']"

definition sleep_grant_path :: path where
  "sleep_grant_path = [''private'', ''etc'', ''sudoers.d'', ''tiles'']"

definition sleep_guard_path :: path where
  "sleep_guard_path = [''Library'', ''LaunchDaemons'', ''com.tilesprivacy.tiles.sleep-guard.plist'']"

definition sleep_marker :: path where
  "sleep_marker = [''Library'', ''Application Support'', ''com.tilesprivacy.tiles.menubar'', ''closed-display'']"

definition is_tiles_lib_dir :: "files \<Rightarrow> path \<Rightarrow> bool" where
  "is_tiles_lib_dir fs p = (is_dir fs (p @ [''modelfiles'']) \<and> is_dir fs (p @ [''server'']) \<and> is_dir fs (p @ [''pi'']))"

section \<open>The installation\<close>

text \<open>The computer: its folders (\<open>None\<close> where they can't be told), the running program, what a path
  without its links is, and the configuration file if it can be read.\<close>

record computer =
  pc_macos :: bool
  pc_root :: bool
  pc_cwd :: path
  pc_canon :: "path \<Rightarrow> path option"
  pc_exe :: "path option"
  pc_home :: "path option"
  pc_config_dir :: "path option"
  pc_data_dir :: "path option"
  pc_plist :: "path option"
  pc_config :: "toml_table option"

record layout =
  la_bin :: path
  la_lib_dir :: path

definition user_bin_dir :: "computer \<Rightarrow> path option" where
  "user_bin_dir pc = map_option (\<lambda>h. h @ [''.local'', ''bin'']) (pc_home pc)"

definition get_dir :: "path option \<Rightarrow> string + path" where
  "get_dir d = ok_or ''Failed to fetch $HOME'' d"

definition user_install_layout :: "computer \<Rightarrow> path \<Rightarrow> string + layout" where
  "user_install_layout pc bin = res_bind (get_dir (pc_data_dir pc)) (\<lambda>d. Inr \<lparr>la_bin = bin, la_lib_dir = d\<rparr>)"

definition from_executable :: "computer \<Rightarrow> files \<Rightarrow> path \<Rightarrow> string + layout option" where
  "from_executable pc fs exe =
     (if file_name exe \<noteq> Some ''tiles'' then Inr None
      else if prefix system_bin_dir exe then Inr (Some \<lparr>la_bin = exe, la_lib_dir = system_lib_dir\<rparr>)
      else if (case user_bin_dir pc of Some d \<Rightarrow> prefix d exe | None \<Rightarrow> False)
      then res_bind (user_install_layout pc exe) (\<lambda>l. Inr (Some l))
      else
        (case parent exe of
           Some d \<Rightarrow> if is_tiles_lib_dir fs d then Inr (Some \<lparr>la_bin = exe, la_lib_dir = d\<rparr>) else Inr None
         | None \<Rightarrow> Inr None))"

definition detect_layout :: "computer \<Rightarrow> files \<Rightarrow> string + layout" where
  "detect_layout pc fs =
     (let user_layout = res_bind (get_dir (user_bin_dir pc)) (\<lambda>d. user_install_layout pc (d @ [''tiles''])) in
      res_bind (case pc_exe pc of Some exe \<Rightarrow> from_executable pc fs exe | None \<Rightarrow> Inr None)
        (\<lambda>found. case found of
           Some l \<Rightarrow> Inr l
         | None \<Rightarrow>
             res_bind (get_dir (pc_data_dir pc))
               (\<lambda>d. if is_tiles_lib_dir fs d then user_layout
                    else if \<not> pc_macos pc \<and> \<not> pc_root pc then user_layout
                    else Inr \<lparr>la_bin = system_bin_path, la_lib_dir = system_lib_dir\<rparr>)))"

section \<open>The plan\<close>

text \<open>Sets of paths are kept in order.\<close>

record removal_plan =
  remove_files :: "path list"
  remove_dirs :: "path list"

definition insert_path :: "path \<Rightarrow> path list \<Rightarrow> path list" where
  "insert_path p ps = (if p \<in> set ps then ps else insort p ps)"

definition add_file :: "path \<Rightarrow> removal_plan \<Rightarrow> removal_plan" where
  "add_file p pl = pl\<lparr>remove_files := insert_path p (remove_files pl)\<rparr>"

definition add_dir :: "path \<Rightarrow> removal_plan \<Rightarrow> removal_plan" where
  "add_dir p pl = pl\<lparr>remove_dirs := insert_path p (remove_dirs pl)\<rparr>"

definition add_entry :: "files \<Rightarrow> path \<Rightarrow> removal_plan \<Rightarrow> removal_plan" where
  "add_entry fs p pl = (if is_dir fs p then add_dir p pl else add_file p pl)"

definition canonicalize :: "computer \<Rightarrow> files \<Rightarrow> path \<Rightarrow> string + path" where
  "canonicalize pc fs p =
     (if path_exists fs p then ok_or ''Failed to canonicalize'' (pc_canon pc p) else Inr p)"

definition paths_equal :: "computer \<Rightarrow> files \<Rightarrow> path \<Rightarrow> path \<Rightarrow> bool" where
  "paths_equal pc fs a b =
     ((case canonicalize pc fs a of Inr c \<Rightarrow> c | Inl _ \<Rightarrow> a) = (case canonicalize pc fs b of Inr c \<Rightarrow> c | Inl _ \<Rightarrow> b))"

definition read_user_data_dir :: "computer \<Rightarrow> files \<Rightarrow> path \<Rightarrow> string + path option" where
  "read_user_data_dir pc fs config_dir =
     (if \<not> path_exists fs (config_dir @ [''config.toml'']) then Inr None
      else
        res_bind (ok_or ''Failed to parse config.toml'' (pc_config pc))
          (\<lambda>config. Inr (
             case Option.bind (Option.bind (Option.bind (config ''data'') as_table) (\<lambda>data. data ''path'')) as_str of
               Some p \<Rightarrow> if p = [] then None else Some (to_path (pc_cwd pc) p)
             | None \<Rightarrow> None)))"

definition validate_user_data_dir :: "path \<Rightarrow> path \<Rightarrow> string + unit" where
  "validate_user_data_dir data_dir user =
     (if parent user = Some user then Inl ''Refusing to delete unsafe data path''
      else if user \<noteq> data_dir \<and> strict_prefix user data_dir
      then Inl ''Refusing to delete configured data path because it contains the Tiles data directory''
      else if \<not> (user = data_dir \<or> strict_prefix data_dir user)
      then Inl ''Refusing to delete configured data path because it is outside the Tiles data directory''
      else Inr ())"

definition resolve_user_data_dir :: "computer \<Rightarrow> files \<Rightarrow> path \<Rightarrow> path \<Rightarrow> string + path" where
  "resolve_user_data_dir pc fs data_dir config_dir =
     res_bind (read_user_data_dir pc fs config_dir)
       (\<lambda>configured. res_bind (case configured of Some p \<Rightarrow> canonicalize pc fs p | None \<Rightarrow> Inr (data_dir @ [''data'']))
       (\<lambda>user. res_bind (validate_user_data_dir data_dir user) (\<lambda>_. Inr user)))"

definition add_data_dir_entries :: "computer \<Rightarrow> files \<Rightarrow> path \<Rightarrow> path \<Rightarrow> removal_plan \<Rightarrow> removal_plan" where
  "add_data_dir_entries pc fs data_dir user pl =
     (if \<not> path_exists fs data_dir then pl
      else fold (\<lambda>p pl. if paths_equal pc fs p user then pl else add_entry fs p pl) (read_dir fs data_dir) pl)"

definition add_config_dir_entries :: "files \<Rightarrow> path \<Rightarrow> removal_plan \<Rightarrow> removal_plan" where
  "add_config_dir_entries fs config_dir pl =
     (if \<not> path_exists fs config_dir then pl
      else fold (\<lambda>p pl. if file_name p = Some ''config.toml'' then pl else add_entry fs p pl) (read_dir fs config_dir) pl)"

definition add_default_cleanup ::
  "computer \<Rightarrow> files \<Rightarrow> path \<Rightarrow> path \<Rightarrow> path \<Rightarrow> removal_plan \<Rightarrow> string + removal_plan" where
  "add_default_cleanup pc fs data_dir lib_dir config_dir pl =
     res_bind (resolve_user_data_dir pc fs data_dir config_dir)
       (\<lambda>user. Inr (add_data_dir_entries pc fs data_dir user
          (if lib_dir \<noteq> data_dir then fold (\<lambda>c. add_dir (lib_dir @ [c])) lib_runtime_dirs pl else pl)))"

text \<open>The program itself, and on macOS what the package and the service put elsewhere.\<close>

definition plan_start :: "computer \<Rightarrow> path \<Rightarrow> string + removal_plan" where
  "plan_start pc bin =
     (let pl = add_file bin \<lparr>remove_files = [], remove_dirs = []\<rparr> in
      if pc_macos pc
      then res_bind (get_dir (pc_plist pc))
        (\<lambda>plist. Inr (add_file sleep_guard_path (add_file sleep_grant_path (add_file plist pl))))
      else Inr pl)"

definition uninstall_plan :: "bool \<Rightarrow> computer \<Rightarrow> files \<Rightarrow> string + removal_plan" where
  "uninstall_plan everything pc fs =
     res_bind (detect_layout pc fs)
       (\<lambda>layout. res_bind (get_dir (pc_config_dir pc))
       (\<lambda>config_dir. res_bind (get_dir (pc_data_dir pc))
       (\<lambda>dir. res_bind (canonicalize pc fs dir)
       (\<lambda>data_dir.
          let lib_dir = (case canonicalize pc fs (la_lib_dir layout) of Inr p \<Rightarrow> p | Inl _ \<Rightarrow> la_lib_dir layout) in
          res_bind (plan_start pc (la_bin layout))
            (\<lambda>pl.
               if everything
               then res_bind (resolve_user_data_dir pc fs data_dir config_dir)
                 (\<lambda>user. Inr (add_dir lib_dir (add_dir user (add_dir data_dir (add_dir config_dir pl)))))
               else add_default_cleanup pc fs data_dir lib_dir config_dir (add_config_dir_entries fs config_dir pl))))))"

section \<open>Carrying it out\<close>

definition requires_elevation :: "bool \<Rightarrow> path \<Rightarrow> bool" where
  "requires_elevation macos p =
     ((macos \<and> (prefix sleep_grant_path p \<or> prefix sleep_guard_path p)) \<or> prefix system_bin_dir p \<or> prefix system_lib_dir p)"

definition needs_elevation :: "computer \<Rightarrow> files \<Rightarrow> removal_plan \<Rightarrow> bool" where
  "needs_elevation pc fs pl =
     (\<not> pc_root pc \<and>
      (list_ex (\<lambda>p. path_exists fs p \<and> requires_elevation (pc_macos pc) p) (remove_files pl) \<or>
       list_ex (\<lambda>p. path_exists fs p \<and> requires_elevation (pc_macos pc) p) (remove_dirs pl)))"

text \<open>How removals go: which fail, what a failing removal still takes with it, and whether
  \<open>sudo\<close> works.\<close>

record removals =
  rm_fails :: "path \<Rightarrow> bool"
  rm_gone :: "path \<Rightarrow> bool"
  rm_sudo :: bool

definition drop_tree :: "(path \<Rightarrow> bool) \<Rightarrow> path \<Rightarrow> files \<Rightarrow> files" where
  "drop_tree gone p fs = filter (\<lambda>e. \<not> (prefix p (fst e) \<and> gone (fst e))) fs"

definition remove_file_if_exists :: "removals \<Rightarrow> path \<Rightarrow> files \<Rightarrow> (string + unit) \<times> files" where
  "remove_file_if_exists rm p fs =
     (if \<not> path_exists fs p then (Inr (), fs)
      else if rm_fails rm p \<or> is_dir fs p then (Inl ''Failed to remove'', fs)
      else (Inr (), filter (\<lambda>e. fst e \<noteq> p) fs))"

definition remove_dir_if_exists :: "removals \<Rightarrow> path \<Rightarrow> files \<Rightarrow> (string + unit) \<times> files" where
  "remove_dir_if_exists rm p fs =
     (if \<not> path_exists fs p then (Inr (), fs)
      else if rm_fails rm p \<or> \<not> is_dir fs p then (Inl ''Failed to remove'', if is_dir fs p then drop_tree (rm_gone rm) p fs else fs)
      else (Inr (), drop_tree (\<lambda>_. True) p fs))"

fun remove_each ::
  "(path \<Rightarrow> files \<Rightarrow> (string + unit) \<times> files) \<Rightarrow> path list \<Rightarrow> files \<Rightarrow> (string + unit) \<times> files" where
  "remove_each f [] fs = (Inr (), fs)"
| "remove_each f (p # ps) fs = (case f p fs of (Inl e, fs) \<Rightarrow> (Inl e, fs) | (Inr _, fs) \<Rightarrow> remove_each f ps fs)"

text \<open>\<open>rm -f\<close> leaves folders alone and says it failed then.\<close>

definition remove_files_elevated :: "bool \<Rightarrow> removals \<Rightarrow> path list \<Rightarrow> files \<Rightarrow> (string + unit) \<times> files" where
  "remove_files_elevated root rm ps fs =
     (let existing = filter (path_exists fs) ps in
      if existing = [] then (Inr (), fs)
      else if root then remove_each (remove_file_if_exists rm) existing fs
      else if \<not> rm_sudo rm
      then (Inl ''Failed to remove system files'', filter (\<lambda>e. \<not> (fst e \<in> set existing \<and> rm_gone rm (fst e))) fs)
      else
        let fs' = filter (\<lambda>e. \<not> (fst e \<in> set existing \<and> \<not> is_dir fs (fst e))) fs in
        (if list_ex (is_dir fs) existing then Inl ''Failed to remove system files'' else Inr (), fs'))"

definition remove_dirs_elevated :: "bool \<Rightarrow> removals \<Rightarrow> path list \<Rightarrow> files \<Rightarrow> (string + unit) \<times> files" where
  "remove_dirs_elevated root rm ps fs =
     (let existing = filter (path_exists fs) ps in
      if existing = [] then (Inr (), fs)
      else if root then remove_each (remove_dir_if_exists rm) existing fs
      else if \<not> rm_sudo rm
      then (Inl ''Failed to remove system directories'',
            filter (\<lambda>e. \<not> (list_ex (\<lambda>p. prefix p (fst e)) existing \<and> rm_gone rm (fst e))) fs)
      else (Inr (), filter (\<lambda>e. \<not> list_ex (\<lambda>p. prefix p (fst e)) existing) fs))"

definition and_then ::
  "(string + unit) \<times> files \<Rightarrow> (files \<Rightarrow> (string + unit) \<times> files) \<Rightarrow> (string + unit) \<times> files" where
  "and_then r f = (case r of (Inl e, fs) \<Rightarrow> (Inl e, fs) | (Inr _, fs) \<Rightarrow> f fs)"

definition apply_plan :: "computer \<Rightarrow> removals \<Rightarrow> removal_plan \<Rightarrow> files \<Rightarrow> (string + unit) \<times> files" where
  "apply_plan pc rm pl fs =
     (let sys = requires_elevation (pc_macos pc) in
      and_then (remove_files_elevated (pc_root pc) rm (filter sys (remove_files pl)) fs)
        (\<lambda>fs. and_then (remove_dirs_elevated (pc_root pc) rm (filter sys (remove_dirs pl)) fs)
        (\<lambda>fs. and_then (remove_each (remove_file_if_exists rm) (filter (\<lambda>p. \<not> sys p) (remove_files pl)) fs)
        (\<lambda>fs. remove_each (remove_dir_if_exists rm) (filter (\<lambda>p. \<not> sys p) (remove_dirs pl)) fs))))"

text \<open>What \<open>pmset -g\<close> prints; unreadable counts as off.\<close>

definition reports_sleep_disabled :: "string \<Rightarrow> bool" where
  "reports_sleep_disabled out =
     list_ex (\<lambda>line. take 2 (split_whitespace line) = [''SleepDisabled'', ''1'']) (str_lines out)"

definition sleep_disabled :: "string option \<Rightarrow> bool" where
  "sleep_disabled out = (case out of None \<Rightarrow> True | Some t \<Rightarrow> reports_sleep_disabled t)"

text \<open>A run: the answer to the question, whether the service stops, how removals go, what \<open>pmset\<close>
  says of sleep, and whether sleep can be turned on.\<close>

record uninstall_run =
  ur_answer :: string
  ur_unloads :: bool
  ur_removals :: removals
  ur_pmset :: "string option"
  ur_reset :: bool

definition restore_sleep :: "computer \<Rightarrow> uninstall_run \<Rightarrow> files \<Rightarrow> files" where
  "restore_sleep pc run fs =
     (if \<not> pc_macos pc then fs
      else if \<not> sleep_disabled (ur_pmset run)
      then (case pc_home pc of
              None \<Rightarrow> fs
            | Some h \<Rightarrow> snd (remove_file_if_exists (ur_removals run) (h @ sleep_marker) fs))
      else if ur_reset run
      then filter (\<lambda>e. \<not> (snd e = FileNode \<and> take 1 (fst e) = [''Users''] \<and> drop 2 (fst e) = sleep_marker)) fs
      else fs)"

definition confirmed :: "string \<Rightarrow> bool" where
  "confirmed answer = (let a = trim answer in a = ''y'' \<or> a = ''Y'')"

definition uninstall :: "bool \<Rightarrow> computer \<Rightarrow> uninstall_run \<Rightarrow> files \<Rightarrow> (string + unit) \<times> files" where
  "uninstall everything pc run fs =
     (case uninstall_plan everything pc fs of
        Inl e \<Rightarrow> (Inl e, fs)
      | Inr pl \<Rightarrow>
          if \<not> list_ex (path_exists fs) (remove_files pl) \<and> \<not> list_ex (path_exists fs) (remove_dirs pl)
          then (Inr (), restore_sleep pc run fs)
          else if \<not> confirmed (ur_answer run) then (Inl ''Uninstall cancelled'', fs)
          else if pc_macos pc \<and> \<not> ur_unloads run then (Inl ''Failed to unload Tiles service'', fs)
          else (case apply_plan pc (ur_removals run) pl fs of (r, fs) \<Rightarrow> (r, restore_sleep pc run fs)))"

section \<open>What a removal takes\<close>

text \<open>Every step only takes entries away, and only from its area.\<close>

definition within :: "(path \<Rightarrow> bool) \<Rightarrow> files \<Rightarrow> files \<Rightarrow> bool" where
  "within area fs fs' = (\<exists>P. fs' = filter P fs \<and> (\<forall>e. \<not> P e \<longrightarrow> area (fst e)))"

lemma within_refl [simp]: "within area fs fs"
  unfolding within_def by (rule exI [of _ "\<lambda>_. True"]) simp

lemma within_trans: "within area fs fs1 \<Longrightarrow> within area fs1 fs2 \<Longrightarrow> within area fs fs2"
proof -
  assume "within area fs fs1" "within area fs1 fs2"
  then obtain P Q where "fs1 = filter P fs" "\<forall>e. \<not> P e \<longrightarrow> area (fst e)" "fs2 = filter Q fs1" "\<forall>e. \<not> Q e \<longrightarrow> area (fst e)"
    unfolding within_def by blast
  then have "fs2 = filter (\<lambda>e. P e \<and> Q e) fs" "\<forall>e. \<not> (P e \<and> Q e) \<longrightarrow> area (fst e)" by auto
  then show ?thesis unfolding within_def by blast
qed

lemma within_mono: "within area fs fs' \<Longrightarrow> (\<And>p. area p \<Longrightarrow> area' p) \<Longrightarrow> within area' fs fs'"
  unfolding within_def by blast

lemma within_filter: "(\<And>e. \<not> P e \<Longrightarrow> area (fst e)) \<Longrightarrow> within area fs (filter P fs)"
  unfolding within_def by blast

lemma map_of_filter_same: "(\<And>n. P (q, n)) \<Longrightarrow> map_of (filter P fs) q = map_of fs q"
  by (induction fs) auto

lemma within_keeps: "within area fs fs' \<Longrightarrow> \<not> area q \<Longrightarrow> map_of fs' q = map_of fs q"
  unfolding within_def by (auto intro!: map_of_filter_same)

definition covered :: "removal_plan \<Rightarrow> path \<Rightarrow> bool" where
  "covered pl q = (q \<in> set (remove_files pl) \<or> (\<exists>d \<in> set (remove_dirs pl). prefix d q))"

lemma remove_file_within: "within (\<lambda>q. q = p) fs (snd (remove_file_if_exists rm p fs))"
  by (auto simp: remove_file_if_exists_def intro: within_filter)

lemma remove_dir_within: "within (prefix p) fs (snd (remove_dir_if_exists rm p fs))"
  by (auto simp: remove_dir_if_exists_def drop_tree_def intro: within_filter)

lemma remove_each_within:
  assumes "\<And>p fs. p \<in> set ps \<Longrightarrow> within area fs (snd (f p fs))"
  shows "within area fs (snd (remove_each f ps fs))"
  using assms
proof (induction ps arbitrary: fs)
  case (Cons p ps)
  obtain r fs1 where f: "f p fs = (r, fs1)" by (metis prod.exhaust)
  have "within area fs fs1" using Cons.prems [of p fs] f by simp
  with Cons f show ?case by (auto split: sum.splits intro: within_trans)
qed simp

lemma remove_files_elevated_within: "within (\<lambda>q. q \<in> set ps) fs (snd (remove_files_elevated root rm ps fs))"
proof -
  have "within (\<lambda>q. q \<in> set ps) fs (snd (remove_each (remove_file_if_exists rm) (filter (path_exists fs) ps) fs))"
    by (rule remove_each_within) (rule within_mono [OF remove_file_within], auto)
  then show ?thesis by (auto simp: remove_files_elevated_def Let_def intro: within_filter)
qed

lemma remove_dirs_elevated_within: "within (\<lambda>q. \<exists>p \<in> set ps. prefix p q) fs (snd (remove_dirs_elevated root rm ps fs))"
proof -
  have "within (\<lambda>q. \<exists>p \<in> set ps. prefix p q) fs
      (snd (remove_each (remove_dir_if_exists rm) (filter (path_exists fs) ps) fs))"
    by (rule remove_each_within) (rule within_mono [OF remove_dir_within], auto)
  then show ?thesis by (auto simp: remove_dirs_elevated_def Let_def list_ex_iff intro: within_filter)
qed

lemma and_then_within:
  "within area fs (snd r) \<Longrightarrow> (\<And>fs. within area fs (snd (f fs))) \<Longrightarrow> within area fs (snd (and_then r f))"
  by (auto simp: and_then_def split: prod.splits sum.splits intro: within_trans)

lemma apply_plan_within: "within (covered pl) fs (snd (apply_plan pc rm pl fs))"
proof -
  let ?sys = "requires_elevation (pc_macos pc)"
  have "within (covered pl) fs (snd (remove_files_elevated root rm (filter ?sys (remove_files pl)) fs))" for root fs
    by (rule within_mono [OF remove_files_elevated_within]) (simp add: covered_def)
  moreover have "within (covered pl) fs (snd (remove_dirs_elevated root rm (filter ?sys (remove_dirs pl)) fs))" for root fs
    by (rule within_mono [OF remove_dirs_elevated_within]) (auto simp: covered_def)
  moreover have "within (covered pl) fs (snd (remove_each (remove_file_if_exists rm) (filter (\<lambda>p. \<not> ?sys p) (remove_files pl)) fs))" for fs
    by (rule remove_each_within) (rule within_mono [OF remove_file_within], simp add: covered_def)
  moreover have "within (covered pl) fs (snd (remove_each (remove_dir_if_exists rm) (filter (\<lambda>p. \<not> ?sys p) (remove_dirs pl)) fs))" for fs
    by (rule remove_each_within) (rule within_mono [OF remove_dir_within], auto simp: covered_def)
  ultimately show ?thesis unfolding apply_plan_def Let_def by (intro and_then_within)
qed

lemma restore_sleep_within:
  "within (\<lambda>q. pc_macos pc \<and> ((\<exists>h. pc_home pc = Some h \<and> q = h @ sleep_marker) \<or>
     (\<exists>u. q = ''Users'' # u # sleep_marker))) fs (restore_sleep pc run fs)"
proof -
  have user: "\<exists>u. q = ''Users'' # u # sleep_marker" if "take 1 q = [''Users'']" "drop 2 q = sleep_marker" for q
  proof -
    from that obtain t where "q = ''Users'' # t" by (cases q) auto
    moreover from this that(2) obtain u where "t = u # sleep_marker" by (cases t) (auto simp: sleep_marker_def)
    ultimately show ?thesis by blast
  qed
  show ?thesis
    unfolding restore_sleep_def
    by (auto split: option.splits intro!: within_filter user intro: within_mono [OF remove_file_within])
qed

text \<open>A removal that goes through leaves nothing of its area, where every entry is in a folder.\<close>

definition closed_files :: "files \<Rightarrow> bool" where
  "closed_files fs = (\<forall>q. path_exists fs q \<and> q \<noteq> [] \<longrightarrow> is_dir fs (butlast q))"

definition clears :: "(path \<Rightarrow> bool) \<Rightarrow> (files \<Rightarrow> (string + unit) \<times> files) \<Rightarrow> bool" where
  "clears area f = (\<forall>fs fs'. closed_files fs \<and> f fs = (Inr (), fs') \<longrightarrow>
     closed_files fs' \<and> (\<forall>q. area q \<longrightarrow> map_of fs' q = None) \<and> (\<forall>q. map_of fs q = None \<longrightarrow> map_of fs' q = None))"

lemma clearsD:
  assumes "clears area f" and "closed_files fs" and "f fs = (Inr (), fs')"
  shows "closed_files fs'" and "area q \<Longrightarrow> map_of fs' q = None" and "map_of fs q = None \<Longrightarrow> map_of fs' q = None"
proof -
  note all = mp [OF spec [OF spec [OF assms(1) [unfolded clears_def]]] conjI [OF assms(2,3)]]
  show "closed_files fs'" by (rule conjunct1 [OF all])
  show "area q \<Longrightarrow> map_of fs' q = None" by (rule mp [OF spec [OF conjunct1 [OF conjunct2 [OF all]]]])
  show "map_of fs q = None \<Longrightarrow> map_of fs' q = None" by (rule mp [OF spec [OF conjunct2 [OF conjunct2 [OF all]]]])
qed

lemma clearsI:
  assumes "\<And>fs fs'. closed_files fs \<Longrightarrow> f fs = (Inr (), fs') \<Longrightarrow>
      \<exists>P. (\<forall>q. map_of fs' q = (if P q then map_of fs q else None)) \<and> (\<forall>q. area q \<and> path_exists fs q \<longrightarrow> \<not> P q) \<and>
        (\<forall>q. path_exists fs q \<and> P q \<and> q \<noteq> [] \<longrightarrow> P (butlast q))"
  shows "clears area f"
  unfolding clears_def
proof (intro allI impI)
  fix fs fs'
  assume *: "closed_files fs \<and> f fs = (Inr (), fs')"
  from assms [OF conjunct1 [OF *] conjunct2 [OF *]] obtain P where
    all: "(\<forall>q. map_of fs' q = (if P q then map_of fs q else None)) \<and> (\<forall>q. area q \<and> path_exists fs q \<longrightarrow> \<not> P q) \<and>
        (\<forall>q. path_exists fs q \<and> P q \<and> q \<noteq> [] \<longrightarrow> P (butlast q))" by (rule exE)
  note P = conjunct1 [OF all] conjunct1 [OF conjunct2 [OF all]] conjunct2 [OF conjunct2 [OF all]]
  have "is_dir fs' (butlast q)" if q: "path_exists fs' q" "q \<noteq> []" for q
  proof -
    from q(1) P(1) have "P q" "path_exists fs q" by (auto simp: path_exists_def split: if_splits)
    with q(2) P(3) * have "P (butlast q)" "is_dir fs (butlast q)" by (simp_all add: closed_files_def)
    with P(1) show ?thesis by (simp add: is_dir_def)
  qed
  then have "closed_files fs'" by (simp add: closed_files_def)
  moreover have "map_of fs' q = None" if "area q" for q
  proof (cases "path_exists fs q")
    case True
    with that P(1,2) show ?thesis by simp
  next
    case False
    with P(1) show ?thesis by (simp add: path_exists_def)
  qed
  moreover have "map_of fs' q = None" if "map_of fs q = None" for q using P(1) that by simp
  ultimately show "closed_files fs' \<and> (\<forall>q. area q \<longrightarrow> map_of fs' q = None) \<and> (\<forall>q. map_of fs q = None \<longrightarrow> map_of fs' q = None)"
    by simp
qed

lemma map_of_filter_fst: "map_of (filter (\<lambda>e. P (fst e)) fs) q = (if P q then map_of fs q else None)"
  by (induction fs) auto

lemma closed_prefix:
  assumes "closed_files fs" and "path_exists fs q" and "prefix p q"
  shows "path_exists fs p" and "p \<noteq> q \<Longrightarrow> is_dir fs p"
proof -
  have "path_exists fs p \<and> (p \<noteq> q \<longrightarrow> is_dir fs p)"
    using assms(2,3)
  proof (induction q rule: rev_induct)
    case (snoc x q)
    from assms(1) snoc.prems(1) have d: "is_dir fs q" by (auto simp: closed_files_def dest: spec [of _ "q @ [x]"])
    then have "path_exists fs q" by (simp add: is_dir_def path_exists_def)
    with snoc d show ?case by (cases "p = q @ [x]") auto
  qed simp
  then show "path_exists fs p" and "p \<noteq> q \<Longrightarrow> is_dir fs p" by simp_all
qed

lemma parent_prefix: "q \<noteq> [] \<Longrightarrow> prefix p (butlast q) \<Longrightarrow> prefix p q"
  by (metis append_butlast_last_id prefix_prefix)

lemma remove_file_clears: "clears (\<lambda>q. q = p) (remove_file_if_exists rm p)"
proof (rule clearsI)
  fix fs fs' assume c: "closed_files fs" and f: "remove_file_if_exists rm p fs = (Inr (), fs')"
  have "\<not> is_dir fs p" if "path_exists fs p" using f that by (auto simp: remove_file_if_exists_def split: if_splits)
  moreover have "\<forall>q. map_of fs' q = (if q \<noteq> p then map_of fs q else None)"
    using f by (auto simp: remove_file_if_exists_def path_exists_def map_of_filter_fst [of "\<lambda>x. x \<noteq> p"] split: if_splits)
  moreover have "is_dir fs (butlast q)" if "path_exists fs q" "q \<noteq> []" for q
    using c that by (simp add: closed_files_def)
  ultimately show "\<exists>P. (\<forall>q. map_of fs' q = (if P q then map_of fs q else None)) \<and> (\<forall>q. q = p \<and> path_exists fs q \<longrightarrow> \<not> P q) \<and>
        (\<forall>q. path_exists fs q \<and> P q \<and> q \<noteq> [] \<longrightarrow> P (butlast q))"
    by (intro exI [of _ "\<lambda>q. q \<noteq> p"]) (auto simp: is_dir_def path_exists_def)
qed

lemma remove_dir_clears: "clears (prefix p) (remove_dir_if_exists rm p)"
proof (rule clearsI)
  fix fs fs' assume c: "closed_files fs" and f: "remove_dir_if_exists rm p fs = (Inr (), fs')"
  have "\<forall>q. map_of fs' q = (if \<not> prefix p q then map_of fs q else None)"
  proof (cases "path_exists fs p")
    case True
    then show ?thesis using f by (auto simp: remove_dir_if_exists_def drop_tree_def map_of_filter_fst [of "\<lambda>x. \<not> prefix p x"] split: if_splits)
  next
    case False
    then have "fs' = fs" using f by (simp add: remove_dir_if_exists_def)
    moreover have "map_of fs q = None" if "prefix p q" for q
      using False closed_prefix(1) [OF c _ that] unfolding path_exists_def by (rule contrapos_np)
    ultimately show ?thesis by simp
  qed
  then show "\<exists>P. (\<forall>q. map_of fs' q = (if P q then map_of fs q else None)) \<and> (\<forall>q. prefix p q \<and> path_exists fs q \<longrightarrow> \<not> P q) \<and>
        (\<forall>q. path_exists fs q \<and> P q \<and> q \<noteq> [] \<longrightarrow> P (butlast q))"
    by (intro exI [of _ "\<lambda>q. \<not> prefix p q"]) (auto dest: parent_prefix)
qed

lemma and_then_clears:
  assumes "clears A f" and "clears B g"
  shows "clears (\<lambda>q. A q \<or> B q) (\<lambda>fs. and_then (f fs) g)"
  unfolding clears_def
proof (intro allI impI)
  fix fs fs'
  assume *: "closed_files fs \<and> and_then (f fs) g = (Inr (), fs')"
  then obtain fs1 where 1: "f fs = (Inr (), fs1)" and 2: "g fs1 = (Inr (), fs')"
    by (auto simp: and_then_def split: prod.splits sum.splits)
  note a = clearsD [OF assms(1) conjunct1 [OF *] 1]
  note b = clearsD [OF assms(2) a(1) 2]
  show "closed_files fs' \<and> (\<forall>q. A q \<or> B q \<longrightarrow> map_of fs' q = None) \<and> (\<forall>q. map_of fs q = None \<longrightarrow> map_of fs' q = None)"
    using a b by blast
qed

lemma remove_each_clears:
  assumes "\<And>p. clears (area p) (f p)"
  shows "clears (\<lambda>q. \<exists>p \<in> set ps. area p q) (remove_each f ps)"
proof (induction ps)
  case Nil
  show ?case by (simp add: clears_def)
next
  case (Cons p ps)
  have "remove_each f (p # ps) = (\<lambda>fs. and_then (f p fs) (remove_each f ps))"
    by (simp add: fun_eq_iff and_then_def)
  with and_then_clears [OF assms [of p] Cons] show ?case by simp
qed

lemma remove_files_elevated_clears: "clears (\<lambda>q. q \<in> set ps) (remove_files_elevated root rm ps)"
proof (cases root)
  case True
  show ?thesis
    unfolding clears_def
  proof (intro allI impI)
    fix fs fs'
    assume *: "closed_files fs \<and> remove_files_elevated root rm ps fs = (Inr (), fs')"
    then have r: "remove_each (remove_file_if_exists rm) (filter (path_exists fs) ps) fs = (Inr (), fs')"
      using True by (auto simp: remove_files_elevated_def Let_def split: if_splits)
    note cl = clearsD [OF remove_each_clears [OF remove_file_clears] conjunct1 [OF *] r]
    show "closed_files fs' \<and> (\<forall>q. q \<in> set ps \<longrightarrow> map_of fs' q = None) \<and> (\<forall>q. map_of fs q = None \<longrightarrow> map_of fs' q = None)"
    proof (intro conjI allI impI)
      fix q assume "q \<in> set ps"
      then show "map_of fs' q = None"
        using cl(2) [of q] cl(3) [of q] by (cases "path_exists fs q") (auto simp: path_exists_def)
    qed (use cl in auto)
  qed
next
  case False
  show ?thesis
  proof (rule clearsI)
    fix fs fs' assume c: "closed_files fs" and f: "remove_files_elevated root rm ps fs = (Inr (), fs')"
    let ?P = "\<lambda>q. \<not> (q \<in> set ps \<and> path_exists fs q)"
    have dirs: "\<not> is_dir fs q" if "q \<in> set ps" "path_exists fs q" for q
      using f that False by (auto simp: remove_files_elevated_def Let_def list_ex_iff filter_empty_conv split: if_splits)
    then have "fs' = filter (\<lambda>e. ?P (fst e)) fs"
      using f False by (auto simp: remove_files_elevated_def Let_def filter_empty_conv split: if_splits intro!: filter_cong)
    then have "\<forall>q. map_of fs' q = (if ?P q then map_of fs q else None)"
      by (simp only: map_of_filter_fst [of ?P] refl simp_thms)
    then show "\<exists>P. (\<forall>q. map_of fs' q = (if P q then map_of fs q else None)) \<and> (\<forall>q. q \<in> set ps \<and> path_exists fs q \<longrightarrow> \<not> P q) \<and>
        (\<forall>q. path_exists fs q \<and> P q \<and> q \<noteq> [] \<longrightarrow> P (butlast q))"
      using c dirs by (intro exI [of _ ?P]) (auto simp: closed_files_def)
  qed
qed

lemma remove_dirs_elevated_clears: "clears (\<lambda>q. \<exists>p \<in> set ps. prefix p q) (remove_dirs_elevated root rm ps)"
proof (rule clearsI)
  fix fs fs' assume c: "closed_files fs" and f: "remove_dirs_elevated root rm ps fs = (Inr (), fs')"
  let ?P = "\<lambda>q. \<not> (\<exists>p \<in> set ps. path_exists fs p \<and> prefix p q)"
  have P: "\<forall>q. path_exists fs q \<and> (\<exists>p \<in> set ps. prefix p q) \<longrightarrow> \<not> ?P q"
    using closed_prefix(1) [OF c] by blast
  have up: "\<forall>q. path_exists fs q \<and> ?P q \<and> q \<noteq> [] \<longrightarrow> ?P (butlast q)"
    by (auto dest: parent_prefix)
  show "\<exists>P. (\<forall>q. map_of fs' q = (if P q then map_of fs q else None)) \<and>
      (\<forall>q. (\<exists>p \<in> set ps. prefix p q) \<and> path_exists fs q \<longrightarrow> \<not> P q) \<and>
      (\<forall>q. path_exists fs q \<and> P q \<and> q \<noteq> [] \<longrightarrow> P (butlast q))"
  proof (cases "filter (path_exists fs) ps = [] \<or> \<not> root")
    case True
    then have "fs' = filter (\<lambda>e. ?P (fst e)) fs"
      using f by (auto simp: remove_dirs_elevated_def Let_def filter_empty_conv list_ex_iff split: if_splits
          intro!: filter_cong filter_True [symmetric])
    then have "\<forall>q. map_of fs' q = (if ?P q then map_of fs q else None)"
      by (simp only: map_of_filter_fst [of ?P] refl simp_thms)
    with P up show ?thesis by (intro exI [of _ ?P]) blast
  next
    case False
    then have r: "remove_each (remove_dir_if_exists rm) (filter (path_exists fs) ps) fs = (Inr (), fs')"
      using f by (simp add: remove_dirs_elevated_def Let_def)
    have w: "within (\<lambda>q. \<not> ?P q) fs fs'"
    proof -
      have "within (\<lambda>q. \<not> ?P q) fs1 (snd (remove_dir_if_exists rm p fs1))"
        if "p \<in> set (filter (path_exists fs) ps)" for p fs1
        by (rule within_mono [OF remove_dir_within]) (use that in auto)
      from remove_each_within [OF this] have "within (\<lambda>q. \<not> ?P q) fs
        (snd (remove_each (remove_dir_if_exists rm) (filter (path_exists fs) ps) fs))" .
      then show ?thesis unfolding r snd_conv .
    qed
    have "\<forall>q. map_of fs' q = (if ?P q then map_of fs q else None)"
      using within_keeps [OF w] clearsD(2) [OF remove_each_clears [OF remove_dir_clears] c r] by auto
    with P up show ?thesis by (intro exI [of _ ?P]) blast
  qed
qed

lemma apply_plan_clears: "clears (covered pl) (apply_plan pc rm pl)"
proof -
  let ?sys = "requires_elevation (pc_macos pc)"
  have "clears (\<lambda>q. q \<in> set (filter ?sys (remove_files pl)) \<or> (\<exists>p \<in> set (filter ?sys (remove_dirs pl)). prefix p q) \<or>
      (\<exists>p \<in> set (filter (\<lambda>p. \<not> ?sys p) (remove_files pl)). q = p) \<or>
      (\<exists>p \<in> set (filter (\<lambda>p. \<not> ?sys p) (remove_dirs pl)). prefix p q)) (apply_plan pc rm pl)"
    unfolding apply_plan_def Let_def
    by (intro and_then_clears remove_files_elevated_clears remove_dirs_elevated_clears
        remove_each_clears remove_file_clears remove_dir_clears)
  moreover have "(\<lambda>q. q \<in> set (filter ?sys (remove_files pl)) \<or> (\<exists>p \<in> set (filter ?sys (remove_dirs pl)). prefix p q) \<or>
      (\<exists>p \<in> set (filter (\<lambda>p. \<not> ?sys p) (remove_files pl)). q = p) \<or>
      (\<exists>p \<in> set (filter (\<lambda>p. \<not> ?sys p) (remove_dirs pl)). prefix p q)) = covered pl"
    by (auto simp: covered_def fun_eq_iff)
  ultimately show ?thesis by (simp only:)
qed

text \<open>The contract of a removal: it takes only from its area, and if it goes through nothing of that
  is left.\<close>

locale removal =
  fixes f :: "files \<Rightarrow> (string + unit) \<times> files" and area :: "path \<Rightarrow> bool"
  assumes takes: "within area fs (snd (f fs))" and clear: "clears area f"
begin

lemma outside_kept: "\<not> area q \<Longrightarrow> map_of (snd (f fs)) q = map_of fs q"
  by (rule within_keeps [OF takes])

lemma exact:
  assumes "closed_files fs" and "f fs = (Inr (), fs')"
  shows "map_of fs' q = (if area q then None else map_of fs q)"
  using clearsD(2) [OF clear assms] outside_kept [of q fs] assms(2) by simp

lemma again:
  assumes "closed_files fs" and "f fs = (Inr (), fs')"
  shows "closed_files fs'"
  by (rule clearsD(1) [OF clear assms])

end

interpretation file_removal: removal "remove_file_if_exists rm p" "\<lambda>q. q = p" for rm p
  by unfold_locales (rule remove_file_within, rule remove_file_clears)

interpretation dir_removal: removal "remove_dir_if_exists rm p" "prefix p" for rm p
  by unfold_locales (rule remove_dir_within, rule remove_dir_clears)

interpretation plan_removal: removal "apply_plan pc rm pl" "covered pl" for pc rm pl
  by unfold_locales (rule apply_plan_within, rule apply_plan_clears)

section \<open>What an uninstall plans\<close>

definition system_files :: "computer \<Rightarrow> path \<Rightarrow> path set" where
  "system_files pc bin =
     insert bin (if pc_macos pc then {sleep_grant_path, sleep_guard_path} \<union> set_option (pc_plist pc) else {})"

lemma set_insort_path [simp]: "set (insert_path p ps) = insert p (set ps)"
  by (auto simp: insert_path_def set_insort_key)

lemma covered_add [simp]:
  "covered (add_file p pl) q \<longleftrightarrow> q = p \<or> covered pl q"
  "covered (add_dir p pl) q \<longleftrightarrow> prefix p q \<or> covered pl q"
  by (auto simp: covered_def add_file_def add_dir_def)

lemma covered_none [simp]: "\<not> covered \<lparr>remove_files = [], remove_dirs = []\<rparr> q"
  by (simp add: covered_def)

lemma covered_add_entry: "covered (add_entry fs p pl) q \<Longrightarrow> prefix p q \<or> covered pl q"
  by (auto simp: add_entry_def split: if_splits)

lemma covered_add_dir_entry: "is_dir fs p \<Longrightarrow> prefix p q \<Longrightarrow> covered (add_entry fs p pl) q"
  by (simp add: add_entry_def)

lemma covered_entry_mono: "covered pl q \<Longrightarrow> covered (add_entry fs p pl) q"
  by (simp add: add_entry_def)

lemma covered_entries:
  "covered (fold (\<lambda>p pl. if skip p then pl else add_entry fs p pl) ps pl) q \<Longrightarrow>
    covered pl q \<or> (\<exists>p \<in> set ps. \<not> skip p \<and> prefix p q)"
  by (induction ps arbitrary: pl) (auto dest!: covered_add_entry split: if_splits)

lemma covered_entries_mono:
  "covered pl q \<Longrightarrow> covered (fold (\<lambda>p pl. if skip p then pl else add_entry fs p pl) ps pl) q"
  by (induction ps arbitrary: pl) (simp_all add: covered_entry_mono)

lemma covered_entries_dir:
  "p \<in> set ps \<Longrightarrow> \<not> skip p \<Longrightarrow> is_dir fs p \<Longrightarrow> prefix p q \<Longrightarrow>
    covered (fold (\<lambda>p pl. if skip p then pl else add_entry fs p pl) ps pl) q"
  by (induction ps arbitrary: pl) (auto simp: covered_entries_mono covered_add_dir_entry)

lemma covered_dirs: "covered (fold (\<lambda>c. add_dir (d @ [c])) cs pl) q \<longleftrightarrow> covered pl q \<or> (\<exists>c \<in> set cs. prefix (d @ [c]) q)"
  by (induction cs arbitrary: pl) auto

text \<open>The start of every plan.\<close>

lemma plan_start_covers: "plan_start pc bin = Inr pl \<Longrightarrow> covered pl q \<longleftrightarrow> q \<in> system_files pc bin"
  by (cases "pc_plist pc")
     (auto simp: plan_start_def system_files_def get_dir_def ok_or_def Let_def split: if_splits)

lemma uninstall_plan_cases:
  assumes "uninstall_plan everything pc fs = Inr pl"
  obtains l cd dir dd user lib pl0 where
    "detect_layout pc fs = Inr l" "pc_config_dir pc = Some cd"
    "pc_data_dir pc = Some dir" "canonicalize pc fs dir = Inr dd"
    "resolve_user_data_dir pc fs dd cd = Inr user"
    "lib = (case canonicalize pc fs (la_lib_dir l) of Inr p \<Rightarrow> p | Inl _ \<Rightarrow> la_lib_dir l)"
    "plan_start pc (la_bin l) = Inr pl0"
    "pl = (if everything then add_dir lib (add_dir user (add_dir dd (add_dir cd pl0)))
       else add_data_dir_entries pc fs dd user
         (if lib \<noteq> dd then fold (\<lambda>c. add_dir (lib @ [c])) lib_runtime_dirs (add_config_dir_entries fs cd pl0)
          else add_config_dir_entries fs cd pl0))"
proof -
  from assms obtain l cd dir dd pl0 where 1: "detect_layout pc fs = Inr l" "get_dir (pc_config_dir pc) = Inr cd"
    "get_dir (pc_data_dir pc) = Inr dir" "canonicalize pc fs dir = Inr dd" "plan_start pc (la_bin l) = Inr pl0"
    by (auto simp: uninstall_plan_def Let_def res_bind_eq_Inr)
  let ?lib = "case canonicalize pc fs (la_lib_dir l) of Inr p \<Rightarrow> p | Inl _ \<Rightarrow> la_lib_dir l"
  from assms 1 have rest: "(if everything
         then res_bind (resolve_user_data_dir pc fs dd cd)
           (\<lambda>user. Inr (add_dir ?lib (add_dir user (add_dir dd (add_dir cd pl0)))))
         else add_default_cleanup pc fs dd ?lib cd (add_config_dir_entries fs cd pl0)) = Inr pl"
    by (simp add: uninstall_plan_def Let_def)
  then obtain user where user: "resolve_user_data_dir pc fs dd cd = Inr user"
    by (auto simp: add_default_cleanup_def res_bind_eq_Inr split: if_splits)
  from 1(2,3) have "pc_config_dir pc = Some cd" "pc_data_dir pc = Some dir"
    by (auto simp: get_dir_def ok_or_def split: option.splits)
  then show thesis
    by (rule that [OF 1(1) _ _ 1(4) user refl 1(5)])
       (use rest user in \<open>auto simp: add_default_cleanup_def split: if_splits\<close>)
qed

definition apart :: "path \<Rightarrow> path \<Rightarrow> bool" where
  "apart p q = (\<not> prefix p q \<and> \<not> prefix q p)"

lemma apart_no_common: "apart p q \<Longrightarrow> prefix p r \<Longrightarrow> prefix q r \<Longrightarrow> False"
  unfolding apart_def using prefix_same_cases by blast

lemma apart_child: "apart d c \<Longrightarrow> prefix (d @ [x]) (c @ [y]) \<Longrightarrow> False"
  by (drule append_prefixD) (auto simp: apart_def)

text \<open>What an uninstall that keeps the user's data promises to keep.\<close>

definition kept :: "path \<Rightarrow> path \<Rightarrow> path \<Rightarrow> bool" where
  "kept config_dir user q = (q = config_dir @ [''config.toml''] \<or> prefix user q)"

text \<open>The files outside the folders of Tiles that an uninstall removes: the program, what the package
  and the service left, and the markers.\<close>

definition marker_file :: "computer \<Rightarrow> path \<Rightarrow> bool" where
  "marker_file pc q = (pc_macos pc \<and>
     ((\<exists>h. pc_home pc = Some h \<and> q = h @ sleep_marker) \<or> (\<exists>u. q = ''Users'' # u # sleep_marker)))"

lemma read_dir_child: "p \<in> set (read_dir fs d) \<Longrightarrow> \<exists>x. p = d @ [x] \<and> path_exists fs p"
  by (auto simp: read_dir_def parent_def path_exists_def map_of_eq_None_iff split: if_splits)
     (metis append_butlast_last_id)

lemma uninstall_within:
  "uninstall_plan everything pc fs = Inr pl \<Longrightarrow>
    within (\<lambda>q. covered pl q \<or> marker_file pc q) fs (snd (uninstall everything pc run fs))"
proof -
  assume plan: "uninstall_plan everything pc fs = Inr pl"
  have res: "within (\<lambda>q. covered pl q \<or> marker_file pc q) gs (restore_sleep pc run gs)" for gs
    by (rule within_mono [OF restore_sleep_within]) (auto simp: marker_file_def)
  obtain r gs where a: "apply_plan pc (ur_removals run) pl fs = (r, gs)" by (metis prod.exhaust)
  have "within (\<lambda>q. covered pl q \<or> marker_file pc q) fs gs"
    using apply_plan_within [of pl fs pc "ur_removals run"] a by (auto intro: within_mono)
  from within_trans [OF this res] res plan a show ?thesis by (simp add: uninstall_def)
qed

lemma config_entries_keep:
  assumes "covered (add_config_dir_entries fs cd pl0) q" and "\<not> covered pl0 q"
    and "q = cd @ [''config.toml''] \<or> prefix dd q" and "apart dd cd"
  shows False
proof -
  from assms(1,2) obtain p where p: "p \<in> set (read_dir fs cd)" "file_name p \<noteq> Some ''config.toml''" "prefix p q"
    by (auto simp: add_config_dir_entries_def dest!: covered_entries split: if_splits)
  from read_dir_child [OF p(1)] obtain x where "p = cd @ [x]" by blast
  with p(2,3) assms(3) apart_no_common [OF assms(4), of q] show False
    by (auto simp: file_name_def dest: append_prefixD)
qed

lemma data_entries_keep:
  assumes "p \<in> set (read_dir fs dd)" and "\<not> paths_equal pc fs p (dd @ [u])" and "prefix p q"
    and "kept cd (dd @ [u]) q" and "apart dd cd"
  shows False
proof -
  from read_dir_child [OF assms(1)] obtain x where x: "p = dd @ [x]" by blast
  from assms(2) have "p \<noteq> dd @ [u]" by (auto simp: paths_equal_def)
  from assms(4) show False
    unfolding kept_def
  proof
    assume "q = cd @ [''config.toml'']"
    with assms(3) x apart_child [OF assms(5)] show False by blast
  next
    assume "prefix (dd @ [u]) q"
    with assms(3) have "prefix p (dd @ [u]) \<or> prefix (dd @ [u]) p" by (rule prefix_same_cases)
    with \<open>p \<noteq> dd @ [u]\<close> x show False by auto
  qed
qed

text \<open>C37. An uninstall that is to keep the data keeps \<open>config.toml\<close> and everything in the user's data folder,
  however far it gets and whatever fails, if that folder lies directly in the Tiles data folder,
  the folders of Tiles are apart and the program is in neither.\<close>

theorem uninstall_keeps_data:
  assumes "detect_layout pc fs = Inr l" and "pc_config_dir pc = Some cd"
    and "pc_data_dir pc = Some dir" and "canonicalize pc fs dir = Inr dd"
    and "resolve_user_data_dir pc fs dd cd = Inr user"
    and "lib = (case canonicalize pc fs (la_lib_dir l) of Inr p \<Rightarrow> p | Inl _ \<Rightarrow> la_lib_dir l)"
    and "parent user = Some dd"
    and "apart dd cd" and "lib = dd \<or> apart lib dd \<and> apart lib cd"
    and "\<And>p. p \<in> system_files pc (la_bin l) \<or> marker_file pc p \<Longrightarrow> \<not> kept cd user p"
    and "kept cd user q"
  shows "map_of (snd (uninstall False pc run fs)) q = map_of fs q"
proof (cases "uninstall_plan False pc fs")
  case (Inl e)
  then show ?thesis by (simp add: uninstall_def)
next
  case (Inr pl)
  from Inr obtain pl0 where pl0: "plan_start pc (la_bin l) = Inr pl0"
    and pl: "pl = add_data_dir_entries pc fs dd user
         (if lib \<noteq> dd then fold (\<lambda>c. add_dir (lib @ [c])) lib_runtime_dirs (add_config_dir_entries fs cd pl0)
          else add_config_dir_entries fs cd pl0)"
    by (rule uninstall_plan_cases) (use assms(1-6) in auto)
  from assms(7) obtain u where u: "user = dd @ [u]" by (metis append_butlast_last_id option.inject option.simps(3) parent_def)
  have q: "q = cd @ [''config.toml''] \<or> prefix dd q"
    using assms(11) u by (auto simp: kept_def dest: append_prefixD)
  have "\<not> covered pl0 q" using plan_start_covers [OF pl0] assms(10,11) by blast
  with q assms(8) have cfg: "\<not> covered (add_config_dir_entries fs cd pl0) q" using config_entries_keep by blast
  have lib: "\<not> prefix (lib @ [c]) q" if "lib \<noteq> dd" for c
    using that assms(9) q apart_child apart_no_common append_prefixD by metis
  have data: "\<not> prefix p q" if "p \<in> set (read_dir fs dd)" "\<not> paths_equal pc fs p user" for p
    using data_entries_keep that assms(8,11) unfolding u by blast
  have "\<not> covered pl q"
    unfolding pl add_data_dir_entries_def
    using cfg lib data by (auto simp: covered_dirs dest!: covered_entries)
  with assms(10,11) have "\<not> (covered pl q \<or> marker_file pc q)" by blast
  then show ?thesis by (rule within_keeps [OF uninstall_within [OF Inr]])
qed

lemma covered_gone:
  assumes "uninstall_plan everything pc fs = Inr pl" and "uninstall everything pc run fs = (Inr (), fs')"
    and "closed_files fs" and "covered pl q"
  shows "map_of fs' q = None"
proof -
  have gone: "map_of (restore_sleep pc run gs) q = None" if "map_of gs q = None" for gs
    using restore_sleep_within [of pc gs run] that by (auto simp: within_def map_of_eq_None_iff)
  show ?thesis
  proof (cases "\<not> list_ex (path_exists fs) (remove_files pl) \<and> \<not> list_ex (path_exists fs) (remove_dirs pl)")
    case True
    then have "map_of fs q = None"
      using assms(4) closed_prefix(1) [OF assms(3), of q] by (cases "map_of fs q") (fastforce simp: covered_def list_ex_iff path_exists_def)+
    with gone [of fs] True assms(1,2) show ?thesis by (simp add: uninstall_def)
  next
    case False
    obtain r gs where a: "apply_plan pc (ur_removals run) pl fs = (r, gs)" by (metis prod.exhaust)
    with False assms(1,2) have "r = Inr ()" "fs' = restore_sleep pc run gs"
      by (auto simp: uninstall_def split: if_splits)
    have "map_of gs q = None"
      using plan_removal.exact [OF assms(3) a [unfolded \<open>r = Inr ()\<close>], of q] assms(4) by simp
    from gone [OF this] show ?thesis unfolding \<open>fs' = restore_sleep pc run gs\<close> .
  qed
qed

text \<open>C38. An uninstall that is to keep the data deletes it if the configured folder, which is accepted,
  lies deeper: it is not recognised among the entries of the Tiles data folder, and the entry it is
  in goes with all that is in it.\<close>

theorem nested_data_is_deleted:
  assumes "uninstall False pc run fs = (Inr (), fs')"
    and "pc_config_dir pc = Some cd" and "pc_data_dir pc = Some dir" and "canonicalize pc fs dir = Inr dd"
    and "resolve_user_data_dir pc fs dd cd = Inr user" and "user = dd @ a # b # rest"
    and "closed_files fs" and "path_exists fs user" and "\<And>p. path_exists fs p \<Longrightarrow> pc_canon pc p = Some p"
    and "prefix user q"
  shows "map_of fs' q = None"
proof -
  from assms(1) obtain pl where plan: "uninstall_plan False pc fs = Inr pl"
    by (cases "uninstall_plan False pc fs") (simp_all add: uninstall_def)
  then obtain pl0 where pl: "pl = add_data_dir_entries pc fs dd user pl0"
    by (rule uninstall_plan_cases) (use assms(2-5) in auto)
  have ex: "path_exists fs (dd @ [a])" "is_dir fs (dd @ [a])" "path_exists fs dd"
    using closed_prefix [OF assms(7,8), of "dd @ [a]"] closed_prefix(1) [OF assms(7,8), of dd] assms(6) by auto
  have "dd @ [a] \<in> set (read_dir fs dd)"
    using ex(1) by (force simp: read_dir_def parent_def path_exists_def dest: map_of_SomeD)
  moreover have "\<not> paths_equal pc fs (dd @ [a]) user"
    using assms(8,9) ex(1) assms(6) by (auto simp: paths_equal_def canonicalize_def ok_or_def)
  moreover have "prefix (dd @ [a]) q" using assms(10) unfolding assms(6) by (auto simp: prefix_def)
  ultimately have "covered pl q"
    using ex covered_entries_dir [of "dd @ [a]" "read_dir fs dd" "\<lambda>p. paths_equal pc fs p user" fs q pl0]
    by (simp add: pl add_data_dir_entries_def)
  from covered_gone [OF plan assms(1,7) this] show ?thesis .
qed

text \<open>An uninstall of everything that goes through leaves nothing of the program, the configuration,
  the data and the library folder, and takes nothing else but markers of sleep turned off. A data
  path outside the Tiles data folder stops every uninstall before anything is removed.\<close>

theorem uninstall_everything:
  assumes "detect_layout pc fs = Inr l" and "pc_config_dir pc = Some cd"
    and "pc_data_dir pc = Some dir" and "canonicalize pc fs dir = Inr dd"
    and "lib = (case canonicalize pc fs (la_lib_dir l) of Inr p \<Rightarrow> p | Inl _ \<Rightarrow> la_lib_dir l)"
    and "closed_files fs" and "uninstall everything pc run fs = (r, fs')"
    and "area = (\<lambda>q. q \<in> system_files pc (la_bin l) \<or> prefix cd q \<or> prefix dd q \<or> prefix lib q)"
  shows "(everything \<and> is_ok r \<longrightarrow>
      (\<forall>q. if area q then map_of fs' q = None else \<not> marker_file pc q \<longrightarrow> map_of fs' q = map_of fs q)) \<and>
    (\<not> is_ok (resolve_user_data_dir pc fs dd cd) \<longrightarrow> \<not> is_ok r \<and> fs' = fs)"
proof (intro conjI impI)
  assume e: "everything \<and> is_ok r"
  then have run: "uninstall True pc run fs = (Inr (), fs')" using assms(7) by (simp add: is_ok_iff)
  then obtain pl where plan: "uninstall_plan True pc fs = Inr pl"
    by (cases "uninstall_plan True pc fs") (simp_all add: uninstall_def)
  then obtain user pl0 where user: "resolve_user_data_dir pc fs dd cd = Inr user"
    and pl0: "plan_start pc (la_bin l) = Inr pl0" and pl: "pl = add_dir lib (add_dir user (add_dir dd (add_dir cd pl0)))"
    by (rule uninstall_plan_cases) (use assms(1-5) in auto)
  have "prefix dd user" using user
    by (auto simp: resolve_user_data_dir_def validate_user_data_dir_def res_bind_eq_Inr strict_prefix_def split: if_splits)
  then have cov: "covered pl q \<longleftrightarrow> area q" for q
    unfolding pl assms(8) using plan_start_covers [OF pl0] prefix_order.trans by auto
  show "\<forall>q. if area q then map_of fs' q = None else \<not> marker_file pc q \<longrightarrow> map_of fs' q = map_of fs q"
    using covered_gone [OF plan run assms(6)] within_keeps [OF uninstall_within [OF plan, of run]] run cov by simp
next
  assume n: "\<not> is_ok (resolve_user_data_dir pc fs dd cd)"
  have "\<exists>e. uninstall_plan everything pc fs = Inl e"
  proof (cases "uninstall_plan everything pc fs")
    case (Inr pl)
    then show ?thesis by (rule uninstall_plan_cases) (use assms(2-4) n in auto)
  qed simp
  then show "\<not> is_ok r" "fs' = fs" using assms(7) by (auto simp: uninstall_def)
qed

section \<open>A computer\<close>

text \<open>A home with Tiles in it; \<open>data\<close> is the path of the data folder in the configuration.\<close>

definition laptop :: "string \<Rightarrow> computer" where
  "laptop data =
     \<lparr>pc_macos = False, pc_root = False, pc_cwd = [], pc_canon = Some, pc_exe = None, pc_home = Some [''home''],
      pc_config_dir = Some [''home'', ''.config'', ''tiles''],
      pc_data_dir = Some [''home'', ''.local'', ''share'', ''tiles''], pc_plist = None,
      pc_config = Some [''data'' \<mapsto> TTable [''path'' \<mapsto> TStr data]]\<rparr>"

definition laptop_files :: files where
  "laptop_files =
     [([], DirNode), ([''home''], DirNode), ([''home'', ''.config''], DirNode),
      ([''home'', ''.config'', ''tiles''], DirNode), ([''home'', ''.config'', ''tiles'', ''config.toml''], FileNode),
      ([''home'', ''.local''], DirNode), ([''home'', ''.local'', ''share''], DirNode),
      ([''home'', ''.local'', ''share'', ''tiles''], DirNode),
      ([''home'', ''.local'', ''share'', ''tiles'', ''logs''], DirNode),
      ([''home'', ''.local'', ''share'', ''tiles'', ''data''], DirNode),
      ([''home'', ''.local'', ''share'', ''tiles'', ''data'', ''memory''], DirNode)]"

definition yes_run :: uninstall_run where
  "yes_run = \<lparr>ur_answer = ''y'', ur_unloads = True,
     ur_removals = \<lparr>rm_fails = \<lambda>_. False, rm_gone = \<lambda>_. False, rm_sudo = True\<rparr>, ur_pmset = None, ur_reset = True\<rparr>"

definition memory_dir :: path where
  "memory_dir = [''home'', ''.local'', ''share'', ''tiles'', ''data'', ''memory'']"

lemma laptop_uninstall:
  "fst (uninstall False (laptop []) yes_run laptop_files) = Inr ()"
  "fst (uninstall False (laptop ''/home/.local/share/tiles/data/memory'') yes_run laptop_files) = Inr ()"
  "fst (uninstall True (laptop []) yes_run laptop_files) = Inr ()"
  by code_simp+

lemma laptop_layout:
  "detect_layout (laptop []) laptop_files =
      Inr \<lparr>la_bin = [''home'', ''.local'', ''bin'', ''tiles''], la_lib_dir = [''home'', ''.local'', ''share'', ''tiles'']\<rparr>"
  by code_simp

lemma laptop_dirs:
  "pc_config_dir (laptop d) = Some [''home'', ''.config'', ''tiles'']"
  "pc_data_dir (laptop d) = Some [''home'', ''.local'', ''share'', ''tiles'']"
  by (simp_all add: laptop_def)

lemma laptop_data_dir:
  "canonicalize (laptop []) laptop_files [''home'', ''.local'', ''share'', ''tiles''] =
      Inr [''home'', ''.local'', ''share'', ''tiles'']"
  by code_simp

lemma laptop_lib_dir:
  "[''home'', ''.local'', ''share'', ''tiles''] = (case canonicalize (laptop []) laptop_files
      (la_lib_dir \<lparr>la_bin = [''home'', ''.local'', ''bin'', ''tiles''], la_lib_dir = [''home'', ''.local'', ''share'', ''tiles'']\<rparr>) of
        Inr p \<Rightarrow> p | Inl _ \<Rightarrow> la_lib_dir \<lparr>la_bin = [''home'', ''.local'', ''bin'', ''tiles''],
          la_lib_dir = [''home'', ''.local'', ''share'', ''tiles'']\<rparr>)"
  by (simp add: laptop_data_dir)

theorem uninstall_keeps_data_witness:
  "map_of (snd (uninstall False (laptop []) yes_run laptop_files)) memory_dir = Some DirNode"
proof -
  have user: "resolve_user_data_dir (laptop []) laptop_files [''home'', ''.local'', ''share'', ''tiles''] [''home'', ''.config'', ''tiles''] =
      Inr [''home'', ''.local'', ''share'', ''tiles'', ''data'']" by code_simp
  have "map_of (snd (uninstall False (laptop []) yes_run laptop_files)) memory_dir = map_of laptop_files memory_dir"
    by (rule uninstall_keeps_data [OF laptop_layout laptop_dirs laptop_data_dir user laptop_lib_dir])
       (simp_all add: parent_def apart_def system_files_def marker_file_def kept_def memory_dir_def laptop_def)
  then show ?thesis by (simp add: laptop_files_def memory_dir_def)
qed

lemma laptop_closed: "closed_files laptop_files"
proof -
  have "list_all (\<lambda>(q, _). q = [] \<or> is_dir laptop_files (butlast q)) laptop_files" by code_simp
  then show ?thesis by (force simp: closed_files_def path_exists_def list_all_iff dest: map_of_SomeD)
qed

theorem nested_data_is_deleted_witness:
  "fst (uninstall False (laptop ''/home/.local/share/tiles/data/memory'') yes_run laptop_files) = Inr () \<and>
   map_of (snd (uninstall False (laptop ''/home/.local/share/tiles/data/memory'') yes_run laptop_files)) memory_dir = None"
proof -
  let ?pc = "laptop ''/home/.local/share/tiles/data/memory''"
  have run: "uninstall False ?pc yes_run laptop_files = (Inr (), snd (uninstall False ?pc yes_run laptop_files))"
    by (rule prod_eqI) (simp_all add: laptop_uninstall(2))
  have canon: "canonicalize ?pc laptop_files [''home'', ''.local'', ''share'', ''tiles''] =
      Inr [''home'', ''.local'', ''share'', ''tiles'']" by code_simp
  have user: "resolve_user_data_dir ?pc laptop_files [''home'', ''.local'', ''share'', ''tiles''] [''home'', ''.config'', ''tiles''] =
      Inr memory_dir" by code_simp
  have "map_of (snd (uninstall False ?pc yes_run laptop_files)) memory_dir = None"
    by (rule nested_data_is_deleted [OF run laptop_dirs canon user _ laptop_closed, of "''data''" "''memory''" "[]"])
       (simp_all add: memory_dir_def laptop_files_def path_exists_def laptop_def)
  with laptop_uninstall(2) show ?thesis by (rule conjI)
qed

theorem uninstall_everything_witness:
  "map_of (snd (uninstall True (laptop []) yes_run laptop_files)) memory_dir = None \<and>
   map_of (snd (uninstall True (laptop []) yes_run laptop_files)) [''home'', ''.local''] = Some DirNode"
proof -
  let ?r = "fst (uninstall True (laptop []) yes_run laptop_files)"
  let ?fs = "snd (uninstall True (laptop []) yes_run laptop_files)"
  have run: "uninstall True (laptop []) yes_run laptop_files = (?r, ?fs)" by simp
  from conjunct1 [OF uninstall_everything [OF laptop_layout laptop_dirs laptop_data_dir laptop_lib_dir laptop_closed run refl]]
  have all: "if q \<in> system_files (laptop []) [''home'', ''.local'', ''bin'', ''tiles''] \<or>
        prefix [''home'', ''.config'', ''tiles''] q \<or> prefix [''home'', ''.local'', ''share'', ''tiles''] q
      then map_of ?fs q = None
      else \<not> marker_file (laptop []) q \<longrightarrow> map_of ?fs q = map_of laptop_files q" for q
    by (simp add: laptop_uninstall(3))
  from all [of memory_dir] have "map_of ?fs memory_dir = None" by (simp add: memory_dir_def)
  moreover from all [of "[''home'', ''.local'']"] have "map_of ?fs [''home'', ''.local''] = Some DirNode"
    by (simp add: system_files_def marker_file_def laptop_def laptop_files_def)
  ultimately show ?thesis by (rule conjI)
qed

section \<open>Updating in place\<close>

record update_layout =
  ul_install_dir :: path
  ul_lib_dir :: path
  ul_system :: bool

definition resolve_update_layout :: "files \<Rightarrow> path \<Rightarrow> path \<Rightarrow> path \<Rightarrow> string + update_layout" where
  "resolve_update_layout fs exe user_bin user_lib =
     (case parent exe of
        Some d \<Rightarrow>
          if is_tiles_lib_dir fs d then Inr \<lparr>ul_install_dir = d, ul_lib_dir = d, ul_system = False\<rparr>
          else if exe = system_bin_path
          then Inr \<lparr>ul_install_dir = system_bin_dir, ul_lib_dir = system_lib_dir, ul_system = True\<rparr>
          else if exe = user_bin then Inr \<lparr>ul_install_dir = d, ul_lib_dir = user_lib, ul_system = False\<rparr>
          else Inl ''Cannot update Tiles from unsupported installation path''
      | None \<Rightarrow>
          if exe = user_bin then Inl ''Failed to resolve the user binary directory''
          else Inl ''Cannot update Tiles from unsupported installation path'')"

text \<open>The path itself and the folders it is in, from the inside.\<close>

fun ancestors :: "path \<Rightarrow> path list" where
  "ancestors p = p # (if p = [] then [] else ancestors (butlast p))"

declare ancestors.simps [simp del]

definition nearest_existing_ancestor :: "files \<Rightarrow> path \<Rightarrow> path option" where
  "nearest_existing_ancestor fs p = find (path_exists fs) (ancestors p)"

definition is_destination_writable :: "(path \<Rightarrow> bool) \<Rightarrow> files \<Rightarrow> path \<Rightarrow> bool" where
  "is_destination_writable may fs p =
     (case nearest_existing_ancestor fs p of Some a \<Rightarrow> is_dir fs a \<and> may a | None \<Rightarrow> False)"

definition resolve_update_elevation :: "update_layout \<Rightarrow> (path \<Rightarrow> bool) \<Rightarrow> string + bool" where
  "resolve_update_elevation l writable =
     (let destinations = ul_install_dir l # (if ul_lib_dir l \<noteq> ul_install_dir l then [ul_lib_dir l] else []);
          unwritable = filter (\<lambda>p. \<not> writable p) destinations
      in if unwritable = [] then Inr False
         else if ul_system l then Inr True
         else Inl ''Tiles installation path is not writable'')"

text \<open>An update asks for \<open>sudo\<close> only for the system's folders, and goes without only where both folders
  can be written.\<close>

lemma update_elevation:
  assumes "resolve_update_layout fs exe user_bin user_lib = Inr l" and "resolve_update_elevation l writable = Inr sudo"
  shows "if sudo then exe = system_bin_path \<and> ul_install_dir l = system_bin_dir \<and> ul_lib_dir l = system_lib_dir
    else writable (ul_install_dir l) \<and> writable (ul_lib_dir l)"
  using assms by (auto simp: resolve_update_layout_def resolve_update_elevation_def Let_def split: option.splits if_splits)

end
