(* ===== verification/Config.thy ===== *)
theory Config
  imports EngineStore Uninstall
begin

text \<open>
  The configuration file as \<open>utils/config.rs\<close> reads and writes it, what it says about the models'
  server and the agent, and where a model lies. The file is what it holds of the sections Tiles
  knows and, next to them, the keys it doesn't. Writing it replaces it at once.
\<close>

section \<open>The sections\<close>

datatype load_mode = ModeAuto | ModeNone | ModeMmap | ModeMlock | ModeMmapMlock | ModeDio

record llama_config =
  ll_context_length :: "nat option"
  ll_gpu_layers :: "int option"
  ll_offload_kqv :: "bool option"
  ll_batch_size :: "nat option"
  ll_mtp :: "bool option"
  ll_n_cpu_moe :: "nat option"
  ll_flash_attn :: "bool option"
  ll_load_mode :: "load_mode option"

definition llama_default :: llama_config where
  "llama_default = \<lparr>ll_context_length = None, ll_gpu_layers = None, ll_offload_kqv = None, ll_batch_size = None,
     ll_mtp = None, ll_n_cpu_moe = None, ll_flash_attn = None, ll_load_mode = None\<rparr>"

definition or_option :: "'a option \<Rightarrow> 'a option \<Rightarrow> 'a option" where
  "or_option a b = (case a of Some x \<Rightarrow> Some x | None \<Rightarrow> b)"

definition with_defaults :: "llama_config \<Rightarrow> llama_config" where
  "with_defaults l =
     l\<lparr>ll_context_length := or_option (ll_context_length l) (Some 65536),
       ll_flash_attn := or_option (ll_flash_attn l) (Some True)\<rparr>"

definition llama_is_empty :: "llama_config \<Rightarrow> bool" where
  "llama_is_empty l =
     (ll_context_length l = None \<and> ll_gpu_layers l = None \<and> ll_offload_kqv l = None \<and> ll_batch_size l = None \<and>
      ll_mtp l = None \<and> ll_n_cpu_moe l = None \<and> ll_flash_attn l = None \<and> ll_load_mode l = None)"

record root_config =
  rc_root_user :: "(string \<times> string) option"
  rc_data :: "string option"
  rc_model :: "string option"
  rc_inference :: "bool option"
  rc_llama :: "llama_config option"
  rc_ui :: "bool option option"
  rc_engine :: "string option option"

text \<open>The file is missing, can't be read as a configuration, or has the sections and other keys.\<close>

datatype config_file = NoConfig | BadConfig | ConfigFile root_config "string list"

definition init_config :: root_config where
  "init_config = \<lparr>rc_root_user = Some ([], []), rc_data = Some [], rc_model = None, rc_inference = None,
     rc_llama = None, rc_ui = None, rc_engine = None\<rparr>"

section \<open>Reading and writing\<close>

definition get_or_create_root_config :: "config_file \<Rightarrow> (string + root_config) \<times> config_file" where
  "get_or_create_root_config f =
     (case f of
        NoConfig \<Rightarrow> (Inr init_config, ConfigFile init_config [])
      | BadConfig \<Rightarrow> (Inl ''config.toml is not valid'', f)
      | ConfigFile rc other \<Rightarrow> (Inr rc, f))"

text \<open>The typed configuration has no room for other keys.\<close>

definition save_root_config :: "root_config \<Rightarrow> config_file" where
  "save_root_config rc = ConfigFile rc []"

definition edit_config :: "(root_config \<Rightarrow> root_config option) \<Rightarrow> config_file \<Rightarrow> (string + unit) \<times> config_file" where
  "edit_config edit f =
     (case get_or_create_root_config f of
        (Inl e, f) \<Rightarrow> (Inl e, f)
      | (Inr rc, f) \<Rightarrow> (case edit rc of None \<Rightarrow> (Inr (), f) | Some rc' \<Rightarrow> (Inr (), save_root_config rc')))"

definition do_update_current_model :: "string \<Rightarrow> root_config \<Rightarrow> root_config" where
  "do_update_current_model name rc = rc\<lparr>rc_model := Some name\<rparr>"

definition update_current_model :: "string \<Rightarrow> config_file \<Rightarrow> (string + unit) \<times> config_file" where
  "update_current_model name =
     edit_config (\<lambda>rc. if rc_model rc = Some name then None else Some (do_update_current_model name rc))"

definition get_current_model :: "config_file \<Rightarrow> string option \<times> config_file" where
  "get_current_model f =
     (case get_or_create_root_config f of (Inl _, f) \<Rightarrow> (None, f) | (Inr rc, f) \<Rightarrow> (rc_model rc, f))"

definition update_inference_config :: "bool \<Rightarrow> config_file \<Rightarrow> (string + unit) \<times> config_file" where
  "update_inference_config daemon = edit_config (\<lambda>rc. Some (rc\<lparr>rc_inference := Some daemon\<rparr>))"

definition get_llama_config :: "config_file \<Rightarrow> (string + llama_config) \<times> config_file" where
  "get_llama_config f =
     (case get_or_create_root_config f of
        (r, f) \<Rightarrow> (res_bind r (\<lambda>rc. Inr (with_defaults (case rc_llama rc of Some l \<Rightarrow> l | None \<Rightarrow> llama_default))), f))"

definition merge_llama :: "llama_config \<Rightarrow> llama_config \<Rightarrow> llama_config" where
  "merge_llama new old =
     \<lparr>ll_context_length = or_option (ll_context_length new) (ll_context_length old),
      ll_gpu_layers = or_option (ll_gpu_layers new) (ll_gpu_layers old),
      ll_offload_kqv = or_option (ll_offload_kqv new) (ll_offload_kqv old),
      ll_batch_size = or_option (ll_batch_size new) (ll_batch_size old),
      ll_mtp = or_option (ll_mtp new) (ll_mtp old),
      ll_n_cpu_moe = or_option (ll_n_cpu_moe new) (ll_n_cpu_moe old),
      ll_flash_attn = or_option (ll_flash_attn new) (ll_flash_attn old),
      ll_load_mode = or_option (ll_load_mode new) (ll_load_mode old)\<rparr>"

definition update_llama_config :: "llama_config \<Rightarrow> config_file \<Rightarrow> (string + unit) \<times> config_file" where
  "update_llama_config new =
     edit_config (\<lambda>rc. Some (rc\<lparr>rc_llama :=
       Some (with_defaults (merge_llama new (case rc_llama rc of Some l \<Rightarrow> l | None \<Rightarrow> llama_default)))\<rparr>))"

definition get_engine_pick :: "config_file \<Rightarrow> engine option \<times> config_file" where
  "get_engine_pick f =
     (case get_or_create_root_config f of
        (Inl _, f) \<Rightarrow> (None, f)
      | (Inr rc, f) \<Rightarrow>
          (Option.bind (Option.bind (rc_engine rc) (\<lambda>backend. backend)) engine_from_name, f))"

definition set_engine_pick :: "engine option \<Rightarrow> config_file \<Rightarrow> (string + unit) \<times> config_file" where
  "set_engine_pick pick =
     edit_config (\<lambda>rc. Some (rc\<lparr>rc_engine :=
       Some (Some (case pick of None \<Rightarrow> ''auto'' | Some e \<Rightarrow> engine_name e))\<rparr>))"

text \<open>The data path is written into the file as it is, so that other keys stay.\<close>

definition set_user_data_path :: "bool \<Rightarrow> string \<Rightarrow> config_file \<Rightarrow> (string + string) \<times> config_file" where
  "set_user_data_path there p f =
     (if \<not> there then (Inl (''Not a valid path '' @ p), f)
      else
        (case f of
           BadConfig \<Rightarrow> (Inl ''config.toml is not valid'', f)
         | NoConfig \<Rightarrow> (Inr (''Memory path set successfully at '' @ p), ConfigFile (init_config\<lparr>rc_data := Some p\<rparr>) [])
         | ConfigFile rc other \<Rightarrow>
             (case rc_data rc of
                None \<Rightarrow> (Inl ''data section doesnt exist'', f)
              | Some _ \<Rightarrow> (Inr (''Memory path set successfully at '' @ p), ConfigFile (rc\<lparr>rc_data := Some p\<rparr>) other))))"

section \<open>The agent's model\<close>

text \<open>\<open>clamp\<close> panics, here \<open>None\<close>, if its bounds are the wrong way round.\<close>

definition clamp :: "nat \<Rightarrow> nat \<Rightarrow> nat \<Rightarrow> nat option" where
  "clamp x lo hi = (if hi < lo then None else Some (max lo (min x hi)))"

definition max_tokens :: nat where
  "max_tokens = 30000"

definition min_tokens :: nat where
  "min_tokens = 4096"

definition get_pi_max_tokens :: "nat option \<Rightarrow> nat option option" where
  "get_pi_max_tokens context_window =
     (case context_window of
        None \<Rightarrow> Some None
      | Some w \<Rightarrow> map_option Some (clamp w min_tokens w))"

record pi_model =
  pm_id :: string
  pm_reasoning :: bool
  pm_context_window :: "nat option"
  pm_max_tokens :: "nat option"

text \<open>The one model of the provider \<open>tiles\<close>, with the address of the server.\<close>

definition create_pi_provider_config :: "string \<Rightarrow> string \<Rightarrow> nat option \<Rightarrow> (string \<times> pi_model) option" where
  "create_pi_provider_config name base_url context_window =
     map_option (\<lambda>tokens. (base_url,
        \<lparr>pm_id = name, pm_reasoning = True, pm_context_window = context_window,
         pm_max_tokens = Some (case tokens of Some n \<Rightarrow> n | None \<Rightarrow> max_tokens)\<rparr>))
       (get_pi_max_tokens context_window)"

section \<open>Where a model lies\<close>

datatype model_cache_error = InvalidSpec | NotCached

definition model_sub_path :: path where
  "model_sub_path = [''models'', ''huggingface'', ''hub'']"

definition get_commit_path :: "files \<Rightarrow> (path \<Rightarrow> nat) \<Rightarrow> path \<Rightarrow> path" where
  "get_commit_path fs modified base =
     (let snapshots = base @ [''snapshots''] in
      if path_exists fs snapshots
      then (case max_by_key modified (filter (is_dir fs) (read_dir fs snapshots)) of Some p \<Rightarrow> p | None \<Rightarrow> base)
      else base)"

definition get_model_cache ::
  "files \<Rightarrow> (path \<Rightarrow> nat) \<Rightarrow> path \<Rightarrow> path \<Rightarrow> path \<Rightarrow> string \<Rightarrow> model_cache_error + path" where
  "get_model_cache fs modified lib_dir user_data_dir home name =
     (let repo = fst (split_model_spec name) in
      if CHR ''/'' \<notin> set repo then Inl InvalidSpec
      else
        let parts = split_on CHR ''/'' repo;
            dir = ''models--'' @ parts ! 0 @ ''--'' @ parts ! 1;
            found = find (path_exists fs)
              [lib_dir @ model_sub_path @ [dir], user_data_dir @ model_sub_path @ [dir],
               home @ [''.cache'', ''huggingface'', ''hub'', dir]]
        in (case found of Some p \<Rightarrow> Inr (get_commit_path fs modified p) | None \<Rightarrow> Inl NotCached))"

section \<open>What was set is what is read\<close>

definition root_of :: "config_file \<Rightarrow> root_config" where
  "root_of f = (case f of ConfigFile rc _ \<Rightarrow> rc | _ \<Rightarrow> init_config)"

lemma read_config: "f \<noteq> BadConfig \<Longrightarrow> fst (get_or_create_root_config f) = Inr (root_of f)"
  by (cases f) (simp_all add: get_or_create_root_config_def root_of_def)

lemma edit_config_root:
  assumes "f \<noteq> BadConfig"
  shows "fst (edit_config edit f) = Inr ()" and "snd (edit_config edit f) \<noteq> BadConfig"
    and "root_of (snd (edit_config edit f)) = (case edit (root_of f) of Some rc \<Rightarrow> rc | None \<Rightarrow> root_of f)"
  using assms
  by (cases f; cases "edit (root_of f)";
      simp add: edit_config_def get_or_create_root_config_def save_root_config_def root_of_def)+

lemma config_reads:
  assumes "f \<noteq> BadConfig"
  shows "fst (get_current_model f) = rc_model (root_of f)"
    and "fst (get_engine_pick f) = Option.bind (Option.bind (rc_engine (root_of f)) (\<lambda>backend. backend)) engine_from_name"
    and "fst (get_llama_config f) =
      Inr (with_defaults (case rc_llama (root_of f) of Some l \<Rightarrow> l | None \<Rightarrow> llama_default))"
  using assms
  by (cases f; simp add: get_current_model_def get_engine_pick_def get_llama_config_def get_or_create_root_config_def
      root_of_def)+

lemmas config_writes = update_current_model_def set_engine_pick_def update_llama_config_def do_update_current_model_def

lemma with_defaults_merge: "with_defaults (with_defaults (merge_llama new l)) = merge_llama new (with_defaults l)"
  by (cases "ll_context_length new"; cases "ll_context_length l"; cases "ll_flash_attn new"; cases "ll_flash_attn l";
      simp add: with_defaults_def merge_llama_def or_option_def)

lemma engine_name_inverse: "engine_from_name (engine_name e) = Some e"
  by (cases e) (simp_all add: engine_from_name_def all_engines_def)

text \<open>Where the configuration can be read, every change of it goes through and is read back: the model,
  the engine picked by hand or none, the settings of llama.cpp, of which those given change and
  the others stay or get their default. Each change leaves the other sections alone.\<close>

theorem config_roundtrip:
  assumes "f \<noteq> BadConfig"
  shows "(let (r, f') = update_current_model name f in
       r = Inr () \<and> fst (get_current_model f') = Some name \<and>
       root_of f' = (root_of f)\<lparr>rc_model := Some name\<rparr>) \<and>
    (let (r, f') = set_engine_pick pick f in
       r = Inr () \<and> fst (get_engine_pick f') = pick \<and>
       root_of f' = (root_of f)\<lparr>rc_engine := rc_engine (root_of f')\<rparr>) \<and>
    (let (r, f') = update_llama_config new f in
       r = Inr () \<and>
       fst (get_llama_config f') = Inr (merge_llama new (projr (fst (get_llama_config f)))) \<and>
       root_of f' = (root_of f)\<lparr>rc_llama := rc_llama (root_of f')\<rparr>)"
proof (intro conjI)
  have auto_name: "engine_from_name ''auto'' = None" by (simp add: engine_from_name_def all_engines_def)
  note writes = edit_config_root [OF assms]
  note reads = config_reads [OF writes(2)]
  show "let (r, f') = update_current_model name f in
       r = Inr () \<and> fst (get_current_model f') = Some name \<and> root_of f' = (root_of f)\<lparr>rc_model := Some name\<rparr>"
    by (simp add: case_prod_beta config_writes reads(1) writes)
  show "let (r, f') = set_engine_pick pick f in
       r = Inr () \<and> fst (get_engine_pick f') = pick \<and> root_of f' = (root_of f)\<lparr>rc_engine := rc_engine (root_of f')\<rparr>"
    by (cases pick) (simp_all add: case_prod_beta config_writes reads(2) writes auto_name engine_name_inverse)
  show "let (r, f') = update_llama_config new f in
       r = Inr () \<and>
       fst (get_llama_config f') = Inr (merge_llama new (projr (fst (get_llama_config f)))) \<and>
       root_of f' = (root_of f)\<lparr>rc_llama := rc_llama (root_of f')\<rparr>"
    by (simp add: case_prod_beta config_writes reads(3) writes config_reads(3) [OF assms] with_defaults_merge)
qed

theorem config_roundtrip_witness:
  "fst (get_current_model (snd (update_current_model ''a/b'' NoConfig))) = Some ''a/b''"
  using config_roundtrip [of NoConfig "''a/b''"] by (simp add: case_prod_beta Let_def)

text \<open>The typed writers drop the keys Tiles doesn't know, the data path keeps them.\<close>

lemma other_keys_dropped:
  "snd (update_inference_config b (ConfigFile rc other)) = ConfigFile (rc\<lparr>rc_inference := Some b\<rparr>) []"
  by (simp add: update_inference_config_def edit_config_def get_or_create_root_config_def save_root_config_def)

text \<open>The agent's configuration can't be made with a context of fewer tokens than the minimum, though
  the minimum is there for that case.\<close>

lemma pi_config_panics:
  "create_pi_provider_config name url context_window = None \<longleftrightarrow> (\<exists>w. context_window = Some w \<and> w < 4096)"
  by (auto simp: create_pi_provider_config_def get_pi_max_tokens_def clamp_def min_tokens_def split: option.splits)

lemma clamp_itself: "clamp w lo w = (if w < lo then None else Some w)"
  by (simp add: clamp_def)

lemma pi_config_tokens:
  assumes "create_pi_provider_config name url context_window = Some (u, m)"
  shows "pm_max_tokens m = Some (case context_window of Some w \<Rightarrow> w | None \<Rightarrow> max_tokens)"
proof (cases context_window)
  case None
  with assms show ?thesis by (auto simp: create_pi_provider_config_def get_pi_max_tokens_def)
next
  case (Some w)
  with assms show ?thesis
    by (auto simp: create_pi_provider_config_def get_pi_max_tokens_def clamp_itself split: if_splits)
qed

end
