(* ===== verification/Agent.thy ===== *)
theory Agent
  imports Models
begin

text \<open>
  The agent harness Pi, which answers prompts in a process of its own: the messages it sends and
  takes (\<open>tiles/src/core/agent/types.rs\<close>), the calls that write to it and read from it
  (\<open>core/agent/pi.rs\<close>) and the daemon's handlers over them (\<open>daemon/agent.rs\<close>). What Pi prints is
  a list of lines, at whose end its output is closed. Decoding a line (the crate \<open>serde_json\<close>) is
  an argument, and so is its type of values, \<open>'v\<close>.
\<close>

section \<open>Messages\<close>

datatype command_type =
    CmdStatus | CmdShare | CmdSessions | CmdResume | CmdReasoning | CmdSetThinkingLevel | CmdAbort
  | CmdSkills | CmdGetCommands | CmdGetState | CmdNewSession | CmdUnknown

definition command_names :: "(string \<times> command_type) list" where
  "command_names =
     [(''status'', CmdStatus), (''share'', CmdShare), (''sessions'', CmdSessions),
      (''resume'', CmdResume), (''reasoning'', CmdReasoning),
      (''set_thinking_level'', CmdSetThinkingLevel), (''abort'', CmdAbort), (''skills'', CmdSkills),
      (''get_commands'', CmdGetCommands), (''get_state'', CmdGetState),
      (''new_session'', CmdNewSession)]"

text \<open>Any other name is an unknown command, not an error.\<close>

definition command_of :: "string \<Rightarrow> command_type" where
  "command_of name = (case map_of command_names name of Some c \<Rightarrow> c | None \<Rightarrow> CmdUnknown)"

record msg_content =
  mc_type :: string
  mc_text :: "string option"
  mc_thinking :: "string option"
  mc_arguments :: "string option"
  mc_name :: "string option"

record msg_event =
  me_role :: role
  me_content :: "msg_content list"
  me_stop_reason :: "string option"
  me_timestamp :: nat
  me_tool_name :: "string option"

record state_data =
  sd_model_id :: string
  sd_model_name :: string
  sd_thinking_level :: string
  sd_is_streaming :: bool
  sd_session_id :: string

record 'v response_msg =
  rm_id :: "string option"
  rm_command :: command_type
  rm_success :: bool
  rm_data :: "'v option"

record skill_command =
  sk_name :: string
  sk_description :: string
  sk_source :: string

datatype asst_event_type =
    MsgStart | TextStart | TextDelta | TextEnd | ThinkingStart | ThinkingDelta | ThinkingEnd
  | ToolcallStart | ToolcallDelta | ToolcallEnd | MsgDone | MsgError

record asst_msg =
  am_type :: asst_event_type
  am_delta :: "string option"

datatype 'v pi_response =
    Response "'v response_msg" | AgentStart | MessageUpdate asst_msg | AgentEnd "msg_event list"
  | TurnEnd string "msg_content list" | AgentSettled | TurnStart | MessageStart | MessageEnd
  | BashExecutionUpdate | ToolExecutionStart | ToolExecutionEnd | ToolExecutionUpdate | QueueUpdate
  | CompactionStart | CompactionEnd | AutoRetryStart | AutoRetryEnd | SummarizationRetryScheduled
  | SummarizationRetryStart | SummarizationRetryFinished | ExtensionError | UnknownResponse

definition get_type :: "'v pi_response \<Rightarrow> string" where
  "get_type r = (case r of
     Response _ \<Rightarrow> ''response'' | AgentStart \<Rightarrow> ''agent_start'' | MessageUpdate _ \<Rightarrow> ''message_update''
   | AgentEnd _ \<Rightarrow> ''agent_end'' | TurnEnd _ _ \<Rightarrow> ''turn_end'' | AgentSettled \<Rightarrow> ''agent_settled''
   | UnknownResponse \<Rightarrow> ''unknown'' | TurnStart \<Rightarrow> ''turn_start'' | MessageStart \<Rightarrow> ''message_start''
   | MessageEnd \<Rightarrow> ''message_end'' | BashExecutionUpdate \<Rightarrow> ''bash_execution_update''
   | ToolExecutionStart \<Rightarrow> ''tool_execution_start'' | ToolExecutionEnd \<Rightarrow> ''tool_execution_end''
   | ToolExecutionUpdate \<Rightarrow> ''tool_execution_update'' | QueueUpdate \<Rightarrow> ''queue_update''
   | CompactionStart \<Rightarrow> ''compaction_start'' | CompactionEnd \<Rightarrow> ''compaction_end''
   | AutoRetryStart \<Rightarrow> ''auto_retry_start'' | AutoRetryEnd \<Rightarrow> ''auto_retry_end''
   | SummarizationRetryScheduled \<Rightarrow> ''summarization_retry_scheduled''
   | SummarizationRetryStart \<Rightarrow> ''summarization_retry_attempt_start''
   | SummarizationRetryFinished \<Rightarrow> ''summarization_retry_finished''
   | ExtensionError \<Rightarrow> ''extension_error'')"

text \<open>The arguments of a tool call are kept as text: a text as it is, any other value (an object
  among them) as JSON writes it, and null as nothing.\<close>

datatype 'v arguments = ArgNull | ArgText string | ArgValue 'v

definition map_to_option_string :: "('v \<Rightarrow> string) \<Rightarrow> 'v arguments \<Rightarrow> string option" where
  "map_to_option_string to_string a =
     (case a of ArgNull \<Rightarrow> None | ArgText s \<Rightarrow> Some s | ArgValue v \<Rightarrow> Some (to_string v))"

section \<open>Writing and reading\<close>

datatype payload =
    PromptPayload string | AbortPayload | SetThinkingPayload string | GetCommandsPayload
  | AskPayload command_type string

text \<open>Pi's input takes whole payloads until it is closed.\<close>

record pi_writer =
  pw_open :: bool
  pw_sent :: "payload list"

datatype pi_line = Line string | ReadFailed

record agent =
  pa_out :: "pi_line list"
  pa_in :: pi_writer

definition send_to_pi :: "payload \<Rightarrow> pi_writer \<Rightarrow> (string + unit) \<times> pi_writer" where
  "send_to_pi p w =
     (if pw_open w then (Inr (), w\<lparr>pw_sent := pw_sent w @ [p]\<rparr>)
      else (Inl ''Error sending command to Pi due to Failed to send to Pi's stdin'', w))"

definition handle_graceful_exit :: "pi_writer \<Rightarrow> (string + unit) \<times> pi_writer" where
  "handle_graceful_exit = send_to_pi AbortPayload"

definition debug_command :: "command_type \<Rightarrow> string" where
  "debug_command c = (case c of
     CmdStatus \<Rightarrow> ''Status'' | CmdShare \<Rightarrow> ''Share'' | CmdSessions \<Rightarrow> ''Sessions'' | CmdResume \<Rightarrow> ''Resume''
   | CmdReasoning \<Rightarrow> ''Reasoning'' | CmdSetThinkingLevel \<Rightarrow> ''SetThinkingLevel'' | CmdAbort \<Rightarrow> ''Abort''
   | CmdSkills \<Rightarrow> ''Skills'' | CmdGetCommands \<Rightarrow> ''GetCommands'' | CmdGetState \<Rightarrow> ''GetState''
   | CmdNewSession \<Rightarrow> ''NewSession'' | CmdUnknown \<Rightarrow> ''Unknown'')"

text \<open>The answer to a call is the first response with its id; what else Pi prints is skipped. The
  time limit is a number of lines read before it passes.\<close>

fun read_answer ::
  "(string \<Rightarrow> 'v pi_response option) \<Rightarrow> string \<Rightarrow> command_type \<Rightarrow> nat \<Rightarrow> pi_line list
     \<Rightarrow> (string + 'v response_msg) \<times> pi_line list" where
  "read_answer dec i c 0 ls = (Inl (''Pi didn't answer '' @ debug_command c @ '' in time''), ls)"
| "read_answer dec i c (Suc t) [] = (Inl (''Pi stopped before answering '' @ debug_command c), [])"
| "read_answer dec i c (Suc t) (ReadFailed # ls) = (Inl ''reading from Pi failed'', ls)"
| "read_answer dec i c (Suc t) (Line l # ls) =
     (case dec l of
        Some (Response m) \<Rightarrow> if rm_id m = Some i then (Inr m, ls) else read_answer dec i c t ls
      | _ \<Rightarrow> read_answer dec i c t ls)"

definition ask_pi ::
  "(string \<Rightarrow> 'v pi_response option) \<Rightarrow> string \<Rightarrow> nat \<Rightarrow> command_type \<Rightarrow> agent
     \<Rightarrow> (string + 'v response_msg) \<times> agent" where
  "ask_pi dec i t c a =
     (case send_to_pi (AskPayload c i) (pa_in a) of
        (Inl e, w) \<Rightarrow> (Inl e, a\<lparr>pa_in := w\<rparr>)
      | (Inr _, w) \<Rightarrow>
          (case read_answer dec i c t (pa_out a) of (r, ls) \<Rightarrow> (r, a\<lparr>pa_in := w, pa_out := ls\<rparr>)))"

definition get_pi_state ::
  "(string \<Rightarrow> 'v pi_response option) \<Rightarrow> ('v \<Rightarrow> string + state_data) \<Rightarrow> string \<Rightarrow> nat \<Rightarrow> agent
     \<Rightarrow> (string + state_data) \<times> agent" where
  "get_pi_state dec state_of i t a =
     (case ask_pi dec i t CmdGetState a of
        (Inl e, a) \<Rightarrow> (Inl e, a)
      | (Inr m, a) \<Rightarrow>
          (res_bind (ok_or ''Failed to fetch initial state from Pi'' (if rm_success m then rm_data m else None))
             state_of, a))"

text \<open>A new session can be cancelled by an extension of Pi. The state is asked for with an id of
  its own.\<close>

definition create_new_session ::
  "(string \<Rightarrow> 'v pi_response option) \<Rightarrow> ('v \<Rightarrow> string + state_data) \<Rightarrow> ('v \<Rightarrow> bool) \<Rightarrow> string \<Rightarrow> string \<Rightarrow> nat \<Rightarrow> nat
     \<Rightarrow> agent \<Rightarrow> (string + state_data) \<times> agent" where
  "create_new_session dec state_of cancelled i i' t t' a =
     (case ask_pi dec i t CmdNewSession a of
        (Inl e, a) \<Rightarrow> (Inl e, a)
      | (Inr m, a) \<Rightarrow>
          if \<not> rm_success m \<or> (case rm_data m of Some d \<Rightarrow> cancelled d | None \<Rightarrow> False)
          then (Inl ''Creating new session failed'', a)
          else get_pi_state dec state_of i' t' a)"

section \<open>The daemon's handlers\<close>

definition model_spec :: "'f modelfile \<Rightarrow> string + string" where
  "model_spec m =
     res_bind (ok_or ''Modelfile missing FROM instruction'' (mf_from m)) (\<lambda>from.
       Inr (case mf_quant m of Some q \<Rightarrow> from @ '':'' @ q | None \<Rightarrow> from))"

definition default_modelfile :: string where
  "default_modelfile = ''gemma-4-12b-gguf''"

text \<open>A Modelfile is named by its file in the folder of the bundled ones, which \<open>read\<close> parses. The
  folder lies in the library folder, whose absence is the error \<open>lib\<close>.\<close>

definition get_agent_start_params ::
  "(string + unit) \<Rightarrow> (string \<Rightarrow> string + 'f modelfile) \<Rightarrow> string option \<Rightarrow> app_error + string \<times> string" where
  "get_agent_start_params lib read picked =
     res_bind (map_err NotFound lib) (\<lambda>_.
     let path = (case Option.bind picked (picked_modelfile read) of Some p \<Rightarrow> p | None \<Rightarrow> default_modelfile) in
     res_bind (map_err InternalServerError (read path)) (\<lambda>m.
     res_bind (map_err InternalServerError (model_spec m)) (\<lambda>name.
     Inr (name, case mf_system m of Some s \<Rightarrow> s | None \<Rightarrow> ''''))))"

definition no_agent :: string where
  "no_agent = ''Failed to get a mutable agent instance''"

definition end_current_session :: "agent option \<Rightarrow> (app_error + string) \<times> agent option" where
  "end_current_session ag =
     (case ag of
        None \<Rightarrow> (Inl (InternalServerError no_agent), None)
      | Some a \<Rightarrow>
          (case handle_graceful_exit (pa_in a) of
             (Inl e, w) \<Rightarrow> (Inl (InternalServerError e), Some (a\<lparr>pa_in := w\<rparr>))
           | (Inr _, w) \<Rightarrow> (Inr ''Successfully ended current session'', Some (a\<lparr>pa_in := w\<rparr>))))"

definition agent_state_api ::
  "(string \<Rightarrow> 'v pi_response option) \<Rightarrow> ('v \<Rightarrow> string + state_data) \<Rightarrow> string \<Rightarrow> nat \<Rightarrow> agent option
     \<Rightarrow> (app_error + state_data) \<times> agent option" where
  "agent_state_api dec state_of i t ag =
     (case ag of
        None \<Rightarrow> (Inl (InternalServerError no_agent), None)
      | Some a \<Rightarrow> (case get_pi_state dec state_of i t a of
                    (r, a) \<Rightarrow> (map_err InternalServerError r, Some a)))"

text \<open>Text as Rust's \<open>{:?}\<close> prints it: in quotes, with what does not print escaped.\<close>

definition hex_char :: "nat \<Rightarrow> char" where
  "hex_char d = (if d < 10 then digit_char d else char_of (87 + d))"

definition debug_char :: "char \<Rightarrow> string" where
  "debug_char c =
     (let n = (of_char c :: nat); b = CHR 0x5C in
      if n = 0 then [b, CHR ''0''] else if n = 9 then [b, CHR ''t''] else if n = 10 then [b, CHR ''n'']
      else if n = 13 then [b, CHR ''r''] else if n = 34 \<or> n = 92 then [b, c]
      else if n < 16 then [b, CHR ''u'', CHR ''{'', hex_char n, CHR ''}'']
      else if n < 32 \<or> n = 127
      then [b, CHR ''u'', CHR ''{'', hex_char (n div 16), hex_char (n mod 16), CHR ''}''] else [c])"

definition debug_str :: "string \<Rightarrow> string" where
  "debug_str s = CHR 0x22 # concat (map debug_char s) @ [CHR 0x22]"

text \<open>The answer to a prompt is a stream of events. They are passed on until Pi has settled; a line
  that does not decode ends the reading, and so does the end of Pi's output or a failed read. The
  client may go away while the next line is awaited, after a number of lines, or while the event of a
  line that was taken waits for room in the channel. The result says whether it did.\<close>

datatype sse_event = Sse string string

definition error_event :: "string \<Rightarrow> sse_event" where
  "error_event = Sse ''error''"

datatype gone = WhileReading nat | WhileSending nat

fun one_line_less :: "gone \<Rightarrow> gone" where
  "one_line_less (WhileReading n) = WhileReading (n - 1)"
| "one_line_less (WhileSending n) = WhileSending (n - 1)"

fun read_from_pi ::
  "(string \<Rightarrow> 'v pi_response option) \<Rightarrow> gone option \<Rightarrow> pi_line list \<Rightarrow> bool \<times> sse_event list \<times> pi_line list" where
  "read_from_pi dec (Some (WhileReading 0)) ls = (True, [], ls)"
| "read_from_pi dec gone [] = (False, [], [])"
| "read_from_pi dec gone (ReadFailed # ls) = (False, [], ls)"
| "read_from_pi dec gone (Line l # ls) =
     (if gone = Some (WhileSending 0) then (True, [], ls)
      else
        (case dec l of
           None \<Rightarrow> (False, [error_event (''Failed to parse pi response, response '' @ debug_str l)], ls)
         | Some r \<Rightarrow>
             if r = AgentSettled then (False, [Sse (get_type r) l], ls)
             else (case read_from_pi dec (map_option one_line_less gone) ls of
                     (left, es, rest) \<Rightarrow> (left, Sse (get_type r) l # es, rest))))"

text \<open>When the client goes away, the reply is aborted and read to its end, so that it is not taken
  for the answer to the next prompt. Events after that reach nobody.\<close>

definition process_chat_prompt ::
  "(string \<Rightarrow> 'v pi_response option) \<Rightarrow> gone option \<Rightarrow> string \<Rightarrow> agent option
     \<Rightarrow> sse_event list \<times> agent option" where
  "process_chat_prompt dec gone message ag =
     (case ag of
        None \<Rightarrow> ([error_event no_agent], None)
      | Some a \<Rightarrow>
          (case send_to_pi (PromptPayload message) (pa_in a) of
             (Inl e, w) \<Rightarrow>
               ([error_event (''Failed to send the payload to Pi due to '' @ e)], Some (a\<lparr>pa_in := w\<rparr>))
           | (Inr _, w) \<Rightarrow>
               (case read_from_pi dec gone (pa_out a) of
                  (False, es, ls) \<Rightarrow> (es, Some (a\<lparr>pa_in := w, pa_out := ls\<rparr>))
                | (True, es, ls) \<Rightarrow>
                    (case (handle_graceful_exit w, read_from_pi dec None ls) of
                       ((_, w), (_, _, ls)) \<Rightarrow> (es, Some (a\<lparr>pa_in := w, pa_out := ls\<rparr>))))))"

section \<open>Answers\<close>

text \<open>An answer that is read is one Pi printed for this very call, and the lines after it are left.\<close>

lemma read_answer_sound:
  "read_answer dec i c t ls = (Inr m, rest) \<Longrightarrow>
     \<exists>pre l. ls = pre @ Line l # rest \<and> dec l = Some (Response m) \<and> rm_id m = Some i"
proof (induction dec i c t ls rule: read_answer.induct)
  case (4 dec i c t l ls)
  have skip: ?case if "read_answer dec i c t ls = (Inr m, rest)"
      and "read_answer dec i c t ls = (Inr m, rest) \<Longrightarrow>
        \<exists>pre l. ls = pre @ Line l # rest \<and> dec l = Some (Response m) \<and> rm_id m = Some i"
    using that by (metis append_Cons)
  show ?case
  proof (cases "\<exists>m'. dec l = Some (Response m')")
    case True
    then obtain m' where d: "dec l = Some (Response m')" by blast
    show ?thesis
    proof (cases "rm_id m' = Some i")
      case True
      with "4.prems" d have "m' = m" "ls = rest" by simp_all
      with d True have "Line l # ls = [] @ Line l # rest \<and> dec l = Some (Response m) \<and> rm_id m = Some i"
        by simp
      then show ?thesis by blast
    next
      case False
      with "4.prems" d "4.IH" show ?thesis by (intro skip) simp_all
    qed
  next
    case False
    with "4.prems" "4.IH" show ?thesis by (intro skip) (auto split: option.splits pi_response.splits)
  qed
qed simp_all

text \<open>The answer is found past whatever other lines Pi prints first, a late answer to an earlier
  call among them.\<close>

lemma read_answer_found:
  assumes "dec l = Some (Response m)" and "rm_id m = Some i"
  shows "length pre < t \<Longrightarrow>
     (\<And>k m'. k \<in> set pre \<Longrightarrow> dec k = Some (Response m') \<Longrightarrow> rm_id m' \<noteq> Some i) \<Longrightarrow>
     read_answer dec i c t (map Line pre @ Line l # rest) = (Inr m, rest)"
proof (induction pre arbitrary: t)
  case Nil
  then obtain u where "t = Suc u" by (cases t) auto
  with assms show ?case by simp
next
  case (Cons k pre)
  then obtain u where t: "t = Suc u" by (cases t) auto
  have "read_answer dec i c u (map Line pre @ Line l # rest) = (Inr m, rest)"
    using Cons.prems by (intro Cons.IH) (auto simp: t)
  with Cons.prems(2) [of k] show ?case
    by (auto simp: t split: option.splits pi_response.splits)
qed

section \<open>Replies\<close>

definition event_of :: "(string \<Rightarrow> 'v pi_response option) \<Rightarrow> string \<Rightarrow> sse_event" where
  "event_of dec l = (case dec l of Some r \<Rightarrow> Sse (get_type r) l | None \<Rightarrow> error_event (''Failed to parse pi response, response '' @ debug_str l))"

text \<open>What one reading takes: lines that decode and don't settle, and then one that settles or doesn't decode.\<close>

definition reply_lines :: "(string \<Rightarrow> 'v pi_response option) \<Rightarrow> string list \<Rightarrow> string \<Rightarrow> bool" where
  "reply_lines dec ks l \<longleftrightarrow>
     list_all (\<lambda>k. dec k \<noteq> None \<and> dec k \<noteq> Some AgentSettled) ks \<and> (dec l = None \<or> dec l = Some AgentSettled)"

text \<open>How many events went out, and how many lines were taken, if the client left in time.\<close>

fun events_out :: "gone \<Rightarrow> nat" where
  "events_out (WhileReading n) = n"
| "events_out (WhileSending n) = n"

fun lines_taken :: "gone \<Rightarrow> nat" where
  "lines_taken (WhileReading n) = n"
| "lines_taken (WhileSending n) = Suc n"

lemma read_reply:
  "reply_lines dec ks l \<Longrightarrow>
     read_from_pi dec None (map Line ks @ Line l # rest) = (False, map (event_of dec) (ks @ [l]), rest)"
  by (induction ks) (auto simp: reply_lines_def event_of_def)

lemma read_reply_part:
  "reply_lines dec ks l \<Longrightarrow>
     read_from_pi dec (Some g) (map Line ks @ Line l # rest) =
       (if events_out g \<le> length ks
        then (True, map (event_of dec) (take (events_out g) ks), drop (lines_taken g) (map Line ks @ Line l # rest))
        else (False, map (event_of dec) (ks @ [l]), rest))"
proof (induction ks arbitrary: g)
  case Nil
  then show ?case by (cases g; cases "events_out g") (auto simp: reply_lines_def event_of_def)
next
  case (Cons k ks)
  then have r: "reply_lines dec ks l" and k: "dec k \<noteq> None" "dec k \<noteq> Some AgentSettled"
    by (simp_all add: reply_lines_def)
  from k obtain r where d: "dec k = Some r" "r \<noteq> AgentSettled" by blast
  show ?case
  proof (cases g)
    case (WhileReading n)
    with Cons.IH [OF r] d show ?thesis by (cases n) (simp_all add: event_of_def)
  next
    case (WhileSending n)
    with Cons.IH [OF r] d show ?thesis by (cases n) (simp_all add: event_of_def)
  qed
qed

lemma reply_lines_drop: "reply_lines dec ks l \<Longrightarrow> reply_lines dec (drop n ks) l"
  by (auto simp: reply_lines_def list_all_iff dest: in_set_dropD)

text \<open>C35. A prompt reads the agent's output up to the first line that says it has settled or that does not
  decode, and answers with the events of the lines up to there. If the client leaves before
  that, it gets the events that went out by then, the reply is aborted, and the output is read up to
  the same line all the same, with one exception: if the client leaves while the event of that very line
  waits for room, the line is taken already, and the reading goes on past it into whatever the agent
  prints next. So where the line is one that settles, the next prompt gets none of this reply; after one that does not
  decode it gets the rest of the reply.\<close>

theorem prompt_reads_one_reply:
  assumes "reply_lines dec ks l" and "pw_open (pa_in a)" and "pa_out a = map Line ks @ Line l # rest"
  shows "process_chat_prompt dec gone message (Some a) =
    (let left = (\<exists>g. gone = Some g \<and> events_out g \<le> length ks) in
     (map (event_of dec) (if left then take (events_out (the gone)) ks else ks @ [l]),
      Some (a\<lparr>pa_out := (if gone = Some (WhileSending (length ks)) then snd (snd (read_from_pi dec None rest)) else rest),
              pa_in := (pa_in a)\<lparr>pw_sent := pw_sent (pa_in a) @
                         PromptPayload message # (if left then [AbortPayload] else [])\<rparr>\<rparr>)))"
proof (cases gone)
  case None
  with assms show ?thesis by (simp add: process_chat_prompt_def send_to_pi_def read_reply)
next
  case (Some g)
  note part = read_reply_part [OF assms(1), of g rest]
  show ?thesis
  proof (cases "events_out g \<le> length ks")
    case False
    then have "g \<noteq> WhileSending (length ks)" by auto
    with False show ?thesis
      by (simp add: Some assms process_chat_prompt_def send_to_pi_def part)
  next
    case True
    show ?thesis
    proof (cases "lines_taken g \<le> length ks")
      case t: True
      then have "g \<noteq> WhileSending (length ks)" by auto
      moreover have "read_from_pi dec None (drop (lines_taken g) (map Line ks @ Line l # rest)) =
          (False, map (event_of dec) (drop (lines_taken g) ks @ [l]), rest)"
        using read_reply [OF reply_lines_drop [OF assms(1), of "lines_taken g"], of rest] t by (simp add: drop_map)
      ultimately show ?thesis using True
        by (simp add: Some assms process_chat_prompt_def send_to_pi_def handle_graceful_exit_def part)
    next
      case t: False
      with True have g: "g = WhileSending (length ks)" by (cases g) auto
      show ?thesis
        using part by (simp add: Some assms process_chat_prompt_def send_to_pi_def handle_graceful_exit_def g
            split: prod.split)
    qed
  qed
qed

definition sample_dec :: "string \<Rightarrow> unit pi_response option" where
  "sample_dec l = map_of [(''start'', AgentStart), (''settled'', AgentSettled)] l"

lemma prompt_reads_one_reply_witness:
  "process_chat_prompt sample_dec (Some (WhileSending 0)) ''hi''
     (Some \<lparr>pa_out = [Line ''start'', Line ''settled'', Line ''start''], pa_in = \<lparr>pw_open = True, pw_sent = []\<rparr>\<rparr>) =
     ([], Some \<lparr>pa_out = [Line ''start''],
            pa_in = \<lparr>pw_open = True, pw_sent = [PromptPayload ''hi'', AbortPayload]\<rparr>\<rparr>)"
  using prompt_reads_one_reply [of sample_dec "[''start'']" "''settled''"
      "\<lparr>pa_out = [Line ''start'', Line ''settled'', Line ''start''], pa_in = \<lparr>pw_open = True, pw_sent = []\<rparr>\<rparr>"
      "[Line ''start'']" "Some (WhileSending 0)" "''hi''"]
  by (simp add: reply_lines_def sample_dec_def event_of_def get_type_def)

text \<open>The exception: the next reply is lost with this one.\<close>

lemma late_leave_eats_next_reply:
  assumes "reply_lines dec ks l" and "reply_lines dec ks' l'"
    and "pa_out a = map Line ks @ Line l # map Line ks' @ Line l' # rest" and "pw_open (pa_in a)"
  shows "\<exists>b. snd (process_chat_prompt dec (Some (WhileSending (length ks))) message (Some a)) = Some b \<and> pa_out b = rest"
  using assms read_reply_part [OF assms(1), of "WhileSending (length ks)" "map Line ks' @ Line l' # rest"]
    read_reply [OF assms(2), of rest]
  by (simp add: process_chat_prompt_def send_to_pi_def handle_graceful_exit_def)

text \<open>After a line that does not decode the reply is not read to its end: what is left of it is what
  the next prompt gets first.\<close>

lemma bad_line_leaves_the_rest:
  "list_all (\<lambda>k. dec k \<noteq> None \<and> dec k \<noteq> Some AgentSettled) ks \<Longrightarrow> dec l = None \<Longrightarrow>
     read_from_pi dec None (map Line ks @ Line l # rest) = (False, map (event_of dec) (ks @ [l]), rest)"
proof (induction ks)
  case (Cons k ks)
  then obtain r where "dec k = Some r" "r \<noteq> AgentSettled" by auto
  with Cons show ?case by (simp add: event_of_def)
qed (simp add: event_of_def)

text \<open>The names commands are known by.\<close>

lemma distinct_names: "distinct (map fst command_names)"
  by (simp add: command_names_def)

lemma command_of_known: "(name, c) \<in> set command_names \<Longrightarrow> command_of name = c"
  by (simp add: command_of_def map_of_is_SomeI [OF distinct_names])

end
