(* ===== verification/Repl.thy ===== *)
theory Repl
  imports Agent Textual
begin

text \<open>
  The chat in the terminal (\<open>tiles/src/repl.rs\<close>) with the snapshots it keeps of a session
  (\<open>utils/lexicons.rs\<close>): what a typed line is, the commands, the prompt, the reading of the agent's
  answer and how a turn is saved, resuming and sharing a session, and the loading of a model. What
  is only printed is left out where no decision depends on it. JSON, the questions' answers, the
  sharing itself, fresh ids and times, and Ctrl-C are the arguments in \<open>repl_env\<close>.
\<close>

section \<open>Data\<close>

datatype effort = EffHigh | EffMedium | EffLow

definition effort_from_str :: "string \<Rightarrow> string + effort" where
  "effort_from_str s =
     (let l = to_lowercase s in
      if l = ''high'' then Inr EffHigh else if l = ''medium'' then Inr EffMedium
      else if l = ''low'' then Inr EffLow else Inl ''Invalid Reasoning value, use /help'')"

definition effort_to_string :: "effort \<Rightarrow> string" where
  "effort_to_string e = (case e of EffHigh \<Rightarrow> ''high'' | EffMedium \<Rightarrow> ''medium'' | EffLow \<Rightarrow> ''low'')"

record turn =
  tn_api :: "string option"
  tn_provider :: "string option"
  tn_model :: string
  tn_messages :: "msg_event list"

record snapshot =
  sn_type :: string
  sn_name :: string
  sn_session :: string
  sn_created :: string
  sn_turns :: "turn list"

definition snapshot_new :: "string \<Rightarrow> string \<Rightarrow> string \<Rightarrow> snapshot" where
  "snapshot_new now name sid =
     \<lparr>sn_type = ''run.tiles.chat.sessionSnapshot'', sn_name = name, sn_session = sid, sn_created = now,
      sn_turns = []\<rparr>"

record repl_session =
  rs_id :: string
  rs_pending :: bool
  rs_resumed :: string
  rs_model :: string
  rs_last :: "string option"
  rs_started :: bool
  rs_effort :: effort
  rs_snapshot :: snapshot

definition repl_session_new :: "string \<Rightarrow> state_data \<Rightarrow> repl_session" where
  "repl_session_new now st =
     \<lparr>rs_id = sd_session_id st, rs_pending = False, rs_resumed = '''', rs_model = sd_model_name st,
      rs_last = None, rs_started = False,
      rs_effort = (case effort_from_str (sd_thinking_level st) of Inr e \<Rightarrow> e | Inl _ \<Rightarrow> EffLow),
      rs_snapshot = snapshot_new now '''' (sd_session_id st)\<rparr>"

text \<open>Pi's \<open>settings.json\<close>: not there, no JSON, JSON but no object, or an object.\<close>

datatype settings = NoSettings | NoJson | NoObject | Settings "string \<Rightarrow> string option"

record 'v repl_env =
  re_dec :: "string \<Rightarrow> 'v pi_response option"
  re_state :: "'v \<Rightarrow> string + state_data"
  re_skills :: "'v \<Rightarrow> string + skill_command list option"
  re_enc :: "snapshot \<Rightarrow> string + string"
  re_parse :: "string \<Rightarrow> string + snapshot"
  re_quote :: "string \<Rightarrow> string"
  re_now :: string
  re_draw :: "nat \<Rightarrow> string \<times> nat"
  re_ctrlc :: "nat \<Rightarrow> bool"
  re_ask_id :: string
  re_patience :: nat
  re_settings_ok :: bool
  re_answer :: "nat \<Rightarrow> string + string"
  re_share :: "nat \<Rightarrow> snapshot \<Rightarrow> bool \<Rightarrow> string + unit"
  re_sign_in :: "string \<Rightarrow> string + unit"
  re_user :: string

record repl =
  rw_session :: repl_session
  rw_db :: chat_db
  rw_agent :: agent
  rw_draws :: nat
  rw_settings :: settings
  rw_shared :: "(snapshot \<times> bool) list"

section \<open>Input\<close>

datatype input_type = SkipInput | CommandInput string | ExitInput | PromptInput | SkillInput

definition handle_input :: "string \<Rightarrow> input_type" where
  "handle_input input =
     (case strip_prefix ''/'' input of
        Some cmd \<Rightarrow>
          (let keyword = to_lowercase (case split_whitespace cmd of w # _ \<Rightarrow> w | [] \<Rightarrow> '''') in
           if keyword = ''help'' \<or> keyword = ''?'' then SkipInput
           else if keyword = ''bye'' then ExitInput
           else if keyword = '''' then SkipInput
           else CommandInput cmd)
      | None \<Rightarrow> (case strip_prefix ''$'' input of Some _ \<Rightarrow> SkillInput | None \<Rightarrow> PromptInput))"

definition send_pi :: "payload \<Rightarrow> repl \<Rightarrow> (acct_error + unit) \<times> repl" where
  "send_pi p w =
     (case send_to_pi p (pa_in (rw_agent w)) of
        (r, i) \<Rightarrow> (map_err Msg r, w\<lparr>rw_agent := (rw_agent w)\<lparr>pa_in := i\<rparr>\<rparr>))"

text \<open>The history of a resumed session goes in front of the first prompt after it.\<close>

definition with_history :: "string \<Rightarrow> string \<Rightarrow> string" where
  "with_history history input =
     ''user_chat_history:'' @ [CHR 0x0A] @ history @ ''.'' @ [CHR 0x0A] @ ''Use the history as context.'' @
     [CHR 0x0A] @ ''[Followup question] - '' @ input"

definition handle_input_prompt :: "string \<Rightarrow> repl \<Rightarrow> (acct_error + unit) \<times> repl" where
  "handle_input_prompt input w =
     (let rs = rw_session w in
      if rs_pending rs
      then send_pi (PromptPayload (with_history (rs_resumed rs) input))
             (w\<lparr>rw_session := rs\<lparr>rs_pending := False\<rparr>\<rparr>)
      else send_pi (PromptPayload input) w)"

section \<open>Saving a turn\<close>

text \<open>The text of a user's message.\<close>

definition content_lines :: "msg_content \<Rightarrow> string list" where
  "content_lines m =
     (if mc_type m = ''text'' then [unwrap_or_empty (mc_text m)]
      else if mc_type m = ''toolCall''
      then (case mc_arguments m of
              Some args \<Rightarrow>
                [[CHR 0x0A] @ ''**[ToolCall]**'' @ [CHR 0x0A],
                 ''Tool: '' @ (case mc_name m of Some n \<Rightarrow> n | None \<Rightarrow> ''None''),
                 ''Arguments: '' @ args]
            | None \<Rightarrow> [])
      else [])"

definition get_pi_msg_content :: "msg_content list \<Rightarrow> string" where
  "get_pi_msg_content ms = join [CHR 0x0A] (concat (map content_lines ms))"

text \<open>The text of the assistant's messages, with its two markers.\<close>

definition reasoning_mark :: string where
  "reasoning_mark = ''**[Reasoning]**'' @ [CHR 0x0A, CHR 0x0A]"

definition answer_mark :: string where
  "answer_mark = [CHR 0x0A, CHR 0x0A] @ ''---'' @ [CHR 0x0A, CHR 0x0A] @ ''**[Answer]**'' @ [CHR 0x0A, CHR 0x0A]"

definition tool_text :: "(string \<Rightarrow> string) \<Rightarrow> msg_content \<Rightarrow> string \<Rightarrow> string" where
  "tool_text quote m args =
     [CHR 0x0A, CHR 0x0A] @ ''**[ToolCall]**'' @ [CHR 0x0A] @ ''Tool: '' @
     (case mc_name m of Some n \<Rightarrow> n | None \<Rightarrow> ''None'') @ [CHR 0x0A] @ ''Arguments: '' @ quote args"

fun format_from :: "(string \<Rightarrow> string) \<Rightarrow> bool \<Rightarrow> bool \<Rightarrow> msg_content list \<Rightarrow> string" where
  "format_from quote reasoning answer [] = ''''"
| "format_from quote reasoning answer (m # ms) =
     (if mc_type m = ''thinking''
      then (if reasoning then '''' else reasoning_mark) @ unwrap_or_empty (mc_thinking m) @
           format_from quote True answer ms
      else if mc_type m = ''toolCall''
      then (case mc_arguments m of
              None \<Rightarrow> format_from quote reasoning answer ms
            | Some args \<Rightarrow> (if reasoning then '''' else reasoning_mark) @ tool_text quote m args @
                           format_from quote True answer ms)
      else if mc_type m = ''text''
      then (if reasoning \<and> \<not> answer then answer_mark else '''') @ unwrap_or_empty (mc_text m) @
           format_from quote reasoning (answer \<or> reasoning) ms
      else format_from quote reasoning answer ms)"

definition format_assistant_content :: "(string \<Rightarrow> string) \<Rightarrow> msg_content list \<Rightarrow> string" where
  "format_assistant_content quote ms = format_from quote False False ms"

text \<open>The messages in order: each of the user's is saved as a chat, the first one of a session
  together with the session. The parts of the assistant's are gathered.\<close>

definition reply_to :: "role \<Rightarrow> string \<Rightarrow> string option \<Rightarrow> repl_session \<Rightarrow> chat_response" where
  "reply_to role text parent rs =
     \<lparr>rp_input = text, rp_session_id = rs_id rs, rp_role = role, rp_parent = parent, rp_model = rs_model rs\<rparr>"

definition save_prompt :: "'v repl_env \<Rightarrow> msg_event \<Rightarrow> repl \<Rightarrow> (acct_error + unit) \<times> repl" where
  "save_prompt E m w =
     (let rs = rw_session w;
          resp = reply_to User (get_pi_msg_content (me_content m)) (if rs_started rs then rs_last rs else None) rs;
          (uuid, now) = re_draw E (rw_draws w);
          w = w\<lparr>rw_draws := Suc (rw_draws w)\<rparr>
      in case (if rs_started rs then save_chat (re_user E) resp uuid now (rw_db w)
               else save_first_chat (re_user E) (sn_name (rs_snapshot rs)) resp uuid now (rw_db w)) of
           Inl e \<Rightarrow> (Inl e, w)
         | Inr (c, db) \<Rightarrow>
             (Inr (), w\<lparr>rw_db := db, rw_session := rs\<lparr>rs_started := True, rs_last := Some (c_id c)\<rparr>\<rparr>))"

fun save_messages ::
  "'v repl_env \<Rightarrow> msg_event list \<Rightarrow> msg_content list \<Rightarrow> repl \<Rightarrow> (acct_error + msg_content list) \<times> repl" where
  "save_messages E [] acc w = (Inr acc, w)"
| "save_messages E (m # ms) acc w =
     (case me_role m of
        User \<Rightarrow> (case save_prompt E m w of
                   (Inl e, w) \<Rightarrow> (Inl e, w)
                 | (Inr _, w) \<Rightarrow> save_messages E ms acc w)
      | Assistant \<Rightarrow> save_messages E ms (acc @ me_content m) w
      | _ \<Rightarrow> save_messages E ms acc w)"

definition save_answer :: "'v repl_env \<Rightarrow> string \<Rightarrow> repl \<Rightarrow> (acct_error + unit) \<times> repl" where
  "save_answer E text w =
     (let rs = rw_session w;
          (uuid, now) = re_draw E (rw_draws w);
          w = w\<lparr>rw_draws := Suc (rw_draws w)\<rparr>
      in case save_chat (re_user E) (reply_to Assistant text (rs_last rs) rs) uuid now (rw_db w) of
           Inl e \<Rightarrow> (Inl e, w)
         | Inr (c, db) \<Rightarrow> (Inr (), w\<lparr>rw_db := db, rw_session := rs\<lparr>rs_last := Some (c_id c)\<rparr>\<rparr>))"

definition new_turn :: "string \<Rightarrow> msg_event list \<Rightarrow> turn" where
  "new_turn model ms =
     \<lparr>tn_api = Some ''open-responses'', tn_provider = Some ''tiles'', tn_model = model, tn_messages = ms\<rparr>"

text \<open>The snapshot gets the turn and is written next to the session.\<close>

definition save_snapshot :: "'v repl_env \<Rightarrow> turn \<Rightarrow> repl \<Rightarrow> (acct_error + unit) \<times> repl" where
  "save_snapshot E t w =
     (let rs = rw_session w;
          sn = (rs_snapshot rs)\<lparr>sn_turns := sn_turns (rs_snapshot rs) @ [t]\<rparr>;
          w = w\<lparr>rw_session := rs\<lparr>rs_snapshot := sn\<rparr>\<rparr>
      in case re_enc E sn of
           Inl e \<Rightarrow> (Inl (Msg e), w)
         | Inr text \<Rightarrow>
             (case update_snapshot (rs_id rs) text (rw_db w) of
                Inl e \<Rightarrow> (Inl e, w)
              | Inr (_, db) \<Rightarrow> (Inr (), w\<lparr>rw_db := db\<rparr>)))"

definition save_agent_session :: "'v repl_env \<Rightarrow> msg_event list \<Rightarrow> repl \<Rightarrow> (acct_error + unit) \<times> repl" where
  "save_agent_session E ms w =
     (let t = new_turn (rs_model (rw_session w)) ms in
      case save_messages E ms [] w of
        (Inl e, w) \<Rightarrow> (Inl e, w)
      | (Inr acc, w) \<Rightarrow>
          (case save_answer E (format_assistant_content (re_quote E) acc) w of
             (Inl e, w) \<Rightarrow> (Inl e, w)
           | (Inr _, w) \<Rightarrow> save_snapshot E t w))"

text \<open>A reply that ended with an error is aborted first, and saved all the same.\<close>

definition failed_reply :: "msg_event list \<Rightarrow> bool" where
  "failed_reply ms = (case last_opt ms of
     Some m \<Rightarrow> me_role m = Assistant \<and> me_stop_reason m = Some ''error'' | None \<Rightarrow> False)"

definition process_pi_agent_end_event ::
  "'v repl_env \<Rightarrow> msg_event list \<Rightarrow> repl \<Rightarrow> (acct_error + unit) \<times> repl" where
  "process_pi_agent_end_event E ms w =
     (if failed_reply ms
      then (case send_pi AbortPayload w of
              (Inl e, w) \<Rightarrow> (Inl e, w)
            | (Inr _, w) \<Rightarrow> save_agent_session E ms w)
      else save_agent_session E ms w)"

section \<open>Commands\<close>

text \<open>\<open>/resume\<close>: the chats of the session in the order of their ids. A session that isn't there is
  reported, and then the first session of an empty list is taken, which panics.\<close>

definition load_session :: "'v repl_env \<Rightarrow> string list \<Rightarrow> repl \<Rightarrow> (acct_error + unit) \<times> repl" where
  "load_session E args w =
     (case args of
        [] \<Rightarrow> (Inl (Msg ''Not a valid command''), w)
      | [_] \<Rightarrow> (Inl (Msg ''Please provide sessionId''), w)
      | _ # sid # _ \<Rightarrow>
          (case fetch_chats_by_session_id sid (rw_db w) of
             Inl e \<Rightarrow> (Inl e, w)
           | Inr d \<Rightarrow>
               (case d_sessions d of
                  [] \<Rightarrow> (Inl (Panic ''index out of bounds: the len is 0 but the index is 0''), w)
                | saved # _ \<Rightarrow>
                    let rs = (rw_session w)\<lparr>rs_id := sid, rs_pending := True,
                                rs_resumed := concat (map c_content (d_chats d)),
                                rs_last := last_opt (map c_id (d_chats d)), rs_started := True\<rparr>
                    in case s_snapshot saved of
                         None \<Rightarrow>
                           (Inr (), w\<lparr>rw_session :=
                              rs\<lparr>rs_snapshot := snapshot_new (re_now E) (s_name saved) (s_id saved)\<rparr>\<rparr>)
                       | Some text \<Rightarrow>
                           (case re_parse E text of
                              Inl e \<Rightarrow> (Inl (Msg e), w\<lparr>rw_session := rs\<rparr>)
                            | Inr sn \<Rightarrow> (Inr (), w\<lparr>rw_session := rs\<lparr>rs_snapshot := sn\<rparr>\<rparr>)))))"

text \<open>\<open>/share\<close>: the snapshot of the session named, or of the current one, is handed over for sharing,
  once more after a login where one was missing. The second component is what was handed over:
  a snapshot, and whether as a private session.\<close>

definition is_private_answer :: "string \<Rightarrow> bool" where
  "is_private_answer line = (trim line = '''' \<or> to_lowercase (trim line) = ''y'')"

definition share_after_login ::
  "'v repl_env \<Rightarrow> snapshot \<Rightarrow> bool \<Rightarrow> (acct_error + unit) \<times> (snapshot \<times> bool) list" where
  "share_after_login E sn private =
     (case re_answer E 1 of
        Inl e \<Rightarrow> (Inl (Msg e), [])
      | Inr line \<Rightarrow>
          if to_lowercase (trim line) = ''y''
          then (case re_answer E 2 of
                  Inl e \<Rightarrow> (Inl (Msg e), [])
                | Inr handle \<Rightarrow>
                    (case re_sign_in E (trim handle) of
                       Inl _ \<Rightarrow> (Inr (), [])
                     | Inr _ \<Rightarrow> (map_err Msg (re_share E 1 sn private), [(sn, private)])))
          else (Inr (), []))"

definition share_snapshot ::
  "'v repl_env \<Rightarrow> snapshot \<Rightarrow> string \<Rightarrow> (acct_error + unit) \<times> (snapshot \<times> bool) list" where
  "share_snapshot E sn line =
     (let private = is_private_answer line in
      case re_share E 0 sn private of
        Inl e \<Rightarrow>
          if e = ''NOT_LOGGED_IN''
          then (case share_after_login E sn private of (r, again) \<Rightarrow> (r, (sn, private) # again))
          else (Inr (), [(sn, private)])
      | Inr _ \<Rightarrow> (Inr (), [(sn, private)]))"

definition process_share_session ::
  "'v repl_env \<Rightarrow> chat_db \<Rightarrow> string \<Rightarrow> string list \<Rightarrow> (acct_error + unit) \<times> (snapshot \<times> bool) list" where
  "process_share_session E db current args =
     (if args = [] then (Inr (), [])
      else
        case fetch_chats_by_session_id (case tl args of [] \<Rightarrow> current | sid # _ \<Rightarrow> sid) db of
          Inl e \<Rightarrow> (Inl e, [])
        | Inr d \<Rightarrow>
            (case d_sessions d of
               [] \<Rightarrow> (Inr (), [])
             | s # _ \<Rightarrow>
                 (case s_snapshot s of
                    None \<Rightarrow> (Inr (), [])
                  | Some text \<Rightarrow>
                      (case re_parse E text of
                         Inl e \<Rightarrow> (Inl (Msg e), [])
                       | Inr sn \<Rightarrow>
                           (case re_answer E 0 of
                              Inl e \<Rightarrow> (Inl (Msg e), [])
                            | Inr line \<Rightarrow> share_snapshot E sn line)))))"

definition set_reasoning_effort :: "string list \<Rightarrow> repl \<Rightarrow> (acct_error + unit) \<times> repl" where
  "set_reasoning_effort args w =
     (case args of
        [] \<Rightarrow> (Inl (Msg ''Not a valid command''), w)
      | [_] \<Rightarrow> (Inl (Msg ''Please provide Reasoning effort (none, low, medium, high, xhigh)''), w)
      | _ # a # _ \<Rightarrow>
          (case effort_from_str a of
             Inl e \<Rightarrow> (Inl (Msg e), w)
           | Inr e \<Rightarrow> send_pi (SetThinkingPayload (effort_to_string e)) w))"

datatype command_response = WaitForNextLine | ProcessNextInput

text \<open>An error of \<open>/resume\<close>, \<open>/status\<close> and \<open>/reasoning\<close> is printed, a panic ends the program. The
  lists that \<open>/sessions\<close> and \<open>/status\<close> print change nothing.\<close>

definition handle_input_commands ::
  "'v repl_env \<Rightarrow> string \<Rightarrow> repl \<Rightarrow> (acct_error + command_response) \<times> repl" where
  "handle_input_commands E cmd w =
     (let args = split_on CHR '' '' cmd in
      case command_of (to_lowercase (hd args)) of
        CmdShare \<Rightarrow>
          (case process_share_session E (rw_db w) (rs_id (rw_session w)) args of
             (r, shared) \<Rightarrow>
               (res_bind r (\<lambda>_. Inr ProcessNextInput), w\<lparr>rw_shared := rw_shared w @ shared\<rparr>))
      | CmdResume \<Rightarrow>
          (case load_session E args w of
             (Inl (Panic e), w) \<Rightarrow> (Inl (Panic e), w)
           | (_, w) \<Rightarrow> (Inr ProcessNextInput, w))
      | CmdReasoning \<Rightarrow>
          (case set_reasoning_effort args w of
             (Inl _, w) \<Rightarrow> (Inr ProcessNextInput, w)
           | (Inr _, w) \<Rightarrow> (Inr WaitForNextLine, w))
      | CmdSkills \<Rightarrow>
          (case send_pi GetCommandsPayload w of
             (Inl e, w) \<Rightarrow> (Inl e, w)
           | (Inr _, w) \<Rightarrow> (Inr WaitForNextLine, w))
      | _ \<Rightarrow> (Inr ProcessNextInput, w))"

text \<open>What a response to a command changes. A skill's name loses the six bytes of \<open>skill:\<close>; a
  shorter name panics.\<close>

definition persist_default_thinking_level :: "bool \<Rightarrow> string \<Rightarrow> settings \<Rightarrow> (string + unit) \<times> settings" where
  "persist_default_thinking_level writable level s =
     (case (case s of Settings m \<Rightarrow> Some m | NoObject \<Rightarrow> None | _ \<Rightarrow> Some (\<lambda>_. None)) of
        None \<Rightarrow> (Inl ''settings.json is not a JSON object'', s)
      | Some m \<Rightarrow>
          if writable then (Inr (), Settings (m(''defaultThinkingLevel'' \<mapsto> level)))
          else (Inl ''Failed to write settings.json'', s))"

definition skill_names :: "skill_command list \<Rightarrow> acct_error + string list" where
  "skill_names cs =
     (if list_all (\<lambda>c. 6 \<le> length (sk_name c)) cs then Inr (map (\<lambda>c. drop 6 (sk_name c)) cs)
      else Inl (Panic ''failed to split string''))"

definition process_command :: "'v repl_env \<Rightarrow> 'v response_msg \<Rightarrow> repl \<Rightarrow> (acct_error + unit) \<times> repl" where
  "process_command E m w =
     (case rm_command m of
        CmdSetThinkingLevel \<Rightarrow>
          (case get_pi_state (re_dec E) (re_state E) (re_ask_id E) (re_patience E) (rw_agent w) of
             (Inl e, a) \<Rightarrow> (Inl (Msg e), w\<lparr>rw_agent := a\<rparr>)
           | (Inr st, a) \<Rightarrow>
               (case effort_from_str (sd_thinking_level st) of
                  Inl _ \<Rightarrow> (Inr (), w\<lparr>rw_agent := a\<rparr>)
                | Inr e \<Rightarrow>
                    (Inr (), w\<lparr>rw_agent := a, rw_session := (rw_session w)\<lparr>rs_effort := e\<rparr>,
                       rw_settings := snd (persist_default_thinking_level (re_settings_ok E)
                         (sd_thinking_level st) (rw_settings w))\<rparr>)))
      | CmdGetCommands \<Rightarrow>
          (case rm_data m of
             None \<Rightarrow> (Inr (), w)
           | Some v \<Rightarrow>
               (case re_skills E v of
                  Inl e \<Rightarrow> (Inl (Msg e), w)
                | Inr None \<Rightarrow> (Inr (), w)
                | Inr (Some cs) \<Rightarrow> (res_bind (skill_names cs) (\<lambda>_. Inr ()), w)))
      | _ \<Rightarrow> (Inr (), w))"

section \<open>The loop\<close>

text \<open>Pi's lines after a prompt or a command, up to the one that ends the answer. Ctrl-C is looked
  for at each line: \<open>re_ctrlc\<close> says whether it was pressed, by the number of lines still to
  come. Such a line is not looked at.\<close>

definition lines_left :: "pi_line list \<Rightarrow> repl \<Rightarrow> repl" where
  "lines_left ls w = w\<lparr>rw_agent := (rw_agent w)\<lparr>pa_out := ls\<rparr>\<rparr>"

fun respond :: "'v repl_env \<Rightarrow> pi_line list \<Rightarrow> repl \<Rightarrow> (acct_error + unit) \<times> repl" where
  "respond E [] w = (Inr (), lines_left [] w)"
| "respond E (ReadFailed # ls) w = (Inl (Msg ''reading from Pi failed''), lines_left ls w)"
| "respond E (Line l # ls) w =
     (if re_ctrlc E (length ls)
      then (case send_pi AbortPayload w of
              (Inl e, w) \<Rightarrow> (Inl e, lines_left ls w)
            | (Inr _, w) \<Rightarrow> respond E ls w)
      else
        case re_dec E l of
          None \<Rightarrow> (Inl (Msg ''Failed to parse Pi response''), lines_left ls w)
        | Some (AgentEnd ms) \<Rightarrow> process_pi_agent_end_event E ms (lines_left ls w)
        | Some (Response m) \<Rightarrow>
            (if \<not> rm_success m then (Inr (), lines_left ls w)
             else if rm_command m = CmdUnknown \<or> rm_command m = CmdAbort then respond E ls w
             else process_command E m (lines_left ls w))
        | Some _ \<Rightarrow> respond E ls w)"

definition name_session :: "string \<Rightarrow> repl \<Rightarrow> repl" where
  "name_session input w =
     (let rs = rw_session w in
      if rs_started rs then w
      else w\<lparr>rw_session := rs\<lparr>rs_snapshot := (rs_snapshot rs)\<lparr>sn_name := input\<rparr>\<rparr>\<rparr>)"

definition read_reply_for :: "'v repl_env \<Rightarrow> string \<Rightarrow> repl \<Rightarrow> (acct_error + bool) \<times> repl" where
  "read_reply_for E input w =
     (case respond E (pa_out (rw_agent w)) (name_session input w) of
        (r, w) \<Rightarrow> (res_bind r (\<lambda>_. Inr True), w))"

text \<open>Pi is told to abort on the way out.\<close>

definition repl_exit :: "repl \<Rightarrow> (acct_error + bool) \<times> repl" where
  "repl_exit w = (case send_pi AbortPayload w of (r, w) \<Rightarrow> (res_bind r (\<lambda>_. Inr False), w))"

text \<open>One typed line: whether the chat goes on. The line is read in lower case as a command, and as
  it is as a prompt.\<close>

definition repl_step :: "'v repl_env \<Rightarrow> string \<Rightarrow> repl \<Rightarrow> (acct_error + bool) \<times> repl" where
  "repl_step E line w =
     (let input = trim line in
      if input = '''' then (Inr True, w)
      else
        case handle_input (to_lowercase input) of
          SkipInput \<Rightarrow> (Inr True, w)
        | ExitInput \<Rightarrow> repl_exit w
        | PromptInput \<Rightarrow>
            (case handle_input_prompt input w of
               (Inl e, w) \<Rightarrow> (Inl e, w)
             | (Inr _, w) \<Rightarrow> read_reply_for E input w)
        | SkillInput \<Rightarrow>
            (case handle_input_prompt (''/skill:'' @ drop 1 input) w of
               (Inl e, w) \<Rightarrow> (Inl e, w)
             | (Inr _, w) \<Rightarrow> read_reply_for E input w)
        | CommandInput cmd \<Rightarrow>
            (case handle_input_commands E cmd w of
               (Inl e, w) \<Rightarrow> (Inl e, w)
             | (Inr ProcessNextInput, w) \<Rightarrow> (Inr True, w)
             | (Inr WaitForNextLine, w) \<Rightarrow> read_reply_for E input w))"

text \<open>The lines typed, until one ends the chat or there are no more.\<close>

fun repl_loop :: "'v repl_env \<Rightarrow> string list \<Rightarrow> repl \<Rightarrow> (acct_error + unit) \<times> repl" where
  "repl_loop E [] w = (case repl_exit w of (r, w) \<Rightarrow> (res_bind r (\<lambda>_. Inr ()), w))"
| "repl_loop E (line # lines) w =
     (case repl_step E line w of
        (Inl e, w) \<Rightarrow> (Inl e, w)
      | (Inr True, w) \<Rightarrow> repl_loop E lines w
      | (Inr False, w) \<Rightarrow> (Inr (), w))"

text \<open>Whether the inference server is stopped with the chat: unless the configuration has a section
  for it that says it is to stay.\<close>

definition stops_server :: "bool option \<Rightarrow> bool" where
  "stops_server daemon = (case daemon of Some d \<Rightarrow> \<not> d | None \<Rightarrow> True)"

section \<open>What is shown\<close>

definition pad_line :: "nat \<Rightarrow> string \<times> string \<Rightarrow> string" where
  "pad_line n kv = fst kv @ '':'' @ replicate (n - length (fst kv)) CHR '' '' @ [CHR 0x09] @ snd kv"

text \<open>\<open>paint\<close> colours a text; the login is a handle with its key.\<close>

definition build_status_lines ::
  "(string \<Rightarrow> string \<Rightarrow> string) \<Rightarrow> string \<Rightarrow> session option \<Rightarrow> repl_session \<Rightarrow> (string \<times> string) option \<Rightarrow> string list" where
  "build_status_lines paint cwd sess rs login =
     (let kvs =
        [(''Session'', case sess of
             Some s \<Rightarrow> paint ''yellow'' (s_name s) @ '' ('' @ paint ''dimmed'' (s_id s) @ '')''
           | None \<Rightarrow> ''Session not started yet''),
         (''Model'', rs_model rs),
         (''Reasoning'', effort_to_string (rs_effort rs)),
         (''Working Directory'', cwd),
         (''ATProto'', case login of
             Some (handle, key) \<Rightarrow>
               paint ''blue'' ''@'' @ paint ''blue'' handle @ '' ('' @ paint ''dimmed'' key @ '')''
           | None \<Rightarrow> ''Not logged-in'')]
      in map (pad_line (foldl (\<lambda>acc x. if length (fst x) > acc then length (fst x) else acc) 0 kvs)) kvs)"

text \<open>What the terminal shows while an answer comes in.\<close>

definition shown_message :: "(string \<Rightarrow> string \<Rightarrow> string) \<Rightarrow> asst_msg \<Rightarrow> string" where
  "shown_message paint m =
     (let nl = [CHR 0x0A]; dimmed = (case am_delta m of Some d \<Rightarrow> paint ''dimmed'' d | None \<Rightarrow> '''') in
      case am_type m of
        TextStart \<Rightarrow> nl @ paint ''bold'' ''**[Answer]**'' @ nl @ nl
      | TextDelta \<Rightarrow> unwrap_or_empty (am_delta m)
      | ThinkingStart \<Rightarrow> nl @ paint ''dimmed'' ''**[Reasoning]**'' @ nl @ nl
      | ThinkingDelta \<Rightarrow> dimmed
      | ThinkingEnd \<Rightarrow> nl
      | ToolcallStart \<Rightarrow> nl @ paint ''dimmed'' ''**[Tool Calling]**'' @ nl
      | ToolcallDelta \<Rightarrow> dimmed
      | _ \<Rightarrow> '''')"

section \<open>Loading a model\<close>

text \<open>The one GGUF file in the folder whose name ends with the quant; parts of a model with other uses
  don't count. An entry is a name and whether it is a file.\<close>

definition is_gguf_of :: "string \<Rightarrow> string \<times> bool \<Rightarrow> bool" where
  "is_gguf_of quant entry =
     (let (name, is_file) = entry; low = to_lowercase name in
      is_file \<and> (case rsplit_once CHR ''.'' name of Some (a, ext) \<Rightarrow> a \<noteq> '''' \<and> ext = ''gguf'' | None \<Rightarrow> False) \<and>
      ends_with low (to_lowercase quant @ ''.gguf'') \<and> \<not> contains low ''mmproj'' \<and> \<not> contains low ''mtp'')"

definition resolve_gguf_path ::
  "string \<Rightarrow> string option \<Rightarrow> (string + (string \<times> bool) list) \<Rightarrow> string + string" where
  "resolve_gguf_path cache quant entries =
     (case quant of
        None \<Rightarrow> Inr cache
      | Some q \<Rightarrow>
          res_bind entries (\<lambda>es.
            (let named = '' matching quant '' @ CHR 0x27 # q @ CHR 0x27 # '' '' in
             case map (\<lambda>e. cache @ ''/'' @ fst e) (filter (is_gguf_of q) es) of
               [] \<Rightarrow> Inl (''No gguf'' @ named @ ''found in '' @ cache)
             | [path] \<Rightarrow> Inr path
             | paths \<Rightarrow> Inl (''Multiple gguf files'' @ named @ ''in '' @ cache @ '': ['' @
                               join '', '' (map debug_str paths) @ '']''))))"

text \<open>The warnings the inference server sends with a loaded model: the texts in a list under their
  name, anything else being skipped.\<close>

datatype 'v warning = TextWarning string | OtherWarning 'v

definition model_load_warnings :: "'v warning list option \<Rightarrow> string list" where
  "model_load_warnings warnings =
     (case warnings of
        None \<Rightarrow> []
      | Some ws \<Rightarrow> filter_map (\<lambda>x. case x of TextWarning t \<Rightarrow> Some t | OtherWarning _ \<Rightarrow> None) ws)"

text \<open>
  A model is started from the cache and downloaded as long as that fails. The computer is a state:
  \<open>cached\<close> finds the model's folder in it, \<open>start\<close> resolves the file and has the server load it, and
  \<open>pull\<close> downloads. The result lists the calls made; \<open>None\<close> is no end within the fuel.
\<close>

datatype load_call = StartCall | PullCall

definition max_load_model_retries :: nat where
  "max_load_model_retries = 3"

fun load_model ::
  "('s \<Rightarrow> string option) \<Rightarrow> (string \<Rightarrow> 's \<Rightarrow> (string + unit) \<times> 's) \<Rightarrow> ('s \<Rightarrow> (string + unit) \<times> 's)
     \<Rightarrow> nat \<Rightarrow> nat \<Rightarrow> 's \<Rightarrow> ((string + unit) \<times> load_call list \<times> 's) option" where
  "load_model cached start pull 0 retries s = None"
| "load_model cached start pull (Suc fuel) retries s =
     (let after = (\<lambda>calls retries s.
        (case pull s of
           (Inl e, s) \<Rightarrow> Some (Inl (''Download failed due to '' @ e), calls @ [PullCall], s)
         | (Inr _, s) \<Rightarrow>
             map_option (\<lambda>(r, cs, s). (r, calls @ PullCall # cs, s))
               (load_model cached start pull fuel retries s)))
      in if retries > max_load_model_retries
         then Some (Inl (''Model loading retried failed after '' @ show_nat retries @ '' times''), [], s)
         else case cached s of
                None \<Rightarrow> after [] 0 s
              | Some path \<Rightarrow>
                  (case start path s of
                     (Inr _, s) \<Rightarrow> Some (Inr (), [StartCall], s)
                   | (Inl _, s) \<Rightarrow> after [StartCall] (retries + 1) s))"

section \<open>The text of an answer\<close>

text \<open>What the text of an answer is made of: parts of the reasoning, parts of the answer, and others
  that don't count.\<close>

definition is_reasoning :: "msg_content \<Rightarrow> bool" where
  "is_reasoning m \<longleftrightarrow> mc_type m = ''thinking'' \<or> mc_type m = ''toolCall'' \<and> mc_arguments m \<noteq> None"

definition is_text :: "msg_content \<Rightarrow> bool" where
  "is_text m \<longleftrightarrow> mc_type m = ''text''"

definition part_text :: "(string \<Rightarrow> string) \<Rightarrow> msg_content \<Rightarrow> string" where
  "part_text quote m =
     (if mc_type m = ''thinking'' then unwrap_or_empty (mc_thinking m)
      else if mc_type m = ''toolCall'' then tool_text quote m (unwrap_or_empty (mc_arguments m))
      else unwrap_or_empty (mc_text m))"

definition parts_text :: "(string \<Rightarrow> string) \<Rightarrow> msg_content list \<Rightarrow> string" where
  "parts_text quote ms = concat (map (part_text quote) ms)"

definition relevant :: "msg_content list \<Rightarrow> msg_content list" where
  "relevant ms = filter (\<lambda>m. is_reasoning m \<or> is_text m) ms"

lemma part_kinds:
  "is_reasoning m \<Longrightarrow> \<not> is_text m"
  "is_text m \<Longrightarrow> \<not> is_reasoning m"
  by (auto simp: is_reasoning_def is_text_def)

lemma parts_text_simps [simp]:
  "parts_text quote [] = ''''"
  "parts_text quote (m # ms) = part_text quote m @ parts_text quote ms"
  by (simp_all add: parts_text_def)

lemma relevant_simps [simp]:
  "relevant [] = []"
  "relevant (m # ms) = (if is_reasoning m \<or> is_text m then m # relevant ms else relevant ms)"
  by (simp_all add: relevant_def)

text \<open>One step of the loop, by the kind of the part.\<close>

lemma format_Cons:
  "format_from quote reasoning answer (m # ms) =
     (if is_reasoning m
      then (if reasoning then '''' else reasoning_mark) @ part_text quote m @ format_from quote True answer ms
      else if is_text m
      then (if reasoning \<and> \<not> answer then answer_mark else '''') @ part_text quote m @
           format_from quote reasoning (answer \<or> reasoning) ms
      else format_from quote reasoning answer ms)"
  by (auto simp: is_reasoning_def is_text_def part_text_def unwrap_or_empty_def split: option.splits)

lemma format_answer: "format_from quote True True ms = parts_text quote (relevant ms)"
  by (induction ms) (simp_all add: format_Cons del: format_from.simps(2))

lemma format_reasoning:
  "format_from quote True False ms =
     parts_text quote (takeWhile is_reasoning (relevant ms)) @
     (case dropWhile is_reasoning (relevant ms) of [] \<Rightarrow> '''' | rest \<Rightarrow> answer_mark @ parts_text quote rest)"
proof (induction ms)
  case (Cons m ms)
  show ?case
    using Cons.IH part_kinds(2) [of m]
    by (cases "is_reasoning m"; cases "is_text m")
      (simp_all add: format_Cons format_answer del: format_from.simps(2))
qed simp

text \<open>C39. The text of an answer: what is said before any reasoning, then, if there is reasoning,
  its mark with the reasoning, and then, if anything is said after it, the mark of the answer
  with all the rest. Each mark is there at most once, so reasoning and tool calls that follow the
  first text after them stand under the answer.\<close>

theorem answer_text_correct:
  "format_assistant_content quote ms =
     (let said = takeWhile is_text (relevant ms); rest = dropWhile is_text (relevant ms) in
      parts_text quote said @
      (if rest = [] then ''''
       else reasoning_mark @ parts_text quote (takeWhile is_reasoning rest) @
         (let answer = dropWhile is_reasoning rest in
          if answer = [] then '''' else answer_mark @ parts_text quote answer)))"
proof (unfold format_assistant_content_def, induction ms)
  case (Cons m ms)
  show ?case
    using Cons.IH part_kinds [of m]
    by (cases "is_reasoning m"; cases "is_text m")
      (auto simp add: format_Cons format_reasoning Let_def split: list.splits simp del: format_from.simps(2) dropWhile_eq_Nil_conv)
qed simp

section \<open>Loading a model ends\<close>

lemma load_uncached:
  "cached s = None \<Longrightarrow> retries \<le> 3 \<Longrightarrow> load_model cached start pull (Suc fuel) retries s =
     (case pull s of
        (Inl e, s) \<Rightarrow> Some (Inl (''Download failed due to '' @ e), [PullCall], s)
      | (Inr _, s) \<Rightarrow>
          map_option (\<lambda>(r, cs, s). (r, PullCall # cs, s)) (load_model cached start pull fuel 0 s))"
  by (simp add: Let_def max_load_model_retries_def split: prod.split sum.split)

lemma load_model_cached:
  assumes pulled: "\<forall>s s'. pull s = (Inr (), s') \<longrightarrow> cached s' \<noteq> None"
  shows "retries \<le> 4 \<Longrightarrow> 5 \<le> fuel + retries \<Longrightarrow> cached s \<noteq> None \<Longrightarrow>
    \<exists>r cs s'. load_model cached start pull fuel retries s = Some (r, cs, s') \<and>
      count_list cs StartCall + retries \<le> 4 \<and> count_list cs PullCall + retries \<le> 4 \<and>
      (r = Inr () \<longleftrightarrow> cs \<noteq> [] \<and> last cs = StartCall)"
proof (induction fuel arbitrary: retries s)
  case (Suc fuel)
  show ?case
  proof (cases "retries > max_load_model_retries")
    case True
    with Suc.prems show ?thesis by (auto simp: max_load_model_retries_def)
  next
    case False
    then have r: "retries \<le> 3" by (simp add: max_load_model_retries_def)
    from Suc.prems obtain path where path: "cached s = Some path" by blast
    obtain r1 s1 where start: "start path s = (r1, s1)" by fastforce
    obtain r2 s2 where pull: "pull s1 = (r2, s2)" by fastforce
    show ?thesis
    proof (cases r1)
      case (Inr u)
      with False path start r show ?thesis by (auto simp: Let_def)
    next
      case (Inl e)
      show ?thesis
      proof (cases r2)
        case (Inl e2)
        with \<open>r1 = Inl e\<close> False path start pull r show ?thesis by (auto simp: Let_def)
      next
        case (Inr u)
        then have "cached s2 \<noteq> None" using pull pulled by simp
        with Suc.IH [of "Suc retries" s2] Suc.prems r obtain r' cs s' where
          rec: "load_model cached start pull fuel (Suc retries) s2 = Some (r', cs, s')"
            "count_list cs StartCall + Suc retries \<le> 4" "count_list cs PullCall + Suc retries \<le> 4"
            "r' = Inr () \<longleftrightarrow> cs \<noteq> [] \<and> last cs = StartCall" by auto
        have "load_model cached start pull (Suc fuel) retries s =
            Some (r', StartCall # PullCall # cs, s')"
          using False path start pull Inr \<open>r1 = Inl e\<close> rec(1) by (simp add: Let_def)
        with rec(2-4) show ?thesis by auto
      qed
    qed
  qed
qed simp

text \<open>Loading a model ends, where a download that says it is done leaves the model in the cache:
  after at most five downloads and four attempts to start it. It succeeds exactly when the last
  thing it did was an attempt to start the model, and otherwise returns an error.\<close>

theorem load_model_ends:
  assumes "\<forall>s s'. pull s = (Inr (), s') \<longrightarrow> cached s' \<noteq> None"
  shows "\<exists>r cs s'. load_model cached start pull 6 0 s = Some (r, cs, s') \<and>
    count_list cs StartCall \<le> 4 \<and> count_list cs PullCall \<le> 5 \<and>
    (r = Inr () \<longleftrightarrow> cs \<noteq> [] \<and> last cs = StartCall)"
proof (cases "cached s")
  case (Some path)
  then obtain r cs s' where "load_model cached start pull 6 0 s = Some (r, cs, s')"
      "count_list cs StartCall + 0 \<le> 4" "count_list cs PullCall + 0 \<le> 4"
      "r = Inr () \<longleftrightarrow> cs \<noteq> [] \<and> last cs = StartCall"
    using load_model_cached [where cached = cached and pull = pull and retries = 0 and fuel = 6 and s = s and start = start, OF assms] by auto
  then show ?thesis by auto
next
  case None
  obtain r1 s1 where pull: "pull s = (r1, s1)" by fastforce
  note first = load_uncached [where cached = cached and s = s and fuel = 5 and retries = 0 and start = start and pull = pull, OF None, simplified]
  show ?thesis
  proof (cases r1)
    case (Inl e)
    with pull first show ?thesis by auto
  next
    case (Inr u)
    then have "cached s1 \<noteq> None" using pull assms by simp
    then obtain r cs s' where rec: "load_model cached start pull 5 0 s1 = Some (r, cs, s')"
        "count_list cs StartCall + 0 \<le> 4" "count_list cs PullCall + 0 \<le> 4"
        "r = Inr () \<longleftrightarrow> cs \<noteq> [] \<and> last cs = StartCall"
      using load_model_cached [where cached = cached and pull = pull and retries = 0 and fuel = 5 and s = s1 and start = start, OF assms]
      by auto
    then have "load_model cached start pull 6 0 s = Some (r, PullCall # cs, s')"
      using pull Inr first by simp
    with rec(2-4) show ?thesis by auto
  qed
qed

lemma load_model_ends_witness:
  "load_model (\<lambda>n::nat. if n = 0 then None else Some ''m'') (\<lambda>_ n. (if n < 3 then Inl ''partial'' else Inr (), n))
     (\<lambda>n. (Inr (), n + 1)) 6 0 0 =
     Some (Inr (), [PullCall, StartCall, PullCall, StartCall, PullCall, StartCall], 3) \<and>
   (\<exists>r cs s'. load_model (\<lambda>n::nat. if n = 0 then None else Some ''m'')
     (\<lambda>_ n. (if n < 3 then Inl ''partial'' else Inr (), n)) (\<lambda>n. (Inr (), n + 1)) 6 0 0 = Some (r, cs, s') \<and>
    count_list cs StartCall \<le> 4 \<and> count_list cs PullCall \<le> 5 \<and>
    (r = Inr () \<longleftrightarrow> cs \<noteq> [] \<and> last cs = StartCall))"
proof
  show "load_model (\<lambda>n::nat. if n = 0 then None else Some ''m'') (\<lambda>_ n. (if n < 3 then Inl ''partial'' else Inr (), n))
     (\<lambda>n. (Inr (), n + 1)) 6 0 0 =
     Some (Inr (), [PullCall, StartCall, PullCall, StartCall, PullCall, StartCall], 3)"
    by (simp add: eval_nat_numeral Let_def max_load_model_retries_def)
qed (rule load_model_ends, auto)

text \<open>Where a download says it is done and the model is still not found, there is no end.\<close>

lemma never_cached_never_ends:
  assumes "\<And>s. cached s = None" and "\<And>s. fst (pull s) = Inr ()"
  shows "load_model cached start pull fuel 0 s = None"
proof (induction fuel arbitrary: s)
  case (Suc fuel)
  obtain s' where "pull s = (Inr (), s')" using assms(2) [of s] by (metis prod.collapse)
  with assms(1) Suc show ?case by (simp add: Let_def max_load_model_retries_def)
qed simp

section \<open>Sharing\<close>

text \<open>What is read of one session: its chats in the order of their ids and the session itself, where
  it has chats and a name.\<close>

lemma session_chats_read:
  assumes "fetch_chats_by_session_id sid db = Inr d"
  shows "d_chats d = map read_row (sort_key cr_id (filter (\<lambda>r. cr_session r = Some sid) (chats db)))"
    and "\<And>s. s \<in> set (d_sessions d) \<longleftrightarrow>
      sid \<noteq> '''' \<and> fetch_session db sid = Some s \<and> (\<exists>r\<in>set (chats db). cr_session r = Some sid)"
    and "\<And>r. r \<in> set (chats db) \<Longrightarrow> cr_session r = Some sid \<Longrightarrow> readable_row r"
proof -
  let ?P = "\<lambda>r. cr_session r = Some sid"
  show readable: "readable_row r" if "r \<in> set (chats db)" "?P r" for r
    using fetch_delta_fails [of r db ?P] that assms by (auto simp: fetch_chats_by_session_id_def)
  then have d: "d = \<lparr>d_chats = map read_row (sort_key cr_id (filter ?P (chats db))),
      d_sessions = note_all db (sort_key cr_id (filter ?P (chats db))) []\<rparr>"
    using assms by (simp add: fetch_chats_by_session_id_def fetch_delta_ok readable)
  then show "d_chats d = map read_row (sort_key cr_id (filter ?P (chats db)))" by simp
  have "set (d_sessions d) =
      set [] \<union> {s. \<exists>r\<in>set (sort_key cr_id (filter ?P (chats db))).
        unwrap_or_empty (cr_session r) \<noteq> [] \<and> fetch_session db (unwrap_or_empty (cr_session r)) = Some s}"
    unfolding d delta.select_convs by (rule note_all_spec [THEN conjunct2]) simp_all
  then show "\<And>s. s \<in> set (d_sessions d) \<longleftrightarrow>
      sid \<noteq> '''' \<and> fetch_session db sid = Some s \<and> (\<exists>r\<in>set (chats db). cr_session r = Some sid)"
    by (auto simp: unwrap_or_empty_def)
qed

lemma share_after_login_shared: "set (snd (share_after_login E sn private)) \<subseteq> {(sn, private)}"
  by (auto simp: share_after_login_def split: sum.splits)

lemma share_snapshot_shared: "set (snd (share_snapshot E sn line)) = {(sn, is_private_answer line)}"
  using share_after_login_shared [of E sn "is_private_answer line"]
  by (auto simp: share_snapshot_def Let_def split: sum.splits prod.splits)

text \<open>C36. All that \<open>/share\<close> hands over for sharing is the stored snapshot of the session named, or of
  the current one, and it is shared as a private session exactly when the answer to the question
  was empty or the single letter y. Any other answer, such as the word yes, makes it public.\<close>

theorem share_follows_answer:
  assumes "process_share_session E db current args = (r, shared)" and "(sn, private) \<in> set shared"
  shows "\<exists>s body line.
    fetch_session db (case tl args of [] \<Rightarrow> current | sid # _ \<Rightarrow> sid) = Some s \<and>
    s_snapshot s = Some body \<and> re_parse E body = Inr sn \<and> re_answer E 0 = Inr line \<and>
    (private \<longleftrightarrow> trim line = '''' \<or> to_lowercase (trim line) = ''y'')"
proof -
  let ?sid = "case tl args of [] \<Rightarrow> current | sid # _ \<Rightarrow> sid"
  from assms have args: "args \<noteq> []" by (auto simp: process_share_session_def)
  with assms obtain d where d: "fetch_chats_by_session_id ?sid db = Inr d"
    by (auto simp: process_share_session_def split: sum.splits)
  with assms args obtain s ss where s: "d_sessions d = s # ss"
    by (auto simp: process_share_session_def split: list.splits sum.splits)
  with assms args d obtain body where body: "s_snapshot s = Some body"
    by (auto simp: process_share_session_def split: option.splits)
  with assms args d s obtain sn' where sn: "re_parse E body = Inr sn'"
    by (auto simp: process_share_session_def split: sum.splits)
  with assms args d s body obtain line where line: "re_answer E 0 = Inr line"
    by (auto simp: process_share_session_def split: sum.splits)
  from assms args d s body sn line have "shared = snd (share_snapshot E sn' line)"
    by (simp add: process_share_session_def)
  with assms(2) have "sn = sn'" and "private = is_private_answer line"
    using share_snapshot_shared [of E sn' line] by auto
  moreover from d s have "fetch_session db ?sid = Some s"
    using session_chats_read(2) [OF d, of s] by simp
  ultimately show ?thesis
    using body sn line by (auto simp: is_private_answer_def)
qed

lemma yes_is_public: "\<not> is_private_answer ''yes''" "\<not> is_private_answer ''Yes''" "is_private_answer '' Y ''"
  by (simp_all add: is_private_answer_def trim_def trim_start_def trim_end_def is_space_def
      to_lowercase_def lower_char_def)

section \<open>An example\<close>

text \<open>A chat in which the agent answers hello to hi, with every question answered by yes.\<close>

definition said :: "role \<Rightarrow> string \<Rightarrow> msg_event" where
  "said role body = \<lparr>me_role = role,
     me_content = [\<lparr>mc_type = ''text'', mc_text = Some body, mc_thinking = None, mc_arguments = None, mc_name = None\<rparr>],
     me_stop_reason = None, me_timestamp = 0, me_tool_name = None\<rparr>"

definition chat_env :: "unit repl_env" where
  "chat_env = \<lparr>re_dec = \<lambda>l. if l = ''end'' then Some (AgentEnd [said User ''hi'', said Assistant ''hello'']) else Some AgentStart,
     re_state = \<lambda>_. Inl '''', re_skills = \<lambda>_. Inl '''', re_enc = \<lambda>_. Inr ''snap'',
     re_parse = \<lambda>_. Inr (snapshot_new '''' ''hi'' ''s''), re_quote = \<lambda>s. s, re_now = '''',
     re_draw = \<lambda>n. (replicate (Suc n) CHR ''x'', n), re_ctrlc = \<lambda>_. False, re_ask_id = '''', re_patience = 9,
     re_settings_ok = True, re_answer = \<lambda>_. Inr ''yes'', re_share = \<lambda>_ _ _. Inr (), re_sign_in = \<lambda>_. Inr (),
     re_user = ''u''\<rparr>"

definition shared_db :: chat_db where
  "shared_db = \<lparr>chats = [\<lparr>cr_id = ''1'', cr_user = ''u'', cr_content = ''hi'', cr_resp = None, cr_role = ''user'',
       cr_ctx = None, cr_created = 0, cr_updated = 0, cr_counter = 1, cr_session = Some ''s'', cr_model = None\<rparr>],
     sessions = [\<lparr>s_id = ''s'', s_name = ''hi'', s_created = 0, s_creator = ''u'', s_snapshot = Some ''snap''\<rparr>]\<rparr>"

lemma shared_publicly:
  "process_share_session chat_env shared_db ''s'' [''share''] = (Inr (), [(snapshot_new '''' ''hi'' ''s'', False)])"
  by (simp add: process_share_session_def fetch_chats_by_session_id_def fetch_delta_chats_def shared_db_def
      note_session_def fetch_session_def query_row_def from_row_def role_from_str_def to_lowercase_def lower_char_def
      unwrap_or_empty_def chat_env_def share_snapshot_def yes_is_public Let_def)

lemma share_follows_answer_witness:
  "\<exists>s body line. fetch_session shared_db ''s'' = Some s \<and> s_snapshot s = Some body \<and>
     re_parse chat_env body = Inr (snapshot_new '''' ''hi'' ''s'') \<and> re_answer chat_env 0 = Inr line \<and>
     (False \<longleftrightarrow> trim line = '''' \<or> to_lowercase (trim line) = ''y'')"
  using share_follows_answer [OF shared_publicly, of "snapshot_new '''' ''hi'' ''s''" False] by simp

end
