(* ===== verification/Conversation.thy ===== *)
theory Conversation
  imports Repl
begin

text \<open>
  What the chat of \<open>Repl\<close> leaves in the database: the chats of a saved turn, and that the chats of
  every session form one conversation, each answering the one before it, through prompts, failed
  replies and resumed sessions.
\<close>

section \<open>A saved turn\<close>

text \<open>A conversation: each chat answers the one before it, the first one \<open>p\<close>.\<close>

fun linked :: "string option \<Rightarrow> chat_row list \<Rightarrow> bool" where
  "linked p [] = True"
| "linked p (r # rs) = (cr_ctx r = p \<and> linked (Some (cr_id r)) rs)"

definition tip :: "string option \<Rightarrow> chat_row list \<Rightarrow> string option" where
  "tip p rs = (if rs = [] then p else Some (cr_id (last rs)))"

lemma tip_simps [simp]: "tip p [] = p" "tip p (r # rs) = tip (Some (cr_id r)) rs" "tip p (rs @ [r]) = Some (cr_id r)"
  by (simp_all add: tip_def)

lemma linked_append [simp]: "linked p (xs @ ys) \<longleftrightarrow> linked p xs \<and> linked (tip p xs) ys"
  by (induction xs arbitrary: p) simp_all

lemma tip_append [simp]: "tip p (xs @ ys) = tip (tip p xs) ys"
  by (simp add: tip_def)

definition of_turn :: "'v repl_env \<Rightarrow> repl \<Rightarrow> chat_row \<Rightarrow> bool" where
  "of_turn E w r \<longleftrightarrow> cr_session r = Some (rs_id (rw_session w)) \<and> cr_user r = re_user E"

text \<open>What one save does.\<close>

definition prompt_row :: "'v repl_env \<Rightarrow> repl \<Rightarrow> role \<Rightarrow> string \<Rightarrow> chat_row \<Rightarrow> bool" where
  "prompt_row E w role text r \<longleftrightarrow>
     cr_id r = fst (re_draw E (rw_draws w)) \<and> cr_content r = text \<and> cr_role r = string_of_role role \<and>
     of_turn E w r"

lemma save_prompt_ok:
  assumes "save_prompt E m w = (Inr (), w')"
  obtains r where "prompt_row E w User (get_pi_msg_content (me_content m)) r"
    and "cr_ctx r = (if rs_started (rw_session w) then rs_last (rw_session w) else None)"
    and "chats (rw_db w') = chats (rw_db w) @ [r]"
    and "rw_session w' = (rw_session w)\<lparr>rs_started := True, rs_last := Some (cr_id r)\<rparr>"
    and "rw_draws w' = Suc (rw_draws w)"
proof -
  let ?rs = "rw_session w"
  let ?resp = "reply_to User (get_pi_msg_content (me_content m)) (if rs_started ?rs then rs_last ?rs else None) ?rs"
  obtain uuid now where dr: "re_draw E (rw_draws w) = (uuid, now)" by fastforce
  obtain c db where c: "(if rs_started ?rs then save_chat (re_user E) ?resp uuid now (rw_db w)
      else save_first_chat (re_user E) (sn_name (rs_snapshot ?rs)) ?resp uuid now (rw_db w)) = Inr (c, db)"
    and w': "w' = w\<lparr>rw_draws := Suc (rw_draws w), rw_db := db,
      rw_session := ?rs\<lparr>rs_started := True, rs_last := Some (c_id c)\<rparr>\<rparr>"
    using assms by (cases "rs_started ?rs") (auto simp: save_prompt_def dr Let_def split: sum.splits)
  from c have "chats db = chats (rw_db w) @ [to_row c] \<and> c_id c = uuid \<and> c_content c = rp_input ?resp \<and>
      c_role c = User \<and> c_user c = re_user E \<and> c_ctx c = rp_parent ?resp \<and> c_session c = rs_id ?rs"
    by (auto simp: save_chat_eq save_first_chat_def create_session_eq Let_def reply_to_def
      split: if_splits option.splits)
  then show ?thesis
    by (intro that [of "to_row c"]) (simp_all add: w' dr prompt_row_def of_turn_def to_row_def reply_to_def)
qed

lemma save_answer_ok:
  assumes "save_answer E answer w = (Inr (), w')"
  obtains r where "prompt_row E w Assistant answer r" and "cr_ctx r = rs_last (rw_session w)"
    and "chats (rw_db w') = chats (rw_db w) @ [r]" and "sessions (rw_db w') = sessions (rw_db w)"
    and "rw_session w' = (rw_session w)\<lparr>rs_last := Some (cr_id r)\<rparr>"
    and "rw_draws w' = Suc (rw_draws w)"
proof -
  let ?rs = "rw_session w"
  obtain uuid now where dr: "re_draw E (rw_draws w) = (uuid, now)" by fastforce
  obtain c db where c: "save_chat (re_user E) (reply_to Assistant answer (rs_last ?rs) ?rs) uuid now (rw_db w) = Inr (c, db)"
    and w': "w' = w\<lparr>rw_draws := Suc (rw_draws w), rw_db := db, rw_session := ?rs\<lparr>rs_last := Some (c_id c)\<rparr>\<rparr>"
    using assms by (auto simp: save_answer_def dr Let_def split: sum.splits)
  from c have "chats db = chats (rw_db w) @ [to_row c] \<and> c_id c = uuid \<and> c_content c = answer \<and> c_role c = Assistant \<and>
      c_user c = re_user E \<and> c_ctx c = rs_last ?rs \<and> c_session c = rs_id ?rs \<and> sessions db = sessions (rw_db w)"
    by (auto simp: save_chat_eq Let_def reply_to_def split: if_splits)
  then show ?thesis
    by (intro that [of "to_row c"]) (simp_all add: w' dr prompt_row_def of_turn_def to_row_def)
qed

text \<open>A save that fails leaves the chats as they were.\<close>

lemma save_prompt_failed: "save_prompt E m w = (Inl e, w') \<Longrightarrow> rw_db w' = rw_db w"
  by (auto simp: save_prompt_def Let_def split: sum.splits prod.splits)

lemma save_answer_failed: "save_answer E answer w = (Inl e, w') \<Longrightarrow> rw_db w' = rw_db w"
  by (auto simp: save_answer_def Let_def split: sum.splits prod.splits)

text \<open>The snapshot is all that the last step changes.\<close>

lemma update_snapshot_ok:
  assumes "update_snapshot sid t db = Inr (s, db')"
  shows "chats db' = chats db" and "fetch_session db' sid = Some s" and "s_snapshot s = Some t"
    and "fetch_session db sid \<noteq> None"
proof -
  let ?f = "\<lambda>s. s\<lparr>s_snapshot := Some t\<rparr>"
  obtain ss where ss: "update_rows session_indexes (\<lambda>s. s_id s = sid) ?f (sessions db) = Inr ss"
    and db': "db' = db\<lparr>sessions := ss\<rparr>" and s: "fetch_session (db\<lparr>sessions := ss\<rparr>) sid = Some s"
  proof (cases "update_rows session_indexes (\<lambda>s. s_id s = sid) ?f (sessions db)")
    case (Inl e)
    with assms show ?thesis by (simp add: update_snapshot_def)
  next
    case (Inr ss)
    with assms show ?thesis by (intro that [of ss]) (auto simp: update_snapshot_def Let_def res_bind_eq_Inr)
  qed
  show "chats db' = chats db" and "fetch_session db' sid = Some s" using db' s by simp_all
  from fetch_session_Some [OF s] have "s \<in> set ss" and sid: "s_id s = sid" by simp_all
  moreover have "ss = map (\<lambda>x. if s_id x = sid then ?f x else x) (sessions db)"
    using ss by (simp add: update_rows_Inr)
  ultimately have "s \<in> (\<lambda>x. if s_id x = sid then ?f x else x) ` set (sessions db)"
    by (simp only: list.set_map)
  then obtain x where x: "s = (if s_id x = sid then ?f x else x)" "x \<in> set (sessions db)"
    by (rule imageE)
  have "s_id x = sid"
  proof (rule ccontr)
    assume "s_id x \<noteq> sid"
    with x(1) sid show False by simp
  qed
  with x(1) show "s_snapshot s = Some t" by simp
  show "fetch_session db sid \<noteq> None"
    using x(2) \<open>s_id x = sid\<close> by (auto simp: fetch_session_None)
qed

lemma save_snapshot_frame:
  "save_snapshot E t w = (r, w') \<Longrightarrow> chats (rw_db w') = chats (rw_db w) \<and> rw_draws w' = rw_draws w \<and>
     rw_session w' = (rw_session w)\<lparr>rs_snapshot := (rs_snapshot (rw_session w))
       \<lparr>sn_turns := sn_turns (rs_snapshot (rw_session w)) @ [t]\<rparr>\<rparr>"
  by (auto simp: save_snapshot_def Let_def update_snapshot_ok split: sum.splits)

lemma save_snapshot_ok:
  assumes "save_snapshot E t w = (Inr (), w')"
  shows "\<exists>s snap. re_enc E (rs_snapshot (rw_session w')) = Inr snap \<and>
      fetch_session (rw_db w') (rs_id (rw_session w)) = Some s \<and> s_snapshot s = Some snap"
    and "fetch_session (rw_db w) (rs_id (rw_session w)) \<noteq> None"
  using assms
  by (auto simp: save_snapshot_def Let_def update_snapshot_ok split: sum.splits dest: update_snapshot_ok(4))

text \<open>The user's messages are saved one after the other.\<close>

definition prompts :: "msg_event list \<Rightarrow> msg_event list" where
  "prompts ms = filter (\<lambda>m. me_role m = User) ms"

definition assistant_parts :: "msg_event list \<Rightarrow> msg_content list" where
  "assistant_parts ms = concat (map me_content (filter (\<lambda>m. me_role m = Assistant) ms))"

lemma message_kinds [simp]:
  "prompts [] = []" "assistant_parts [] = []"
  "prompts (m # ms) = (if me_role m = User then m # prompts ms else prompts ms)"
  "assistant_parts (m # ms) = (if me_role m = Assistant then me_content m @ assistant_parts ms else assistant_parts ms)"
  by (simp_all add: prompts_def assistant_parts_def)

text \<open>What the chat answers next: nothing before the session has started.\<close>

definition chat_before :: "repl_session \<Rightarrow> string option" where
  "chat_before rs = (if rs_started rs then rs_last rs else None)"

lemma of_turn_same: "rs_id (rw_session w') = rs_id (rw_session w) \<Longrightarrow> of_turn E w' r \<longleftrightarrow> of_turn E w r"
  by (simp add: of_turn_def)

lemma save_messages_ok:
  "save_messages E ms acc w = (Inr acc', w') \<Longrightarrow>
     \<exists>new. chats (rw_db w') = chats (rw_db w) @ new \<and>
       map cr_content new = map (get_pi_msg_content \<circ> me_content) (prompts ms) \<and>
       map cr_role new = replicate (length (prompts ms)) ''user'' \<and>
       map cr_id new = map (fst \<circ> re_draw E) [rw_draws w..<rw_draws w'] \<and>
       rw_draws w' = rw_draws w + length (prompts ms) \<and>
       linked (chat_before (rw_session w)) new \<and> (\<forall>r\<in>set new. of_turn E w r) \<and>
       acc' = acc @ assistant_parts ms \<and>
       rw_session w' = (rw_session w)\<lparr>rs_started := rs_started (rw_session w) \<or> prompts ms \<noteq> [],
         rs_last := if prompts ms = [] then rs_last (rw_session w) else tip None new\<rparr>"
proof (induction ms arbitrary: acc w)
  case (Cons m ms)
  show ?case
  proof (cases "me_role m = User")
    case True
    with Cons.prems obtain w1 where one: "save_prompt E m w = (Inr (), w1)"
      and rest: "save_messages E ms acc w1 = (Inr acc', w')"
      by (auto split: sum.splits prod.splits)
    from one obtain r where r: "prompt_row E w User (get_pi_msg_content (me_content m)) r"
      "cr_ctx r = chat_before (rw_session w)" "chats (rw_db w1) = chats (rw_db w) @ [r]"
      "rw_session w1 = (rw_session w)\<lparr>rs_started := True, rs_last := Some (cr_id r)\<rparr>"
      "rw_draws w1 = Suc (rw_draws w)"
      by (rule save_prompt_ok) (simp add: chat_before_def)
    from Cons.IH [OF rest] obtain new where new:
      "chats (rw_db w') = chats (rw_db w1) @ new"
      "map cr_content new = map (get_pi_msg_content \<circ> me_content) (prompts ms)"
      "map cr_role new = replicate (length (prompts ms)) ''user''"
      "map cr_id new = map (fst \<circ> re_draw E) [rw_draws w1..<rw_draws w']"
      "rw_draws w' = rw_draws w1 + length (prompts ms)"
      "linked (chat_before (rw_session w1)) new" "\<forall>r\<in>set new. of_turn E w1 r"
      "acc' = acc @ assistant_parts ms"
      "rw_session w' = (rw_session w1)\<lparr>rs_started := rs_started (rw_session w1) \<or> prompts ms \<noteq> [],
         rs_last := if prompts ms = [] then rs_last (rw_session w1) else tip None new\<rparr>"
      by blast
    have len: "length new = length (prompts ms)" using new(2) by (metis length_map)
    have upt: "[rw_draws w..<rw_draws w'] = rw_draws w # [rw_draws w1..<rw_draws w']"
      using r(5) new(5) by (simp only: upt_conv_Cons)
    show ?thesis
      by (rule exI [of _ "r # new"])
        (use True r new len upt in \<open>auto simp: prompt_row_def string_of_role_def chat_before_def of_turn_def tip_def\<close>)
  next
    case False
    then obtain acc1 where rest: "save_messages E ms acc1 w = (Inr acc', w')"
      and acc1: "acc1 = (if me_role m = Assistant then acc @ me_content m else acc)"
      using Cons.prems by (cases "me_role m") auto
    from Cons.IH [OF rest] False acc1 show ?thesis by auto
  qed
qed (simp add: chat_before_def)

text \<open>C16. A turn that is saved adds the user's prompts in order and then one answer, which holds what
  the assistant said in all its messages. The first of them answers the last chat of the session
  so far, each other one the chat before it, and the next turn will answer the last one. All
  belong to the session and the user. The snapshot stored with the session has gained the turn,
  with every message as the agent sent it.\<close>

theorem saved_turn_correct:
  assumes "save_agent_session E ms w = (Inr (), w')" and "rs_started (rw_session w) \<or> rs_last (rw_session w) = None"
  shows "\<exists>new s snap.
    chats (rw_db w') = chats (rw_db w) @ new \<and>
    map cr_content new = map (get_pi_msg_content \<circ> me_content) (prompts ms) @
      [format_assistant_content (re_quote E) (assistant_parts ms)] \<and>
    map cr_role new = replicate (length (prompts ms)) ''user'' @ [''assistant''] \<and>
    linked (rs_last (rw_session w)) new \<and> rs_last (rw_session w') = Some (cr_id (last new)) \<and>
    (\<forall>r\<in>set new. cr_session r = Some (rs_id (rw_session w)) \<and> cr_user r = re_user E) \<and>
    rs_id (rw_session w') = rs_id (rw_session w) \<and>
    sn_turns (rs_snapshot (rw_session w')) =
      sn_turns (rs_snapshot (rw_session w)) @ [new_turn (rs_model (rw_session w)) ms] \<and>
    fetch_session (rw_db w') (rs_id (rw_session w)) = Some s \<and> s_snapshot s = Some snap \<and>
    re_enc E (rs_snapshot (rw_session w')) = Inr snap"
proof -
  let ?answer = "format_assistant_content (re_quote E) (assistant_parts ms)"
  from assms(1) obtain acc w1 w2 where one: "save_messages E ms [] w = (Inr acc, w1)"
    and two: "save_answer E (format_assistant_content (re_quote E) acc) w1 = (Inr (), w2)"
    and three: "save_snapshot E (new_turn (rs_model (rw_session w)) ms) w2 = (Inr (), w')"
    by (auto simp: save_agent_session_def Let_def split: sum.splits prod.splits)
  from save_messages_ok [OF one] obtain ps where ps:
    "chats (rw_db w1) = chats (rw_db w) @ ps"
    "map cr_content ps = map (get_pi_msg_content \<circ> me_content) (prompts ms)"
    "map cr_role ps = replicate (length (prompts ms)) ''user''"
    "linked (chat_before (rw_session w)) ps" "\<forall>r\<in>set ps. of_turn E w r" "acc = assistant_parts ms"
    "rw_session w1 = (rw_session w)\<lparr>rs_started := rs_started (rw_session w) \<or> prompts ms \<noteq> [],
       rs_last := if prompts ms = [] then rs_last (rw_session w) else tip None ps\<rparr>"
    by auto
  from two obtain r where r: "prompt_row E w1 Assistant (format_assistant_content (re_quote E) acc) r"
    "cr_ctx r = rs_last (rw_session w1)" "chats (rw_db w2) = chats (rw_db w1) @ [r]"
    "rw_session w2 = (rw_session w1)\<lparr>rs_last := Some (cr_id r)\<rparr>"
    by (rule save_answer_ok)
  note snap = save_snapshot_frame [OF three] save_snapshot_ok(1) [OF three]
  have chat_before: "chat_before (rw_session w) = rs_last (rw_session w)"
    using assms(2) by (auto simp: chat_before_def)
  have len: "length ps = length (prompts ms)" using ps(2) by (metis length_map)
  then have "cr_ctx r = tip (rs_last (rw_session w)) ps"
    using r(2) ps(7) by (auto simp: tip_def)
  then have "linked (rs_last (rw_session w)) (ps @ [r])" using ps(4) chat_before by simp
  moreover have "\<forall>x\<in>set (ps @ [r]). of_turn E w x"
    using ps(5,7) r(1) by (simp add: prompt_row_def of_turn_def)
  moreover have "cr_content r = ?answer" "cr_role r = ''assistant''"
    using r(1) ps(6) by (simp_all add: prompt_row_def string_of_role_def)
  ultimately show ?thesis
    using ps r snap by (intro exI [of _ "ps @ [r]"]) (auto simp: of_turn_def)
qed

section \<open>Every session is one conversation\<close>

definition session_rows :: "string \<Rightarrow> chat_db \<Rightarrow> chat_row list" where
  "session_rows sid db = filter (\<lambda>r. cr_session r = Some sid) (chats db)"

text \<open>The chats of a session answer each other from the first one on, by growing id.\<close>

definition conversation :: "chat_row list \<Rightarrow> bool" where
  "conversation rs \<longleftrightarrow> linked None rs \<and> sorted_wrt (<) (map cr_id rs)"

definition conversations :: "chat_db \<Rightarrow> bool" where
  "conversations db \<longleftrightarrow> (\<forall>sid. conversation (session_rows sid db))"

text \<open>Ids come later than any before them, as those of UUID version 7 do.\<close>

definition draws_grow :: "'v repl_env \<Rightarrow> bool" where
  "draws_grow E \<longleftrightarrow> (\<forall>m n. m < n \<longrightarrow> fst (re_draw E m) < fst (re_draw E n))"

definition fresh_ids :: "'v repl_env \<Rightarrow> repl \<Rightarrow> bool" where
  "fresh_ids E w \<longleftrightarrow> (\<forall>r\<in>set (chats (rw_db w)). \<forall>n\<ge>rw_draws w. cr_id r < fst (re_draw E n))"

text \<open>The chat knows the last chat of its session, and a session that has not started is not there.\<close>

definition at_tip :: "repl \<Rightarrow> bool" where
  "at_tip w \<longleftrightarrow> (let rs = rw_session w in
     rs_last rs = tip None (session_rows (rs_id rs) (rw_db w)) \<and>
     (\<not> rs_started rs \<longrightarrow> session_rows (rs_id rs) (rw_db w) = [] \<and> fetch_session (rw_db w) (rs_id rs) = None))"

definition repl_inv :: "'v repl_env \<Rightarrow> repl \<Rightarrow> bool" where
  "repl_inv E w \<longleftrightarrow> conversations (rw_db w) \<and> fresh_ids E w \<and> at_tip w"

text \<open>What a step promises: the invariant if it goes on, and at least the conversations if it fails.\<close>

definition sound :: "'v repl_env \<Rightarrow> ('e + 'a) \<times> repl \<Rightarrow> bool" where
  "sound E res \<longleftrightarrow> (case res of (Inr _, w) \<Rightarrow> repl_inv E w | (Inl _, w) \<Rightarrow> conversations (rw_db w))"

lemma sound_simps [simp]:
  "sound E (Inr x, w) \<longleftrightarrow> repl_inv E w"
  "sound E (Inl e, w) \<longleftrightarrow> conversations (rw_db w)"
  by (simp_all add: sound_def)

lemma repl_inv_conversations: "repl_inv E w \<Longrightarrow> conversations (rw_db w)"
  by (simp add: repl_inv_def)

text \<open>The invariant looks at few fields only.\<close>

lemma repl_inv_cong:
  assumes "chats (rw_db w') = chats (rw_db w)" and "rw_draws w' = rw_draws w"
    and "rs_id (rw_session w') = rs_id (rw_session w)" and "rs_last (rw_session w') = rs_last (rw_session w)"
    and "rs_started (rw_session w') = rs_started (rw_session w)"
    and "rs_started (rw_session w) \<or> sessions (rw_db w') = sessions (rw_db w)"
  shows "repl_inv E w' \<longleftrightarrow> repl_inv E w"
proof -
  have "session_rows sid (rw_db w') = session_rows sid (rw_db w)" for sid
    using assms(1) by (simp add: session_rows_def)
  then show ?thesis
    using assms by (auto simp: repl_inv_def conversations_def fresh_ids_def at_tip_def Let_def fetch_session_def)
qed

text \<open>A chat with a fresh id that answers the tip of its session keeps every conversation.\<close>

lemma conversations_append:
  assumes "conversations db" and "chats db' = chats db @ [r]" and "cr_session r = Some sid"
    and "cr_ctx r = tip None (session_rows sid db)" and "\<forall>x\<in>set (chats db). cr_id x < cr_id r"
  shows "conversations db'" and "session_rows sid db' = session_rows sid db @ [r]"
proof -
  have rows: "session_rows s db' = (if s = sid then session_rows s db @ [r] else session_rows s db)" for s
    using assms(2,3) by (auto simp: session_rows_def)
  then show "session_rows sid db' = session_rows sid db @ [r]" by simp
  have "conversation (session_rows sid db @ [r])"
    using assms(1,4,5) by (auto simp: conversations_def conversation_def sorted_wrt_append session_rows_def)
  with rows assms(1) show "conversations db'" by (simp add: conversations_def)
qed

lemma append_sound:
  assumes inv: "repl_inv E w" and grow: "draws_grow E" and r: "prompt_row E w role body r"
    and ctx: "cr_ctx r = rs_last (rw_session w)" and rows: "chats (rw_db w') = chats (rw_db w) @ [r]"
    and draws: "rw_draws w' = Suc (rw_draws w)"
    and same: "rs_id (rw_session w') = rs_id (rw_session w)" "rs_last (rw_session w') = Some (cr_id r)"
  shows "conversations (rw_db w')" and "rs_started (rw_session w') \<Longrightarrow> repl_inv E w'"
proof -
  let ?sid = "rs_id (rw_session w)"
  have "\<forall>x\<in>set (chats (rw_db w)). cr_id x < cr_id r"
    using inv r by (simp add: repl_inv_def fresh_ids_def prompt_row_def)
  moreover have "cr_ctx r = tip None (session_rows ?sid (rw_db w))"
    using inv ctx by (simp add: repl_inv_def at_tip_def Let_def)
  moreover have "cr_session r = Some ?sid" using r by (simp add: prompt_row_def of_turn_def)
  ultimately have conv: "conversations (rw_db w')"
    and "session_rows ?sid (rw_db w') = session_rows ?sid (rw_db w) @ [r]"
    using inv rows conversations_append [of "rw_db w" "rw_db w'" r ?sid] by (simp_all add: repl_inv_def)
  then show "conversations (rw_db w')" by simp
  from \<open>session_rows ?sid (rw_db w') = _\<close>
  have "rs_last (rw_session w') = tip None (session_rows (rs_id (rw_session w')) (rw_db w'))"
    using same by simp
  moreover have "fresh_ids E w'"
    using inv grow r rows draws by (auto simp: repl_inv_def fresh_ids_def draws_grow_def prompt_row_def)
  ultimately show "repl_inv E w'" if "rs_started (rw_session w')"
    using conv that by (simp add: repl_inv_def at_tip_def Let_def)
qed

lemma save_prompt_sound:
  assumes "repl_inv E w" and "draws_grow E"
  shows "sound E (save_prompt E m w)"
proof -
  obtain res w' where eq: "save_prompt E m w = (res, w')" by fastforce
  show ?thesis
  proof (cases res)
    case (Inl e)
    with assms(1) eq show ?thesis by (simp add: save_prompt_failed repl_inv_conversations)
  next
    case (Inr u)
    with eq have "save_prompt E m w = (Inr (), w')" by simp
    then obtain r where r: "prompt_row E w User (get_pi_msg_content (me_content m)) r"
      "cr_ctx r = (if rs_started (rw_session w) then rs_last (rw_session w) else None)"
      "chats (rw_db w') = chats (rw_db w) @ [r]"
      "rw_session w' = (rw_session w)\<lparr>rs_started := True, rs_last := Some (cr_id r)\<rparr>"
      "rw_draws w' = Suc (rw_draws w)"
      by (rule save_prompt_ok)
    have "cr_ctx r = rs_last (rw_session w)"
      using r(2) assms(1) by (auto simp: repl_inv_def at_tip_def Let_def)
    with assms r Inr eq show ?thesis by (auto intro: append_sound(2))
  qed
qed

lemma save_messages_sound: "draws_grow E \<Longrightarrow> repl_inv E w \<Longrightarrow> sound E (save_messages E ms acc w)"
proof (induction ms arbitrary: acc w)
  case (Cons m ms)
  then show ?case
    using save_prompt_sound [of E w m] by (cases "me_role m") (auto split: sum.splits prod.splits)
qed simp

lemma save_snapshot_sound:
  assumes "repl_inv E w" and "rs_started (rw_session w)"
  shows "sound E (save_snapshot E t w)"
proof -
  obtain res w' where eq: "save_snapshot E t w = (res, w')" by fastforce
  have "repl_inv E w' \<longleftrightarrow> repl_inv E w"
    using save_snapshot_frame [OF eq] assms(2) by (intro repl_inv_cong) simp_all
  with assms(1) have "repl_inv E w'" by simp
  with eq show ?thesis by (cases res) (auto intro: repl_inv_conversations)
qed

lemma conversations_cong: "chats db' = chats db \<Longrightarrow> conversations db' = conversations db"
  by (simp add: conversations_def session_rows_def)

text \<open>A turn without a prompt in a session that has not started is not saved whole: its answer is,
  but there is no session to keep the snapshot.\<close>

lemma save_snapshot_missing:
  assumes "fetch_session (rw_db w) (rs_id (rw_session w)) = None" and "conversations (rw_db w)"
  shows "sound E (save_snapshot E t w)"
proof -
  obtain res w' where eq: "save_snapshot E t w = (res, w')" by fastforce
  with assms(1) obtain e where "res = Inl e"
    using save_snapshot_ok(2) [of E t w w'] by (cases res) auto
  moreover have "conversations (rw_db w')"
    using conversations_cong [OF save_snapshot_frame [OF eq, THEN conjunct1]] assms(2) by simp
  ultimately show ?thesis using eq by simp
qed

lemma save_agent_session_sound:
  assumes inv: "repl_inv E w" and grow: "draws_grow E"
  shows "sound E (save_agent_session E ms w)"
proof -
  let ?t = "new_turn (rs_model (rw_session w)) ms"
  obtain res w1 where one: "save_messages E ms [] w = (res, w1)" by fastforce
  with save_messages_sound [OF grow inv] have s1: "sound E (res, w1)" by metis
  show ?thesis
  proof (cases res)
    case (Inl e)
    with one s1 show ?thesis by (simp add: save_agent_session_def)
  next
    case (Inr acc)
    then have inv1: "repl_inv E w1" using s1 by simp
    obtain res2 w2 where two: "save_answer E (format_assistant_content (re_quote E) acc) w1 = (res2, w2)"
      by fastforce
    have eq: "save_agent_session E ms w = (case res2 of Inl e \<Rightarrow> (Inl e, w2) | Inr _ \<Rightarrow> save_snapshot E ?t w2)"
      using one Inr two by (simp add: save_agent_session_def split: sum.split)
    show ?thesis
    proof (cases res2)
      case (Inl e)
      with two inv1 eq show ?thesis by (simp add: save_answer_failed repl_inv_conversations)
    next
      case (Inr u)
      with two have "save_answer E (format_assistant_content (re_quote E) acc) w1 = (Inr (), w2)" by simp
      then obtain r where r: "prompt_row E w1 Assistant (format_assistant_content (re_quote E) acc) r"
        "cr_ctx r = rs_last (rw_session w1)" "chats (rw_db w2) = chats (rw_db w1) @ [r]"
        "sessions (rw_db w2) = sessions (rw_db w1)"
        "rw_session w2 = (rw_session w1)\<lparr>rs_last := Some (cr_id r)\<rparr>" "rw_draws w2 = Suc (rw_draws w1)"
        by (rule save_answer_ok)
      note app = append_sound [OF inv1 grow r(1,2,3,6)]
      show ?thesis
      proof (cases "rs_started (rw_session w1)")
        case True
        then have "sound E (save_snapshot E ?t w2)"
          using app(2) r(5) by (intro save_snapshot_sound) simp_all
        with eq Inr show ?thesis by simp
      next
        case False
        then have "fetch_session (rw_db w2) (rs_id (rw_session w2)) = None"
          using inv1 r(4,5) by (simp add: repl_inv_def at_tip_def Let_def fetch_session_def)
        then have "sound E (save_snapshot E ?t w2)"
          using app(1) r(5) by (intro save_snapshot_missing) simp_all
        with eq Inr show ?thesis by simp
      qed
    qed
  qed
qed

section \<open>The loop keeps them\<close>

text \<open>What neither saves nor changes the session keeps the invariant.\<close>

definition same_chat :: "repl \<Rightarrow> repl \<Rightarrow> bool" where
  "same_chat w w' \<longleftrightarrow> rw_db w' = rw_db w \<and> rw_draws w' = rw_draws w \<and>
     rs_id (rw_session w') = rs_id (rw_session w) \<and> rs_last (rw_session w') = rs_last (rw_session w) \<and>
     rs_started (rw_session w') = rs_started (rw_session w)"

lemma same_chat_refl [simp]: "same_chat w w"
  by (simp add: same_chat_def)

lemma same_chat_inv: "same_chat w w' \<Longrightarrow> repl_inv E w \<Longrightarrow> repl_inv E w'"
  using repl_inv_cong [of w' w E] by (simp add: same_chat_def)

lemma same_chat_sound: "same_chat w (snd res) \<Longrightarrow> repl_inv E w \<Longrightarrow> sound E res"
  using same_chat_inv [of w "snd res" E] repl_inv_conversations
  by (cases res; cases "fst res") auto

lemma send_pi_same: "same_chat w (snd (send_pi p w))"
  by (simp add: send_pi_def same_chat_def split: prod.split)

lemma lines_left_same: "same_chat w (lines_left ls w)"
  by (simp add: lines_left_def same_chat_def)

lemma name_session_same: "same_chat w (name_session input w)"
  by (simp add: name_session_def same_chat_def Let_def)

lemma same_chat_trans: "same_chat w w' \<Longrightarrow> same_chat w' w'' \<Longrightarrow> same_chat w w''"
  by (simp add: same_chat_def)

lemma handle_input_prompt_same: "same_chat w (snd (handle_input_prompt input w))"
proof -
  have "same_chat w (w\<lparr>rw_session := (rw_session w)\<lparr>rs_pending := False\<rparr>\<rparr>)" by (simp add: same_chat_def)
  then show ?thesis
    using send_pi_same same_chat_trans by (auto simp: handle_input_prompt_def Let_def)
qed

lemma process_command_same: "same_chat w (snd (process_command E m w))"
  by (auto simp: process_command_def same_chat_def split: command_type.split prod.split sum.split option.split)

lemma set_reasoning_effort_same: "same_chat w (snd (set_reasoning_effort args w))"
  using send_pi_same by (auto simp: set_reasoning_effort_def split: list.split sum.split)

lemma process_pi_agent_end_event_sound:
  assumes "repl_inv E w" and "draws_grow E"
  shows "sound E (process_pi_agent_end_event E ms w)"
proof -
  obtain res w' where send: "send_pi AbortPayload w = (res, w')" by fastforce
  then have "repl_inv E w'" using send_pi_same [of w AbortPayload] same_chat_inv assms(1) by fastforce
  then show ?thesis
    using assms send save_agent_session_sound
    by (auto simp: process_pi_agent_end_event_def repl_inv_conversations split: sum.split)
qed

lemma respond_sound: "draws_grow E \<Longrightarrow> repl_inv E w \<Longrightarrow> sound E (respond E ls w)"
proof (induction E ls w rule: respond.induct)
  case (1 E w)
  then show ?case using same_chat_inv [OF lines_left_same] by simp
next
  case (2 E ls w)
  then have "repl_inv E (lines_left ls w)" by (intro same_chat_inv [OF lines_left_same])
  then show ?case by (simp add: repl_inv_conversations)
next
  case (3 E l ls w)
  show ?case
  proof (cases "re_ctrlc E (length ls)")
    case True
    obtain res w' where send: "send_pi AbortPayload w = (res, w')" by fastforce
    then have inv: "repl_inv E w'" using send_pi_same [of w AbortPayload] same_chat_inv "3.prems"(2) by fastforce
    show ?thesis
    proof (cases res)
      case (Inl e)
      have "repl_inv E (lines_left ls w')" using inv by (intro same_chat_inv [OF lines_left_same])
      then show ?thesis using True send Inl by (simp add: repl_inv_conversations)
    next
      case (Inr u)
      then show ?thesis using True send inv "3.IH"(1) [OF True send [symmetric]] "3.prems"(1) by simp
    qed
  next
    case False
    have left: "repl_inv E (lines_left ls w)" using same_chat_inv [OF lines_left_same] "3.prems"(2) .
    show ?thesis
    proof (cases "re_dec E l")
      case None
      with False left show ?thesis by (simp add: repl_inv_conversations)
    next
      case (Some x)
      note rest = "3.IH"(2-) [OF False Some]
      show ?thesis
      proof (cases x)
        case (Response m)
        have "sound E (process_command E m (lines_left ls w))"
          using process_command_same left by (rule same_chat_sound)
        with False Some Response left rest "3.prems" show ?thesis by simp
      next
        case (AgentEnd ms)
        with False Some left "3.prems"(1) show ?thesis by (simp add: process_pi_agent_end_event_sound)
      qed (use False Some rest "3.prems" in simp_all)
    qed
  qed
qed

lemma read_reply_for_sound:
  assumes "draws_grow E" and "repl_inv E w"
  shows "sound E (read_reply_for E input w)"
proof -
  obtain res w' where r: "respond E (pa_out (rw_agent w)) (name_session input w) = (res, w')" by fastforce
  have "sound E (res, w')"
    using respond_sound [OF assms(1) same_chat_inv [OF name_session_same assms(2)]] r by metis
  then show ?thesis using r by (cases res) (simp_all add: read_reply_for_def)
qed

text \<open>Resuming moves to the tip of another conversation.\<close>

lemma last_opt_tip: "last_opt (map cr_id rs) = tip None rs"
  by (cases rs rule: rev_cases) simp_all

lemma read_row_fields:
  "readable_row r \<Longrightarrow> c_id (read_row r) = cr_id r \<and> c_content (read_row r) = cr_content r"
  by (auto simp: readable_row_def read_row_def from_row_def is_ok_def map_err_def split: sum.splits)

lemma resumed_chats:
  assumes "fetch_chats_by_session_id sid db = Inr d" and "conversations db"
  shows "map c_id (d_chats d) = map cr_id (session_rows sid db)"
    and "map c_content (d_chats d) = map cr_content (session_rows sid db)"
proof -
  have "sorted_wrt (<) (map cr_id (session_rows sid db))"
    using assms(2) by (simp add: conversations_def conversation_def)
  then have "sorted (map cr_id (session_rows sid db))" by (simp add: strict_sorted_imp_sorted)
  then have d: "d_chats d = map read_row (session_rows sid db)"
    using session_chats_read(1) [OF assms(1)] by (simp add: session_rows_def sort_key_id_if_sorted)
  have "readable_row r" if "r \<in> set (session_rows sid db)" for r
    using that session_chats_read(3) [OF assms(1), of r] by (simp add: session_rows_def)
  then show "map c_id (d_chats d) = map cr_id (session_rows sid db)"
    and "map c_content (d_chats d) = map cr_content (session_rows sid db)"
    using read_row_fields by (simp_all add: d)
qed

lemma load_session_inv:
  assumes "repl_inv E w" and "load_session E args w = (res, w')"
  shows "repl_inv E w'"
proof (cases "w' = w")
  case False
  obtain c sid rest where args: "args = c # sid # rest"
    using assms(2) False by (auto simp: load_session_def split: list.splits)
  with assms(2) False obtain d where d: "fetch_chats_by_session_id sid (rw_db w) = Inr d"
    by (auto simp: load_session_def split: sum.splits)
  obtain saved ss where saved: "d_sessions d = saved # ss"
    using assms(2) False args d by (auto simp: load_session_def split: list.splits)
  have conv: "conversations (rw_db w)" using assms(1) by (rule repl_inv_conversations)
  have "rw_db w' = rw_db w \<and> rw_draws w' = rw_draws w \<and> rs_id (rw_session w') = sid \<and>
      rs_started (rw_session w') \<and> rs_last (rw_session w') = last_opt (map c_id (d_chats d))"
    using assms(2) False by (auto simp: load_session_def args d saved Let_def split: option.splits sum.splits)
  then show ?thesis
    using assms(1) resumed_chats(1) [OF d conv]
    by (simp add: repl_inv_def fresh_ids_def at_tip_def Let_def last_opt_tip)
qed (use assms in simp)

lemma inv_sound: "repl_inv E (snd res) \<Longrightarrow> sound E res"
  using repl_inv_conversations by (cases res; cases "fst res") auto

lemma handle_input_commands_sound:
  assumes "repl_inv E w"
  shows "sound E (handle_input_commands E cmd w)"
proof (rule inv_sound)
  let ?args = "split_on CHR '' '' cmd"
  obtain r1 w1 where send: "send_pi GetCommandsPayload w = (r1, w1)" by fastforce
  then have i1: "repl_inv E w1" using send_pi_same [of w GetCommandsPayload] same_chat_inv assms by fastforce
  obtain r2 w2 where reasoning: "set_reasoning_effort ?args w = (r2, w2)" by fastforce
  then have i2: "repl_inv E w2" using set_reasoning_effort_same [of w ?args] same_chat_inv assms by fastforce
  obtain r3 w3 where load: "load_session E ?args w = (r3, w3)" by fastforce
  then have i3: "repl_inv E w3" using load_session_inv [OF assms] by simp
  obtain r4 xs where share: "process_share_session E (rw_db w) (rs_id (rw_session w)) ?args = (r4, xs)" by fastforce
  have "same_chat w (w\<lparr>rw_shared := rw_shared w @ xs\<rparr>)" by (simp add: same_chat_def)
  then have i4: "repl_inv E (w\<lparr>rw_shared := rw_shared w @ xs\<rparr>)" using assms by (rule same_chat_inv)
  show "repl_inv E (snd (handle_input_commands E cmd w))"
    using assms i1 i2 i3 i4
    by (simp add: handle_input_commands_def Let_def send reasoning load share
      split: command_type.split sum.split acct_error.split)
qed

lemma repl_step_sound:
  assumes "draws_grow E" and "repl_inv E w"
  shows "sound E (repl_step E line w)"
proof -
  let ?input = "trim line"
  have exit: "sound E (repl_exit w)"
  proof -
    have "snd (repl_exit w) = snd (send_pi AbortPayload w)" by (simp add: repl_exit_def split: prod.split)
    then have "same_chat w (snd (repl_exit w))" using send_pi_same by simp
    then show ?thesis using assms(2) by (rule same_chat_sound)
  qed
  have prompt: "sound E (case handle_input_prompt p w of
      (Inl e, w) \<Rightarrow> (Inl e, w) | (Inr _, w) \<Rightarrow> read_reply_for E ?input w)" for p
  proof -
    obtain res w' where h: "handle_input_prompt p w = (res, w')" by fastforce
    then have "repl_inv E w'" using handle_input_prompt_same [of w p] same_chat_inv assms(2) by fastforce
    then show ?thesis
      using h read_reply_for_sound [OF assms(1)] repl_inv_conversations by (cases res) simp_all
  qed
  have command: "sound E (case handle_input_commands E cmd w of
      (Inl e, w) \<Rightarrow> (Inl e, w) | (Inr ProcessNextInput, w) \<Rightarrow> (Inr True, w)
    | (Inr WaitForNextLine, w) \<Rightarrow> read_reply_for E ?input w)" for cmd
  proof -
    obtain res w' where h: "handle_input_commands E cmd w = (res, w')" by fastforce
    with handle_input_commands_sound [OF assms(2)] have "sound E (res, w')" by metis
    with h show ?thesis
      using read_reply_for_sound [OF assms(1)]
      by (cases res) (auto split: command_response.split)
  qed
  show ?thesis
    using assms(2) exit prompt command by (auto simp: repl_step_def Let_def split: input_type.split)
qed

lemma repl_loop_sound: "draws_grow E \<Longrightarrow> repl_inv E w \<Longrightarrow> conversations (rw_db (snd (repl_loop E lines w)))"
proof (induction lines arbitrary: w)
  case Nil
  then show ?case
    using send_pi_same [of w AbortPayload] repl_inv_conversations [of E w]
    by (auto simp: repl_exit_def same_chat_def split: prod.splits)
next
  case (Cons line lines)
  obtain res w' where step: "repl_step E line w = (res, w')" by fastforce
  with repl_step_sound [OF Cons.prems] have "sound E (res, w')" by metis
  then show ?case
    using step Cons.IH [of w'] Cons.prems(1) repl_inv_conversations [of E w']
    by (cases res) (auto split: bool.split)
qed

text \<open>C17. Whatever is typed and whatever the agent prints, at the end of the chat (also one that
  ended with an error or a panic) the chats of every session in the database form one
  conversation: each answers the one before it, the first none, and their ids grow. So a
  resumed session goes on where it stopped.\<close>

theorem chat_keeps_conversations:
  assumes "draws_grow E" and "repl_inv E w" and "repl_loop E lines w = (res, w')"
  shows "linked None (session_rows sid (rw_db w')) \<and>
    sorted_wrt (<) (map cr_id (session_rows sid (rw_db w')))"
  using repl_loop_sound [OF assms(1,2), of lines] assms(3)
  by (simp add: conversations_def conversation_def)

section \<open>Resuming, and interrupting\<close>

lemma load_session_frame:
  "load_session E args w = (Inr (), w1) \<Longrightarrow>
     rw_agent w1 = rw_agent w \<and> rw_db w1 = rw_db w \<and> rs_started (rw_session w1) \<and> rs_pending (rw_session w1)"
  by (auto simp: load_session_def Let_def split: sum.splits list.splits option.splits)

text \<open>The first prompt after \<open>/resume\<close> is sent with the text of all the session's chats in their
  order in front of it, the prompts after it as they are. The chat goes on in that session,
  whose last chat is the one the next prompt answers, and resuming writes nothing.\<close>

theorem resumed_prompt_correct:
  assumes "conversations (rw_db w)" and "load_session E (cmd # sid # args) w = (Inr (), w1)"
    and "handle_input_prompt input w1 = (Inr (), w2)"
  shows "pw_sent (pa_in (rw_agent w2)) = pw_sent (pa_in (rw_agent w)) @
      [PromptPayload (with_history (concat (map cr_content (session_rows sid (rw_db w)))) input)] \<and>
    session_rows sid (rw_db w) \<noteq> [] \<and> rs_id (rw_session w2) = sid \<and> rs_started (rw_session w2) \<and>
    rs_last (rw_session w2) = Some (cr_id (last (session_rows sid (rw_db w)))) \<and> rw_db w2 = rw_db w \<and>
    (\<forall>again w3. handle_input_prompt again w2 = (Inr (), w3) \<longrightarrow>
       pw_sent (pa_in (rw_agent w3)) = pw_sent (pa_in (rw_agent w2)) @ [PromptPayload again])"
proof -
  obtain d where d: "fetch_chats_by_session_id sid (rw_db w) = Inr d"
    using assms(2) by (auto simp: load_session_def split: sum.splits)
  obtain saved ss where saved: "d_sessions d = saved # ss"
    using assms(2) d by (auto simp: load_session_def split: list.splits)
  let ?rows = "session_rows sid (rw_db w)"
  have w1: "rs_id (rw_session w1) = sid \<and> rs_last (rw_session w1) = last_opt (map c_id (d_chats d)) \<and>
      rs_resumed (rw_session w1) = concat (map c_content (d_chats d))"
    using assms(2) by (auto simp: load_session_def d saved Let_def split: option.splits sum.splits)
  have rows: "?rows \<noteq> []"
    using session_chats_read(2) [OF d, of saved] saved by (auto simp: session_rows_def filter_empty_conv)
  have w2: "w2 = w1\<lparr>rw_session := (rw_session w1)\<lparr>rs_pending := False\<rparr>,
      rw_agent := (rw_agent w1)\<lparr>pa_in := (pa_in (rw_agent w1))\<lparr>pw_sent := pw_sent (pa_in (rw_agent w1)) @
        [PromptPayload (with_history (rs_resumed (rw_session w1)) input)]\<rparr>\<rparr>\<rparr>"
    using assms(3) load_session_frame [OF assms(2)]
    by (auto simp: handle_input_prompt_def Let_def send_pi_def send_to_pi_def split: if_splits)
  have "pw_sent (pa_in (rw_agent w3)) = pw_sent (pa_in (rw_agent w2)) @ [PromptPayload again]"
    if "handle_input_prompt again w2 = (Inr (), w3)" for again w3
    using that by (auto simp: w2 handle_input_prompt_def Let_def send_pi_def send_to_pi_def split: if_splits)
  moreover note resumed_chats [OF d assms(1)]
  ultimately show ?thesis
    using w1 rows load_session_frame [OF assms(2)] by (simp add: w2 last_opt_tip tip_def)
qed

text \<open>Nothing is saved without the message that ends the agent's reply. Ctrl-C drops the line it is
  noticed at: where that is this very message, the turn is lost.\<close>

lemma send_pi_db: "rw_db (snd (send_pi p w)) = rw_db w"
  using send_pi_same [of w p] by (simp add: same_chat_def)

lemma process_command_db: "rw_db (snd (process_command E m w)) = rw_db w"
  using process_command_same [of w E m] by (simp add: same_chat_def)

lemma respond_saves_nothing:
  "(\<And>l ms. Line l \<in> set ls \<Longrightarrow> re_dec E l \<noteq> Some (AgentEnd ms)) \<Longrightarrow> rw_db (snd (respond E ls w)) = rw_db w"
proof (induction E ls w rule: respond.induct)
  case (3 E l ls w)
  show ?case
  proof (cases "re_ctrlc E (length ls)")
    case True
    obtain r w' where send: "send_pi AbortPayload w = (r, w')" by fastforce
    then have "rw_db w' = rw_db w" using send_pi_db [of AbortPayload w] by simp
    then show ?thesis
      using True send "3.IH"(1) [OF True send [symmetric]] "3.prems"
      by (cases r) (auto simp: lines_left_def)
  next
    case False
    show ?thesis
    proof (cases "re_dec E l")
      case (Some x)
      with "3.prems" [of l] have "x \<noteq> AgentEnd ms" for ms by auto
      then show ?thesis
        using False Some "3.IH"(2-) [OF False Some] "3.prems"
        by (cases x) (auto simp: lines_left_def process_command_db)
    qed (use False in \<open>simp add: lines_left_def\<close>)
  qed
qed (simp_all add: lines_left_def)

lemma interrupted_end_is_lost:
  assumes "re_ctrlc E (length ls)"
    and "\<And>k ms. Line k \<in> set ls \<Longrightarrow> re_dec E k \<noteq> Some (AgentEnd ms)"
  shows "rw_db (snd (respond E (Line l # ls) w)) = rw_db w"
proof -
  obtain r w' where send: "send_pi AbortPayload w = (r, w')" by fastforce
  then have "rw_db w' = rw_db w" using send_pi_db [of AbortPayload w] by simp
  then show ?thesis
    using assms(1) send respond_saves_nothing [where w = w', OF assms(2)] by (cases r) (auto simp: lines_left_def)
qed

text \<open>\<open>/resume\<close> of a session without chats panics.\<close>

lemma resume_unknown_panics:
  assumes "fetch_chats_by_session_id sid (rw_db w) = Inr d" and "session_rows sid (rw_db w) = []"
  shows "\<exists>e. load_session E [cmd, sid] w = (Inl (Panic e), w)"
proof -
  have "d_sessions d = []"
    using session_chats_read(2) [OF assms(1)] assms(2)
    by (metis (mono_tags, lifting) filter_empty_conv last_in_set session_rows_def)
  with assms(1) show ?thesis by (simp add: load_session_def)
qed

section \<open>A chat\<close>

definition chat_start :: repl where
  "chat_start = \<lparr>rw_session = repl_session_new '''' \<lparr>sd_model_id = ''m'', sd_model_name = ''m'', sd_thinking_level = ''low'',
       sd_is_streaming = False, sd_session_id = ''s''\<rparr>,
     rw_db = empty_chats, rw_agent = \<lparr>pa_out = [Line ''start'', Line ''end''], pa_in = \<lparr>pw_open = True, pw_sent = []\<rparr>\<rparr>,
     rw_draws = 0, rw_settings = NoSettings, rw_shared = []\<rparr>"

definition chat_saved :: repl where
  "chat_saved = snd (save_agent_session chat_env [said User ''hi'', said Assistant ''hello''] chat_start)"

lemmas chat_eval = chat_env_def chat_start_def repl_session_new_def snapshot_new_def said_def
  save_agent_session_def save_prompt_def save_answer_def save_snapshot_def reply_to_def Let_def
  save_first_chat_def create_session_eq save_chat_eq empty_chats_def fetch_session_def query_row_def
  update_snapshot_def update_rows_def session_indexes_def unique_on_def to_row_def

lemma chat_draws: "draws_grow chat_env"
proof -
  have "replicate m CHR ''x'' < replicate n CHR ''x''" if "m < n" for m n
    using that by (induction m arbitrary: n) (case_tac n; simp)+
  then show ?thesis by (simp add: draws_grow_def chat_env_def)
qed

lemma chat_start_inv: "repl_inv chat_env chat_start"
  by (simp add: repl_inv_def conversations_def conversation_def session_rows_def fresh_ids_def at_tip_def
      chat_start_def empty_chats_def repl_session_new_def fetch_session_def query_row_def Let_def)

lemma chat_saves: "save_agent_session chat_env [said User ''hi'', said Assistant ''hello''] chat_start = (Inr (), chat_saved)"
  by (simp add: chat_saved_def chat_eval)

lemma saved_turn_correct_witness:
  "\<exists>new. chats (rw_db chat_saved) = new \<and> map cr_content new = [''hi'', ''hello''] \<and>
     map cr_role new = [''user'', ''assistant''] \<and> linked None new \<and>
     rs_last (rw_session chat_saved) = Some (cr_id (last new))"
proof -
  have "format_assistant_content (re_quote chat_env) (assistant_parts [said User ''hi'', said Assistant ''hello'']) = ''hello''"
    "get_pi_msg_content (me_content (said User ''hi'')) = ''hi''"
    "me_role (said User ''hi'') = User" "me_role (said Assistant ''hello'') \<noteq> User"
    by (simp_all add: format_assistant_content_def said_def unwrap_or_empty_def get_pi_msg_content_def content_lines_def)
  moreover have "chats (rw_db chat_start) = []" "rs_last (rw_session chat_start) = None"
    by (simp_all add: chat_start_def empty_chats_def repl_session_new_def)
  ultimately show ?thesis
    using saved_turn_correct [OF chat_saves] by (auto simp del: format_from.simps)
qed

lemma chat_keeps_conversations_witness:
  "let w = snd (repl_loop chat_env [''hi'', ''/bye''] chat_start) in
     linked None (session_rows ''s'' (rw_db w)) \<and> sorted_wrt (<) (map cr_id (session_rows ''s'' (rw_db w)))"
  using chat_keeps_conversations [OF chat_draws chat_start_inv, of "[''hi'', ''/bye'']"]
  by (cases "repl_loop chat_env [''hi'', ''/bye''] chat_start") (simp add: Let_def)

lemma chat_saved_conversations: "conversations (rw_db chat_saved)"
proof -
  have "sound chat_env (save_agent_session chat_env [said User ''hi'', said Assistant ''hello''] chat_start)"
    by (rule save_agent_session_sound [OF chat_start_inv chat_draws])
  then show ?thesis by (simp add: chat_saves repl_inv_conversations)
qed

lemma chat_saved_db: "rw_db chat_saved =
    \<lparr>chats = [\<lparr>cr_id = ''x'', cr_user = ''u'', cr_content = ''hi'', cr_resp = None, cr_role = ''user'', cr_ctx = None,
       cr_created = 0, cr_updated = 0, cr_counter = 1, cr_session = Some ''s'', cr_model = Some ''m''\<rparr>,
       \<lparr>cr_id = ''xx'', cr_user = ''u'', cr_content = ''hello'', cr_resp = None, cr_role = ''assistant'',
       cr_ctx = Some ''x'', cr_created = 1, cr_updated = 1, cr_counter = 2, cr_session = Some ''s'', cr_model = Some ''m''\<rparr>],
     sessions = [\<lparr>s_id = ''s'', s_name = '''', s_created = 0, s_creator = ''u'', s_snapshot = Some ''snap''\<rparr>]\<rparr>"
  and chat_saved_agent: "rw_agent chat_saved = \<lparr>pa_out = [Line ''start'', Line ''end''], pa_in = \<lparr>pw_open = True, pw_sent = []\<rparr>\<rparr>"
  by (simp_all add: chat_saved_def chat_eval get_last_row_counter_def rows_of_def get_pi_msg_content_def content_lines_def
      unwrap_or_empty_def format_assistant_content_def string_of_role_def numeral_2_eq_2)

definition chat_resumed :: repl where
  "chat_resumed = snd (load_session chat_env [''resume'', ''s''] chat_saved)"

lemma chat_resumes: "load_session chat_env [''resume'', ''s''] chat_saved = (Inr (), chat_resumed)"
  by (simp add: chat_resumed_def load_session_def chat_saved_db fetch_chats_by_session_id_def fetch_delta_chats_def
      note_session_def fetch_session_def query_row_def from_row_def role_from_str_def to_lowercase_def lower_char_def
      unwrap_or_empty_def chat_env_def Let_def)

lemma chat_goes_on:
  "handle_input_prompt ''why'' chat_resumed = (Inr (), snd (handle_input_prompt ''why'' chat_resumed))"
proof -
  have "rw_agent chat_resumed = rw_agent chat_saved" "rs_pending (rw_session chat_resumed)"
    using load_session_frame [OF chat_resumes] by simp_all
  then show ?thesis
    by (simp add: handle_input_prompt_def Let_def send_pi_def send_to_pi_def chat_saved_agent)
qed

lemma resumed_prompt_correct_witness:
  "pw_sent (pa_in (rw_agent (snd (handle_input_prompt ''why'' chat_resumed)))) =
     [PromptPayload (with_history ''hihello'' ''why'')]"
  using resumed_prompt_correct [OF chat_saved_conversations chat_resumes chat_goes_on]
  by (simp add: chat_saved_agent session_rows_def chat_saved_db)

end
