(* ===== verification/Events.thy ===== *)
theory Events
  imports Textual
begin

text \<open>
  Server-sent events as the clients of the daemon read them (\<open>tiles/src/daemon/sse.rs\<close>, used by the command line,
  the terminal and the menubar app): blocks cut out of a text that comes in chunks, and the loop that
  all of the clients have around it. JSON is an argument.
\<close>

section \<open>JSON and answers\<close>

text \<open>The values of \<open>serde_json\<close> as the app looks at them.\<close>

record 'j json =
  js_parse :: "string \<Rightarrow> 'j option"
  js_get :: "string \<Rightarrow> 'j \<Rightarrow> 'j option"
  js_str :: "'j \<Rightarrow> string option"
  js_bool :: "'j \<Rightarrow> bool option"
  js_nat :: "'j \<Rightarrow> nat option"
  js_int :: "'j \<Rightarrow> int option"
  js_list :: "'j \<Rightarrow> 'j list option"

definition get_str :: "'j json \<Rightarrow> string \<Rightarrow> 'j \<Rightarrow> string option" where
  "get_str J k v = Option.bind (js_get J k v) (js_str J)"

text \<open>No answer, or a status with the text of the body, which may fail to come.\<close>

datatype daemon_reply = NoReply string | Reply nat "string option"

definition is_success :: "nat \<Rightarrow> bool" where
  "is_success status \<longleftrightarrow> 200 \<le> status \<and> status < 300"

section \<open>Blocks\<close>

text \<open>Server-sent events on the client's side: a block ends with an empty line, and what is cut off waits
  for the next chunk. \<open>json\<close> reads the data of an event.\<close>

fun cut_block :: "string \<Rightarrow> (string \<times> string) option" where
  "cut_block (a # b # s) =
     (if a = CHR 0x0A \<and> b = CHR 0x0A then Some ([a, b], s)
      else map_option (\<lambda>(block, rest). (a # block, rest)) (cut_block (b # s)))"
| "cut_block _ = None"

definition event_line ::
  "(string \<Rightarrow> 'j option) \<Rightarrow> string \<Rightarrow> string option \<times> 'j option \<Rightarrow> string option \<times> 'j option" where
  "event_line json line nd =
     (case strip_prefix ''event:'' line of
        Some v \<Rightarrow> (Some (trim v), snd nd)
      | None \<Rightarrow> (case strip_prefix ''data:'' line of Some v \<Rightarrow> (fst nd, json (trim v)) | None \<Rightarrow> nd))"

definition block_event :: "(string \<Rightarrow> 'j option) \<Rightarrow> string \<Rightarrow> (string \<times> 'j) option" where
  "block_event json block =
     (case fold (event_line json) (str_lines block) (None, None) of
        (Some name, Some data) \<Rightarrow> Some (name, data)
      | _ \<Rightarrow> None)"

lemma cut_block_shorter: "cut_block s = Some (block, rest) \<Longrightarrow> s = block @ rest \<and> block \<noteq> []"
  by (induction s arbitrary: block rest rule: cut_block.induct) (auto split: if_splits)

function take_events :: "(string \<Rightarrow> 'j option) \<Rightarrow> string \<Rightarrow> (string \<times> 'j) list \<times> string" where
  "take_events json pending =
     (case cut_block pending of
        None \<Rightarrow> ([], pending)
      | Some (block, rest) \<Rightarrow>
          (case take_events json rest of
             (es, left) \<Rightarrow> ((case block_event json block of Some e \<Rightarrow> [e] | None \<Rightarrow> []) @ es, left)))"
  by pat_completeness auto
termination
  by (relation "measure (\<lambda>(_, s). length s)") (auto dest: cut_block_shorter)

declare take_events.simps [simp del]

section \<open>Chunks don't matter\<close>

lemma cut_block_None_append:
  "cut_block s = Some (block, rest) \<Longrightarrow> cut_block (s @ u) = Some (block, rest @ u)"
proof (induction s arbitrary: block rest rule: cut_block.induct)
  case (1 a b s)
  then show ?case by (auto split: if_splits)
qed auto

lemma take_events_append:
  "take_events json (s @ u) =
     (case take_events json s of (es, left) \<Rightarrow>
      (case take_events json (left @ u) of (es', left') \<Rightarrow> (es @ es', left')))"
proof (induction json s rule: take_events.induct)
  case (1 json s)
  show ?case
  proof (cases "cut_block s")
    case None
    then show ?thesis by (simp add: take_events.simps [of json s] split: prod.split)
  next
    case (Some br)
    obtain block rest where br: "br = (block, rest)" by fastforce
    with Some have cut: "cut_block (s @ u) = Some (block, rest @ u)" by (simp add: cut_block_None_append)
    have "take_events json (rest @ u) =
        (case take_events json rest of (es, left) \<Rightarrow>
         (case take_events json (left @ u) of (es', left') \<Rightarrow> (es @ es', left')))"
      using "1.IH" [OF Some br [symmetric]] by simp
    with Some br cut show ?thesis
      by (simp add: take_events.simps [of json s] take_events.simps [of json "s @ u"] split: prod.split)
  qed
qed

lemma take_events_Nil: "take_events json [] = ([], [])"
  by (simp add: take_events.simps)

section \<open>The loop of a client\<close>

definition res_else :: "'s + 'r \<Rightarrow> ('s \<Rightarrow> 's + 'r) \<Rightarrow> 's + 'r" where
  "res_else r f = (case r of Inl s \<Rightarrow> f s | Inr x \<Rightarrow> Inr x)"

text \<open>What every client does with the chunks of an answer: the events a chunk completes go through
  \<open>consume\<close>, which goes on with a state or stops with a result; what is cut off is kept for the next chunk.
  \<open>loop\<close> is the client's own loop and \<open>chunk\<close> is a chunk that was read without an error.\<close>

locale event_reader =
  fixes json :: "string \<Rightarrow> 'j option"
    and consume :: "(string \<times> 'j) list \<Rightarrow> 's \<Rightarrow> 's + 'r"
    and loop :: "'c list \<Rightarrow> string \<Rightarrow> 's \<Rightarrow> 'o"
    and chunk :: "string \<Rightarrow> 'c"
    and closed :: "'s \<Rightarrow> 'o"
    and finish :: "'r \<Rightarrow> 'o"
  assumes consume_Nil: "consume [] s = Inl s"
    and consume_append: "consume (es @ es') s = res_else (consume es s) (consume es')"
    and loop_Nil: "loop [] p s = closed s"
    and loop_Cons: "loop (chunk c # cs) p s =
      (case take_events json (p @ utf8_lossy c) of
         (es, rest) \<Rightarrow> (case consume es s of Inl s' \<Rightarrow> loop cs rest s' | Inr r \<Rightarrow> finish r))"
begin

lemma loop_whole:
  assumes "fst (take_events json p) = []"
  shows "loop (map chunk cs) p s =
    (case consume (fst (take_events json (p @ concat (map utf8_lossy cs)))) s of
       Inl s' \<Rightarrow> closed s' | Inr r \<Rightarrow> finish r)"
  using assms
proof (induction cs arbitrary: p s)
  case Nil
  then show ?case by (simp add: loop_Nil consume_Nil)
next
  case (Cons c cs)
  let ?c = "utf8_lossy c" and ?cs = "concat (map utf8_lossy cs)"
  obtain es rest where one: "take_events json (p @ ?c) = (es, rest)" by fastforce
  obtain es' rest' where all: "take_events json (rest @ ?cs) = (es', rest')" by fastforce
  have "take_events json (p @ ?c @ ?cs) = (es @ es', rest')"
    using take_events_append [of json "p @ ?c" ?cs] one all by simp
  moreover have "fst (take_events json rest) = []"
    using take_events_append [of json "p @ ?c" "[]"] one by (auto split: prod.splits)
  moreover note Cons.IH [of rest]
  ultimately show ?case
    using one all by (simp add: loop_Cons consume_append res_else_def split: sum.split)
qed

lemma loop_chunks:
  assumes "\<forall>c \<in> set cs. utf8_valid c"
  shows "loop (map chunk cs) '''' s =
    (case consume (fst (take_events json (concat cs))) s of Inl s' \<Rightarrow> closed s' | Inr r \<Rightarrow> finish r)"
proof -
  have "map utf8_lossy cs = cs" using assms by (simp add: map_idI utf8_lossy_valid)
  then show ?thesis using loop_whole [of "''''" cs s] by (simp add: take_events_Nil)
qed

lemma loop_once:
  assumes "\<forall>c \<in> set cs. utf8_valid c"
  shows "loop (map chunk cs) '''' s = loop [chunk (concat cs)] '''' s"
  using loop_chunks [OF assms] loop_whole [of "''''" "[concat cs]" s] assms
  by (simp add: take_events_Nil utf8_lossy_concat)

end

text \<open>A client that looks at the data of each event in turn, whatever the event's name.\<close>

fun each_event :: "('j \<Rightarrow> 's \<Rightarrow> 's + 'r) \<Rightarrow> (string \<times> 'j) list \<Rightarrow> 's \<Rightarrow> 's + 'r" where
  "each_event step [] s = Inl s"
| "each_event step ((name, data) # es) s = res_else (step data s) (each_event step es)"

lemma each_event_append:
  "each_event step (es @ es') s = res_else (each_event step es s) (each_event step es')"
  by (induction step es s rule: each_event.induct) (auto simp: res_else_def split: sum.split)

text \<open>The state goes through steps that go on, and is then stopped by the last one.\<close>

lemma each_event_goes_on:
  "\<forall>e \<in> set es. \<forall>s. \<exists>s'. step (snd e) s = Inl s' \<Longrightarrow> \<exists>s'. each_event step es s = Inl s'"
  by (induction step es s rule: each_event.induct) (auto simp: res_else_def split: sum.split, metis sum.simps(4))

section \<open>The text of an event\<close>

text \<open>How the daemon's web framework writes an event with its data on one line, the standard's format.\<close>

definition event_text :: "string \<Rightarrow> string \<Rightarrow> string" where
  "event_text name text =
     ''event: '' @ name @ [CHR 0x0A] @ ''data: '' @ text @ [CHR 0x0A, CHR 0x0A]"

definition one_line :: "string \<Rightarrow> bool" where
  "one_line s \<longleftrightarrow> s \<noteq> [] \<and> CHR 0x0A \<notin> set s \<and> last s \<noteq> CHR 0x0D \<and> trim s = s"

lemma split_on_line: "CHR 0x0A \<notin> set a \<Longrightarrow> split_on (CHR 0x0A) (a @ CHR 0x0A # s) = a # split_on (CHR 0x0A) s"
  by (induction a) auto

lemma cut_block_line: "CHR 0x0A \<notin> set a \<Longrightarrow> cut_block (a @ s) = map_option (\<lambda>(b, r). (a @ b, r)) (cut_block s)"
proof (induction a)
  case (Cons x a)
  then show ?case
    by (cases "a @ s") (auto simp: option.map_comp comp_def case_prod_unfold)
qed (simp add: case_prod_unfold option.map_ident)

lemma cut_block_ends: "cut_block (CHR 0x0A # CHR 0x0A # s) = Some ([CHR 0x0A, CHR 0x0A], s)"
  by simp

lemma cut_block_next:
  "c \<noteq> CHR 0x0A \<Longrightarrow> cut_block (CHR 0x0A # c # s) = map_option (\<lambda>(b, r). (CHR 0x0A # b, r)) (cut_block (c # s))"
  by simp

lemma trim_space: "trim (CHR '' '' # s) = trim s"
  by (simp add: trim_def trim_start_def is_space_def)

lemma chop_cr_id: "last s \<noteq> CHR 0x0D \<Longrightarrow> chop_cr s = s"
  by (simp add: chop_cr_def)

lemma event_text_block:
  assumes "one_line name" and "one_line text"
  shows "cut_block (event_text name text @ s) = Some (event_text name text, s)"
    and "block_event json (event_text name text) = map_option (Pair name) (json text)"
proof -
  let ?n = "''event: '' @ name" and ?t = "''data: '' @ text"
  have n: "CHR 0x0A \<notin> set ?n" and t: "CHR 0x0A \<notin> set ?t" using assms by (auto simp: one_line_def)
  have whole: "event_text name text = ?n @ CHR 0x0A # ?t @ CHR 0x0A # [CHR 0x0A]" by (simp add: event_text_def)
  have end1: "cut_block (?t @ CHR 0x0A # CHR 0x0A # s) = Some (?t @ [CHR 0x0A, CHR 0x0A], s)"
    using cut_block_line [OF t, of "CHR 0x0A # CHR 0x0A # s"] by (simp only: cut_block_ends) simp
  have end2: "cut_block (CHR 0x0A # ?t @ CHR 0x0A # CHR 0x0A # s) = Some (CHR 0x0A # ?t @ [CHR 0x0A, CHR 0x0A], s)"
    using end1 by (simp add: cut_block_next)
  show "cut_block (event_text name text @ s) = Some (event_text name text, s)"
  proof -
    have "cut_block (?n @ (CHR 0x0A # ?t @ CHR 0x0A # CHR 0x0A # s)) =
        map_option (\<lambda>(b, r). (?n @ b, r)) (Some (CHR 0x0A # ?t @ [CHR 0x0A, CHR 0x0A], s))"
      by (simp only: cut_block_line [OF n] end2)
    then show ?thesis by (simp add: event_text_def del: cut_block.simps)
  qed
  have "str_lines (event_text name text) = [?n, ?t, []]"
    using assms unfolding whole str_lines_def
    by (simp only: split_on_line [OF n] split_on_line [OF t] Let_def) (simp add: chop_cr_def one_line_def)
  moreover have "fold (event_line json) [?n, ?t, []] (None, None) = (Some name, json text)"
    using assms by (simp add: event_line_def strip_prefix_def starts_with_def trim_space one_line_def)
  ultimately show "block_event json (event_text name text) = map_option (Pair name) (json text)"
    by (simp add: block_event_def split: option.split)
qed

lemma take_events_text:
  assumes "one_line name" and "one_line text"
  shows "take_events json (event_text name text @ s) =
    (case take_events json s of
       (es, rest) \<Rightarrow> ((case json text of Some v \<Rightarrow> [(name, v)] | None \<Rightarrow> []) @ es, rest))"
  by (subst take_events.simps) (simp add: event_text_block [OF assms] split: option.split prod.split)

text \<open>A comment that only keeps the connection alive.\<close>

definition keep_alive_text :: string where
  "keep_alive_text = [CHR '':'', CHR 0x0A, CHR 0x0A]"

lemma take_events_keep_alive: "take_events json (keep_alive_text @ s) = take_events json s"
  by (subst take_events.simps)
    (simp add: keep_alive_text_def block_event_def str_lines_def chop_cr_def event_line_def strip_prefix_def starts_with_def
      split: prod.split)

text \<open>What a client gets of a stream is the events that were put in, in order.\<close>

fun stream_text :: "(string \<times> string) option list \<Rightarrow> string" where
  "stream_text [] = ''''"
| "stream_text (Some (name, text) # es) = event_text name text @ stream_text es"
| "stream_text (None # es) = keep_alive_text @ stream_text es"

lemma take_events_stream:
  assumes "\<forall>e \<in> set es. \<forall>name text. e = Some (name, text) \<longrightarrow> one_line name \<and> one_line text"
  shows "take_events json (stream_text es) =
    (filter_map (\<lambda>(name, text). map_option (Pair name) (json text)) (filter_map id es), '''')"
  using assms
  by (induction es rule: stream_text.induct)
    (auto simp: take_events_Nil take_events_text take_events_keep_alive split: option.split)

end
