(* ===== verification/Atproto.thy ===== *)
theory Atproto
  imports Repl Events
begin

text \<open>
  The account on the AT protocol (\<open>tiles/src/core/account/atproto.rs\<close> with \<open>utils/crypto.rs\<close>): the
  table of sign-ins, signing in and out, and the sharing of a session; the daemon's handlers
  (\<open>daemon/atproto.rs\<close>). The OAuth
  client, the network, JSON, base64 and the cipher are arguments.
\<close>

section \<open>The table of sign-ins\<close>

record at_auth =
  at_key :: string
  at_session :: string
  at_state :: string
  at_logged_in :: bool
  at_created :: nat
  at_updated :: nat
  at_handle :: string

definition at_indexes :: "at_auth index list" where
  "at_indexes = [(''atproto_auth_data.key'', \<lambda>a. Some [at_key a])]"

text \<open>A row with the key keeps its state, its time of creation and its handle.\<close>

definition upsert_auth_data :: "at_auth \<Rightarrow> at_auth list \<Rightarrow> acct_error + at_auth list" where
  "upsert_auth_data a t =
     (case insert_row at_indexes a t of
        Inr t' \<Rightarrow> Inr t'
      | Inl _ \<Rightarrow>
          map_err (\<lambda>e. Msg (''Err inserting due to '' @ show_sql e))
            (update_rows at_indexes (\<lambda>r. at_key r = at_key a)
               (\<lambda>r. r\<lparr>at_session := at_session a, at_updated := at_updated a, at_logged_in := at_logged_in a\<rparr>) t))"

definition fetch_auth_data :: "string \<Rightarrow> at_auth list \<Rightarrow> acct_error + at_auth" where
  "fetch_auth_data did t = map_err Sql (query_row (\<lambda>a. at_key a = did) t)"

definition delete_auth_data :: "string \<Rightarrow> at_auth list \<Rightarrow> at_auth list" where
  "delete_auth_data did t = snd (delete_rows (\<lambda>a. at_key a = did) t)"

definition fetch_logged_in_data :: "at_auth list \<Rightarrow> acct_error + at_auth option" where
  "fetch_logged_in_data t = map_err Sql (optional_row (query_row at_logged_in t))"

section \<open>Signing in and out\<close>

datatype login_error = HandleNotFound string | LoginFailed string

definition show_login_error :: "login_error \<Rightarrow> string" where
  "show_login_error e =
     (case e of HandleNotFound h \<Rightarrow> ''No ATmosphere account for '' @ h | LoginFailed m \<Rightarrow> m)"

text \<open>The answer of the server that resolves handles. \<open>did_of\<close> reads the DID from a body.\<close>

datatype http_answer = HttpTimeout | HttpError string | HttpStatus nat string

definition resolve_handle_to_did ::
  "(string \<Rightarrow> string + string) \<Rightarrow> (string \<Rightarrow> string) \<Rightarrow> http_answer \<Rightarrow> string \<Rightarrow> login_error + string" where
  "resolve_handle_to_did did_of show_status answer handle =
     (case answer of
        HttpTimeout \<Rightarrow> Inl (LoginFailed ''Request failed due to Api timedout'')
      | HttpError e \<Rightarrow> Inl (LoginFailed (''Request failed due to '' @ e))
      | HttpStatus status body \<Rightarrow>
          if status = 200 then map_err LoginFailed (did_of body)
          else if status = 400 then Inl (HandleNotFound handle)
          else Inl (LoginFailed (''Api failed with status '' @ show_status (show_nat status))))"

record pending_login =
  pl_url :: string
  pl_handle :: string
  pl_did :: string

text \<open>\<open>client\<close> is the OAuth client, or why there is none, and \<open>authorize\<close> its call for a DID.\<close>

definition begin_login ::
  "(string + unit) \<Rightarrow> (string \<Rightarrow> login_error + string) \<Rightarrow> (string \<Rightarrow> string + string) \<Rightarrow> string
     \<Rightarrow> login_error + pending_login" where
  "begin_login client did_for authorize handle =
     res_bind (map_err LoginFailed client) (\<lambda>_.
     res_bind (did_for handle) (\<lambda>did.
     res_bind (map_err (\<lambda>_. LoginFailed ''Failed to generate the authorization url'') (authorize did)) (\<lambda>url.
     Inr \<lparr>pl_url = url, pl_handle = handle, pl_did = did\<rparr>)))"

record callback_params =
  cb_code :: "string option"
  cb_iss :: "string option"
  cb_state :: "string option"
  cb_error :: "string option"
  cb_error_description :: "string option"

record at_account =
  aa_handle :: string
  aa_did :: string

text \<open>What the browser comes back with (\<open>None\<close> when it doesn't in time), the exchange of the code for
  a session, and the session stored for the DID, where there is one.\<close>

definition finish_login ::
  "(string + callback_params) option \<Rightarrow> (string \<Rightarrow> callback_params \<Rightarrow> string + unit) \<Rightarrow> (string \<Rightarrow> string + string option)
     \<Rightarrow> nat \<Rightarrow> pending_login \<Rightarrow> at_auth list \<Rightarrow> string + at_account \<times> at_auth list" where
  "finish_login came exchange stored now p t =
     res_bind (case came of None \<Rightarrow> Inl ''The sign in timed out'' | Some r \<Rightarrow> r) (\<lambda>params.
     case cb_code params of
       None \<Rightarrow> Inl (''Error authorizing due to '' @
                 (case cb_error_description params of Some d \<Rightarrow> d | None \<Rightarrow> ''unknown reason''))
     | Some code \<Rightarrow>
         res_bind (exchange code params) (\<lambda>_.
         res_bind (stored (pl_did p)) (\<lambda>s.
         res_bind (ok_or ''No ATmosphere session was stored for this account'' s) (\<lambda>session.
         res_bind (map_err show_acct_error (upsert_auth_data
             \<lparr>at_key = pl_did p, at_session = session, at_state = '''', at_logged_in = True,
              at_created = now, at_updated = now, at_handle = pl_handle p\<rparr> t)) (\<lambda>t.
         Inr (\<lparr>aa_handle = pl_handle p, aa_did = pl_did p\<rparr>, t))))))"

definition at_logout :: "at_auth list \<Rightarrow> (acct_error + string) \<times> at_auth list" where
  "at_logout t =
     (case fetch_logged_in_data t of
        Inl e \<Rightarrow> (Inl e, t)
      | Inr None \<Rightarrow> (Inl (Msg ''No user logged in. Please log in using tiles at login <handle>''), t)
      | Inr (Some a) \<Rightarrow>
          (case upsert_auth_data (a\<lparr>at_logged_in := False\<rparr>) t of
             Inl e \<Rightarrow> (Inl e, t)
           | Inr t' \<Rightarrow> (Inr (''Logged out successfully as @'' @ at_handle a), t')))"

section \<open>Sharing a session\<close>

record encrypted =
  en_ciphertext :: string
  en_nonce :: string
  en_key :: string

text \<open>The cipher with its random key and nonce, and base64.\<close>

record cipher =
  ci_encrypt :: "string \<Rightarrow> string \<Rightarrow> string \<Rightarrow> string option"
  ci_decrypt :: "string \<Rightarrow> string \<Rightarrow> string \<Rightarrow> string option"
  ci_encode :: "string \<Rightarrow> string"
  ci_decode :: "string \<Rightarrow> string option"

definition encrypt_to_base64 :: "cipher \<Rightarrow> string \<Rightarrow> string \<Rightarrow> string \<Rightarrow> string + encrypted" where
  "encrypt_to_base64 C key nonce plain =
     res_bind (ok_or ''Encryption failed for ciphertext'' (ci_encrypt C key nonce plain)) (\<lambda>text.
     Inr \<lparr>en_ciphertext = ci_encode C text, en_nonce = ci_encode C nonce, en_key = ci_encode C key\<rparr>)"

definition decrypt_from_base64 :: "cipher \<Rightarrow> encrypted \<Rightarrow> string + string" where
  "decrypt_from_base64 C e =
     res_bind (ok_or ''invalid base64'' (ci_decode C (en_nonce e))) (\<lambda>nonce.
     res_bind (ok_or ''invalid base64'' (ci_decode C (en_key e))) (\<lambda>key.
     res_bind (ok_or ''invalid base64'' (ci_decode C (en_ciphertext e))) (\<lambda>text.
     if length key \<noteq> 32 then Inl (''Invalid key length: expected 32 bytes, got '' @ show_nat (length key))
     else if length nonce \<noteq> 24 then Inl (''Invalid nonce length: expected 24 bytes, got '' @ show_nat (length nonce))
     else ok_or ''Failed to decrypt'' (ci_decrypt C key nonce text))))"

text \<open>What is published: the encrypted content, or the snapshot as it is.\<close>

datatype at_record = EncContent string | PlainSession snapshot

record share_world =
  sw_session_ok :: "string \<Rightarrow> string + unit"
  sw_restore :: "string \<Rightarrow> string + unit"
  sw_json :: "snapshot \<Rightarrow> string + string"
  sw_cipher :: cipher
  sw_key :: string
  sw_nonce :: string
  sw_publish :: "string \<Rightarrow> at_record \<Rightarrow> string + string"
  sw_stored :: "string \<Rightarrow> string + string option"
  sw_now :: nat

definition record_of :: "share_world \<Rightarrow> snapshot \<Rightarrow> bool \<Rightarrow> string + at_record \<times> (string \<times> string) option" where
  "record_of W sn private =
     (if private
      then res_bind (sw_json W sn) (\<lambda>plain.
           res_bind (map_err (\<lambda>_. ''Failed to encrypt the session'')
               (encrypt_to_base64 (sw_cipher W) (sw_key W) (sw_nonce W) plain)) (\<lambda>e.
           Inr (EncContent (en_ciphertext e), Some (en_nonce e, en_key e))))
      else Inr (PlainSession sn, None))"

definition shareable_url :: "cipher \<Rightarrow> string \<Rightarrow> (string \<times> string) option \<Rightarrow> string" where
  "shareable_url C uri secret =
     ''https://chat.tiles.run/'' @ ci_encode C uri @
     (case secret of None \<Rightarrow> '''' | Some (nonce, key) \<Rightarrow> ''#'' @ nonce @ ''.'' @ key)"

text \<open>The result is the link that is shown and the table with the session as it is after the call.
  The third component is what was published, and for which account.\<close>

definition share_session ::
  "share_world \<Rightarrow> snapshot \<Rightarrow> bool \<Rightarrow> at_auth list
     \<Rightarrow> (string + string) \<times> at_auth list \<times> (string \<times> at_record) list" where
  "share_session W sn private t =
     (case map_err show_acct_error (fetch_logged_in_data t) of
        Inl e \<Rightarrow> (Inl e, t, [])
      | Inr None \<Rightarrow> (Inl ''NOT_LOGGED_IN'', t, [])
      | Inr (Some a) \<Rightarrow>
          (case res_bind (sw_session_ok W (at_session a)) (\<lambda>_.
                res_bind (map_err (\<lambda>_. ''Failed to restore the oauth session, Try re-login with ATproto'')
                  (sw_restore W (at_key a))) (\<lambda>_. record_of W sn private)) of
             Inl e \<Rightarrow> (Inl e, t, [])
           | Inr (rec, secret) \<Rightarrow>
               (case sw_publish W (at_key a) rec of
                  Inl e \<Rightarrow> (Inl e, t, [(at_key a, rec)])
                | Inr uri \<Rightarrow>
                    (case res_bind (sw_stored W (at_key a)) (\<lambda>s.
                          res_bind (ok_or ''No ATmosphere session was stored for this account'' s) (\<lambda>session.
                          map_err show_acct_error (upsert_auth_data
                            \<lparr>at_key = at_key a, at_session = session, at_state = '''', at_logged_in = True,
                             at_created = sw_now W, at_updated = sw_now W, at_handle = at_handle a\<rparr> t))) of
                       Inl e \<Rightarrow> (Inl e, t, [(at_key a, rec)])
                     | Inr t' \<Rightarrow> (Inr (shareable_url (sw_cipher W) uri secret), t', [(at_key a, rec)])))))"

section \<open>The daemon's handlers\<close>

text \<open>The events of one sign-in. It is cancelled by a newer one or by the client going away before it
  is over: then the last event is missing and nothing is written.\<close>

datatype at_event = Authorize string | SignedIn at_account | LoginError string

definition login_error_of :: "login_error \<Rightarrow> app_error" where
  "login_error_of e =
     (case e of HandleNotFound _ \<Rightarrow> NotFound (show_login_error e) | LoginFailed _ \<Rightarrow> CannotProcess (show_login_error e))"

definition run_login ::
  "(string + at_account \<times> at_auth list) option \<Rightarrow> pending_login \<Rightarrow> at_auth list \<Rightarrow> at_event list \<times> at_auth list" where
  "run_login outcome p t =
     (case outcome of
        None \<Rightarrow> ([Authorize (pl_url p)], t)
      | Some (Inr (acct, t')) \<Rightarrow> ([Authorize (pl_url p), SignedIn acct], t')
      | Some (Inl e) \<Rightarrow> ([Authorize (pl_url p), LoginError e], t))"

text \<open>The sign-in a new one replaces is cancelled, and waited for. Tasks are named by numbers: the
  result is the cancelled one, if any, and the one that is now waiting.\<close>

definition at_login ::
  "(login_error + pending_login) \<Rightarrow> nat \<Rightarrow> nat option
     \<Rightarrow> (app_error + pending_login) \<times> nat option \<times> nat option" where
  "at_login pending new current =
     (case pending of
        Inl e \<Rightarrow> (Inl (login_error_of e), None, current)
      | Inr p \<Rightarrow> (Inr p, current, Some new))"

definition at_logout_api :: "at_auth list \<Rightarrow> (app_error + string \<times> string) \<times> at_auth list" where
  "at_logout_api t =
     (case map_err (\<lambda>e. InternalServerError (show_acct_error e)) (fetch_logged_in_data t) of
        Inl e \<Rightarrow> (Inl e, t)
      | Inr None \<Rightarrow> (Inl (NotFound ''No ATmosphere account is signed in''), t)
      | Inr (Some a) \<Rightarrow>
          (case at_logout t of
             (Inl e, t') \<Rightarrow> (Inl (CannotProcess (show_acct_error e)), t')
           | (Inr _, t') \<Rightarrow> (Inr (at_handle a, at_key a), t')))"

definition at_status :: "at_auth list \<Rightarrow> app_error + string \<times> string" where
  "at_status t =
     res_bind (map_err (\<lambda>e. CannotProcess (show_acct_error e)) (fetch_logged_in_data t)) (\<lambda>a.
       case a of Some a \<Rightarrow> Inr (at_handle a, at_key a) | None \<Rightarrow> Inl (NotFound ''Not logged-in''))"

text \<open>The client reads the events as they come in, up to the one that ends the sign-in. Data comes as
  JSON, of which it takes the text of a field and the account. \<open>None\<close> is a failed read.\<close>

record 'j at_json =
  aj_field :: "string \<Rightarrow> 'j \<Rightarrow> string option"
  aj_account :: "'j \<Rightarrow> string + at_account"

fun read_events :: "'j at_json \<Rightarrow> (string \<times> 'j) list \<Rightarrow> (string + at_account) option" where
  "read_events J [] = None"
| "read_events J ((name, data) # es) =
     (if name = ''authorize''
      then (case aj_field J ''url'' data of
              None \<Rightarrow> Some (Inl ''The sign in came without a url'')
            | Some _ \<Rightarrow> read_events J es)
      else if name = ''signed_in'' then Some (aj_account J data)
      else if name = ''error''
      then Some (Inl (case aj_field J ''reason'' data of Some r \<Rightarrow> r | None \<Rightarrow> ''The sign in failed''))
      else read_events J es)"

fun sign_in :: "'j at_json \<Rightarrow> (string \<Rightarrow> 'j option) \<Rightarrow> string option list \<Rightarrow> string \<Rightarrow> string + at_account" where
  "sign_in J json [] pending = Inl ''The daemon closed the sign in before it finished''"
| "sign_in J json (None # chunks) pending = Inl ''the connection failed''"
| "sign_in J json (Some chunk # chunks) pending =
     (case take_events json (pending @ utf8_lossy chunk) of
        (es, rest) \<Rightarrow>
          (case read_events J es of Some r \<Rightarrow> r | None \<Rightarrow> sign_in J json chunks rest))"

section \<open>Chunks don't matter\<close>

lemma read_events_append:
  "read_events J (es @ es') = (case read_events J es of Some r \<Rightarrow> Some r | None \<Rightarrow> read_events J es')"
  by (induction J es rule: read_events.induct) (auto split: option.split)

definition read_or_wait :: "'j at_json \<Rightarrow> (string \<times> 'j) list \<Rightarrow> unit \<Rightarrow> unit + (string + at_account)" where
  "read_or_wait J es u = (case read_events J es of Some r \<Rightarrow> Inr r | None \<Rightarrow> Inl u)"

interpretation sign_in_reader: event_reader json "read_or_wait J" "\<lambda>cs p u. sign_in J json cs p" Some
    "\<lambda>u. Inl ''The daemon closed the sign in before it finished''" "\<lambda>r. r"
  by unfold_locales
    (auto simp: read_or_wait_def read_events_append res_else_def split: option.split prod.split)

text \<open>However the daemon's answer is cut into chunks, as long as no cut is inside a character, the
  client reads the same events from it and ends with the same result as from the answer in one piece.\<close>

theorem sign_in_chunks:
  assumes "\<forall>c \<in> set cs. utf8_valid c"
  shows "sign_in J json (map Some cs) '''' = sign_in J json [Some (concat cs)] ''''"
  by (rule sign_in_reader.loop_once [OF assms])

definition demo_at_json :: "string at_json" where
  "demo_at_json = \<lparr>aj_field = (\<lambda>_ d. Some d), aj_account = (\<lambda>d. Inr \<lparr>aa_handle = d, aa_did = d\<rparr>)\<rparr>"

theorem sign_in_chunks_witness:
  "sign_in demo_at_json Some [Some ''event: signed_in'', Some (CHR 0x0A # ''data: me'' @ [CHR 0x0A, CHR 0x0A])] '''' =
   sign_in demo_at_json Some
     [Some (''event: signed_in'' @ CHR 0x0A # ''data: me'' @ [CHR 0x0A, CHR 0x0A])] ''''"
  using sign_in_chunks [of "[''event: signed_in'', CHR 0x0A # ''data: me'' @ [CHR 0x0A, CHR 0x0A]]" demo_at_json Some]
  by (simp add: utf8_rest_def)

section \<open>The table keeps one row for each account\<close>

interpretation at_rows: keyed_table "wf_table at_indexes" "insert_row at_indexes" "\<lambda>a. Some [at_key a]"
  by (rule keyed_table_index [of "''atproto_auth_data.key''"]) (simp add: at_indexes_def)

lemma insert_auth:
  "insert_row at_indexes a t =
     (if at_key a \<in> at_key ` set t then Inl (UniqueFailed ''atproto_auth_data.key'') else Inr (t @ [a]))"
  by (auto simp: insert_row_def at_indexes_def list_ex_iff clash_def intro: rev_image_eqI)

lemma unique_auth: "unique_on (\<lambda>a. Some [at_key a]) t \<longleftrightarrow> distinct (map at_key t)"
proof (induction t)
  case (Cons a t)
  have "list_ex (clash (\<lambda>a. Some [at_key a]) a) t \<longleftrightarrow> at_key a \<in> at_key ` set t"
    by (auto simp: list_ex_iff clash_def intro: rev_image_eqI)
  with Cons show ?case by (auto simp: unique_on_Cons)
qed simp

lemma wf_auth: "wf_table at_indexes t \<longleftrightarrow> distinct (map at_key t)"
  by (simp add: wf_table_def at_indexes_def unique_auth)

lemma filter_key_one:
  "distinct (map f t) \<Longrightarrow> a \<in> set t \<Longrightarrow> filter (\<lambda>x. f x = f a) t = [a]"
proof (induction t)
  case (Cons b t)
  then show ?case by (cases "b = a") (auto intro!: filter_False, metis image_eqI)
qed simp

definition refreshed :: "at_auth \<Rightarrow> at_auth \<Rightarrow> at_auth" where
  "refreshed a r =
     (if at_key r = at_key a
      then r\<lparr>at_session := at_session a, at_updated := at_updated a, at_logged_in := at_logged_in a\<rparr> else r)"

lemma refreshed_key [simp]: "at_key (refreshed a r) = at_key r"
  by (simp add: refreshed_def)

lemma refreshed_others:
  "map (refreshed a) (filter (\<lambda>x. at_key x \<noteq> at_key a) t) = filter (\<lambda>x. at_key x \<noteq> at_key a) t"
  by (induction t) (auto simp: refreshed_def)

lemma upsert_auth:
  assumes "distinct (map at_key t)"
  shows "upsert_auth_data a t =
    Inr (if at_key a \<in> at_key ` set t then map (refreshed a) t else t @ [a])"
proof (cases "at_key a \<in> at_key ` set t")
  case True
  have "map (\<lambda>r. if at_key r = at_key a
      then r\<lparr>at_session := at_session a, at_updated := at_updated a, at_logged_in := at_logged_in a\<rparr> else r) t =
      map (refreshed a) t" by (simp add: refreshed_def)
  moreover have "wf_table at_indexes (map (refreshed a) t)"
    using assms by (simp add: wf_auth comp_def)
  ultimately have "update_rows at_indexes (\<lambda>r. at_key r = at_key a)
      (\<lambda>r. r\<lparr>at_session := at_session a, at_updated := at_updated a, at_logged_in := at_logged_in a\<rparr>) t =
      Inr (map (refreshed a) t)" by (simp add: update_rows_Inr)
  with True show ?thesis by (simp add: upsert_auth_data_def insert_auth)
qed (simp add: upsert_auth_data_def insert_auth)

lemma logged_in_data: "fetch_logged_in_data t = Inr (case filter at_logged_in t of [] \<Rightarrow> None | a # _ \<Rightarrow> Some a)"
  by (simp add: fetch_logged_in_data_def optional_row_def query_row_def split: list.split)

lemma at_status_eq:
  "at_status t = (case filter at_logged_in t of [] \<Rightarrow> Inl (NotFound ''Not logged-in'') | a # _ \<Rightarrow> Inr (at_handle a, at_key a))"
  by (simp add: at_status_def logged_in_data split: list.split)

lemma finish_login_ok:
  assumes "finish_login came exchange stored now p t = Inr (acct, t')"
  obtains session where "stored (pl_did p) = Inr (Some session)"
    and "upsert_auth_data \<lparr>at_key = pl_did p, at_session = session, at_state = '''', at_logged_in = True,
      at_created = now, at_updated = now, at_handle = pl_handle p\<rparr> t = Inr t'"
    and "acct = \<lparr>aa_handle = pl_handle p, aa_did = pl_did p\<rparr>"
  using assms by (auto simp: finish_login_def res_bind_eq_Inr split: option.splits)

text \<open>C30. A sign-in that succeeds leaves exactly one row for its account, signed in and with the new
  session, and all rows of other accounts as they were. If nobody was signed in before, it is the
  account the daemon reports from then on.\<close>

theorem sign_in_correct:
  assumes "distinct (map at_key t)" and "finish_login came exchange stored now p t = Inr (acct, t')"
  shows "distinct (map at_key t') \<and>
    (\<exists>a. filter (\<lambda>a. at_key a = pl_did p) t' = [a] \<and> at_logged_in a \<and> stored (pl_did p) = Inr (Some (at_session a))) \<and>
    filter (\<lambda>a. at_key a \<noteq> pl_did p) t' = filter (\<lambda>a. at_key a \<noteq> pl_did p) t \<and>
    (at_status t = Inl (NotFound ''Not logged-in'') \<longrightarrow> (\<exists>handle. at_status t' = Inr (handle, pl_did p)))"
proof -
  from assms(2) obtain session where s: "stored (pl_did p) = Inr (Some session)"
    and up: "upsert_auth_data \<lparr>at_key = pl_did p, at_session = session, at_state = '''', at_logged_in = True,
      at_created = now, at_updated = now, at_handle = pl_handle p\<rparr> t = Inr t'"
    by (rule finish_login_ok)
  let ?a = "\<lparr>at_key = pl_did p, at_session = session, at_state = '''', at_logged_in = True,
      at_created = now, at_updated = now, at_handle = pl_handle p\<rparr>"
  show ?thesis
  proof (cases "pl_did p \<in> at_key ` set t")
    case False
    then have t': "t' = t @ [?a]" using up upsert_auth [OF assms(1), of ?a] by simp
    have none: "filter (\<lambda>a. at_key a = pl_did p) t = []"
      using False by (metis (mono_tags) filter_False image_eqI)
    have others: "filter (\<lambda>a. at_key a \<noteq> pl_did p) t' = filter (\<lambda>a. at_key a \<noteq> pl_did p) t" by (simp add: t')
    show ?thesis
      using assms(1) False s none others by (auto simp: t' at_status_eq split: list.splits)
  next
    case True
    then have t': "t' = map (refreshed ?a) t" using up upsert_auth [OF assms(1), of ?a] by simp
    from True obtain a where a: "a \<in> set t" "at_key a = pl_did p" by auto
    then have one: "filter (\<lambda>x. at_key x = pl_did p) t = [a]"
      using filter_key_one [OF assms(1)] by metis
    have "filter (\<lambda>x. at_key x = pl_did p) t' = [refreshed ?a a]"
      using one by (simp add: t' filter_map comp_def)
    moreover have "at_logged_in (refreshed ?a a)" "at_session (refreshed ?a a) = session"
      using a(2) by (simp_all add: refreshed_def)
    moreover have "filter (\<lambda>x. at_key x \<noteq> pl_did p) t' = filter (\<lambda>x. at_key x \<noteq> pl_did p) t"
      using refreshed_others [of ?a t] by (simp add: t' filter_map comp_def)
    moreover have "\<exists>handle. at_status t' = Inr (handle, pl_did p)" if "at_status t = Inl (NotFound ''Not logged-in'')"
    proof -
      from that have "filter at_logged_in t = []" by (simp add: at_status_eq split: list.splits)
      then have "filter at_logged_in t' = map (refreshed ?a) (filter (\<lambda>x. at_key x = pl_did p) t)"
        by (auto simp: t' filter_map comp_def refreshed_def filter_empty_conv intro!: arg_cong [where f = "map _"] filter_cong)
      with one a(2) show ?thesis by (simp add: at_status_eq)
    qed
    ultimately show ?thesis using assms(1) s by (auto simp: t' comp_def)
  qed
qed

theorem sign_in_correct_witness:
  "\<exists>t'. finish_login (Some (Inr \<lparr>cb_code = Some ''c'', cb_iss = None, cb_state = None, cb_error = None,
      cb_error_description = None\<rparr>)) (\<lambda>_ _. Inr ()) (\<lambda>_. Inr (Some ''s'')) 1
      \<lparr>pl_url = ''u'', pl_handle = ''h'', pl_did = ''d''\<rparr> [] = Inr (\<lparr>aa_handle = ''h'', aa_did = ''d''\<rparr>, t') \<and>
    (\<exists>a. filter (\<lambda>a. at_key a = ''d'') t' = [a] \<and> at_logged_in a)"
proof -
  let ?p = "\<lparr>pl_url = ''u'', pl_handle = ''h'', pl_did = ''d''\<rparr>"
  let ?came = "Some (Inr \<lparr>cb_code = Some ''c'', cb_iss = None, cb_state = None, cb_error = None,
      cb_error_description = None\<rparr>) :: (string + callback_params) option"
  let ?t = "[\<lparr>at_key = ''d'', at_session = ''s'', at_state = '''', at_logged_in = True, at_created = 1,
      at_updated = 1, at_handle = ''h''\<rparr>]"
  have "finish_login ?came (\<lambda>_ _. Inr ()) (\<lambda>_. Inr (Some ''s'')) 1 ?p [] = Inr (\<lparr>aa_handle = ''h'', aa_did = ''d''\<rparr>, ?t)"
    by (simp add: finish_login_def upsert_auth ok_or_def)
  with sign_in_correct [of "[]" ?came "\<lambda>_ _. Inr ()" "\<lambda>_. Inr (Some ''s'')" 1 ?p "\<lparr>aa_handle = ''h'', aa_did = ''d''\<rparr>" ?t]
  show ?thesis by auto
qed

section \<open>Signing in twice\<close>

text \<open>A sign-in doesn't sign the account before it out: with a row of another account signed in, the new one is
  stored as signed in too, but status, sharing and signing out go on with the first. Signing out once
  leaves the second signed in.\<close>

theorem second_sign_in_waits:
  assumes "distinct (map at_key t)" and "at_status t = Inr (h, did)" and "pl_did p \<notin> at_key ` set t"
    and "finish_login came exchange stored now p t = Inr (acct, t')"
  shows "at_status t' = Inr (h, did) \<and> did \<noteq> pl_did p \<and> (\<exists>a \<in> set t'. at_key a = pl_did p \<and> at_logged_in a)"
proof -
  from assms(4) obtain session where
    up: "upsert_auth_data \<lparr>at_key = pl_did p, at_session = session, at_state = '''', at_logged_in = True,
      at_created = now, at_updated = now, at_handle = pl_handle p\<rparr> t = Inr t'"
    by (rule finish_login_ok)
  then have t': "t' = t @ [\<lparr>at_key = pl_did p, at_session = session, at_state = '''', at_logged_in = True,
      at_created = now, at_updated = now, at_handle = pl_handle p\<rparr>]"
    using upsert_auth [OF assms(1)] assms(3) by simp
  from assms(2) obtain a as where a: "filter at_logged_in t = a # as" "h = at_handle a" "did = at_key a"
    by (auto simp: at_status_eq split: list.splits)
  then have "a \<in> set t" by (auto simp: filter_eq_Cons_iff)
  with a have "did \<in> at_key ` set t" by simp
  with a assms(3) have "did \<noteq> pl_did p" by metis
  with a show ?thesis by (simp add: t' at_status_eq)
qed

text \<open>The handle of an account that signed in before is not brought up to date.\<close>

theorem handle_is_kept:
  assumes "distinct (map at_key t)" and "a \<in> set t" and "at_key a = pl_did p"
    and "finish_login came exchange stored now p t = Inr (acct, t')"
  shows "map at_handle t' = map at_handle t"
proof -
  from assms(4) obtain session where
    up: "upsert_auth_data \<lparr>at_key = pl_did p, at_session = session, at_state = '''', at_logged_in = True,
      at_created = now, at_updated = now, at_handle = pl_handle p\<rparr> t = Inr t'"
    by (rule finish_login_ok)
  moreover have "pl_did p \<in> at_key ` set t" using assms(2,3) by (auto intro: rev_image_eqI)
  ultimately have "t' = map (refreshed \<lparr>at_key = pl_did p, at_session = session, at_state = '''', at_logged_in = True,
      at_created = now, at_updated = now, at_handle = pl_handle p\<rparr>) t"
    by (simp add: upsert_auth [OF assms(1)])
  then show ?thesis by (simp add: refreshed_def)
qed

section \<open>A private link is the only key\<close>

text \<open>What the code relies on of the cipher and base64.\<close>

definition good_cipher :: "cipher \<Rightarrow> bool" where
  "good_cipher C \<longleftrightarrow>
     (\<forall>s. ci_decode C (ci_encode C s) = Some s) \<and>
     (\<forall>key nonce plain text. length key = 32 \<and> length nonce = 24 \<and> ci_encrypt C key nonce plain = Some text \<longrightarrow>
        ci_decrypt C key nonce text = Some plain)"

lemma decrypt_encrypt:
  assumes "good_cipher C" and "length key = 32" and "length nonce = 24"
    and "encrypt_to_base64 C key nonce plain = Inr e"
  shows "decrypt_from_base64 C e = Inr plain"
  using assms by (auto simp: good_cipher_def encrypt_to_base64_def decrypt_from_base64_def ok_or_def
      split: option.splits)

text \<open>C31. A session that is shared privately is published as encrypted content and nothing else, and the link
  ends in the nonce and the key, with which the content decrypts to the session's JSON. A session
  shared in the open is published as it is, and the link has no key.\<close>

theorem private_share:
  assumes "good_cipher (sw_cipher W)" and "length (sw_key W) = 32" and "length (sw_nonce W) = 24"
    and "share_session W sn private t = (Inr url, t', published)"
  shows "\<exists>did rec uri. published = [(did, rec)] \<and> sw_publish W did rec = Inr uri \<and>
    (\<exists>a \<in> set t. at_logged_in a \<and> at_key a = did) \<and>
    (if private
     then \<exists>c nonce key plain. rec = EncContent c \<and> sw_json W sn = Inr plain \<and>
       url = ''https://chat.tiles.run/'' @ ci_encode (sw_cipher W) uri @ ''#'' @ nonce @ ''.'' @ key \<and>
       decrypt_from_base64 (sw_cipher W) \<lparr>en_ciphertext = c, en_nonce = nonce, en_key = key\<rparr> = Inr plain
     else rec = PlainSession sn \<and> url = ''https://chat.tiles.run/'' @ ci_encode (sw_cipher W) uri)"
proof -
  from assms(4) obtain a rec secret uri where
    a: "a \<in> set t" "at_logged_in a" and
    rec: "record_of W sn private = Inr (rec, secret)" and
    uri: "sw_publish W (at_key a) rec = Inr uri" and
    url: "url = shareable_url (sw_cipher W) uri secret" and
    published: "published = [(at_key a, rec)]"
    by (auto simp: share_session_def logged_in_data res_bind_eq_Inr filter_eq_Cons_iff split: sum.splits option.splits list.splits prod.splits)
  show ?thesis
  proof (cases "private")
    case True
    with rec obtain plain e where e: "sw_json W sn = Inr plain" "rec = EncContent (en_ciphertext e)"
        "secret = Some (en_nonce e, en_key e)"
        "encrypt_to_base64 (sw_cipher W) (sw_key W) (sw_nonce W) plain = Inr e"
      by (auto simp: record_of_def res_bind_eq_Inr)
    from decrypt_encrypt [OF assms(1-3) e(4)]
    have "decrypt_from_base64 (sw_cipher W)
        \<lparr>en_ciphertext = en_ciphertext e, en_nonce = en_nonce e, en_key = en_key e\<rparr> = Inr plain"
      by (cases e) simp
    with True a uri published url e show ?thesis by (auto simp: shareable_url_def)
  next
    case False
    with rec a uri published url show ?thesis by (auto simp: record_of_def shareable_url_def)
  qed
qed

theorem private_share_witness:
  "\<exists>url t' published.
    share_session
      \<lparr>sw_session_ok = (\<lambda>_. Inr ()), sw_restore = (\<lambda>_. Inr ()), sw_json = (\<lambda>s. Inr (sn_name s)),
       sw_cipher = \<lparr>ci_encrypt = (\<lambda>_ _ s. Some (rev s)), ci_decrypt = (\<lambda>_ _ s. Some (rev s)), ci_encode = id,
         ci_decode = Some\<rparr>,
       sw_key = replicate 32 CHR ''k'', sw_nonce = replicate 24 CHR ''n'', sw_publish = (\<lambda>_ _. Inr ''at''),
       sw_stored = (\<lambda>_. Inr (Some ''s2'')), sw_now = 2\<rparr>
      (snapshot_new ''now'' ''name'' ''id'') True
      [\<lparr>at_key = ''d'', at_session = ''s'', at_state = '''', at_logged_in = True, at_created = 1,
        at_updated = 1, at_handle = ''h''\<rparr>] = (Inr url, t', published) \<and>
    (\<exists>did c. published = [(did, EncContent c)])"
proof -
  let ?C = "\<lparr>ci_encrypt = (\<lambda>_ _ s. Some (rev s)), ci_decrypt = (\<lambda>_ _ s. Some (rev s)), ci_encode = id,
         ci_decode = Some\<rparr> :: cipher"
  let ?W = "\<lparr>sw_session_ok = (\<lambda>_. Inr ()), sw_restore = (\<lambda>_. Inr ()), sw_json = (\<lambda>s. Inr (sn_name s)),
       sw_cipher = ?C, sw_key = replicate 32 CHR ''k'', sw_nonce = replicate 24 CHR ''n'',
       sw_publish = (\<lambda>_ _. Inr ''at''), sw_stored = (\<lambda>_. Inr (Some ''s2'')), sw_now = 2\<rparr> :: share_world"
  let ?a = "\<lparr>at_key = ''d'', at_session = ''s'', at_state = '''', at_logged_in = True, at_created = 1,
        at_updated = 1, at_handle = ''h''\<rparr> :: at_auth"
  let ?sn = "snapshot_new ''now'' ''name'' ''id''"
  have good: "good_cipher (sw_cipher ?W)" by (simp add: good_cipher_def)
  obtain url t' published where run: "share_session ?W ?sn True [?a] = (Inr url, t', published)"
    by (simp add: share_session_def logged_in_data record_of_def encrypt_to_base64_def ok_or_def upsert_auth)
  from private_share [OF good _ _ run] run show ?thesis by auto
qed

end
