(* ===== verification/Inference.thy ===== *)
theory Inference
  imports Daemon Textual
begin

text \<open>
  The inference server's process (\<open>tiles/src/core/server.rs\<close>) and the daemon's handlers for it
  (\<open>daemon/server.rs\<close>): starting it, finding it again by its pid file, and stopping it with a
  signal and then by force. The computer is the processes, the pid file and what answers on the
  port; what happens to it while the code sleeps is an argument, an arbitrary function.
\<close>

section \<open>The computer\<close>

text \<open>\<open>pr_proc\<close> and \<open>pr_ps\<close> are what \<open>/proc\<close> and \<open>ps\<close> tell of the command line. \<open>pr_ours\<close> is if it may
  be signalled, \<open>pr_child\<close> if it is a child of the daemon, and \<open>pr_dead\<close> if it has died: a child then stays
  until it is collected.\<close>

record process =
  pr_group :: int
  pr_proc :: "string option"
  pr_ps :: "string option"
  pr_ours :: bool
  pr_child :: bool
  pr_dead :: bool

datatype pid_file = NoFile | Unreadable string | Holds string

datatype model_state = NoModel | Loading | Loaded

record loaded_model =
  lm_state :: model_state
  lm_path :: "string option"

datatype port = Silent | ErrorStatus | Answers "loaded_model option"

record host =
  ho_procs :: "int \<Rightarrow> process option"
  ho_pid_file :: pid_file
  ho_port :: port

datatype sent = Term int | Kill int | KillGroup int

text \<open>The errors with an answer of their own, and all others by their text.\<close>

datatype server_failure = Server server_error | OtherFailure string

definition py_port :: nat where "py_port = 6969"

definition show_server_error :: "server_error \<Rightarrow> string" where
  "show_server_error e =
     (case e of
        PortInUse \<Rightarrow> ''Port '' @ show_nat py_port @ '' is in use by another process''
      | NotReady \<Rightarrow> ''Inference server has not answered after 15s, it may still be starting. See logs/server.err.log''
      | NotRunning \<Rightarrow> ''Inference server is not running'')"

definition show_failure :: "server_failure \<Rightarrow> string" where
  "show_failure e = (case e of Server s \<Rightarrow> show_server_error s | OtherFailure m \<Rightarrow> m)"

datatype server_state = Started | AlreadyRunning | Stopped | NothingRunning

definition show_server_state :: "server_state \<Rightarrow> string" where
  "show_server_state s =
     (case s of
        Started \<Rightarrow> ''Inference server started''
      | AlreadyRunning \<Rightarrow> ''Inference server is already running''
      | Stopped \<Rightarrow> ''Inference server stopped''
      | NothingRunning \<Rightarrow> ''Inference server is not running'')"

section \<open>Finding the server\<close>

definition ping_server :: "host \<Rightarrow> server_failure + loaded_model option" where
  "ping_server h = (case ho_port h of Answers m \<Rightarrow> Inr m | _ \<Rightarrow> Inl (Server NotRunning))"

text \<open>\<open>waitpid\<close> without waiting, and \<open>kill\<close> with signal 0.\<close>

definition collect :: "int \<Rightarrow> host \<Rightarrow> host" where
  "collect pid h =
     (case ho_procs h pid of
        Some p \<Rightarrow> if pr_child p \<and> pr_dead p then h\<lparr>ho_procs := (ho_procs h)(pid := None)\<rparr> else h
      | None \<Rightarrow> h)"

definition may_signal :: "int \<Rightarrow> host \<Rightarrow> bool" where
  "may_signal pid h = (case ho_procs h pid of Some p \<Rightarrow> pr_ours p | None \<Rightarrow> False)"

definition is_alive :: "int \<Rightarrow> host \<Rightarrow> bool \<times> host" where
  "is_alive pid h = (may_signal pid (collect pid h), collect pid h)"

definition command_line :: "process \<Rightarrow> string option" where
  "command_line p =
     (case pr_proc p of
        Some raw \<Rightarrow> Some (map (\<lambda>c. if c = CHR 0x00 then CHR '' '' else c) (utf8_lossy raw))
      | None \<Rightarrow> map_option utf8_lossy (pr_ps p))"

definition is_inference_server :: "int \<Rightarrow> host \<Rightarrow> bool" where
  "is_inference_server pid h =
     (case ho_procs h pid of
        None \<Rightarrow> False
      | Some p \<Rightarrow> (case command_line p of Some line \<Rightarrow> contains line ''server.main'' | None \<Rightarrow> False))"

definition remove_pid_file :: "int \<Rightarrow> host \<Rightarrow> host" where
  "remove_pid_file pid h =
     (case ho_pid_file h of
        Holds raw \<Rightarrow> if trim raw = show_int pid then h\<lparr>ho_pid_file := NoFile\<rparr> else h
      | _ \<Rightarrow> h)"

definition running_server_pid :: "host \<Rightarrow> (server_failure + int option) \<times> host" where
  "running_server_pid h =
     (case ho_pid_file h of
        NoFile \<Rightarrow> (Inr None, h)
      | Unreadable e \<Rightarrow> (Inl (OtherFailure ''Failed to read the server pid file''), h)
      | Holds raw \<Rightarrow>
          (case parse_i32 (trim raw) of
             None \<Rightarrow> (Inr None, h)
           | Some pid \<Rightarrow>
               if pid \<le> 0 then (Inr None, h)
               else (case is_alive pid h of
                 (alive, h) \<Rightarrow>
                   if alive \<and> is_inference_server pid h then (Inr (Some pid), h)
                   else (Inr None, remove_pid_file pid h))))"

section \<open>Starting\<close>

text \<open>\<open>W n\<close> is what happens during the sleep with number \<open>n\<close>, and how many milliseconds more than the
  sleep have gone by at the next look.\<close>

type_synonym meanwhile = "nat \<Rightarrow> host \<Rightarrow> nat \<times> host"

function wait_until_ready ::
  "meanwhile \<Rightarrow> nat \<Rightarrow> nat \<Rightarrow> int \<Rightarrow> host \<Rightarrow> (server_failure + unit) \<times> host" where
  "wait_until_ready W n elapsed pid h =
     (if elapsed < 15000
      then if is_ok (ping_server h)
        then (case is_alive pid h of
                (alive, h) \<Rightarrow> (if alive then Inr () else Inl (Server PortInUse), h))
        else (case is_alive pid h of
                (alive, h) \<Rightarrow>
                  if \<not> alive then (Inl (OtherFailure ''Inference server exited while starting. See logs/server.err.log''), h)
                  else (case W n h of (late, h) \<Rightarrow> wait_until_ready W (Suc n) (elapsed + 250 + late) pid h))
      else (Inl (Server NotReady), h))"
  by pat_completeness auto
termination
  by (relation "measure (\<lambda>(_, _, elapsed, _, _). 15000 - elapsed)") auto

declare wait_until_ready.simps [simp del]

text \<open>\<open>lock\<close> is taking the lock of starts and stops, \<open>logs\<close> opening the log files in the data folder, and
  \<open>spawn\<close> running the server: the child's pid, or none when it is already gone.\<close>

record launch =
  la_lock :: "string + unit"
  la_logs :: "string + unit"
  la_spawn :: "host \<Rightarrow> (string + int option) \<times> host"

text \<open>The last component is the process that was started, if any.\<close>

definition start_server_daemon ::
  "launch \<Rightarrow> meanwhile \<Rightarrow> host \<Rightarrow> (server_failure + server_state) \<times> host \<times> int option" where
  "start_server_daemon L W h =
     (case la_lock L of
        Inl e \<Rightarrow> (Inl (OtherFailure e), h, None)
      | Inr _ \<Rightarrow>
          if is_ok (ping_server h)
          then (case running_server_pid h of
                  (Inl e, h) \<Rightarrow> (Inl e, h, None)
                | (Inr (Some _), h) \<Rightarrow> (Inr AlreadyRunning, h, None)
                | (Inr None, h) \<Rightarrow> (Inl (Server PortInUse), h, None))
          else (case la_logs L of
                  Inl e \<Rightarrow> (Inl (OtherFailure e), h, None)
                | Inr _ \<Rightarrow>
                    (case la_spawn L h of
                       (Inl e, h) \<Rightarrow> (Inl (OtherFailure (''Error starting server due to '' @ e)), h, None)
                     | (Inr None, h) \<Rightarrow>
                         (Inl (OtherFailure ''Inference server exited while starting. See logs/server.err.log''), h, None)
                     | (Inr (Some pid), h) \<Rightarrow>
                         (case wait_until_ready W 0 0 pid h of
                            (Inl e, h) \<Rightarrow> (Inl e, h, Some pid)
                          | (Inr _, h) \<Rightarrow> (Inr Started, h, Some pid)))))"

section \<open>Stopping\<close>

text \<open>The wait after SIGTERM: \<open>True\<close> when the process is gone.\<close>

function wait_for_exit :: "meanwhile \<Rightarrow> nat \<Rightarrow> nat \<Rightarrow> int \<Rightarrow> host \<Rightarrow> bool \<times> host" where
  "wait_for_exit W n elapsed pid h =
     (if elapsed < 5000
      then (case is_alive pid h of
              (alive, h) \<Rightarrow>
                if \<not> alive then (True, h)
                else (case W n h of (late, h) \<Rightarrow> wait_for_exit W (Suc n) (elapsed + 100 + late) pid h))
      else (False, h))"
  by pat_completeness auto
termination
  by (relation "measure (\<lambda>(_, _, elapsed, _, _). 5000 - elapsed)") auto

declare wait_for_exit.simps [simp del]

text \<open>SIGKILL, which no process can catch, ends what it may signal, for a group every process of it. It is
  taken to act at once. A child of the daemon is then there until \<open>waitpid\<close> has collected it; for any other process
  \<open>waitpid\<close> returns an error at once, which is ignored.\<close>

definition end_process :: "process \<Rightarrow> process option" where
  "end_process p = (if pr_child p then Some (p\<lparr>pr_dead := True\<rparr>) else None)"

definition kill_group :: "int \<Rightarrow> host \<Rightarrow> host" where
  "kill_group pid h =
     h\<lparr>ho_procs := (\<lambda>q. case ho_procs h q of
         Some p \<Rightarrow> if pr_group p = pid \<and> pr_ours p then end_process p else Some p
       | None \<Rightarrow> None)\<rparr>"

definition kill_one :: "int \<Rightarrow> host \<Rightarrow> host" where
  "kill_one pid h =
     (case ho_procs h pid of
        Some p \<Rightarrow> if pr_ours p then h\<lparr>ho_procs := (ho_procs h)(pid := end_process p)\<rparr> else h
      | None \<Rightarrow> h)"

text \<open>Whether the pid is still the server's isn't asked again before the force.\<close>

definition stop_pid :: "meanwhile \<Rightarrow> int \<Rightarrow> host \<Rightarrow> host \<times> sent list" where
  "stop_pid W pid h =
     (case wait_for_exit W 0 0 pid h of
        (True, h) \<Rightarrow> (h, [Term pid])
      | (False, h) \<Rightarrow> (collect pid (kill_one pid (kill_group pid h)), [Term pid, KillGroup pid, Kill pid]))"

text \<open>With the signals that are sent.\<close>

definition stop_server_daemon ::
  "string + unit \<Rightarrow> meanwhile \<Rightarrow> host \<Rightarrow> (server_failure + server_state) \<times> host \<times> sent list" where
  "stop_server_daemon lock W h =
     (case lock of
        Inl e \<Rightarrow> (Inl (OtherFailure e), h, [])
      | Inr _ \<Rightarrow>
          (case running_server_pid h of
             (Inl e, h) \<Rightarrow> (Inl e, h, [])
           | (Inr None, h) \<Rightarrow>
               (if is_ok (ping_server h) then Inl (Server PortInUse) else Inr NothingRunning, h, [])
           | (Inr (Some pid), h) \<Rightarrow>
               (case stop_pid W pid h of (h, sent) \<Rightarrow> (Inr Stopped, remove_pid_file pid h, sent))))"

section \<open>The daemon's handlers\<close>

definition app_error_of :: "server_failure \<Rightarrow> app_error" where
  "app_error_of e = to_app_error (case e of Server s \<Rightarrow> Some s | OtherFailure _ \<Rightarrow> None) (show_failure e)"

definition start_server_api :: "launch \<Rightarrow> meanwhile \<Rightarrow> host \<Rightarrow> (app_error + server_state) \<times> host" where
  "start_server_api L W h = (case start_server_daemon L W h of (r, h, _) \<Rightarrow> (map_err app_error_of r, h))"

definition stop_server_api :: "string + unit \<Rightarrow> meanwhile \<Rightarrow> host \<Rightarrow> (app_error + server_state) \<times> host" where
  "stop_server_api lock W h = (case stop_server_daemon lock W h of (r, h, _) \<Rightarrow> (map_err app_error_of r, h))"

definition ping_api :: "host \<Rightarrow> app_error + loaded_model option" where
  "ping_api h = map_err app_error_of (ping_server h)"

section \<open>Looking at the computer\<close>

lemma collect_simps [simp]:
  "ho_pid_file (collect pid h) = ho_pid_file h" "ho_port (collect pid h) = ho_port h"
  "collect pid (collect pid h) = collect pid h"
  by (simp_all add: collect_def split: option.split)

lemma is_alive_eq: "is_alive pid h = (alive, h') \<longleftrightarrow> h' = collect pid h \<and> alive = may_signal pid h'"
  by (auto simp: is_alive_def)

lemma remove_pid_file_simps [simp]:
  "ho_procs (remove_pid_file pid h) = ho_procs h" "ho_port (remove_pid_file pid h) = ho_port h"
  "may_signal q (remove_pid_file pid h) = may_signal q h"
  by (simp_all add: remove_pid_file_def may_signal_def split: pid_file.split)


text \<open>The process the pid file names, if it is there to be signalled and is an inference server.\<close>

definition server_process :: "host \<Rightarrow> int option" where
  "server_process h =
     (case ho_pid_file h of
        Holds raw \<Rightarrow>
          (case parse_i32 (trim raw) of
             Some pid \<Rightarrow>
               if 0 < pid \<and> may_signal pid (collect pid h) \<and> is_inference_server pid (collect pid h)
               then Some pid else None
           | None \<Rightarrow> None)
      | _ \<Rightarrow> None)"

lemma running_server_pid_some:
  "running_server_pid h = (Inr (Some pid), h') \<longleftrightarrow> server_process h = Some pid \<and> h' = collect pid h"
  by (auto simp: running_server_pid_def server_process_def is_alive_eq
      split: pid_file.splits option.splits if_splits prod.splits)

lemma running_server_pid_none:
  "running_server_pid h = (Inr None, h') \<Longrightarrow> server_process h = None \<and> ho_port h' = ho_port h"
  by (auto simp: running_server_pid_def server_process_def is_alive_def
      split: pid_file.splits option.splits if_splits prod.splits)

lemma running_server_pid_err:
  "running_server_pid h = (Inl e, h') \<Longrightarrow> server_process h = None"
  by (auto simp: running_server_pid_def server_process_def is_alive_def
      split: pid_file.splits option.splits if_splits prod.splits)

section \<open>Stopping ends the server and nothing else\<close>

lemma wait_for_exit_gone:
  "wait_for_exit W n elapsed pid h = (True, h') \<Longrightarrow> \<not> may_signal pid h'"
  by (induction W n elapsed pid h rule: wait_for_exit.induct)
    (subst (asm) (2) wait_for_exit.simps, auto simp: is_alive_eq split: prod.splits if_splits)

lemma kill_one_gone [simp]: "\<not> may_signal pid (collect pid (kill_one pid h))"
  by (simp add: kill_one_def may_signal_def collect_def end_process_def split: option.split)

lemma stop_pid_gone: "stop_pid W pid h = (h', sent) \<Longrightarrow> \<not> may_signal pid h'"
  by (auto simp: stop_pid_def dest: wait_for_exit_gone split: prod.splits bool.splits)



text \<open>A server with its llama-server, which both ignore the signal that asks.\<close>

definition demo_host :: host where
  "demo_host =
     \<lparr>ho_procs = [77 \<mapsto> \<lparr>pr_group = 77, pr_proc = Some ''python -m server.main'', pr_ps = None, pr_ours = True,
                     pr_child = False, pr_dead = False\<rparr>,
                  78 \<mapsto> \<lparr>pr_group = 77, pr_proc = Some ''llama-server'', pr_ps = None, pr_ours = True,
                     pr_child = False, pr_dead = False\<rparr>],
      ho_pid_file = Holds ''77'', ho_port = Answers None\<rparr>"

lemma demo_host_server: "server_process demo_host = Some 77"
  by (simp add: demo_host_def server_process_def parse_i32_def parse_digits_def digit_val_def is_digit_def is_space_def
      trim_def trim_start_def trim_end_def collect_def may_signal_def is_inference_server_def command_line_def
      utf8_rest_def starts_with_def)


text \<open>A server that ends while the stop sleeps, and whose pid is given to another process of the user before
  the next look: that process is killed, and all of its group.\<close>

lemma reused_pid_is_killed:
  fixes editor :: process and W :: meanwhile
  defines "editor \<equiv> \<lparr>pr_group = 77, pr_proc = Some ''editor'', pr_ps = None, pr_ours = True, pr_child = False, pr_dead = False\<rparr>"
  defines "W \<equiv> \<lambda>n h. (5000, h\<lparr>ho_procs := [77 \<mapsto> editor]\<rparr>)"
  shows "\<exists>h'. stop_server_daemon (Inr ()) W demo_host = (Inr Stopped, h', [Term 77, KillGroup 77, Kill 77]) \<and>
    ho_procs h' 77 = None"
proof -
  have found: "running_server_pid demo_host = (Inr (Some 77), demo_host)"
    using demo_host_server running_server_pid_some [of demo_host 77 demo_host]
    by (simp add: collect_def demo_host_def)
  have "wait_for_exit W 0 0 77 demo_host = (False, demo_host\<lparr>ho_procs := [77 \<mapsto> editor]\<rparr>)"
    by (simp add: wait_for_exit.simps is_alive_def collect_def may_signal_def demo_host_def W_def)
  then show ?thesis
    by (simp add: stop_server_daemon_def found stop_pid_def kill_group_def kill_one_def end_process_def collect_def
        editor_def)
qed

section \<open>The waits are bounded\<close>

lemma wait_for_exit_bounded:
  "(\<And>k. n \<le> k \<Longrightarrow> k < n + (5099 - elapsed) div 100 \<Longrightarrow> V k = W k) \<Longrightarrow>
    wait_for_exit V n elapsed pid h = wait_for_exit W n elapsed pid h"
proof (induction W n elapsed pid h rule: wait_for_exit.induct)
  case (1 W n elapsed pid h)
  show ?case
  proof (cases "elapsed < 5000 \<and> may_signal pid (collect pid h)")
    case True
    then have same: "V n = W n" by (intro "1.prems") auto
    obtain late h1 where W: "W n (collect pid h) = (late, h1)" by fastforce
    have "wait_for_exit V (Suc n) (elapsed + 100 + late) pid h1 = wait_for_exit W (Suc n) (elapsed + 100 + late) pid h1"
    proof (rule "1.IH")
      show "V k = W k" if "Suc n \<le> k" "k < Suc n + (5099 - (elapsed + 100 + late)) div 100" for k
      proof (rule "1.prems")
        have "(5099 - (elapsed + 100 + late)) div 100 \<le> (5099 - (elapsed + 100)) div 100"
          by (rule div_le_mono) simp
        also have "\<dots> = (5099 - elapsed) div 100 - 1" using True by linarith
        finally show "k < n + (5099 - elapsed) div 100" using that True by linarith
      qed (use that in simp)
    qed (use True W in \<open>auto simp: is_alive_def\<close>)
    with True W same show ?thesis
      by (simp add: wait_for_exit.simps [of V n] wait_for_exit.simps [of W n] is_alive_def)
  next
    case False
    then show ?thesis
      by (auto simp: wait_for_exit.simps [of V n] wait_for_exit.simps [of W n] is_alive_def)
  qed
qed

lemma wait_until_ready_bounded:
  "(\<And>k. n \<le> k \<Longrightarrow> k < n + (15249 - elapsed) div 250 \<Longrightarrow> V k = W k) \<Longrightarrow>
    wait_until_ready V n elapsed pid h = wait_until_ready W n elapsed pid h"
proof (induction W n elapsed pid h rule: wait_until_ready.induct)
  case (1 W n elapsed pid h)
  show ?case
  proof (cases "elapsed < 15000 \<and> \<not> is_ok (ping_server h) \<and> may_signal pid (collect pid h)")
    case True
    then have same: "V n = W n" by (intro "1.prems") auto
    obtain late h1 where W: "W n (collect pid h) = (late, h1)" by fastforce
    have "wait_until_ready V (Suc n) (elapsed + 250 + late) pid h1 = wait_until_ready W (Suc n) (elapsed + 250 + late) pid h1"
    proof (rule "1.IH")
      show "V k = W k" if "Suc n \<le> k" "k < Suc n + (15249 - (elapsed + 250 + late)) div 250" for k
      proof (rule "1.prems")
        have "(15249 - (elapsed + 250 + late)) div 250 \<le> (15249 - (elapsed + 250)) div 250"
          by (rule div_le_mono) simp
        also have "\<dots> = (15249 - elapsed) div 250 - 1" using True by linarith
        finally show "k < n + (15249 - elapsed) div 250" using that True by linarith
      qed (use that in simp)
    qed (use True W in \<open>auto simp: is_alive_def\<close>)
    with True W same show ?thesis
      by (simp add: wait_until_ready.simps [of V n] wait_until_ready.simps [of W n] is_alive_def)
  next
    case False
    then show ?thesis
      by (auto simp: wait_until_ready.simps [of V n] wait_until_ready.simps [of W n] is_alive_def)
  qed
qed

text \<open>A start looks at the server at most 60 times and a stop at most 50 times before it is forced: what
  happens later makes no difference to the result.\<close>

theorem server_waits_bounded:
  "(\<forall>k < 60. V k = W k) \<longrightarrow>
     start_server_daemon L V h = start_server_daemon L W h \<and>
     stop_server_daemon lock V h = stop_server_daemon lock W h"
proof
  assume same: "\<forall>k < 60. V k = W k"
  have ready: "wait_until_ready V 0 0 = wait_until_ready W 0 0"
    by (intro ext, rule wait_until_ready_bounded) (use same in simp)
  have "wait_for_exit V 0 0 pid h = wait_for_exit W 0 0 pid h" for pid h
    by (rule wait_for_exit_bounded) (use same in simp)
  then have stop: "stop_pid V = stop_pid W" by (simp add: stop_pid_def fun_eq_iff)
  show "start_server_daemon L V h = start_server_daemon L W h \<and>
      stop_server_daemon lock V h = stop_server_daemon lock W h"
    unfolding start_server_daemon_def stop_server_daemon_def ready stop by simp
qed

theorem server_waits_bounded_witness:
  "stop_server_daemon (Inr ()) (\<lambda>k h. if k < 60 then (0, h) else (0, h\<lparr>ho_pid_file := NoFile\<rparr>)) h =
   stop_server_daemon (Inr ()) (\<lambda>k h. (0, h)) h"
  using server_waits_bounded [of "\<lambda>k h. if k < 60 then (0, h) else (0, h\<lparr>ho_pid_file := NoFile\<rparr>)" "\<lambda>k h. (0, h)"
      "\<lparr>la_lock = Inr (), la_logs = Inr (), la_spawn = (\<lambda>h. (Inr None, h))\<rparr>" h "Inr ()"] by simp

section \<open>Starting\<close>

lemma wait_until_ready_ok:
  "wait_until_ready W n elapsed pid h = (Inr u, h') \<Longrightarrow> may_signal pid h' \<and> is_ok (ping_server h')"
proof (induction W n elapsed pid h rule: wait_until_ready.induct)
  case (1 W n elapsed pid h)
  show ?case
  proof (cases "elapsed < 15000 \<and> \<not> is_ok (ping_server h) \<and> may_signal pid (collect pid h)")
    case True
    with "1.prems" "1.IH" show ?thesis
      by (auto simp: wait_until_ready.simps [of W n] is_alive_def split: prod.splits)
  next
    case False
    with "1.prems" show ?thesis
      by (auto simp: wait_until_ready.simps [of W n] is_alive_def ping_server_def split: if_splits)
  qed
qed

lemma trim_digits:
  assumes "list_all is_digit s"
  shows "trim s = s"
proof -
  have none: "list_all (\<lambda>c. \<not> is_space c) s"
    using assms by (rule list.pred_mono_strong) (auto simp: is_digit_def is_space_def)
  then have "dropWhile is_space s = s" by (cases s) auto
  moreover from none have "dropWhile is_space (rev s) = rev s"
    by (cases s rule: rev_cases) (auto simp: list_all_iff)
  ultimately show ?thesis by (simp add: trim_def trim_start_def trim_end_def)
qed

lemma server_process_own_file:
  assumes "0 < pid" and "pid < 2 ^ 31" and "ho_pid_file h = Holds (show_int pid)"
    and "may_signal pid (collect pid h)" and "is_inference_server pid (collect pid h)"
  shows "server_process h = Some pid"
  using assms parse_i32_show_int [of pid]
  by (simp add: server_process_def show_int_def trim_digits show_nat_digits)

lemma stop_running:
  assumes "server_process h = Some pid"
  shows "\<exists>h' sent. stop_server_daemon (Inr ()) W h = (Inr Stopped, h', Term pid # sent) \<and> \<not> may_signal pid h'"
proof -
  obtain h1 sent where stop: "stop_pid W pid (collect pid h) = (h1, sent)" by fastforce
  moreover from stop obtain sent' where "sent = Term pid # sent'"
    by (auto simp: stop_pid_def split: prod.splits bool.splits)
  ultimately show ?thesis
    using assms stop_pid_gone [OF stop] running_server_pid_some [of h pid "collect pid h"]
    by (simp add: stop_server_daemon_def)
qed

text \<open>C19. A start runs a server only when nothing answers on the port. When it says that the server is started,
  the process it ran is there and something answers; when it says that it is running already, the
  process of the pid file is an inference server; and a port that answers with no such process is
  reported, with nothing run. The server it started is the one the next stop ends, once that has
  written its pid file.\<close>

theorem start_correct:
  assumes "start_server_daemon L W h = (r, h', child)"
  shows "(child \<noteq> None \<longrightarrow> \<not> is_ok (ping_server h)) \<and>
    (r = Inr Started \<longrightarrow> (\<exists>pid. child = Some pid \<and> may_signal pid h' \<and> is_ok (ping_server h') \<and>
       (0 < pid \<and> pid < 2 ^ 31 \<and> ho_pid_file h' = Holds (show_int pid) \<and> is_inference_server pid (collect pid h') \<and>
          may_signal pid (collect pid h') \<longrightarrow>
        (\<exists>h'' sent. stop_server_daemon (Inr ()) W h' = (Inr Stopped, h'', Term pid # sent) \<and> \<not> may_signal pid h'')))) \<and>
    (r = Inr AlreadyRunning \<longrightarrow> server_process h \<noteq> None \<and> child = None) \<and>
    (is_ok (ping_server h) \<and> server_process h = None \<longrightarrow> child = None \<and> \<not> is_ok r)"
proof -
  have run: "is_ok (ping_server h) \<Longrightarrow> child = None \<and> (r = Inr AlreadyRunning \<longleftrightarrow> server_process h \<noteq> None \<and> la_lock L = Inr ()) \<and>
      (server_process h = None \<longrightarrow> \<not> is_ok r) \<and> r \<noteq> Inr Started"
    using assms by (cases "running_server_pid h")
      (auto simp: start_server_daemon_def running_server_pid_some is_ok_def
        dest: running_server_pid_none running_server_pid_err split: sum.splits option.splits prod.splits)
  have started: "\<exists>pid. child = Some pid \<and> may_signal pid h' \<and> is_ok (ping_server h')" if "r = Inr Started"
    using assms that run
    by (auto simp: start_server_daemon_def dest: wait_until_ready_ok split: sum.splits option.splits prod.splits if_splits)
  show ?thesis
  proof (intro conjI impI)
    show "\<exists>pid. child = Some pid \<and> may_signal pid h' \<and> is_ok (ping_server h') \<and>
       (0 < pid \<and> pid < 2 ^ 31 \<and> ho_pid_file h' = Holds (show_int pid) \<and> is_inference_server pid (collect pid h') \<and>
          may_signal pid (collect pid h') \<longrightarrow>
        (\<exists>h'' sent. stop_server_daemon (Inr ()) W h' = (Inr Stopped, h'', Term pid # sent) \<and> \<not> may_signal pid h''))"
      if "r = Inr Started"
      using started [OF that] server_process_own_file [of _ h'] stop_running [of h' _ W] by blast
  next
    show "server_process h \<noteq> None" "child = None" if "r = Inr AlreadyRunning"
      using that run assms
      by (cases "is_ok (ping_server h)"; auto simp: start_server_daemon_def split: sum.splits option.splits prod.splits)+
  qed (use run in auto)
qed

theorem start_correct_witness:
  "\<exists>h'. start_server_daemon
     \<lparr>la_lock = Inr (), la_logs = Inr (),
      la_spawn = (\<lambda>h. (Inr (Some 77), h\<lparr>ho_procs := ho_procs demo_host, ho_port := Answers None\<rparr>))\<rparr>
     (\<lambda>n h. (0, h)) \<lparr>ho_procs = (\<lambda>_. None), ho_pid_file = NoFile, ho_port = Silent\<rparr> = (Inr Started, h', Some 77) \<and>
   may_signal 77 h' \<and> is_ok (ping_server h')"
proof -
  let ?L = "\<lparr>la_lock = Inr (), la_logs = Inr (),
      la_spawn = (\<lambda>h. (Inr (Some 77), h\<lparr>ho_procs := ho_procs demo_host, ho_port := Answers None\<rparr>))\<rparr> :: launch"
  let ?h = "\<lparr>ho_procs = (\<lambda>_. None), ho_pid_file = NoFile, ho_port = Silent\<rparr> :: host"
  obtain h' where run: "start_server_daemon ?L (\<lambda>n h. (0, h)) ?h = (Inr Started, h', Some 77)"
    by (simp add: start_server_daemon_def ping_server_def wait_until_ready.simps demo_host_def is_alive_def
        collect_def may_signal_def)
  from start_correct [OF run] run show ?thesis by auto
qed

end
