(* ===== verification/Lifecycle.thy ===== *)
theory Lifecycle
  imports Inference
begin

text \<open>
  The daemon's life: the menubar app it supervises (\<open>tiles/src/core/ui.rs\<close>), how a client starts and stops
  the daemon and the one teardown all stops go through (\<open>daemon/mod.rs\<close>), the launchd agent that brings
  it up at login (\<open>core/service.rs\<close>) and the web UI's port (\<open>daemon/web.rs\<close>). Times are milliseconds.
  Processes, signals and \<open>launchctl\<close> are arguments.
\<close>

section \<open>The menubar app\<close>

text \<open>One round of the supervisor's loop. \<open>ro_stop_seen\<close> is the flag at its start, \<open>ro_stop_after\<close> the flag
  when the app has ended by itself (\<open>AppEnded\<close> is that its end was waited for), and \<open>ro_stop_waiting\<close> if the notification cuts the wait before the
  next launch short. An app that is asked to go has the time it takes, if it does.\<close>

datatype app_end = EndsItself nat | IsAsked "nat option"

record round =
  ro_stop_seen :: bool
  ro_spawns :: bool
  ro_end :: app_end
  ro_stop_after :: bool
  ro_stop_waiting :: bool

datatype ui_step = Launched | LaunchFailed | LifelineClosed | AppKilled | AppEnded | WaitedMs nat | SupervisorDone

definition min_backoff :: nat where "min_backoff = 1000"
definition max_backoff :: nat where "max_backoff = 30000"
definition settled :: nat where "settled = 60000"
definition ui_grace :: nat where "ui_grace = 3000"
definition stop_deadline :: nat where "stop_deadline = 5000"

fun supervise :: "nat \<Rightarrow> round list \<Rightarrow> ui_step list" where
  "supervise backoff [] = []"
| "supervise backoff (r # rs) =
     (if ro_stop_seen r then [SupervisorDone]
      else if \<not> ro_spawns r then [LaunchFailed, SupervisorDone]
      else Launched #
        (case ro_end r of
           IsAsked goes \<Rightarrow>
             LifelineClosed #
             (case goes of
                Some t \<Rightarrow> if t \<le> ui_grace then [] else [AppKilled]
              | None \<Rightarrow> [AppKilled]) @ [AppEnded, SupervisorDone]
         | EndsItself age \<Rightarrow>
             AppEnded #
             (if ro_stop_after r then [SupervisorDone]
             else (let backoff = (if settled \<le> age then min_backoff else backoff) in
               if ro_stop_waiting r then [SupervisorDone]
               else WaitedMs backoff # supervise (min (backoff * 2) max_backoff) rs))))"

record ui_config =
  uc_macos :: bool
  uc_debug :: bool
  uc_menubar :: "(string + bool option)"
  uc_env_bin :: "string option"
  uc_cwd :: "string option"
  uc_is_file :: "string \<Rightarrow> bool"

definition bundle_exec :: string where
  "bundle_exec = ''Tiles.app/Contents/MacOS/tiles-menubar''"

definition resolve_app :: "ui_config \<Rightarrow> string option" where
  "resolve_app c =
     (case uc_env_bin c of
        Some path \<Rightarrow> if uc_is_file c path then Some path else None
      | None \<Rightarrow>
          (let installed = ''/Applications/'' @ bundle_exec in
           if uc_is_file c installed then Some installed
           else if uc_debug c
           then (case uc_cwd c of
                   None \<Rightarrow> None
                 | Some dir \<Rightarrow>
                     (let built = dir @ ''/target/debug/bundle/macos/'' @ bundle_exec in
                      if uc_is_file c built then Some built else None))
           else None))"

definition enabled_by_config :: "ui_config \<Rightarrow> bool" where
  "enabled_by_config c =
     (case ok (uc_menubar c) of Some (Some b) \<Rightarrow> b | _ \<Rightarrow> \<not> uc_debug c)"

text \<open>The app that is supervised, if any.\<close>

definition start_ui :: "ui_config \<Rightarrow> string option" where
  "start_ui c = (if \<not> uc_macos c then None else if \<not> enabled_by_config c then None else resolve_app c)"

section \<open>The teardown\<close>

text \<open>A step with a time limit: how long it took, and if it was done in time. \<open>None\<close> never ends.\<close>

definition in_time :: "nat \<Rightarrow> nat option \<Rightarrow> nat \<times> bool" where
  "in_time limit d = (case d of Some t \<Rightarrow> if t \<le> limit then (t, True) else (limit, False) | None \<Rightarrow> (limit, False))"

datatype teardown_step = UiToldToStop | ModelsPaused bool | EnginesPaused bool | InferenceStopped bool
  | UiStopped bool | ServersTold

record teardown =
  td_models :: "nat option"
  td_engines :: "nat option"
  td_inference :: "nat option"
  td_inference_ok :: bool
  td_ui_running :: bool
  td_ui :: "nat option"

definition stop_ui :: "teardown \<Rightarrow> nat \<times> bool" where
  "stop_ui T = (if td_ui_running T then in_time stop_deadline (td_ui T) else (0, True))"

text \<open>Each step with the time at which it is over.\<close>

definition shutdown_all :: "teardown \<Rightarrow> (nat \<times> teardown_step) list" where
  "shutdown_all T =
     (case in_time 5000 (td_models T) of (a, models) \<Rightarrow>
     (case in_time 5000 (td_engines T) of (b, engines) \<Rightarrow>
     (case in_time 10000 (td_inference T) of (c, answered) \<Rightarrow>
     (case stop_ui T of (d, ui) \<Rightarrow>
       [(0, UiToldToStop), (a, ModelsPaused models), (a + b, EnginesPaused engines),
        (a + b + c, InferenceStopped (answered \<and> td_inference_ok T)), (a + b + c + d, UiStopped ui),
        (a + b + c + d, ServersTold)]))))"

text \<open>The values a watcher sees; the end of the list is the sender going away.\<close>

fun watch_shutdown :: "bool list \<Rightarrow> bool list" where
  "watch_shutdown [] = []"
| "watch_shutdown (v # vs) = (if v then vs else watch_shutdown vs)"

text \<open>When the ports stop being served: the API's when its connections are done, if they are, and both at
  the latest three seconds after the shutdown.\<close>

definition serve_ports :: "(nat \<Rightarrow> nat option) \<Rightarrow> nat \<Rightarrow> nat" where
  "serve_ports api_done shutdown_at = shutdown_at + fst (in_time 3000 (api_done shutdown_at))"

section \<open>Stopping and starting the daemon\<close>

text \<open>\<open>down\<close> is when the port refuses connections after the request to shut down, if ever.\<close>

function wait_until_down :: "nat option \<Rightarrow> nat \<Rightarrow> string + unit" where
  "wait_until_down down elapsed =
     (if 20000 \<le> elapsed then Inl ''Timed out waiting for Tiles daemon to stop''
      else if (case down of Some t \<Rightarrow> t \<le> elapsed | None \<Rightarrow> False) then Inr ()
      else wait_until_down down (elapsed + 250))"
  by pat_completeness auto
termination
  by (relation "measure (\<lambda>(_, elapsed). 20000 - elapsed)") auto

declare wait_until_down.simps [simp del]

definition stop_daemon :: "string + unit \<Rightarrow> nat option \<Rightarrow> string + unit" where
  "stop_daemon requested down =
     res_bind (map_err (\<lambda>e. ''Daemon shutdown failed due to '' @ e) requested) (\<lambda>_. wait_until_down down 0)"

fun wait_until_up :: "nat \<Rightarrow> string \<Rightarrow> (nat \<Rightarrow> string + string) \<Rightarrow> string + unit" where
  "wait_until_up 0 error ping = Inl error"
| "wait_until_up (Suc retries) error ping =
     (case ping 0 of Inr _ \<Rightarrow> Inr () | Inl e \<Rightarrow> wait_until_up retries e (\<lambda>n. ping (Suc n)))"

datatype daemon_error = Failed string | Panicked string

datatype daemon_step = StoppedDaemon nat | KickedService | SpawnedDaemon

text \<open>\<open>dw_ping\<close> is the answer of a port, \<open>dw_version\<close> reads versions and \<open>dw_differs\<close> compares their
  precedence. \<open>dw_up\<close> is what the pings after a start get.\<close>

record 'v daemon_world =
  dw_default_port :: nat
  dw_ping :: "nat \<Rightarrow> string + string"
  dw_app_version :: string
  dw_version :: "string \<Rightarrow> string + 'v"
  dw_differs :: "'v \<Rightarrow> 'v \<Rightarrow> bool"
  dw_stop :: "nat \<Rightarrow> string + unit"
  dw_service :: bool
  dw_kick :: "string + unit"
  dw_logs :: "string + unit"
  dw_spawn :: "string + unit"
  dw_up :: "nat \<Rightarrow> nat \<Rightarrow> string + string"

definition get_port :: "'v daemon_world \<Rightarrow> nat option \<Rightarrow> nat" where
  "get_port D port = (case port of Some p \<Rightarrow> p | None \<Rightarrow> dw_default_port D)"

text \<open>If a daemon that answers has to go, by the version it answers with.\<close>

definition is_outdated :: "'v daemon_world \<Rightarrow> string \<Rightarrow> string + bool" where
  "is_outdated D running =
     res_bind (dw_version D (dw_app_version D)) (\<lambda>app.
     if contains running ''Its me'' then Inr True
     else res_bind (dw_version D running) (\<lambda>v. Inr (dw_differs D app v)))"

definition launch_daemon :: "'v daemon_world \<Rightarrow> nat option \<Rightarrow> (daemon_error + unit) \<times> daemon_step list" where
  "launch_daemon D port =
     (if dw_service D
      then (case dw_kick D of
              Inl e \<Rightarrow> (Inl (Failed e), [])
            | Inr _ \<Rightarrow> (map_err Failed (wait_until_up 5 '''' (dw_up D (get_port D port))), [KickedService]))
      else (case dw_logs D of
              Inl e \<Rightarrow> (Inl (Failed e), [])
            | Inr _ \<Rightarrow>
                (case dw_spawn D of
                   Inl e \<Rightarrow> (Inl (Panicked (''Failed to start daemon: '' @ e)), [])
                 | Inr _ \<Rightarrow> (map_err Failed (wait_until_up 5 '''' (dw_up D (get_port D port))), [SpawnedDaemon]))))"

definition start_daemon :: "'v daemon_world \<Rightarrow> nat option \<Rightarrow> (daemon_error + unit) \<times> daemon_step list" where
  "start_daemon D port =
     (case dw_ping D (get_port D port) of
        Inl _ \<Rightarrow> launch_daemon D port
      | Inr running \<Rightarrow>
          (case is_outdated D running of
             Inl e \<Rightarrow> (Inl (Failed e), [])
           | Inr False \<Rightarrow> (Inr (), [])
           | Inr True \<Rightarrow>
               (case dw_stop D (get_port D None) of
                  Inl e \<Rightarrow> (Inl (Failed e), [])
                | Inr _ \<Rightarrow>
                    (case launch_daemon D port of
                       (r, steps) \<Rightarrow> (r, StoppedDaemon (get_port D None) # steps)))))"

section \<open>The launchd agent\<close>

definition service_label :: string where "service_label = ''com.tilesprivacy.tiles.daemon''"

definition str_replace :: "char \<Rightarrow> string \<Rightarrow> string \<Rightarrow> string" where
  "str_replace c new s = concat (map (\<lambda>x. if x = c then new else [x]) s)"

definition xml_escape :: "string \<Rightarrow> string" where
  "xml_escape s = str_replace (CHR ''>'') ''&gt;'' (str_replace (CHR ''<'') ''&lt;'' (str_replace (CHR ''&'') ''&amp;'' s))"

text \<open>Paths are bytes; what isn't UTF-8 is lost in the file.\<close>

definition plist :: "string \<Rightarrow> string \<Rightarrow> string \<Rightarrow> string" where
  "plist program out_log err_log = concat (map (\<lambda>line. line @ [CHR 0x0A])
    [''<?xml version=\"1.0\" encoding=\"UTF-8\"?>'',
     ''<!DOCTYPE plist PUBLIC \"-//Apple//DTD PLIST 1.0//EN\" \"http://www.apple.com/DTDs/PropertyList-1.0.dtd\">'',
     ''<plist version=\"1.0\">'',
     ''<dict>'',
     ''  <key>Label</key>'',
     ''  <string>'' @ service_label @ ''</string>'',
     ''  <key>ProgramArguments</key>'',
     ''  <array>'',
     ''    <string>'' @ xml_escape (utf8_lossy program) @ ''</string>'',
     ''    <string>daemon</string>'',
     ''  </array>'',
     ''  <key>RunAtLoad</key>'',
     ''  <true/>'',
     ''  <key>KeepAlive</key>'',
     ''  <dict>'',
     ''    <key>SuccessfulExit</key>'',
     ''    <false/>'',
     ''  </dict>'',
     ''  <key>LimitLoadToSessionType</key>'',
     ''  <string>Aqua</string>'',
     ''  <key>ProcessType</key>'',
     ''  <string>Interactive</string>'',
     ''  <key>EnvironmentVariables</key>'',
     ''  <dict>'',
     ''    <key>RUST_LOG</key>'',
     ''    <string>info,iroh=error,tracing=off</string>'',
     ''  </dict>'',
     ''  <key>StandardOutPath</key>'',
     ''  <string>'' @ xml_escape (utf8_lossy out_log) @ ''</string>'',
     ''  <key>StandardErrorPath</key>'',
     ''  <string>'' @ xml_escape (utf8_lossy err_log) @ ''</string>'',
     ''</dict>'',
     ''</plist>''])"

text \<open>\<open>launchctl\<close> is whether the command ran, if it succeeded, and what it wrote on its error output. It
  may answer differently each time: the number is that of the call.\<close>

record launchd =
  ld_macos :: bool
  ld_debug :: bool
  ld_exe :: "string + string"
  ld_data_dir :: "string + string"
  ld_home :: "string option"
  ld_uid :: nat
  ld_make_dir :: "string + unit"
  ld_write :: "string + unit"
  ld_remove :: "string + unit"
  ld_launchctl :: "nat \<Rightarrow> string list \<Rightarrow> string + bool \<times> string"

text \<open>The agent's file, and the calls of \<open>launchctl\<close> so far.\<close>

record agent_file =
  af_plist :: "string option"
  af_calls :: "string list list"

type_synonym 'a service_run = "agent_file \<Rightarrow> (string + 'a) \<times> agent_file"

definition then_do :: "'a service_run \<Rightarrow> ('a \<Rightarrow> 'b service_run) \<Rightarrow> 'b service_run" where
  "then_do m f s = (case m s of (Inl e, s) \<Rightarrow> (Inl e, s) | (Inr x, s) \<Rightarrow> f x s)"

definition lift :: "string + 'a \<Rightarrow> 'a service_run" where
  "lift r s = (r, s)"

definition require_macos :: "launchd \<Rightarrow> string + unit" where
  "require_macos D = (if ld_macos D then Inr () else Inl ''`tiles service` is only supported on macOS for now'')"

definition plist_path :: "launchd \<Rightarrow> string + string" where
  "plist_path D =
     res_bind (ok_or ''Failed to fetch $HOME'' (ld_home D)) (\<lambda>home.
     Inr (home @ ''/Library/LaunchAgents/'' @ service_label @ ''.plist''))"

definition domain :: "launchd \<Rightarrow> string" where
  "domain D = ''gui/'' @ show_nat (ld_uid D)"

definition target :: "launchd \<Rightarrow> string" where
  "target D = domain D @ ''/'' @ service_label"

definition is_installed :: "launchd \<Rightarrow> agent_file \<Rightarrow> bool" where
  "is_installed D s = (case plist_path D of Inr _ \<Rightarrow> af_plist s \<noteq> None | Inl _ \<Rightarrow> False)"

definition launchctl :: "launchd \<Rightarrow> string list \<Rightarrow> (bool \<times> string) service_run" where
  "launchctl D args s =
     (map_err (\<lambda>_. ''Failed to run `launchctl '' @ join '' '' args @ ''`'') (ld_launchctl D (length (af_calls s)) args),
      s\<lparr>af_calls := af_calls s @ [args]\<rparr>)"

definition launchctl_checked :: "launchd \<Rightarrow> string list \<Rightarrow> unit service_run" where
  "launchctl_checked D args =
     then_do (launchctl D args) (\<lambda>(success, stderr).
       lift (if success then Inr ()
             else Inl (''`launchctl '' @ join '' '' args @ ''` failed: '' @ trim (utf8_lossy stderr))))"

definition launchctl_unchecked :: "launchd \<Rightarrow> string list \<Rightarrow> unit service_run" where
  "launchctl_unchecked D args s = (Inr (), snd (launchctl D args s))"

definition write_plist :: "launchd \<Rightarrow> string \<Rightarrow> string \<Rightarrow> unit service_run" where
  "write_plist D path text s =
     (case ld_write D of
        Inl _ \<Rightarrow> (Inl (''Failed to write '' @ path), s)
      | Inr _ \<Rightarrow> (Inr (), s\<lparr>af_plist := Some text\<rparr>))"

definition add_service :: "launchd \<Rightarrow> unit service_run" where
  "add_service D =
     then_do (lift (require_macos D)) (\<lambda>_.
     then_do (lift (if ld_debug D
        then Inl ''Refusing to install a debug build, it resolves its config off the working directory'' else Inr ())) (\<lambda>_.
     then_do (lift (map_err (\<lambda>_. ''Failed to resolve the tiles binary path'') (ld_exe D))) (\<lambda>program.
     then_do (lift (ld_data_dir D)) (\<lambda>data.
     then_do (lift (plist_path D)) (\<lambda>path.
     then_do (lift (map_err (\<lambda>_. ''Failed to create ~/Library/LaunchAgents'') (ld_make_dir D))) (\<lambda>_.
     then_do (write_plist D path
         (plist program (data @ ''/logs/daemon.out.log'') (data @ ''/logs/daemon.err.log''))) (\<lambda>_.
     then_do (launchctl_unchecked D [''bootout'', target D]) (\<lambda>_.
     then_do (launchctl_checked D [''bootstrap'', domain D, utf8_lossy path]) (\<lambda>_.
     launchctl_unchecked D [''enable'', target D])))))))))"

definition unload :: "launchd \<Rightarrow> unit service_run" where
  "unload D =
     then_do (lift (require_macos D)) (\<lambda>_.
     then_do (launchctl D [''print'', target D]) (\<lambda>(loaded, _).
     if loaded then launchctl_checked D [''bootout'', target D] else lift (Inr ())))"

definition remove_service :: "launchd \<Rightarrow> string service_run" where
  "remove_service D =
     then_do (lift (require_macos D)) (\<lambda>_.
     then_do (lift (plist_path D)) (\<lambda>path.
     then_do (unload D) (\<lambda>_ s.
       if af_plist s = None then (Inr ''Service is not installed'', s)
       else (case ld_remove D of
               Inl _ \<Rightarrow> (Inl (''Failed to remove '' @ path), s)
             | Inr _ \<Rightarrow> (Inr ''Service removed'', s\<lparr>af_plist := None\<rparr>)))))"

definition installed_only :: "launchd \<Rightarrow> string list \<Rightarrow> unit service_run" where
  "installed_only D args =
     then_do (lift (require_macos D)) (\<lambda>_ s.
       if \<not> is_installed D s then (Inl ''Service is not installed, run `tiles service add`'', s)
       else launchctl_checked D args s)"

definition start_service :: "launchd \<Rightarrow> unit service_run" where
  "start_service D = installed_only D [''kickstart'', ''-k'', target D]"

definition stop_service :: "launchd \<Rightarrow> unit service_run" where
  "stop_service D = installed_only D [''bootout'', target D]"

text \<open>What the status prints: the file, whether launchd has the job, and the daemon's version.\<close>

definition service_status :: "launchd \<Rightarrow> string + string \<Rightarrow> (string list) service_run" where
  "service_status D ping =
     then_do (lift (require_macos D)) (\<lambda>_.
     then_do (lift (plist_path D)) (\<lambda>path s.
       if af_plist s = None
       then (Inr [''Service:  not installed'', ''Run `tiles service add` to start Tiles at login''], s)
       else then_do (launchctl D [''print'', target D]) (\<lambda>(loaded, _).
         lift (Inr [''Service:  installed at '' @ path,
                ''launchd:  '' @ (if loaded then ''loaded'' else ''not loaded''),
                (case ping of Inr v \<Rightarrow> ''Daemon:   up, version '' @ trim v | Inl _ \<Rightarrow> ''Daemon:   down'')])) s))"

section \<open>The web UI's port\<close>

datatype web_ui_state = Serving string | WebPortInUse string

definition ui_port :: nat where "ui_port = 1730"

definition bind_on :: "nat \<Rightarrow> string + unit \<Rightarrow> web_ui_state \<times> bool" where
  "bind_on p listens =
     (case listens of
        Inr _ \<Rightarrow> (Serving (''http://127.0.0.1:'' @ show_nat p), True)
      | Inl e \<Rightarrow> (WebPortInUse (''Port '' @ show_nat p @ '' is in use by another program ('' @ e @ '')''), False))"

text \<open>\<open>daemon\<close> is reaching the daemon and \<open>asked\<close> the state it answers, if it does. The result is the page
  that is opened.\<close>

definition open_cli :: "string + unit \<Rightarrow> web_ui_state option \<Rightarrow> string + string" where
  "open_cli daemon asked =
     res_bind daemon (\<lambda>_.
       case asked of
         Some (Serving url) \<Rightarrow> Inr url
       | Some (WebPortInUse because) \<Rightarrow>
           Inl (''The Tiles web UI couldn't start: '' @ because @
             ''. Free the port, then restart Tiles with `tiles daemon stop` and `tiles ui`'')
       | None \<Rightarrow> Inl ''Couldn't ask the Tiles daemon about the web UI'')"

text \<open>What the daemon's status command prints.\<close>

definition status_cmd :: "string + string \<Rightarrow> nat \<Rightarrow> web_ui_state option \<Rightarrow> string list" where
  "status_cmd ping p web =
     (case ping of
        Inl _ \<Rightarrow> [''Daemon not running. Start it with `tiles daemon start`'']
      | Inr version \<Rightarrow>
          [''Daemon running, version '' @ version @ '', at http://127.0.0.1:'' @ show_nat p,
           (case web of
              Some (Serving url) \<Rightarrow> ''Web UI at '' @ url
            | Some (WebPortInUse because) \<Rightarrow> ''Web UI not started: '' @ because
            | None \<Rightarrow> ''Web UI state unknown'')])"

section \<open>The remote client's answers\<close>

text \<open>The daemon's answer to sharing is a status and a text.\<close>

definition share_remote_link :: "string + unit \<Rightarrow> string + nat \<times> (string + string) \<Rightarrow> string + string" where
  "share_remote_link daemon answer =
     res_bind daemon (\<lambda>_.
       case answer of
         Inl e \<Rightarrow> Inl (''Daemon remote share failed due to '' @ e)
       | Inr (status, body) \<Rightarrow> if status = 409 then Inr '''' else body)"

definition unshare_remote_link :: "string + unit \<Rightarrow> string + nat \<times> (string + string) \<Rightarrow> string + unit" where
  "unshare_remote_link daemon answer =
     res_bind daemon (\<lambda>_.
       case answer of Inl e \<Rightarrow> Inl (''Daemon remote unshare failed due to '' @ e) | Inr _ \<Rightarrow> Inr ())"

section \<open>The app is launched again, later and later\<close>

text \<open>How long the apps ran, and how long the supervisor waited before the next.\<close>

definition waits :: "ui_step list \<Rightarrow> nat list" where
  "waits steps = filter_map (\<lambda>x. case x of WaitedMs w \<Rightarrow> Some w | _ \<Rightarrow> None) steps"

definition ages :: "round list \<Rightarrow> nat list" where
  "ages rs = map (\<lambda>r. case ro_end r of EndsItself age \<Rightarrow> age | IsAsked _ \<Rightarrow> 0) rs"

lemma waits_simps [simp]:
  "waits [] = []" "waits (Launched # xs) = waits xs" "waits (WaitedMs w # xs) = w # waits xs"
  "waits [SupervisorDone] = []" "waits (LaunchFailed # xs) = waits xs" "waits (LifelineClosed # xs) = waits xs"
  "waits (AppKilled # xs) = waits xs" "waits (AppEnded # xs) = waits xs"
  by (simp_all add: waits_def)

text \<open>The wait after the app that ran for the last time in a list: it doubles with each one that didn't
  settle, and starts over after one that did.\<close>

fun wait_after :: "nat \<Rightarrow> nat list \<Rightarrow> nat" where
  "wait_after backoff [] = backoff"
| "wait_after backoff [a] = (if settled \<le> a then min_backoff else backoff)"
| "wait_after backoff (a # as) = wait_after (min (2 * (if settled \<le> a then min_backoff else backoff)) max_backoff) as"

lemma nth_waits:
  "i < length (waits (supervise backoff rs)) \<Longrightarrow>
    i < length rs \<and> waits (supervise backoff rs) ! i = wait_after backoff (take (Suc i) (ages rs))"
proof (induction rs arbitrary: backoff i)
  case (Cons r rs)
  from Cons.prems obtain age where r: "\<not> ro_stop_seen r" "ro_spawns r" "ro_end r = EndsItself age"
      "\<not> ro_stop_after r" "\<not> ro_stop_waiting r"
    by (auto simp: Let_def split: if_splits app_end.splits option.splits)
  let ?b = "if settled \<le> age then min_backoff else backoff"
  have w: "waits (supervise backoff (r # rs)) = ?b # waits (supervise (min (?b * 2) max_backoff) rs)"
    using r by (simp add: Let_def)
  show ?case
  proof (cases i)
    case 0
    with w r show ?thesis by (simp add: ages_def)
  next
    case (Suc j)
    with Cons.prems w have j: "j < length (waits (supervise (min (?b * 2) max_backoff) rs))" by simp
    from Cons.IH [OF j] have len: "j < length rs"
      and nth: "waits (supervise (min (?b * 2) max_backoff) rs) ! j = wait_after (min (?b * 2) max_backoff) (take (Suc j) (ages rs))"
      by blast+
    from len obtain a as where as: "ages rs = a # as" by (cases rs) (auto simp: ages_def)
    have "ages (r # rs) = age # ages rs" using r by (simp add: ages_def)
    with as have "wait_after backoff (take (Suc i) (ages (r # rs))) = wait_after (min (?b * 2) max_backoff) (take (Suc j) (ages rs))"
      by (simp add: Suc mult.commute)
    with Suc w nth len show ?thesis by simp
  qed
qed simp

lemma wait_after_settled:
  "as \<noteq> [] \<Longrightarrow> settled \<le> last as \<Longrightarrow> wait_after backoff as = min_backoff"
  by (induction backoff as rule: wait_after.induct) auto

lemma capped: "1 \<le> p \<Longrightarrow> min (p * min x m) m = min (p * x) (m :: nat)"
proof (cases "x \<le> m")
  case False
  moreover assume "1 \<le> p"
  ultimately have "m \<le> p * m" "m \<le> p * x" by (cases p; simp)+
  with False show ?thesis by simp
qed simp

lemma wait_after_short:
  "\<forall>a \<in> set as. a < settled \<Longrightarrow> as \<noteq> [] \<Longrightarrow> backoff \<le> max_backoff \<Longrightarrow>
    wait_after backoff as = min (2 ^ (length as - 1) * backoff) max_backoff"
proof (induction backoff as rule: wait_after.induct)
  case (3 backoff a b as)
  then have "wait_after backoff (a # b # as) = min (2 ^ length as * min (2 * backoff) max_backoff) max_backoff" by simp
  also have "\<dots> = min (2 ^ length as * (2 * backoff)) max_backoff" by (rule capped) simp
  finally show ?case by (simp add: mult.left_commute mult.assoc)
qed auto

lemma wait_after_range:
  "min_backoff \<le> backoff \<Longrightarrow> backoff \<le> max_backoff \<Longrightarrow>
    min_backoff \<le> wait_after backoff as \<and> wait_after backoff as \<le> max_backoff"
  by (induction backoff as rule: wait_after.induct) (auto simp: min_backoff_def max_backoff_def)

text \<open>At every moment at most one app is there, and it is launched anew only after a wait.\<close>

lemma supervise_one_app:
  "count_list (take n (supervise backoff rs)) AppEnded \<le> count_list (take n (supervise backoff rs)) Launched \<and>
   count_list (take n (supervise backoff rs)) Launched \<le> Suc (count_list (take n (supervise backoff rs)) AppEnded) \<and>
   count_list (take n (supervise backoff rs)) Launched \<le> Suc (length (waits (take n (supervise backoff rs))))"
proof (induction rs arbitrary: backoff n)
  case (Cons r rs)
  show ?case
  proof (cases "\<not> ro_stop_seen r \<and> ro_spawns r \<and> \<not> ro_stop_after r \<and> \<not> ro_stop_waiting r \<and> (\<exists>age. ro_end r = EndsItself age)")
    case True
    then obtain b b' where "supervise backoff (r # rs) = Launched # AppEnded # WaitedMs b # supervise b' rs"
      by (auto simp: Let_def)
    with Cons.IH [of "n - 3" b'] show ?thesis by (auto simp: take_Cons' numeral_3_eq_3)
  next
    case False
    then show ?thesis
      by (auto simp: Let_def take_Cons' split: app_end.splits option.splits)
  qed
qed simp

text \<open>When the supervisor is done, it is done for good and no app is left.\<close>

lemma supervise_done:
  "SupervisorDone \<in> set (supervise backoff rs) \<Longrightarrow>
     last (supervise backoff rs) = SupervisorDone \<and> SupervisorDone \<notin> set (butlast (supervise backoff rs)) \<and>
     count_list (supervise backoff rs) AppEnded = count_list (supervise backoff rs) Launched"
proof (induction rs arbitrary: backoff)
  case (Cons r rs)
  show ?case
  proof (cases "\<not> ro_stop_seen r \<and> ro_spawns r \<and> \<not> ro_stop_after r \<and> \<not> ro_stop_waiting r \<and> (\<exists>age. ro_end r = EndsItself age)")
    case True
    then obtain b b' where T: "supervise backoff (r # rs) = Launched # AppEnded # WaitedMs b # supervise b' rs"
      by (auto simp: Let_def)
    with Cons.prems Cons.IH [of b'] show ?thesis by auto
  next
    case False
    then show ?thesis by (auto simp: Let_def split: app_end.splits option.splits)
  qed
qed simp

text \<open>A stop during a round: noticed before the launch, or after it.\<close>

definition stop_in :: "round \<Rightarrow> bool" where
  "stop_in r \<longleftrightarrow> ro_stop_after r \<or> ro_stop_waiting r \<or> (\<exists>goes. ro_end r = IsAsked goes)"

lemma supervise_stops:
  "i < length rs \<Longrightarrow>
     (ro_stop_seen (rs ! i) \<longrightarrow> count_list (supervise backoff rs) Launched \<le> i) \<and>
     (stop_in (rs ! i) \<longrightarrow> count_list (supervise backoff rs) Launched \<le> Suc i)"
proof (induction rs arbitrary: backoff i)
  case (Cons r rs)
  show ?case
  proof (cases "\<not> ro_stop_seen r \<and> ro_spawns r \<and> \<not> stop_in r")
    case True
    then obtain b b' where "supervise backoff (r # rs) = Launched # AppEnded # WaitedMs b # supervise b' rs"
      by (cases "ro_end r") (auto simp: Let_def stop_in_def)
    with True Cons show ?thesis by (cases i) auto
  next
    case False
    then show ?thesis
      by (cases i) (auto simp: Let_def stop_in_def split: app_end.splits option.splits)
  qed
qed simp

text \<open>C33. The supervisor runs one app at a time: at every moment at most one of those launched has not ended,
  and the next is launched only after one more wait. The waits: for the first time a second, after k
  more apps that died within a minute twice as long for each of them, never more than half a
  minute, and a second again after one that lived longer. A stop is the end: nothing is launched from the
  round on that sees it before the launch, nor after the round in which it comes, and when the
  supervisor is done no app is left and no step follows.\<close>

theorem relaunch_waits:
  fixes rs :: "round list"
  defines "T \<equiv> supervise min_backoff rs"
  shows "(\<forall>n. count_list (take n T) AppEnded \<le> count_list (take n T) Launched \<and>
      count_list (take n T) Launched \<le> Suc (count_list (take n T) AppEnded) \<and>
      count_list (take n T) Launched \<le> Suc (length (waits (take n T)))) \<and>
    (\<forall>i < length (waits T). 1000 \<le> waits T ! i \<and> waits T ! i \<le> 30000 \<and>
      (60000 \<le> ages rs ! i \<longrightarrow> waits T ! i = 1000) \<and>
      ((\<forall>j \<le> i. ages rs ! j < 60000) \<longrightarrow> waits T ! i = min (2 ^ i * 1000) 30000)) \<and>
    (\<forall>i < length rs. (ro_stop_seen (rs ! i) \<longrightarrow> count_list T Launched \<le> i) \<and>
      (stop_in (rs ! i) \<longrightarrow> count_list T Launched \<le> Suc i)) \<and>
    (SupervisorDone \<in> set T \<longrightarrow> last T = SupervisorDone \<and> SupervisorDone \<notin> set (butlast T) \<and>
      count_list T AppEnded = count_list T Launched)"
proof -
  have "1000 \<le> waits T ! i \<and> waits T ! i \<le> 30000 \<and> (60000 \<le> ages rs ! i \<longrightarrow> waits T ! i = 1000) \<and>
      ((\<forall>j \<le> i. ages rs ! j < 60000) \<longrightarrow> waits T ! i = min (2 ^ i * 1000) 30000)" if "i < length (waits T)" for i
  proof -
    let ?as = "take (Suc i) (ages rs)"
    from nth_waits [OF that [unfolded T_def]] have i: "i < length (ages rs)" and w: "waits T ! i = wait_after min_backoff ?as"
      by (auto simp: ages_def T_def)
    from i have ne: "?as \<noteq> []" and last: "last ?as = ages rs ! i" and len: "length ?as = Suc i"
      by (auto simp: take_Suc_conv_app_nth)
    have "waits T ! i = 1000" if "60000 \<le> ages rs ! i"
      using wait_after_settled [OF ne, of min_backoff] that
      unfolding w last by (simp add: settled_def) (simp add: min_backoff_def)
    moreover have "waits T ! i = min (2 ^ i * 1000) 30000" if "\<forall>j \<le> i. ages rs ! j < 60000"
    proof -
      have "\<forall>a \<in> set ?as. a < settled" using that i by (auto simp: settled_def in_set_conv_nth)
      from wait_after_short [OF this ne, of min_backoff] show ?thesis
        unfolding w len by (simp add: min_backoff_def max_backoff_def)
    qed
    ultimately show ?thesis
      using wait_after_range [of min_backoff ?as, folded w] by (simp add: min_backoff_def max_backoff_def)
  qed
  then show ?thesis
    using supervise_one_app [of _ min_backoff rs] supervise_stops [of _ rs min_backoff] supervise_done [of min_backoff rs]
    unfolding T_def by blast
qed

theorem relaunch_waits_witness:
  "\<exists>rs. waits (supervise min_backoff rs) = [1000, 2000, 1000] \<and> waits (supervise min_backoff rs) ! 2 = 1000"
proof -
  let ?r = "\<lambda>age. \<lparr>ro_stop_seen = False, ro_spawns = True, ro_end = EndsItself age, ro_stop_after = False,
    ro_stop_waiting = False\<rparr>"
  let ?rs = "[?r 5, ?r 10, ?r 70000]"
  have run: "waits (supervise min_backoff ?rs) = [1000, 2000, 1000]"
    by (simp add: min_backoff_def settled_def max_backoff_def)
  have "60000 \<le> ages ?rs ! 2" by (simp add: ages_def)
  with run relaunch_waits [of ?rs] have "waits (supervise min_backoff ?rs) ! 2 = 1000" by simp
  with run show ?thesis by blast
qed

section \<open>A stop always ends\<close>

lemma in_time_le: "fst (in_time limit d) \<le> limit"
  by (simp add: in_time_def split: option.split)

lemma stop_ui_le: "fst (stop_ui T) \<le> 5000"
  using in_time_le [of stop_deadline "td_ui T"] by (simp add: stop_ui_def stop_deadline_def)

text \<open>Whatever hangs, the teardown tells the servers to stop, as its last step and within 25 seconds, and the
  ports are closed at most three seconds after that. The app is told first, and the inference
  server is stopped before the app is waited for.\<close>

theorem shutdown_ends:
  "\<exists>models engines inference ui total.
     map snd (shutdown_all T) =
       [UiToldToStop, ModelsPaused models, EnginesPaused engines, InferenceStopped inference, UiStopped ui, ServersTold] \<and>
     sorted (map fst (shutdown_all T)) \<and> last (shutdown_all T) = (total, ServersTold) \<and> total \<le> 25000 \<and>
     serve_ports api_done total \<le> 28000"
proof -
  obtain a models b engines c answered d ui where
    steps: "in_time 5000 (td_models T) = (a, models)" "in_time 5000 (td_engines T) = (b, engines)"
      "in_time 10000 (td_inference T) = (c, answered)" "stop_ui T = (d, ui)"
    by (meson surj_pair)
  have "a \<le> 5000" "b \<le> 5000" "c \<le> 10000" "d \<le> 5000"
    using in_time_le [of 5000 "td_models T"] in_time_le [of 5000 "td_engines T"]
      in_time_le [of 10000 "td_inference T"] stop_ui_le [of T] steps by simp_all
  moreover have "fst (in_time 3000 (api_done (a + b + c + d))) \<le> 3000" by (rule in_time_le)
  ultimately show ?thesis using steps by (auto simp: shutdown_all_def serve_ports_def)
qed

section \<open>How long a client waits for a stop\<close>

lemma wait_until_down_ok:
  "wait_until_down down elapsed = Inr () \<longleftrightarrow>
     (\<exists>t k. down = Some t \<and> t \<le> elapsed + 250 * k \<and> elapsed + 250 * k < 20000)"
proof (induction down elapsed rule: wait_until_down.induct)
  case (1 down elapsed)
  consider (late) "20000 \<le> elapsed" | (down) "elapsed < 20000" "case down of Some t \<Rightarrow> t \<le> elapsed | None \<Rightarrow> False"
    | (up) "elapsed < 20000" "\<not> (case down of Some t \<Rightarrow> t \<le> elapsed | None \<Rightarrow> False)"
    using not_le by blast
  then show ?case
  proof cases
    case down
    then show ?thesis
      by (auto simp: wait_until_down.simps [of _ elapsed] intro!: exI [of _ 0] split: option.splits)
  next
    case up
    have "(\<exists>t k. down = Some t \<and> t \<le> elapsed + 250 + 250 * k \<and> elapsed + 250 + 250 * k < 20000) \<longleftrightarrow>
        (\<exists>t k. down = Some t \<and> t \<le> elapsed + 250 * k \<and> elapsed + 250 * k < 20000)"
    proof (intro iffI; elim exE conjE)
      fix t k
      assume "down = Some t" "t \<le> elapsed + 250 + 250 * k" "elapsed + 250 + 250 * k < 20000"
      then show "\<exists>t k. down = Some t \<and> t \<le> elapsed + 250 * k \<and> elapsed + 250 * k < 20000"
        by (intro exI [of _ t] exI [of _ "Suc k"]) simp
    next
      fix t k
      assume t: "down = Some t" "t \<le> elapsed + 250 * k" "elapsed + 250 * k < 20000"
      with up obtain j where "k = Suc j" by (cases k) auto
      with t show "\<exists>t k. down = Some t \<and> t \<le> elapsed + 250 + 250 * k \<and> elapsed + 250 + 250 * k < 20000"
        by (intro exI [of _ t] exI [of _ j]) simp
    qed
    with up "1.IH" show ?thesis by (simp add: wait_until_down.simps [of down elapsed])
  qed (simp add: wait_until_down.simps [of down elapsed])
qed

text \<open>A client that stops the daemon is told so exactly when its request is accepted and the port is
  closed within 19.75 seconds, the time of its last look; otherwise it ends with an error.\<close>

theorem stop_daemon_correct:
  "stop_daemon requested down = Inr () \<longleftrightarrow> requested = Inr () \<and> (\<exists>t. down = Some t \<and> t \<le> 19750)"
proof -
  have "(\<exists>t k. down = Some t \<and> t \<le> 250 * k \<and> 250 * k < 20000) \<longleftrightarrow> (\<exists>t. down = Some t \<and> t \<le> 19750)"
    for down :: "nat option"
  proof (intro iffI; elim exE conjE)
    fix t k :: nat
    assume t: "down = Some t" "t \<le> 250 * k" "250 * k < 20000"
    then have "k \<le> 79" by simp
    with t show "\<exists>t. down = Some t \<and> t \<le> 19750" by (intro exI [of _ t]) simp
  next
    fix t :: nat
    assume "down = Some t" "t \<le> 19750"
    then show "\<exists>t k. down = Some t \<and> t \<le> 250 * k \<and> 250 * k < 20000"
      by (intro exI [of _ t] exI [of _ 79]) simp
  qed
  then show ?thesis
    by (auto simp: stop_daemon_def res_bind_eq_Inr wait_until_down_ok)
qed

text \<open>The teardown may take longer than that: downloads that don't pause, an inference server that doesn't
  stop and an app that doesn't end give 25 seconds, and the client reports a time-out for a daemon
  that goes away as it should. A new version that wants to replace the daemon fails with it.\<close>

theorem stop_times_out:
  "\<exists>T. last (shutdown_all T) = (25000, ServersTold) \<and> stop_daemon (Inr ()) (Some 25000) \<noteq> Inr ()"
proof
  let ?T = "\<lparr>td_models = None, td_engines = None, td_inference = None, td_inference_ok = False,
    td_ui_running = True, td_ui = None\<rparr>"
  show "last (shutdown_all ?T) = (25000, ServersTold) \<and> stop_daemon (Inr ()) (Some 25000) \<noteq> Inr ()"
    by (simp add: shutdown_all_def in_time_def stop_ui_def stop_deadline_def stop_daemon_correct)
qed

section \<open>Starting the daemon\<close>

lemma wait_until_up_ok: "wait_until_up n e ping = Inr () \<longleftrightarrow> (\<exists>k < n. is_ok (ping k))"
proof (induction n arbitrary: e ping)
  case (Suc n)
  have "(\<exists>k < Suc n. is_ok (ping k)) \<longleftrightarrow> is_ok (ping 0) \<or> (\<exists>k < n. is_ok (ping (Suc k)))"
    by (metis Suc_less_eq gr0_conv_Suc less_Suc_eq_0_disj zero_less_Suc)
  with Suc show ?case by (auto simp: is_ok_def split: sum.splits)
qed simp

lemma launch_daemon_ok:
  "launch_daemon D port = (Inr (), steps) \<longleftrightarrow>
     (\<exists>k < 5. is_ok (dw_up D (get_port D port) k)) \<and>
     (if dw_service D then dw_kick D = Inr () \<and> steps = [KickedService]
      else dw_logs D = Inr () \<and> dw_spawn D = Inr () \<and> steps = [SpawnedDaemon])"
  by (auto simp: launch_daemon_def wait_until_up_ok split: sum.splits)

lemma is_outdated_Inr:
  "is_outdated D v = Inr b \<longleftrightarrow> (\<exists>app. dw_version D (dw_app_version D) = Inr app \<and>
     (if contains v ''Its me'' then b else \<exists>it. dw_version D v = Inr it \<and> b = dw_differs D app it))"
  by (auto simp: is_outdated_def res_bind_eq_Inr)

text \<open>A start that succeeds either left the daemon that answers alone, which is of the same precedence as this
  version, or started one daemon, through launchd if the agent is installed, that answers one of
  five pings; before it the daemon on the default port was stopped if one of another precedence, or an old one
  that can't tell, answered.\<close>

lemma start_daemon_ok:
  assumes "start_daemon D port = (Inr (), steps)"
  shows "(steps = [] \<and> (\<exists>v app it. dw_ping D (get_port D port) = Inr v \<and> \<not> contains v ''Its me'' \<and>
        dw_version D (dw_app_version D) = Inr app \<and> dw_version D v = Inr it \<and> \<not> dw_differs D app it)) \<or>
     (\<exists>before. steps = before @ [if dw_service D then KickedService else SpawnedDaemon] \<and>
        (\<exists>k < 5. is_ok (dw_up D (get_port D port) k)) \<and>
        (case dw_ping D (get_port D port) of
           Inl _ \<Rightarrow> before = []
         | Inr v \<Rightarrow> before = [StoppedDaemon (dw_default_port D)] \<and>
             (contains v ''Its me'' \<or> (\<exists>app it. dw_version D (dw_app_version D) = Inr app \<and>
                dw_version D v = Inr it \<and> dw_differs D app it))))"
  using assms
  by (auto simp: start_daemon_def launch_daemon_ok is_outdated_Inr get_port_def
      split: sum.splits bool.splits prod.splits if_splits)

text \<open>The daemon that is stopped is the one on the default port, also for a start on another port.\<close>

theorem start_stops_default_port:
  assumes "dw_ping D p = Inr v" and "is_outdated D v = Inr True" and "p \<noteq> dw_default_port D"
  shows "StoppedDaemon p \<notin> set (snd (start_daemon D (Some p)))"
  using assms by (auto simp: start_daemon_def get_port_def launch_daemon_def split: sum.splits prod.splits)

theorem start_stops_default_port_witness:
  "StoppedDaemon 9 \<notin> set (snd (start_daemon
     \<lparr>dw_default_port = 1729, dw_ping = (\<lambda>_. Inr ''0''), dw_app_version = ''1'', dw_version = Inr,
      dw_differs = (\<lambda>a b. a \<noteq> b), dw_stop = (\<lambda>_. Inr ()), dw_service = False, dw_kick = Inr (),
      dw_logs = Inr (), dw_spawn = Inr (), dw_up = (\<lambda>_ _. Inr ''1'')\<rparr> (Some 9)))"
  by (rule start_stops_default_port [of _ _ "''0''"]) (simp_all add: is_outdated_def starts_with_def)

section \<open>The launchd agent's file\<close>

lemma xml_escape_simps [simp]:
  "xml_escape [] = []"
  "xml_escape (c # s) =
     (if c = CHR ''&'' then ''&amp;'' else if c = CHR ''<'' then ''&lt;'' else if c = CHR ''>'' then ''&gt;'' else [c])
     @ xml_escape s"
  by (simp_all add: xml_escape_def str_replace_def)

lemma xml_escape_no_tags: "CHR ''<'' \<notin> set (xml_escape s)" "CHR ''>'' \<notin> set (xml_escape s)"
  by (induction s) auto

lemma xml_escape_inject: "xml_escape s = xml_escape t \<Longrightarrow> s = t"
proof (induction s arbitrary: t)
  case Nil
  then show ?case by (cases t) (auto split: if_splits)
next
  case (Cons c s)
  then obtain d t' where t: "t = d # t'" by (cases t) (auto split: if_splits)
  with Cons show ?case by (auto split: if_splits)
qed

lemma xml_escape_entity:
  "xml_escape s = u @ CHR ''&'' # v \<Longrightarrow>
     starts_with v ''amp;'' \<or> starts_with v ''lt;'' \<or> starts_with v ''gt;''"
proof (induction s arbitrary: u)
  case (Cons c s)
  show ?case
  proof (cases u)
    case Nil
    with Cons.prems show ?thesis by (auto simp: starts_with_def split: if_splits)
  next
    case (Cons x u')
    note u = this
    have "\<exists>w. xml_escape s = w @ CHR ''&'' # v" if "c \<notin> {CHR ''&'', CHR ''<'', CHR ''>''}"
      using that Cons.prems u by auto
    moreover have "\<exists>w. xml_escape s = w @ CHR ''&'' # v"
      if "xml_escape (c # s) = CHR ''&'' # e @ xml_escape s" "CHR ''&'' \<notin> set e" for e
    proof -
      have "e @ xml_escape s = u' @ CHR ''&'' # v" using that(1) Cons.prems u by simp
      then obtain w where "u' = e @ w \<and> xml_escape s = w @ CHR ''&'' # v \<or>
          e = u' @ w \<and> w @ xml_escape s = CHR ''&'' # v"
        by (auto simp: append_eq_append_conv2)
      with that(2) show ?thesis by (cases w) auto
    qed
    from this [of "''amp;''"] this [of "''lt;''"] this [of "''gt;''"]
    have "\<exists>w. xml_escape s = w @ CHR ''&'' # v" if "c \<in> {CHR ''&'', CHR ''<'', CHR ''>''}"
      using that by (elim insertE) simp_all
    ultimately show ?thesis using Cons.IH by blast
  qed
qed simp

lemma before_tag:
  "CHR ''<'' \<notin> set a \<Longrightarrow> CHR ''<'' \<notin> set b \<Longrightarrow> a @ CHR ''<'' # x = b @ CHR ''<'' # y \<Longrightarrow> a = b \<and> x = y"
proof (induction a arbitrary: b)
  case Nil
  then show ?case by (cases b) auto
next
  case (Cons c a)
  then show ?case by (cases b) auto
qed

definition tags :: "string \<Rightarrow> string" where
  "tags s = filter (\<lambda>c. c = CHR ''<'' \<or> c = CHR ''>'') s"

lemma tags_simps:
  "tags (s @ t) = tags s @ tags t" "tags (xml_escape s) = []" "tags [] = []"
  using xml_escape_no_tags [of s] by (auto simp: tags_def filter_empty_conv)

text \<open>C34. Whatever bytes the paths hold, the agent's file has the brackets of the template and no others, so none of
  its tags comes from a path; every ampersand that a path brings begins one of the three entities; and
  the file tells the paths apart, but for bytes that aren't UTF-8: two that give the same file are
  the same text. (How launchd reads the file, and what it makes of control characters, is
  not modelled.)\<close>

theorem agent_file_keeps_paths:
  "tags (plist program out_log err_log) = tags (plist '''' '''' '''') \<and>
   (xml_escape (utf8_lossy program) = u @ CHR ''&'' # v \<longrightarrow>
      starts_with v ''amp;'' \<or> starts_with v ''lt;'' \<or> starts_with v ''gt;'') \<and>
   (plist program out_log err_log = plist program' out_log' err_log' \<longrightarrow>
      utf8_lossy program = utf8_lossy program' \<and> utf8_lossy out_log = utf8_lossy out_log' \<and>
      utf8_lossy err_log = utf8_lossy err_log')"
proof (intro conjI impI)
  show "tags (plist program out_log err_log) = tags (plist '''' '''' '''')"
    by (simp only: plist_def list.map concat.simps tags_simps append_Nil)
next
  show "starts_with v ''amp;'' \<or> starts_with v ''lt;'' \<or> starts_with v ''gt;''"
    if "xml_escape (utf8_lossy program) = u @ CHR ''&'' # v"
    using that by (rule xml_escape_entity)
next
  assume eq: "plist program out_log err_log = plist program' out_log' err_log'"
  note before = before_tag [OF xml_escape_no_tags(1) xml_escape_no_tags(1)]
  have "xml_escape (utf8_lossy program) = xml_escape (utf8_lossy program') \<and>
      xml_escape (utf8_lossy out_log) = xml_escape (utf8_lossy out_log') \<and>
      xml_escape (utf8_lossy err_log) = xml_escape (utf8_lossy err_log')"
    using eq by (simp add: plist_def) (auto dest!: before)
  then show "utf8_lossy program = utf8_lossy program'" "utf8_lossy out_log = utf8_lossy out_log'"
    "utf8_lossy err_log = utf8_lossy err_log'" by (auto dest: xml_escape_inject)
qed

lemma agent_file_keeps_paths_witness:
  "starts_with ''amp;b'' ''amp;'' \<or> starts_with ''amp;b'' ''lt;'' \<or> starts_with ''amp;b'' ''gt;''"
proof -
  have "xml_escape (utf8_lossy ''a&b'') = ''a'' @ CHR ''&'' # ''amp;b''" by code_simp
  then show ?thesis using agent_file_keeps_paths [of "''a&b''" "''''" "''''" "''a''" "''amp;b''"] by blast
qed

lemma then_do_Inr:
  "then_do m f s = (Inr y, s') \<longleftrightarrow> (\<exists>x s1. m s = (Inr x, s1) \<and> f x s1 = (Inr y, s'))"
  by (auto simp: then_do_def split: prod.splits sum.splits)

lemma lift_Inr [simp]: "lift r s = (Inr y, s') \<longleftrightarrow> r = Inr y \<and> s' = s"
  by (auto simp: lift_def)

lemma launchctl_checked_Inr:
  "launchctl_checked D args s = (Inr u, s') \<longleftrightarrow>
     (\<exists>err. ld_launchctl D (length (af_calls s)) args = Inr (True, err)) \<and> s' = s\<lparr>af_calls := af_calls s @ [args]\<rparr>"
  by (auto simp: launchctl_checked_def then_do_Inr launchctl_def split: if_splits)

lemma launchctl_unchecked_Inr:
  "launchctl_unchecked D args s = (Inr u, s') \<longleftrightarrow> s' = s\<lparr>af_calls := af_calls s @ [args]\<rparr>"
  by (auto simp: launchctl_unchecked_def launchctl_def)

lemma write_plist_Inr:
  "write_plist D path text s = (Inr u, s') \<longleftrightarrow> is_ok (ld_write D) \<and> s' = s\<lparr>af_plist := Some text\<rparr>"
  by (auto simp: write_plist_def is_ok_def split: sum.splits)

lemma add_service_Inr:
  assumes "add_service D s = (Inr (), s')"
  shows "\<exists>program data path err. ld_exe D = Inr program \<and> ld_data_dir D = Inr data \<and> plist_path D = Inr path \<and>
        \<not> ld_debug D \<and> ld_macos D \<and>
        af_plist s' = Some (plist program (data @ ''/logs/daemon.out.log'') (data @ ''/logs/daemon.err.log'')) \<and>
        af_calls s' = af_calls s @ [[''bootout'', target D],
          [''bootstrap'', domain D, utf8_lossy path], [''enable'', target D]] \<and>
        ld_launchctl D (Suc (length (af_calls s))) [''bootstrap'', domain D,
           utf8_lossy path] = Inr (True, err)"
  using assms
  by (auto simp: add_service_def then_do_Inr launchctl_checked_Inr launchctl_unchecked_Inr require_macos_def
      write_plist_Inr split: if_splits)

lemma unload_plist: "af_plist (snd (unload D s)) = af_plist s"
  by (auto simp: unload_def then_do_def lift_def launchctl_def launchctl_checked_def require_macos_def
      split: prod.splits sum.splits)

lemma remove_service_removes:
  assumes "remove_service D s = (r, s')" and "af_plist s' \<noteq> af_plist s"
  shows "af_plist s' = None \<and> is_ok (fst (unload D s)) \<and> af_calls s' = af_calls (snd (unload D s))"
  using assms unload_plist [of D s]
  by (cases "unload D s")
    (auto simp: remove_service_def then_do_def lift_def is_ok_def split: prod.splits sum.splits if_splits)

lemma not_installed_calls_nothing:
  "\<not> is_installed D s \<Longrightarrow> \<exists>e. installed_only D args s = (Inl e, s)"
  by (auto simp: installed_only_def then_do_def lift_def require_macos_def split: sum.splits)

text \<open>Adding the agent writes its file for the program that is running before launchd is told of it, after an
  older copy has gone; removing it takes the file away only once launchd has let the job go; and a
  start or a stop of an agent that isn't installed calls nothing.\<close>

theorem service_correct:
  "(add_service D s = (Inr (), s') \<longrightarrow>
     (\<exists>program data path. ld_exe D = Inr program \<and> ld_data_dir D = Inr data \<and> plist_path D = Inr path \<and>
        \<not> ld_debug D \<and> ld_macos D \<and>
        af_plist s' = Some (plist program (data @ ''/logs/daemon.out.log'') (data @ ''/logs/daemon.err.log'')) \<and>
        af_calls s' = af_calls s @ [[''bootout'', target D],
          [''bootstrap'', domain D, utf8_lossy path], [''enable'', target D]] \<and>
        (\<exists>err. ld_launchctl D (Suc (length (af_calls s))) [''bootstrap'', domain D,
           utf8_lossy path] = Inr (True, err)))) \<and>
   (remove_service D s = (r, s') \<and> af_plist s' \<noteq> af_plist s \<longrightarrow>
     af_plist s' = None \<and> is_ok (fst (unload D s)) \<and> af_calls s' = af_calls (snd (unload D s))) \<and>
   (\<not> is_installed D s \<longrightarrow> snd (start_service D s) = s \<and> \<not> is_ok (fst (start_service D s)) \<and>
     snd (stop_service D s) = s \<and> \<not> is_ok (fst (stop_service D s)))"
proof (intro conjI impI)
  assume "add_service D s = (Inr (), s')"
  then show "\<exists>program data path. ld_exe D = Inr program \<and> ld_data_dir D = Inr data \<and> plist_path D = Inr path \<and>
        \<not> ld_debug D \<and> ld_macos D \<and>
        af_plist s' = Some (plist program (data @ ''/logs/daemon.out.log'') (data @ ''/logs/daemon.err.log'')) \<and>
        af_calls s' = af_calls s @ [[''bootout'', target D],
          [''bootstrap'', domain D, utf8_lossy path], [''enable'', target D]] \<and>
        (\<exists>err. ld_launchctl D (Suc (length (af_calls s))) [''bootstrap'', domain D,
           utf8_lossy path] = Inr (True, err))"
    using add_service_Inr by blast
next
  assume "\<not> is_installed D s"
  note none = not_installed_calls_nothing [OF this]
  show "snd (start_service D s) = s" "\<not> is_ok (fst (start_service D s))"
    "snd (stop_service D s) = s" "\<not> is_ok (fst (stop_service D s))"
    unfolding start_service_def stop_service_def
    using none [of "[''kickstart'', ''-k'', target D]"] none [of "[''bootout'', target D]"] by auto
qed (use remove_service_removes in blast)+

definition demo_launchd :: launchd where
  "demo_launchd =
     \<lparr>ld_macos = True, ld_debug = False, ld_exe = Inr ''/a&b/tiles'', ld_data_dir = Inr ''/d'', ld_home = Some ''/h'',
      ld_uid = 501, ld_make_dir = Inr (), ld_write = Inr (), ld_remove = Inr (), ld_launchctl = (\<lambda>_ _. Inr (True, ''''))\<rparr>"

theorem service_correct_witness:
  "\<exists>s' p. add_service demo_launchd \<lparr>af_plist = None, af_calls = []\<rparr> = (Inr (), s') \<and> af_plist s' = Some p \<and>
     length (af_calls s') = 3 \<and>
     snd (stop_service demo_launchd \<lparr>af_plist = None, af_calls = []\<rparr>) = \<lparr>af_plist = None, af_calls = []\<rparr>"
proof -
  let ?s = "\<lparr>af_plist = None, af_calls = []\<rparr> :: agent_file"
  obtain s' where run: "add_service demo_launchd ?s = (Inr (), s')"
    by (auto simp: add_service_def then_do_Inr launchctl_checked_Inr launchctl_unchecked_Inr require_macos_def
        write_plist_Inr plist_path_def demo_launchd_def)
  have "\<not> is_installed demo_launchd ?s" by (simp add: is_installed_def split: sum.split)
  with service_correct [of demo_launchd ?s s' "Inr ''''"] run show ?thesis by auto
qed

end
