(* ===== verification/MenubarAccount.thy ===== *)
theory MenubarAccount
  imports Atproto
begin

text \<open>
  The AT protocol account in the menubar app (\<open>apps/menubar/src-tauri/src/atproto.rs\<close>): what the panel
  shows of it, kept up by polls of the daemon, by profiles that are read in the background and by
  sign-ins; and the reading of a profile from servers the account names. JSON, base64 and the servers'
  answers are arguments. Times are milliseconds.
\<close>

section \<open>What is shown\<close>

record profile =
  pf_name :: "string option"
  pf_avatar :: "string option"
  pf_pds :: "string option"

definition no_profile :: profile where
  "no_profile = \<lparr>pf_name = None, pf_avatar = None, pf_pds = None\<rparr>"

datatype at_shown = AtUnknown | AtNone | AtPending string | AtSession string string profile

text \<open>\<open>av_failed\<close> has the time of the failure. \<open>av_events\<close> is what the panel was told, and \<open>av_reads\<close> the
  accounts whose profile is being read.\<close>

record at_view =
  av_state :: at_shown
  av_login :: bool
  av_misses :: nat
  av_loaded :: "(string \<times> profile) option"
  av_reading :: "string option"
  av_failed :: "(string \<times> nat) option"
  av_events :: "at_shown list"
  av_reads :: "string list"

definition at_init :: at_view where
  "at_init =
     \<lparr>av_state = AtUnknown, av_login = False, av_misses = 0, av_loaded = None, av_reading = None, av_failed = None,
      av_events = [], av_reads = []\<rparr>"

definition at_show :: "at_shown \<Rightarrow> at_view \<Rightarrow> at_view" where
  "at_show next v = (if av_state v = next then v else v\<lparr>av_state := next, av_events := av_events v @ [next]\<rparr>)"

definition misses_before_unknown :: nat where "misses_before_unknown = 3"

text \<open>The count is a \<open>u32\<close> and stays at its greatest value.\<close>

definition tally :: "bool \<Rightarrow> nat \<Rightarrow> nat \<times> bool" where
  "tally answered misses =
     (if answered then (0, True)
      else let misses = min (misses + 1) (2 ^ 32 - 1) in (misses, misses < misses_before_unknown))"

definition at_settle :: "bool \<Rightarrow> at_view \<Rightarrow> at_view" where
  "at_settle answered v =
     (case tally answered (av_misses v) of
        (misses, keeps) \<Rightarrow>
          let v = v\<lparr>av_misses := misses\<rparr> in if keeps then v else at_show AtUnknown v)"

definition at_unknown :: "at_view \<Rightarrow> at_view" where
  "at_unknown v = (if av_login v then v else at_settle False v)"

definition parse_at :: "'j json \<Rightarrow> string \<Rightarrow> at_shown" where
  "parse_at J body =
     (case js_parse J body of
        None \<Rightarrow> AtUnknown
      | Some payload \<Rightarrow>
          (case (Option.bind (js_get J ''data'' payload) (get_str J ''handle''),
                 Option.bind (js_get J ''data'' payload) (get_str J ''did'')) of
             (Some handle, Some did) \<Rightarrow>
               if handle \<noteq> [] \<and> did \<noteq> [] then AtSession handle did no_profile else AtUnknown
           | _ \<Rightarrow> AtUnknown))"

definition fetch_at :: "'j json \<Rightarrow> daemon_reply \<Rightarrow> at_shown option" where
  "fetch_at J r =
     (case r of
        NoReply _ \<Rightarrow> None
      | Reply status body \<Rightarrow>
          if status = 404 then Some AtNone
          else if \<not> is_success status then None
          else map_option (parse_at J) body)"

definition profile_retry_after :: nat where "profile_retry_after = 120000"

text \<open>A session gets the profile that was read for it; where there is none it is asked for, unless it is being
  read or the last try was less than two minutes ago.\<close>

definition dress :: "nat \<Rightarrow> at_shown \<Rightarrow> at_view \<Rightarrow> at_shown \<times> at_view" where
  "dress now s v =
     (case s of
        AtSession handle did _ \<Rightarrow>
          (case (case av_loaded v of Some (seen, p) \<Rightarrow> if seen = did then Some p else None | None \<Rightarrow> None) of
             Some p \<Rightarrow> (AtSession handle did p, v)
           | None \<Rightarrow>
               (let waiting = (av_reading v = Some did);
                    resting = (case av_failed v of
                       Some (failed, at) \<Rightarrow> failed = did \<and> now - at < profile_retry_after | None \<Rightarrow> False)
                in (AtSession handle did no_profile,
                    if \<not> waiting \<and> \<not> resting
                    then v\<lparr>av_reading := Some did, av_reads := did # av_reads v\<rparr> else v)))
      | _ \<Rightarrow> (s, v))"

text \<open>A poll, when the answer is there. A sign-in that began meanwhile comes first.\<close>

definition poll_answered :: "'j json \<Rightarrow> nat \<Rightarrow> daemon_reply \<Rightarrow> at_view \<Rightarrow> at_view" where
  "poll_answered J now r v =
     (if av_login v then v
      else (case fetch_at J r of
              None \<Rightarrow> at_settle False v
            | Some s \<Rightarrow> (case dress now s (at_settle True v) of (next, v) \<Rightarrow> at_show next v)))"

definition dress_in :: "string \<Rightarrow> profile \<Rightarrow> at_view \<Rightarrow> at_view" where
  "dress_in did p v =
     (case av_state v of
        AtSession handle at _ \<Rightarrow> if at \<noteq> did then v else at_show (AtSession handle at p) v
      | _ \<Rightarrow> v)"

text \<open>The end of a read: \<open>None\<close> is a server that said nothing.\<close>

definition read_done :: "nat \<Rightarrow> string \<Rightarrow> profile option \<Rightarrow> at_view \<Rightarrow> at_view" where
  "read_done now did p v =
     (let v = v\<lparr>av_reads := remove1 did (av_reads v),
                av_reading := (if av_reading v = Some did then None else av_reading v)\<rparr> in
      case p of
        None \<Rightarrow> v\<lparr>av_failed := Some (did, now)\<rparr>
      | Some p \<Rightarrow> dress_in did p (v\<lparr>av_failed := None, av_loaded := Some (did, p)\<rparr>))"

definition clean_handle :: "string \<Rightarrow> string" where
  "clean_handle handle = to_lowercase (dropWhile (\<lambda>c. c = CHR ''@'') (trim handle))"

text \<open>A sign-in in the app: it is claimed, shown, and at its end given up, before the state is polled anew.\<close>

definition login_claim :: "string \<Rightarrow> at_view \<Rightarrow> (string + string) \<times> at_view" where
  "login_claim handle v =
     (let handle = clean_handle handle in
      if handle = [] then (Inl ''A handle is needed'', v)
      else if av_login v then (Inl ''A sign-in is already waiting'', v)
      else (Inr handle, v\<lparr>av_login := True\<rparr>))"

definition login_over :: "at_view \<Rightarrow> at_view" where
  "login_over v = v\<lparr>av_login := False\<rparr>"

section \<open>The sign-in's events\<close>

text \<open>\<open>opens\<close> is handing the URL to the browser. The result is the URLs that were opened and how it ended.\<close>

fun login_events ::
  "'j json \<Rightarrow> (string \<Rightarrow> string + unit) \<Rightarrow> (string \<times> 'j) list \<Rightarrow> string list \<times> (string + unit) option" where
  "login_events J opens [] = ([], None)"
| "login_events J opens ((name, data) # es) =
     (if name = ''authorize''
      then (case get_str J ''url'' data of
              None \<Rightarrow> ([], Some (Inl ''The sign in came without a url''))
            | Some url \<Rightarrow>
                (case opens url of
                   Inl e \<Rightarrow> ([], Some (Inl (''Could not open the browser: '' @ e)))
                 | Inr _ \<Rightarrow> (case login_events J opens es of (urls, r) \<Rightarrow> (url # urls, r))))
      else if name = ''signed_in'' then ([], Some (Inr ()))
      else if name = ''error''
      then ([], Some (Inl (case get_str J ''reason'' data of Some r \<Rightarrow> r | None \<Rightarrow> ''The sign in failed'')))
      else login_events J opens es)"

fun login_stream ::
  "'j json \<Rightarrow> (string \<Rightarrow> string + unit) \<Rightarrow> (string + string) list \<Rightarrow> string \<Rightarrow> string list \<times> (string + unit)" where
  "login_stream J opens [] pending = ([], Inl ''The daemon closed the sign in before it finished'')"
| "login_stream J opens (Inl e # chunks) pending = ([], Inl e)"
| "login_stream J opens (Inr chunk # chunks) pending =
     (case take_events (js_parse J) (pending @ utf8_lossy chunk) of
        (es, rest) \<Rightarrow>
          (case login_events J opens es of
             (urls, Some r) \<Rightarrow> (urls, r)
           | (urls, None) \<Rightarrow>
               (case login_stream J opens chunks rest of (urls', r) \<Rightarrow> (urls @ urls', r))))"

lemma login_events_append:
  "login_events J opens (es @ es') =
     (case login_events J opens es of
        (urls, Some r) \<Rightarrow> (urls, Some r)
      | (urls, None) \<Rightarrow> (case login_events J opens es' of (urls', r) \<Rightarrow> (urls @ urls', r)))"
  by (induction J opens es rule: login_events.induct) (auto split: option.split sum.split prod.split)

definition login_or_wait ::
  "'j json \<Rightarrow> (string \<Rightarrow> string + unit) \<Rightarrow> (string \<times> 'j) list \<Rightarrow> string list
     \<Rightarrow> string list + string list \<times> (string + unit)" where
  "login_or_wait J opens es urls =
     (case login_events J opens es of (u, None) \<Rightarrow> Inl (urls @ u) | (u, Some r) \<Rightarrow> Inr (urls @ u, r))"

interpretation login_reader: event_reader "js_parse J" "login_or_wait J opens"
    "\<lambda>cs p urls. case login_stream J opens cs p of (u, r) \<Rightarrow> (urls @ u, r)" Inr
    "\<lambda>urls. (urls, Inl ''The daemon closed the sign in before it finished'')" "\<lambda>r. r"
  by unfold_locales
    (auto simp: login_or_wait_def login_events_append res_else_def split: option.split prod.split)

text \<open>However the answer is cut into chunks, the same URLs are opened and the sign-in ends the same way.\<close>

lemma login_stream_chunks:
  "\<forall>c \<in> set cs. utf8_valid c \<Longrightarrow> login_stream J opens (map Inr cs) '''' = login_stream J opens [Inr (concat cs)] ''''"
  using login_reader.loop_once [where cs = cs and J = J and opens = opens and s = "[]"] by simp

definition login_reason :: "'j json \<Rightarrow> string \<Rightarrow> nat \<Rightarrow> string" where
  "login_reason J body status =
     (case Option.bind (js_parse J body) (get_str J ''reason'') of
        Some r \<Rightarrow> r
      | None \<Rightarrow> ''The daemon answered '' @ show_nat status)"

text \<open>\<open>timed_out\<close> is if the failure to answer was a time-out.\<close>

definition login_request ::
  "'j json \<Rightarrow> (string \<Rightarrow> string + unit) \<Rightarrow> bool \<Rightarrow> daemon_reply \<Rightarrow> (string + string) list \<Rightarrow> string list \<times> (string + unit)" where
  "login_request J opens timed_out r chunks =
     (case r of
        NoReply e \<Rightarrow> ([], Inl (if timed_out then ''The browser did not come back in time'' else e))
      | Reply status body \<Rightarrow>
          if \<not> is_success status
          then ([], Inl (login_reason J (case body of Some b \<Rightarrow> b | None \<Rightarrow> '''') status))
          else login_stream J opens chunks '''')"

section \<open>Reading a profile\<close>

definition is_token_char :: "char \<Rightarrow> bool" where
  "is_token_char c \<longleftrightarrow>
     (let n = (of_char c :: nat) in (48 \<le> n \<and> n \<le> 57) \<or> (65 \<le> n \<and> n \<le> 90) \<or> (97 \<le> n \<and> n \<le> 122)) \<or>
     c \<in> {CHR '':'', CHR ''.'', CHR ''_'', CHR ''-''}"

definition is_token :: "string \<Rightarrow> bool" where
  "is_token s \<longleftrightarrow> s \<noteq> [] \<and> length s \<le> 256 \<and> list_all is_token_char s"

definition did_doc_url :: "string \<Rightarrow> string option" where
  "did_doc_url did =
     (if \<not> is_token did then None
      else if starts_with did ''did:plc:'' then Some (''https://plc.directory/'' @ did)
      else (case strip_prefix ''did:web:'' did of
              None \<Rightarrow> None
            | Some host \<Rightarrow>
                if host = [] \<or> CHR '':'' \<in> set host then None
                else Some (''https://'' @ host @ ''/.well-known/did.json'')))"

definition trim_slashes :: "string \<Rightarrow> string" where
  "trim_slashes s = rev (dropWhile (\<lambda>c. c = CHR ''/'') (rev s))"

definition pds_from_doc :: "'j json \<Rightarrow> string \<Rightarrow> string option" where
  "pds_from_doc J body =
     Option.bind (js_parse J body) (\<lambda>doc.
     Option.bind (Option.bind (js_get J ''service'' doc) (js_list J)) (\<lambda>entries.
     Option.bind (find (\<lambda>e. get_str J ''type'' e = Some ''AtprotoPersonalDataServer'') entries) (\<lambda>entry.
     Option.bind (get_str J ''serviceEndpoint'' entry) (\<lambda>endpoint.
     if starts_with endpoint ''https://'' then Some (trim_slashes endpoint) else None))))"

definition avatar_types :: "string list" where
  "avatar_types = [''image/jpeg'', ''image/png'', ''image/webp'', ''image/gif'']"

definition parse_profile :: "'j json \<Rightarrow> string \<Rightarrow> string option \<times> (string \<times> string) option" where
  "parse_profile J body =
     (case js_parse J body of
        None \<Rightarrow> (None, None)
      | Some payload \<Rightarrow>
          (let val = js_get J ''value'' payload;
               name = map_option trim (Option.bind val (get_str J ''displayName''));
               avatar = Option.bind val (js_get J ''avatar'');
               cid = Option.bind (Option.bind avatar (js_get J ''ref'')) (get_str J ''$link'');
               mime = Option.bind avatar (get_str J ''mimeType'')
           in (case name of Some n \<Rightarrow> if n = [] then None else Some n | None \<Rightarrow> None,
               case (cid, mime) of
                 (Some cid, Some mime) \<Rightarrow> if mime \<in> set avatar_types \<and> is_token cid then Some (cid, mime) else None
               | _ \<Rightarrow> None)))"

text \<open>A body: its length where the server says one, and its chunks, \<open>None\<close> when one fails to come.\<close>

record web_reply =
  wr_status :: nat
  wr_length :: "nat option"
  wr_chunks :: "string option list"

fun read_chunks :: "nat \<Rightarrow> string \<Rightarrow> string option list \<Rightarrow> string option" where
  "read_chunks limit bytes [] = Some bytes"
| "read_chunks limit bytes (None # cs) = None"
| "read_chunks limit bytes (Some c # cs) =
     (if limit < length bytes + length c then None else read_chunks limit (bytes @ c) cs)"

definition capped_body :: "nat \<Rightarrow> web_reply \<Rightarrow> string option" where
  "capped_body limit r =
     (if (case wr_length r of Some n \<Rightarrow> limit < n | None \<Rightarrow> False) then None
      else read_chunks limit [] (wr_chunks r))"

definition capped_text :: "nat \<Rightarrow> web_reply \<Rightarrow> string option" where
  "capped_text limit r = Option.bind (capped_body limit r) (\<lambda>b. if utf8_valid b then Some b else None)"

definition meta_max_bytes :: nat where "meta_max_bytes = 256 * 1024"
definition avatar_max_bytes :: nat where "avatar_max_bytes = 2 * 1024 * 1024"

definition no_record :: "nat \<Rightarrow> bool" where
  "no_record status \<longleftrightarrow> status = 400 \<or> status = 404"

text \<open>\<open>get\<close> is the web: the reply to a GET of a URL, if there is one.\<close>

definition resolve_pds :: "'j json \<Rightarrow> (string \<Rightarrow> web_reply option) \<Rightarrow> string \<Rightarrow> string option" where
  "resolve_pds J get did =
     Option.bind (Option.bind (did_doc_url did) get) (\<lambda>r.
       if \<not> is_success (wr_status r) then None
       else Option.bind (capped_text meta_max_bytes r) (pds_from_doc J))"

definition blob_uri :: "(string \<Rightarrow> string) \<Rightarrow> (string \<Rightarrow> web_reply option) \<Rightarrow> string \<Rightarrow> string \<Rightarrow> string \<Rightarrow> string \<Rightarrow> string option" where
  "blob_uri base64 get pds did cid mime =
     Option.bind (get (pds @ ''/xrpc/com.atproto.sync.getBlob?did='' @ did @ ''&cid='' @ cid)) (\<lambda>r.
       if \<not> is_success (wr_status r) then None
       else map_option (\<lambda>bytes. ''data:'' @ mime @ '';base64,'' @ base64 bytes) (capped_body avatar_max_bytes r))"

definition read_profile :: "'j json \<Rightarrow> (string \<Rightarrow> string) \<Rightarrow> (string \<Rightarrow> web_reply option) \<Rightarrow> string \<Rightarrow> profile option" where
  "read_profile J base64 get did =
     Option.bind (resolve_pds J get did) (\<lambda>pds.
     Option.bind (get (pds @ ''/xrpc/com.atproto.repo.getRecord?repo='' @ did @ ''&collection=app.bsky.actor.profile&rkey=self'')) (\<lambda>r.
       if \<not> is_success (wr_status r)
       then (if no_record (wr_status r) then Some (no_profile\<lparr>pf_pds := Some pds\<rparr>) else None)
       else Option.bind (capped_text meta_max_bytes r) (\<lambda>body.
         case parse_profile J body of
           (name, blob) \<Rightarrow>
             Some \<lparr>pf_name = name,
                   pf_avatar = (case blob of Some (cid, mime) \<Rightarrow> blob_uri base64 get pds did cid mime | None \<Rightarrow> None),
                   pf_pds = Some pds\<rparr>)))"

section \<open>A profile is its account's\<close>

text \<open>The view's steps, in any order. A read ends with a profile only if \<open>genuine\<close> holds of it and its account: it is
  what that account's server answered.\<close>

inductive at_step :: "(string \<Rightarrow> profile \<Rightarrow> bool) \<Rightarrow> 'j json \<Rightarrow> at_view \<Rightarrow> at_view \<Rightarrow> bool" for genuine J where
  poll: "at_step genuine J v (poll_answered J now r v)"
| gone: "at_step genuine J v (at_unknown v)"
| read: "did \<in> set (av_reads v) \<Longrightarrow> (case p of Some p \<Rightarrow> genuine did p | None \<Rightarrow> True) \<Longrightarrow>
    at_step genuine J v (read_done now did p v)"
| claim: "login_claim handle v = (Inr h, v') \<Longrightarrow> at_step genuine J v (at_show (AtPending h) v')"
| over: "av_login v \<Longrightarrow> at_step genuine J v (login_over v)"


definition shown_ok :: "(string \<Rightarrow> profile \<Rightarrow> bool) \<Rightarrow> at_shown \<Rightarrow> bool" where
  "shown_ok genuine s = (case s of AtSession handle did p \<Rightarrow> p = no_profile \<or> genuine did p | _ \<Rightarrow> True)"

definition at_inv :: "(string \<Rightarrow> profile \<Rightarrow> bool) \<Rightarrow> at_view \<Rightarrow> bool" where
  "at_inv genuine v \<longleftrightarrow>
     shown_ok genuine (av_state v) \<and> list_all (shown_ok genuine) (av_events v) \<and>
     (case av_loaded v of Some (did, p) \<Rightarrow> genuine did p | None \<Rightarrow> True)"

lemma shown_ok_simps [simp]:
  "shown_ok genuine AtUnknown" "shown_ok genuine AtNone" "shown_ok genuine (AtPending h)"
  "shown_ok genuine (AtSession handle did p) \<longleftrightarrow> p = no_profile \<or> genuine did p"
  by (simp_all add: shown_ok_def)

lemma at_show_inv: "at_inv genuine v \<Longrightarrow> shown_ok genuine s \<Longrightarrow> at_inv genuine (at_show s v)"
  by (simp add: at_show_def at_inv_def)

lemma at_settle_inv: "at_inv genuine v \<Longrightarrow> at_inv genuine (at_settle b v)"
  by (auto simp: at_settle_def Let_def at_inv_def intro!: at_show_inv [unfolded at_inv_def] split: prod.split)

lemma at_settle_simps [simp]:
  "av_loaded (at_settle b v) = av_loaded v" "av_login (at_settle b v) = av_login v"
  by (simp_all add: at_settle_def Let_def at_show_def split: prod.split)

lemma parse_at_ok: "shown_ok genuine (parse_at J body)"
  by (simp add: parse_at_def split: option.split)

lemma fetch_at_ok: "fetch_at J r = Some s \<Longrightarrow> shown_ok genuine s"
  by (auto simp: fetch_at_def parse_at_ok split: daemon_reply.splits if_splits)

lemma dress_inv:
  assumes "at_inv genuine v" and "shown_ok genuine s" and "dress now s v = (s', v')"
  shows "at_inv genuine v' \<and> shown_ok genuine s'"
  using assms
  by (cases s) (auto simp: dress_def at_inv_def Let_def split: option.splits prod.splits if_splits)

lemma at_step_inv:
  assumes "at_step genuine J v v'" and "at_inv genuine v"
  shows "at_inv genuine v'"
  using assms(1)
proof (cases rule: at_step.cases)
  case (poll now r)
  show ?thesis
  proof (cases "fetch_at J r")
    case None
    with poll assms(2) show ?thesis by (simp add: poll_answered_def at_settle_inv)
  next
    case (Some s)
    obtain s1 v1 where d: "dress now s (at_settle True v) = (s1, v1)" by fastforce
    from dress_inv [OF at_settle_inv [OF assms(2)] fetch_at_ok [OF Some] d] Some d poll assms(2)
    show ?thesis by (simp add: poll_answered_def at_show_inv)
  qed
next
  case gone
  with assms(2) show ?thesis by (simp add: at_unknown_def at_settle_inv)
next
  case (read did p now)
  with assms(2) show ?thesis
    by (cases p) (auto simp: read_done_def Let_def dress_in_def at_inv_def at_show_def split: at_shown.split)
next
  case (claim handle h v1)
  then have "v1 = v\<lparr>av_login := True\<rparr>" by (auto simp: login_claim_def Let_def split: if_splits)
  with claim assms(2) show ?thesis by (simp add: at_show_def at_inv_def)
next
  case over
  with assms(2) show ?thesis by (simp add: login_over_def at_inv_def)
qed

text \<open>C27. Whatever the order of polls, sign-ins and reads that end late: the name, picture and server the panel
  shows or was ever told for an account are what was read for that account, or none.\<close>

theorem profile_belongs:
  assumes "(at_step genuine J)\<^sup>*\<^sup>* at_init v"
  shows "\<forall>s \<in> set (av_state v # av_events v).
    case s of AtSession handle did p \<Rightarrow> p = no_profile \<or> genuine did p | _ \<Rightarrow> True"
proof -
  have "at_inv genuine v"
    using assms by (induction rule: rtranclp_induct) (auto simp: at_inv_def at_init_def dest: at_step_inv)
  then show ?thesis by (auto simp: at_inv_def list_all_iff shown_ok_def split: at_shown.splits)
qed

section \<open>A quiet daemon\<close>

lemma at_settle_miss:
  "av_misses (at_settle False v) = min (Suc (av_misses v)) (2 ^ 32 - 1)"
  "av_state (at_settle False v) = (if av_misses v < 2 then av_state v else AtUnknown)"
  by (auto simp: at_settle_def tally_def misses_before_unknown_def Let_def at_show_def min_def)

lemma misses_in_a_row:
  assumes "\<not> av_login v" and "av_misses v = 0"
  shows "\<not> av_login ((at_unknown ^^ n) v) \<and> av_misses ((at_unknown ^^ n) v) = min n (2 ^ 32 - 1) \<and>
    av_state ((at_unknown ^^ n) v) = (if n < 3 then av_state v else AtUnknown)"
proof (induction n)
  case (Suc n)
  let ?u = "(at_unknown ^^ n) v"
  from Suc have u: "\<not> av_login ?u" "av_misses ?u = min n (2 ^ 32 - 1)" "av_state ?u = (if n < 3 then av_state v else AtUnknown)"
    by blast+
  then have "(at_unknown ^^ Suc n) v = at_settle False ?u" using at_unknown_def [of ?u] by simp
  with u at_settle_miss [of ?u] show ?case by (auto simp: min_def)
qed (use assms in simp)

text \<open>An account stays shown while the daemon is quiet for two ticks, and no longer than for three. One answer
  and the count begins anew; a sign-in under way is not disturbed.\<close>

theorem quiet_daemon:
  "(\<not> av_login v \<and> av_misses v = 0 \<longrightarrow>
      av_state ((at_unknown ^^ n) v) = (if n < 3 then av_state v else AtUnknown)) \<and>
   (av_login v \<longrightarrow> (at_unknown ^^ n) v = v) \<and>
   (\<not> av_login v \<and> fetch_at J r \<noteq> None \<longrightarrow> av_misses (poll_answered J now r v) = 0)"
proof -
  have "(at_unknown ^^ n) v = v" if "av_login v"
    using that by (induction n) (simp_all add: at_unknown_def)
  moreover have "av_misses (poll_answered J now r v) = 0" if login: "\<not> av_login v" and fetched: "fetch_at J r \<noteq> None"
  proof -
    obtain s where s: "fetch_at J r = Some s" using fetched by blast
    obtain next_state v1 where d: "dress now s (at_settle True v) = (next_state, v1)" by fastforce
    then have "av_misses v1 = av_misses (at_settle True v)"
      by (cases s) (auto simp: dress_def Let_def split: option.splits prod.splits if_splits)
    with s d login show ?thesis by (simp add: poll_answered_def at_settle_def tally_def at_show_def)
  qed
  ultimately show ?thesis using misses_in_a_row by blast
qed

theorem quiet_daemon_witness:
  "av_state ((at_unknown ^^ 3) (at_init\<lparr>av_state := AtSession ''h'' ''d'' no_profile\<rparr>)) = AtUnknown"
  using quiet_daemon [of "at_init\<lparr>av_state := AtSession ''h'' ''d'' no_profile\<rparr>" 3
      "\<lparr>js_parse = Some, js_get = (\<lambda>_ _. None), js_str = Some, js_bool = (\<lambda>_. None), js_nat = (\<lambda>_. None),
       js_int = (\<lambda>_. None), js_list = (\<lambda>_. None)\<rparr>" "NoReply ''''"]
  by (simp add: at_init_def)

definition demo_json :: "string json" where
  "demo_json = \<lparr>js_parse = Some, js_get = (\<lambda>_. Some), js_str = Some, js_bool = (\<lambda>_. None), js_nat = (\<lambda>_. None),
     js_int = (\<lambda>_. None), js_list = (\<lambda>_. None)\<rparr>"

theorem profile_belongs_witness:
  "\<exists>v p. (at_step (\<lambda>did p. pf_name p = Some did) demo_json)\<^sup>*\<^sup>* at_init v \<and> av_state v = AtSession ''d'' ''d'' p \<and>
     pf_name p = Some ''d''"
proof -
  let ?g = "\<lambda>did p. pf_name p = Some did"
  let ?p = "\<lparr>pf_name = Some ''d'', pf_avatar = None, pf_pds = None\<rparr> :: profile"
  let ?v1 = "poll_answered demo_json 0 (Reply 200 (Some ''d'')) at_init"
  let ?v2 = "read_done 1 ''d'' (Some ?p) ?v1"
  have "''d'' \<in> set (av_reads ?v1)" and shown: "av_state ?v2 = AtSession ''d'' ''d'' ?p"
    by (simp_all add: poll_answered_def at_init_def fetch_at_def is_success_def parse_at_def demo_json_def get_str_def
        at_settle_def tally_def at_show_def dress_def read_done_def dress_in_def no_profile_def)
  moreover have "at_step ?g demo_json at_init ?v1" by (rule at_step.poll)
  moreover have "at_step ?g demo_json ?v1 ?v2" by (rule at_step.read) (simp_all only: option.case profile.simps calculation)
  ultimately have "(at_step ?g demo_json)\<^sup>*\<^sup>* at_init ?v2"
    by (blast intro: rtranclp.rtrancl_into_rtrancl)
  with profile_belongs [OF this] shown show ?thesis by (force simp: no_profile_def)
qed

section \<open>Only the account's own servers are asked\<close>

text \<open>The characters that would end a URL's host or path.\<close>

definition url_marks :: "char set" where
  "url_marks = {CHR ''/'', CHR ''?'', CHR ''#'', CHR ''@'', CHR '' '', CHR ''%'', CHR 0x5C}"

lemma token_no_marks: "is_token s \<Longrightarrow> set s \<inter> url_marks = {}"
  by (force simp: is_token_def list_all_iff is_token_char_def url_marks_def)

text \<open>The address an account's document is read from is the directory's, with the identifier as the last part
  of the path, or on the host the identifier names: nothing in it, whatever the daemon sent, leads
  to another host, port or path, and it is never more than a fixed length.\<close>

theorem did_doc_url_safe:
  assumes "did_doc_url did = Some url"
  shows "(url = ''https://plc.directory/'' @ did \<or>
     (\<exists>host. did = ''did:web:'' @ host \<and> host \<noteq> [] \<and> CHR '':'' \<notin> set host \<and>
        url = ''https://'' @ host @ ''/.well-known/did.json'')) \<and>
    set did \<inter> url_marks = {} \<and> length url \<le> 300"
proof -
  from assms have tok: "is_token did" by (auto simp: did_doc_url_def split: if_splits)
  then have "length did \<le> 256" by (simp add: is_token_def)
  moreover note token_no_marks [OF tok]
  ultimately show ?thesis
    using assms tok by (auto simp: did_doc_url_def strip_prefix_Some split: if_splits option.splits)
qed

theorem did_doc_url_safe_witness:
  "did_doc_url ''did:plc:a'' = Some ''https://plc.directory/did:plc:a'' \<and> set ''did:plc:a'' \<inter> url_marks = {}"
proof -
  have run: "did_doc_url ''did:plc:a'' = Some ''https://plc.directory/did:plc:a''"
    by (simp add: did_doc_url_def is_token_def is_token_char_def starts_with_def)
  from did_doc_url_safe [OF run] run show ?thesis by blast
qed

lemma read_chunks_some:
  "read_chunks limit bytes cs = Some b \<Longrightarrow> length bytes \<le> limit \<Longrightarrow>
    length b \<le> limit \<and> b = bytes @ concat (map the cs) \<and> None \<notin> set cs"
  by (induction limit bytes cs rule: read_chunks.induct) (auto split: if_splits)

text \<open>A body is read whole or not at all, and never more of it is kept than the limit.\<close>

theorem capped_body_bounds:
  "capped_body limit r = Some b \<Longrightarrow> length b \<le> limit \<and> b = concat (map the (wr_chunks r)) \<and> None \<notin> set (wr_chunks r)"
  using read_chunks_some [of limit "[]" "wr_chunks r" b] by (auto simp: capped_body_def split: if_splits)

end
