(* ===== verification/Menubar.thy ===== *)
theory Menubar
  imports MenubarAccount "HOL-Library.Word"
begin

text \<open>
  The menubar app's view of the daemon (\<open>apps/menubar/src-tauri/src\<close>): the loop that watches it
  (\<open>daemon.rs\<close>), the switch of the inference server (\<open>inference.rs\<close>), the local account (\<open>account.rs\<close>),
  remote sharing (\<open>remote.rs\<close>), the sessions (\<open>sessions.rs\<close>), giving way to the daemon's own copy
  (\<open>lifeline.rs\<close>) and the data folder (\<open>paths.rs\<close>). Requests are split where they wait for an answer,
  so that what happens meanwhile comes in between. Times are milliseconds.
\<close>

section \<open>What the panel is told\<close>

text \<open>A state, and the changes of it that were emitted.\<close>

record 's ui_view =
  vw_state :: 's
  vw_events :: "'s list"

definition vw_init :: "'s \<Rightarrow> 's ui_view" where
  "vw_init s = \<lparr>vw_state = s, vw_events = []\<rparr>"

definition vw_set :: "'s \<Rightarrow> 's ui_view \<Rightarrow> 's ui_view" where
  "vw_set next v = (if vw_state v = next then v else \<lparr>vw_state = next, vw_events = vw_events v @ [next]\<rparr>)"



section \<open>The local account\<close>





section \<open>The sessions\<close>







section \<open>Remote sharing\<close>

datatype remote_shown = RemUnknown | RemOff | RemSharing string

record remote =
  rm_view :: "remote_shown ui_view"
  rm_flight :: bool

definition rm_set :: "remote_shown \<Rightarrow> remote \<Rightarrow> remote" where
  "rm_set s m = m\<lparr>rm_view := vw_set s (rm_view m)\<rparr>"

definition rm_state :: "remote \<Rightarrow> remote_shown" where
  "rm_state m = vw_state (rm_view m)"

definition parse_remote :: "'j json \<Rightarrow> string \<Rightarrow> remote_shown" where
  "parse_remote J body =
     (case js_parse J body of
        None \<Rightarrow> RemUnknown
      | Some payload \<Rightarrow>
          (case Option.bind (js_get J ''running'' payload) (js_bool J) of
             None \<Rightarrow> RemUnknown
           | Some False \<Rightarrow> RemOff
           | Some True \<Rightarrow>
               (case get_str J ''ticket'' payload of
                  Some ticket \<Rightarrow> if ticket \<noteq> [] then RemSharing ticket else RemUnknown
                | None \<Rightarrow> RemUnknown)))"

definition remote_reply :: "'j json \<Rightarrow> daemon_reply \<Rightarrow> remote_shown" where
  "remote_reply J r =
     (case r of
        NoReply _ \<Rightarrow> RemUnknown
      | Reply status body \<Rightarrow>
          if \<not> is_success status then RemUnknown
          else (case body of Some b \<Rightarrow> parse_remote J b | None \<Rightarrow> RemUnknown))"

text \<open>A poll is sent only if nothing is in flight; its answer is shown when it is there.\<close>

definition remote_poll_sends :: "remote \<Rightarrow> bool" where
  "remote_poll_sends m \<longleftrightarrow> \<not> rm_flight m"

definition remote_poll_answered :: "'j json \<Rightarrow> daemon_reply \<Rightarrow> remote \<Rightarrow> remote" where
  "remote_poll_answered J r m = rm_set (remote_reply J r) m"

text \<open>Asking for a share or an end of it: \<open>Some\<close> is an answer with no request.\<close>

definition remote_begin :: "bool \<Rightarrow> remote \<Rightarrow> (string + unit) option \<times> remote" where
  "remote_begin on m =
     (if \<not> on \<and> (case rm_state m of RemSharing _ \<Rightarrow> False | _ \<Rightarrow> True) then (Some (Inr ()), m)
      else if rm_flight m then (Some (Inl ''a share or unshare is already in flight''), m)
      else (None, m\<lparr>rm_flight := True\<rparr>))"

definition remote_path :: "bool \<Rightarrow> string" where
  "remote_path on = (if on then ''/remote-share'' else ''/remote-unshare'')"

definition remote_end :: "bool \<Rightarrow> daemon_reply \<Rightarrow> remote \<Rightarrow> (string + unit) \<times> remote" where
  "remote_end on r m =
     (let m = m\<lparr>rm_flight := False\<rparr> in
      case r of
        NoReply e \<Rightarrow> (Inl e, m)
      | Reply status body \<Rightarrow>
          if status = 409 then (Inr (), m)
          else if \<not> is_success status then (Inl (remote_path on @ '' answered '' @ show_nat status), m)
          else if \<not> on then (Inr (), rm_set RemOff m)
          else (case body of
                  None \<Rightarrow> (Inl ''the answer broke off'', m)
                | Some ticket \<Rightarrow>
                    if trim ticket = [] then (Inl ''the daemon shared without returning a ticket'', m)
                    else (Inr (), rm_set (RemSharing (trim ticket)) m)))"

section \<open>The inference switch\<close>

datatype power = PowUnknown | PowOff | PowStarting | PowOn

record llama_flags =
  ll_context_length :: "32 word option"
  ll_gpu_layers :: "32 word option"
  ll_offload_kqv :: "bool option"
  ll_batch_size :: "32 word option"
  ll_mtp :: "bool option"
  ll_n_cpu_moe :: "32 word option"
  ll_flash_attn :: "bool option"
  ll_load_mode :: "string option"

record inf_state =
  is_power :: power
  is_model :: "string option"
  is_llama :: "llama_flags option"

record inference =
  in_view :: "inf_state ui_view"
  in_since :: "nat option"
  in_desired :: "(bool \<times> nat) option"
  in_flight :: bool

definition in_init :: inference where
  "in_init = \<lparr>in_view = vw_init \<lparr>is_power = PowUnknown, is_model = None, is_llama = None\<rparr>, in_since = None,
     in_desired = None, in_flight = False\<rparr>"

definition in_state :: "inference \<Rightarrow> inf_state" where
  "in_state m = vw_state (in_view m)"

definition in_set :: "inf_state \<Rightarrow> inference \<Rightarrow> inference" where
  "in_set s m = m\<lparr>in_view := vw_set s (in_view m)\<rparr>"

definition set_power :: "power \<Rightarrow> inference \<Rightarrow> inference" where
  "set_power p m = in_set (in_state m\<lparr>is_power := p\<rparr>) m"

definition in_settle :: "power \<Rightarrow> inference \<Rightarrow> inference" where
  "in_settle p m = set_power p (m\<lparr>in_since := None\<rparr>)"


definition in_unknown :: "inference \<Rightarrow> inference" where
  "in_unknown m = in_settle PowUnknown (m\<lparr>in_desired := None\<rparr>)"

definition ready_timeout :: nat where "ready_timeout = 15000"
definition reconcile_timeout :: nat where "reconcile_timeout = 45000"

text \<open>A poll, up to the request for the configuration.\<close>

definition in_look :: "bool \<Rightarrow> nat \<Rightarrow> inference \<Rightarrow> power \<times> inference" where
  "in_look listening now m =
     (let pow = (if listening then PowOn
        else (case in_since m of Some at \<Rightarrow> if now - at < ready_timeout then PowStarting else PowOff | None \<Rightarrow> PowOff))
      in (pow, if pow \<noteq> PowStarting then m\<lparr>in_since := None\<rparr> else m))"




text \<open>The rest of it: what is shown, and whether what the user asked for is asked for again.\<close>

definition in_show :: "power \<Rightarrow> (string option \<times> llama_flags option) option \<Rightarrow> inference \<Rightarrow> inference" where
  "in_show pow config m =
     (case config of
        Some (model, llama) \<Rightarrow> in_set \<lparr>is_power = pow, is_model = model, is_llama = llama\<rparr> m
      | None \<Rightarrow> in_set \<lparr>is_power = pow, is_model = is_model (in_state m), is_llama = is_llama (in_state m)\<rparr> m)"

definition in_reconcile :: "power \<Rightarrow> nat \<Rightarrow> inference \<Rightarrow> bool option \<times> inference" where
  "in_reconcile pow now m =
     (case in_desired m of
        None \<Rightarrow> (None, m)
      | Some (on, asked_at) \<Rightarrow>
          if pow = PowStarting \<or> pow = PowUnknown then (None, m)
          else if (pow = PowOn) = on \<or> reconcile_timeout < now - asked_at then (None, m\<lparr>in_desired := None\<rparr>)
          else (Some on, m))"

text \<open>A request, before and after it waits for the answer.\<close>

definition in_begin :: "bool \<Rightarrow> nat \<Rightarrow> inference \<Rightarrow> (string + unit) \<times> inference" where
  "in_begin on now m =
     (if in_flight m then (Inl ''a start or stop is already in flight'', m)
      else (let m = m\<lparr>in_flight := True\<rparr> in
        (Inr (), if on then set_power PowStarting (m\<lparr>in_since := Some now\<rparr>) else m)))"

definition in_end :: "bool \<Rightarrow> string + unit \<Rightarrow> inference \<Rightarrow> inference" where
  "in_end on outcome m =
     (if on = is_ok outcome then m else in_settle PowOff m)\<lparr>in_flight := False\<rparr>"



section \<open>The watch\<close>









section \<open>Giving way, and the data folder\<close>

definition should_yield :: "bool \<Rightarrow> string list \<Rightarrow> bool" where
  "should_yield supervised args \<longleftrightarrow> \<not> supervised \<and> list_ex (\<lambda>a. a = ''--tiles-daemon-supervised'') args"

definition default_dir :: "string option \<Rightarrow> string option \<Rightarrow> string option" where
  "default_dir xdg home =
     map_option (\<lambda>base. base @ ''/tiles/data'')
       (case xdg of Some dir \<Rightarrow> Some dir | None \<Rightarrow> map_option (\<lambda>h. h @ ''/.local/share'') home)"

definition data_dir :: "'j json \<Rightarrow> string option \<Rightarrow> string option \<Rightarrow> daemon_reply \<Rightarrow> string + string" where
  "data_dir J xdg home r =
     (case r of
        NoReply e \<Rightarrow> Inl e
      | Reply status body \<Rightarrow>
          if \<not> is_success status then Inl (''/config answered '' @ show_nat status)
          else res_bind (ok_or ''the answer broke off'' body) (\<lambda>body.
          res_bind (ok_or ''/config is not json'' (js_parse J body)) (\<lambda>payload.
          let configured = (case Option.bind (js_get J ''data'' payload) (get_str J ''path'') of Some p \<Rightarrow> p | None \<Rightarrow> '''') in
          if configured = [] then ok_or ''no data directory to fall back to'' (default_dir xdg home) else Inr configured)))"

section \<open>A daemon that is gone\<close>

lemma in_set_simps [simp]:
  "in_since (in_set s m) = in_since m" "in_desired (in_set s m) = in_desired m" "in_flight (in_set s m) = in_flight m"
  "in_state (in_set s m) = s"
  by (simp_all add: in_set_def in_state_def vw_set_def)

lemma set_power_simps [simp]:
  "in_since (set_power p m) = in_since m" "in_desired (set_power p m) = in_desired m"
  "in_flight (set_power p m) = in_flight m" "is_power (in_state (set_power p m)) = p"
  by (simp_all add: set_power_def)

lemma in_state_update [simp]:
  "in_state (m\<lparr>in_since := s\<rparr>) = in_state m" "in_state (m\<lparr>in_desired := d\<rparr>) = in_state m"
  "in_state (m\<lparr>in_flight := f\<rparr>) = in_state m"
  by (simp_all add: in_state_def)






text \<open>How a view may go on: what was emitted is a row of changes, none of them repeated.\<close>

definition told :: "'s ui_view \<Rightarrow> 's ui_view \<Rightarrow> bool" where
  "told v v' \<longleftrightarrow> (\<exists>es. vw_events v' = vw_events v @ es \<and> distinct_adj (vw_state v # es) \<and>
     vw_state v' = last (vw_state v # es))"

lemma told_refl [simp]: "told v v"
  by (auto simp: told_def)















section \<open>One request at a time, and an end to every ask\<close>

text \<open>The switch with all that goes on at once: the clock, a poll that has looked and waits for the configuration
  (what it saw, and when), and the requests that are out.\<close>

record switch_world =
  sw_clock :: nat
  sw_inference :: inference
  sw_looked :: "(power \<times> nat) option"
  sw_requests :: "bool list"

definition sw_init :: switch_world where
  "sw_init = \<lparr>sw_clock = 0, sw_inference = in_init, sw_looked = None, sw_requests = []\<rparr>"

definition sw_send :: "bool \<Rightarrow> switch_world \<Rightarrow> switch_world" where
  "sw_send on s =
     (case in_begin on (sw_clock s) (sw_inference s) of
        (Inl _, m) \<Rightarrow> s\<lparr>sw_inference := m\<rparr>
      | (Inr _, m) \<Rightarrow> s\<lparr>sw_inference := m, sw_requests := on # sw_requests s\<rparr>)"

inductive sw_step :: "switch_world \<Rightarrow> switch_world \<Rightarrow> bool" where
  clock: "sw_clock s \<le> t \<Longrightarrow> sw_step s (s\<lparr>sw_clock := t\<rparr>)"
| look: "sw_looked s = None \<Longrightarrow> in_look listening (sw_clock s) (sw_inference s) = (pow, m) \<Longrightarrow>
    sw_step s (s\<lparr>sw_inference := m, sw_looked := Some (pow, sw_clock s)\<rparr>)"
| shown: "sw_looked s = Some (pow, at) \<Longrightarrow>
    in_reconcile pow (sw_clock s) (in_show pow config (sw_inference s)) = (again, m) \<Longrightarrow>
    s' = s\<lparr>sw_inference := m, sw_looked := None\<rparr> \<Longrightarrow>
    sw_step s (case again of None \<Rightarrow> s' | Some on \<Rightarrow> sw_send on s')"
| gone: "sw_looked s = None \<Longrightarrow> sw_step s (s\<lparr>sw_inference := in_unknown (sw_inference s)\<rparr>)"
| ask: "sw_step s (sw_send on (s\<lparr>sw_inference := (sw_inference s)\<lparr>in_desired := Some (on, sw_clock s)\<rparr>\<rparr>))"
| answer: "on \<in> set (sw_requests s) \<Longrightarrow>
    sw_step s (s\<lparr>sw_inference := in_end on outcome (sw_inference s), sw_requests := remove1 on (sw_requests s)\<rparr>)"

definition sw_inv :: "switch_world \<Rightarrow> bool" where
  "sw_inv s \<longleftrightarrow>
     length (sw_requests s) \<le> 1 \<and> (in_flight (sw_inference s) \<longleftrightarrow> sw_requests s \<noteq> []) \<and>
     (\<forall>since. in_since (sw_inference s) = Some since \<longrightarrow> since \<le> sw_clock s) \<and>
     (\<forall>on at. in_desired (sw_inference s) = Some (on, at) \<longrightarrow> at \<le> sw_clock s) \<and>
     (\<forall>since on at. in_since (sw_inference s) = Some since \<and> in_desired (sw_inference s) = Some (on, at) \<longrightarrow>
        since \<le> at + 45000) \<and>
     (\<forall>seen. sw_looked s = Some (PowStarting, seen) \<longrightarrow>
        (\<forall>on at. in_desired (sw_inference s) = Some (on, at) \<longrightarrow> seen < at + 60000)) \<and>
     (\<forall>p seen. sw_looked s = Some (p, seen) \<longrightarrow> seen \<le> sw_clock s \<and> p \<noteq> PowUnknown)"

lemma sw_inv_init: "sw_inv sw_init"
  by (simp add: sw_inv_def sw_init_def in_init_def)

lemma in_end_simps [simp]:
  "in_flight (in_end on r m) = False" "in_desired (in_end on r m) = in_desired m"
  "in_since (in_end on r m) = (if on = is_ok r then in_since m else None)"
  by (simp_all add: in_end_def in_settle_def)

lemma in_show_simps [simp]:
  "in_since (in_show p c m) = in_since m" "in_desired (in_show p c m) = in_desired m"
  "in_flight (in_show p c m) = in_flight m"
  by (simp_all add: in_show_def split: option.split)

lemma in_unknown_simps [simp]:
  "in_since (in_unknown m) = None" "in_desired (in_unknown m) = None" "in_flight (in_unknown m) = in_flight m"
  by (simp_all add: in_unknown_def in_settle_def)

lemma sw_send_inv:
  assumes "sw_inv s" and "\<And>on' at. in_desired (sw_inference s) = Some (on', at) \<Longrightarrow> sw_clock s \<le> at + 45000"
  shows "sw_inv (sw_send on s)"
  using assms
  by (auto simp: sw_inv_def sw_send_def in_begin_def Let_def)

lemma sw_step_inv:
  assumes "sw_step s s'" and "sw_inv s"
  shows "sw_inv s'"
  using assms(1)
proof cases
  case (clock t)
  with assms(2) show ?thesis by (auto simp: sw_inv_def intro: order_trans)
next
  case (look listening pow m)
  with assms(2) show ?thesis
    by (auto simp: sw_inv_def in_look_def Let_def ready_timeout_def split: if_splits option.splits)
next
  case (shown pow at config again m s1)
  have inv: "sw_inv s1"
    using assms(2) shown by (auto simp: sw_inv_def in_reconcile_def split: option.splits if_splits prod.splits)
  have "sw_clock s1 \<le> at' + 45000" if "again = Some on" "in_desired (sw_inference s1) = Some (on', at')" for on on' at'
    using shown that by (auto simp: in_reconcile_def reconcile_timeout_def split: option.splits if_splits prod.splits)
  with inv sw_send_inv [OF inv] shown(1) show ?thesis by (auto split: option.split)
next
  case gone
  with assms(2) show ?thesis by (simp add: sw_inv_def)
next
  case (ask on)
  let ?s = "s\<lparr>sw_inference := (sw_inference s)\<lparr>in_desired := Some (on, sw_clock s)\<rparr>\<rparr>"
  have "sw_inv ?s"
    using assms(2) by (auto simp: sw_inv_def le_less_trans trans_le_add1)
  then show ?thesis unfolding ask by (rule sw_send_inv) simp
next
  case (answer on outcome)
  with assms(2) have "sw_requests s = [on]" by (cases "sw_requests s") (auto simp: sw_inv_def)
  with answer assms(2) show ?thesis by (auto simp: sw_inv_def)
qed

lemma sw_reachable: "sw_step\<^sup>*\<^sup>* sw_init s \<Longrightarrow> sw_inv s"
  by (induction rule: rtranclp_induct) (auto simp: sw_inv_init dest: sw_step_inv)

text \<open>C29. However taps, polls, requests and answers come in between one another: at most one start or stop is out at
  a time. And what the user asked for is not asked again for ever: a poll that has looked at the server
  a minute after the tap, or later, leaves nothing asked for.\<close>

theorem switch_requests:
  assumes "sw_step\<^sup>*\<^sup>* sw_init s"
  shows "length (sw_requests s) \<le> 1 \<and> (in_flight (sw_inference s) \<longleftrightarrow> sw_requests s \<noteq> []) \<and>
    (\<forall>pow seen config again m on at. sw_looked s = Some (pow, seen) \<and>
       in_reconcile pow (sw_clock s) (in_show pow config (sw_inference s)) = (again, m) \<and>
       in_desired (sw_inference s) = Some (on, at) \<and> at + 60000 \<le> seen \<longrightarrow> again = None \<and> in_desired m = None)"
proof -
  have inv: "sw_inv s" using assms by (rule sw_reachable)
  have "again = None \<and> in_desired m = None"
    if "sw_looked s = Some (pow, seen)" "in_reconcile pow (sw_clock s) (in_show pow config (sw_inference s)) = (again, m)"
      "in_desired (sw_inference s) = Some (on, at)" "at + 60000 \<le> seen" for pow seen config again m on at
  proof -
    from that inv have "pow \<noteq> PowStarting" "pow \<noteq> PowUnknown" "seen \<le> sw_clock s"
      by (auto simp: sw_inv_def linorder_not_le [symmetric])
    with that show ?thesis by (auto simp: in_reconcile_def reconcile_timeout_def split: if_splits)
  qed
  moreover from inv have "length (sw_requests s) \<le> 1 \<and> (in_flight (sw_inference s) \<longleftrightarrow> sw_requests s \<noteq> [])"
    by (simp add: sw_inv_def)
  ultimately show ?thesis by blast
qed

theorem switch_requests_witness:
  "\<exists>s. sw_step\<^sup>*\<^sup>* sw_init s \<and> sw_requests s = [True] \<and> in_flight (sw_inference s)"
proof -
  let ?s = "sw_send True (sw_init\<lparr>sw_inference := (sw_inference sw_init)\<lparr>in_desired := Some (True, sw_clock sw_init)\<rparr>\<rparr>)"
  have reach: "sw_step\<^sup>*\<^sup>* sw_init ?s" by (intro r_into_rtranclp sw_step.ask)
  have out: "sw_requests ?s = [True]" by (simp add: sw_send_def sw_init_def in_init_def in_begin_def Let_def)
  from switch_requests [OF reach] out reach show ?thesis by (metis list.distinct(1))
qed

section \<open>Remote sharing\<close>

text \<open>A request to share or to end it owns the state only against polls that are sent after it: one that was
  sent before and is answered after shows the state from before. Until the next poll the panel shows a
  share as off, and a tap to end it does nothing.\<close>

theorem remote_stale_poll:
  "\<exists>m1 m2. remote_poll_sends m \<and> remote_begin True m = (None, m1) \<and> remote_end True (Reply 200 (Some ''ticket'')) m1 = (Inr (), m2) \<and>
     rm_state m2 = RemSharing ''ticket'' \<and>
     (remote_reply J r = RemOff \<longrightarrow>
        rm_state (remote_poll_answered J r m2) = RemOff \<and>
        remote_begin False (remote_poll_answered J r m2) = (Some (Inr ()), remote_poll_answered J r m2))"
  if "\<not> rm_flight m"
  using that
  by (simp add: remote_poll_sends_def remote_begin_def remote_end_def Let_def is_success_def rm_set_def rm_state_def
      vw_set_def remote_poll_answered_def trim_def trim_start_def trim_end_def is_space_def)

text \<open>What is shown as shared was answered by the daemon, and is never empty.\<close>

theorem remote_ticket:
  "(remote_end on r m = (res, m') \<and> rm_state m' = RemSharing t \<and> rm_state m \<noteq> RemSharing t \<longrightarrow>
      on \<and> t \<noteq> [] \<and> (\<exists>status body. r = Reply status (Some body) \<and> is_success status \<and> t = trim body)) \<and>
   (remote_reply J r = RemSharing t \<longrightarrow> t \<noteq> [])"
proof -
  have "t \<noteq> []" if "remote_reply J r = RemSharing t"
    using that
    by (auto simp: remote_reply_def parse_remote_def split: daemon_reply.splits if_splits option.splits bool.splits)
  then show ?thesis
    by (auto simp: remote_end_def Let_def rm_set_def rm_state_def vw_set_def
        split: daemon_reply.splits if_splits option.splits)
qed

end
