(* ===== verification/Panel.thy ===== *)
theory Panel
  imports Prelude
begin

text \<open>
  When the menubar app's panel is on screen (\<open>apps/menubar/src-tauri/src/panel.rs\<close>): the warm-up at launch, opening,
  closing with and without a fade, and the tap on the status item. Where it is and how large is not modelled.
  Times are milliseconds.
\<close>

datatype dismissal = Instant | Fade

text \<open>\<open>pa_visible\<close> and \<open>pa_opaque\<close> are the window's; \<open>pa_fades\<close> are the fades that have not ended, each with
  the number it had when it began.\<close>

record panel =
  pa_visible :: bool
  pa_opaque :: bool
  pa_highlighted :: bool
  pa_warming :: bool
  pa_last_hidden :: "nat option"
  pa_fade :: nat
  pa_fades :: "nat list"

definition panel_init :: panel where
  "panel_init =
     \<lparr>pa_visible = False, pa_opaque = True, pa_highlighted = False, pa_warming = False, pa_last_hidden = None,
      pa_fade = 0, pa_fades = []\<rparr>"

definition warm_up :: "panel \<Rightarrow> panel" where
  "warm_up p = p\<lparr>pa_warming := True, pa_opaque := False, pa_visible := True\<rparr>"

definition finish_warm_up :: "panel \<Rightarrow> bool \<times> panel" where
  "finish_warm_up p =
     (if \<not> pa_warming p then (False, p)
      else (True, p\<lparr>pa_warming := False, pa_visible := False, pa_opaque := True\<rparr>))"

definition show_panel :: "panel \<Rightarrow> panel" where
  "show_panel p =
     p\<lparr>pa_warming := False, pa_fade := pa_fade p + 1, pa_opaque := True, pa_visible := True, pa_highlighted := True\<rparr>"

definition dismiss :: "dismissal \<Rightarrow> nat \<Rightarrow> panel \<Rightarrow> panel" where
  "dismiss mode now p =
     (let p = p\<lparr>pa_highlighted := False\<rparr> in
      if \<not> pa_visible p then p
      else (let p = p\<lparr>pa_last_hidden := Some now, pa_fade := pa_fade p + 1\<rparr> in
        if mode = Instant then p\<lparr>pa_visible := False, pa_opaque := True\<rparr>
        else p\<lparr>pa_opaque := False, pa_fades := pa_fade p # pa_fades p\<rparr>))"

definition fade_over :: "nat \<Rightarrow> panel \<Rightarrow> panel" where
  "fade_over generation p =
     (let p = p\<lparr>pa_fades := remove1 generation (pa_fades p)\<rparr> in
      if pa_fade p \<noteq> generation then p else p\<lparr>pa_visible := False, pa_opaque := True\<rparr>)"

definition reopen_guard :: nat where "reopen_guard = 200"

definition toggle :: "nat \<Rightarrow> panel \<Rightarrow> panel" where
  "toggle now p =
     (if (case pa_last_hidden p of Some at \<Rightarrow> now - at < reopen_guard | None \<Rightarrow> False) then p
      else if pa_visible p \<and> \<not> pa_warming p then dismiss Fade now p
      else show_panel p)"

section \<open>What is open stays open\<close>

text \<open>The launch comes first; after that come taps, dismissals, ends of fades and ends of the warm-up (the frontend's
  first frame, or the time-out) in any order. The flag is if the user has the panel open: the last
  that opened or closed it was an opening.\<close>

inductive panel_run :: "panel \<Rightarrow> bool \<Rightarrow> bool" where
  launch: "panel_run (warm_up panel_init) False"
| tap: "panel_run p open \<Longrightarrow> panel_run (toggle now p)
    (if toggle now p = p then open else pa_highlighted (toggle now p))"
| opened: "panel_run p open \<Longrightarrow> panel_run (show_panel p) True"
| dismiss: "panel_run p open \<Longrightarrow> panel_run (dismiss mode now p) False"
| fade_over: "panel_run p open \<Longrightarrow> g \<in> set (pa_fades p) \<Longrightarrow> panel_run (fade_over g p) open"
| warm: "panel_run p open \<Longrightarrow> panel_run (snd (finish_warm_up p)) open"

definition panel_inv :: "panel \<Rightarrow> bool \<Rightarrow> bool" where
  "panel_inv p open \<longleftrightarrow>
     (\<forall>g \<in> set (pa_fades p). 0 < g \<and> g \<le> pa_fade p) \<and>
     (open \<longrightarrow> pa_visible p \<and> pa_opaque p \<and> pa_highlighted p \<and> \<not> pa_warming p \<and> pa_fade p \<notin> set (pa_fades p)) \<and>
     (\<not> open \<longrightarrow> \<not> pa_highlighted p)"

lemma show_panel_inv: "panel_inv p open \<Longrightarrow> panel_inv (show_panel p) True"
  by (force simp: panel_inv_def show_panel_def)

lemma dismiss_inv: "panel_inv p open \<Longrightarrow> panel_inv (dismiss mode now p) False"
  by (force simp: panel_inv_def dismiss_def Let_def)

lemma toggle_cases:
  obtains "toggle now p = p" | "toggle now p = dismiss Fade now p" | "toggle now p = show_panel p"
  unfolding toggle_def by meson

lemma panel_run_inv: "panel_run p open \<Longrightarrow> panel_inv p open"
proof (induction rule: panel_run.induct)
  case launch
  show ?case by (simp add: panel_inv_def panel_init_def warm_up_def)
next
  case (tap p "open" now)
  show ?case
  proof (cases "toggle now p = p")
    case False
    then consider "toggle now p = dismiss Fade now p" | "toggle now p = show_panel p"
      using toggle_cases [of now p] by blast
    then show ?thesis
    proof cases
      case 1
      have "\<not> pa_highlighted (dismiss Fade now p)" by (simp add: dismiss_def Let_def)
      with 1 False dismiss_inv [OF tap.IH, of Fade now] show ?thesis by simp
    next
      case 2
      have "pa_highlighted (show_panel p)" by (simp add: show_panel_def)
      with 2 False show_panel_inv [OF tap.IH] show ?thesis by simp
    qed
  qed (use tap in simp)
next
  case (opened p "open")
  then show ?case by (rule_tac show_panel_inv)
next
  case (dismiss p "open" mode now)
  then show ?case by (rule_tac dismiss_inv)
next
  case (fade_over p "open" g)
  have "set (remove1 g (pa_fades p)) \<subseteq> set (pa_fades p)" by (rule set_remove1_subset)
  with fade_over show ?case by (fastforce simp: panel_inv_def fade_over_def Let_def)
next
  case (warm p "open")
  then show ?case by (auto simp: panel_inv_def finish_warm_up_def)
qed

text \<open>A panel the user has opened is on screen and opaque, with the status item lit, until it is closed: neither a
  fade that began before it was opened nor the end of the warm-up hides it. And a tap that comes with
  the loss of focus it causes does not open the panel it has just closed.\<close>

theorem open_stays_open:
  assumes "panel_run p is_open"
  shows "(is_open \<longrightarrow> pa_visible p \<and> pa_opaque p \<and> pa_highlighted p \<and>
      (\<forall>g \<in> set (pa_fades p). pa_visible (fade_over g p) \<and> pa_opaque (fade_over g p)) \<and>
      finish_warm_up p = (False, p)) \<and>
    (\<not> is_open \<longrightarrow> \<not> pa_highlighted p) \<and>
    (pa_visible p \<and> now' < now + 200 \<longrightarrow> toggle now' (dismiss mode now p) = dismiss mode now p)"
proof -
  have inv: "panel_inv p is_open" using assms by (rule panel_run_inv)
  have "pa_visible (fade_over g p) \<and> pa_opaque (fade_over g p)" if is_open "g \<in> set (pa_fades p)" for g
    using inv that by (auto simp: panel_inv_def fade_over_def Let_def)
  moreover have "toggle now' (dismiss mode now p) = dismiss mode now p" if "pa_visible p" "now' < now + 200"
    using that by (simp add: toggle_def dismiss_def Let_def reopen_guard_def less_diff_conv2)
  ultimately show ?thesis using inv by (auto simp: panel_inv_def finish_warm_up_def)
qed

theorem open_stays_open_witness:
  "\<exists>p. panel_run p True \<and> pa_fades p = [2] \<and> pa_visible (fade_over 2 p) \<and> pa_opaque (fade_over 2 p)"
proof -
  let ?p = "show_panel (dismiss Fade 0 (show_panel (warm_up panel_init)))"
  have reach: "panel_run ?p True"
    by (rule panel_run.opened, rule panel_run.dismiss, rule panel_run.opened, rule panel_run.launch)
  have "pa_fades ?p = [2]"
    by (simp add: show_panel_def dismiss_def Let_def warm_up_def panel_init_def)
  with open_stays_open [OF reach, of 0 0 Fade] reach show ?thesis by auto
qed

end
