(* ===== verification/Commands.thy ===== *)
theory Commands
  imports Config Lifecycle Atproto
begin

text \<open>
  The command line (\<open>tiles/src/commands/mod.rs\<close> and the start in \<open>main.rs\<close>): the first run, the account
  commands, updating (\<open>utils/installer.rs\<close>) and removing Tiles, and the plugins of the agent
  (\<open>core/plugin.rs\<close>). What the user types is a sequence of lines, the n-th read gets the n-th; at the
  end of the input a read gets the empty line, again and again. Programs and the network are arguments.
\<close>

section \<open>The first run\<close>

type_synonym typed = "nat \<Rightarrow> string + string"

text \<open>With the number of the line to read next.\<close>

partial_function (option) read_required_nickname :: "typed \<Rightarrow> nat \<Rightarrow> (string + string \<times> nat) option" where
  "read_required_nickname input n =
     (case input n of
        Inl e \<Rightarrow> Some (Inl e)
      | Inr line \<Rightarrow>
          if trim line = [] then read_required_nickname input (Suc n)
          else Some (Inr (trim line, Suc n)))"

text \<open>\<open>set_path\<close> is setting the folder, at the n-th line.\<close>

partial_function (option) choose_data_dir ::
  "typed \<Rightarrow> (nat \<Rightarrow> string \<Rightarrow> string + string) \<Rightarrow> string \<Rightarrow> nat \<Rightarrow> (string + string) option" where
  "choose_data_dir input set_path standard n =
     (case input n of
        Inl e \<Rightarrow> Some (Inl e)
      | Inr line \<Rightarrow>
          (let choice = to_lowercase (trim line) in
           if choice = [] \<or> choice = ''n''
           then Some (case set_path n standard of
                        Inr _ \<Rightarrow> Inr standard
                      | Inl _ \<Rightarrow> Inl ''Error setting default user data path'')
           else if choice = ''y''
           then (case input (Suc n) of
                   Inl e \<Rightarrow> Some (Inl e)
                 | Inr line \<Rightarrow>
                     if trim line = [] then choose_data_dir input set_path standard (Suc (Suc n))
                     else (case set_path (Suc n) (trim line) of
                             Inr _ \<Rightarrow> Some (Inr (trim line))
                           | Inl _ \<Rightarrow> choose_data_dir input set_path standard (Suc (Suc n))))
           else choose_data_dir input set_path standard (Suc n)))"

text \<open>The account that is made: its nickname comes from the user, its identifier from the new key pair.\<close>

definition setup_root_account ::
  "(acct_error + string) \<Rightarrow> string \<Rightarrow> toml_table \<Rightarrow> acct_error + root_user \<times> toml_table" where
  "setup_root_account create_identity nickname config =
     res_bind (create_root_account create_identity config (Some nickname)) (\<lambda>t.
     res_bind (root_user_new t) (\<lambda>ru.
     Inr (ru, save_root_account config (root_user_to_table ru))))"

text \<open>The result has the configuration; \<open>None\<close> is a setup that never ends.\<close>

definition run_setup_for_ftue ::
  "typed \<Rightarrow> (acct_error + string) \<Rightarrow> (nat \<Rightarrow> string \<Rightarrow> string + string) \<Rightarrow> string + string \<Rightarrow> toml_table
     \<Rightarrow> ((acct_error + string) \<times> toml_table) option" where
  "run_setup_for_ftue input create_identity set_path user_data_dir config =
     (case get_root_user_details config of
        Inl e \<Rightarrow> Some (Inl e, config)
      | Inr ru \<Rightarrow>
          if ru_id ru \<noteq> [] then Some (map_err Msg user_data_dir, config)
          else (case read_required_nickname input 0 of
                  None \<Rightarrow> None
                | Some (Inl e) \<Rightarrow> Some (Inl (Msg e), config)
                | Some (Inr (nickname, n)) \<Rightarrow>
                    (case setup_root_account create_identity nickname config of
                       Inl e \<Rightarrow> Some (Inl e, config)
                     | Inr (ru, config) \<Rightarrow>
                         (case user_data_dir of
                            Inl e \<Rightarrow> Some (Inl (Msg e), config)
                          | Inr standard \<Rightarrow>
                              map_option (\<lambda>r. (map_err Msg r, config)) (choose_data_dir input set_path standard n)))))"

section \<open>The account commands\<close>

datatype account_command = AccountCreate "string option" | AccountSetNickname string | AccountShow

definition account_not_created :: string where
  "account_not_created = ''Local Identity not created yet, use tiles account create''"

text \<open>The text that is shown, and the configuration.\<close>

definition run_account_command ::
  "(acct_error + string) \<Rightarrow> account_command \<Rightarrow> toml_table \<Rightarrow> (acct_error + string) \<times> toml_table" where
  "run_account_command create_identity command config =
     (case get_root_user_details config of
        Inl e \<Rightarrow> (Inl e, config)
      | Inr ru \<Rightarrow>
          (case command of
             AccountCreate nickname \<Rightarrow>
               if ru_id ru \<noteq> [] then (Inr (''Local Identity exists with id: '' @ ru_id ru), config)
               else (case res_bind (create_root_account create_identity config nickname) root_user_new of
                       Inl e \<Rightarrow> (Inl e, config)
                     | Inr new \<Rightarrow>
                         (Inr (''Local Identity has been created with id: '' @ ru_id new),
                          save_root_account config (root_user_to_table new)))
           | AccountSetNickname nickname \<Rightarrow>
               if ru_id ru = [] then (Inr account_not_created, config)
               else (case set_nickname config nickname of
                       Inl e \<Rightarrow> (Inr (''Failed to set nickname due to '' @ show_acct_error e), config)
                     | Inr t \<Rightarrow>
                         (Inr (''Nickname '' @ (case Option.bind (t ''nickname'') as_str of Some n \<Rightarrow> n | None \<Rightarrow> '''') @
                               '' has been set for ID: '' @ (case Option.bind (t ''id'') as_str of Some i \<Rightarrow> i | None \<Rightarrow> '''')),
                          save_root_account config t))
           | AccountShow \<Rightarrow>
               (Inr (if ru_id ru = [] then account_not_created
                     else ''id: '' @ ru_id ru @ [CHR 0x0A] @ ''nickname: '' @ ru_nickname ru @ [CHR 0x0A]), config)))"

section \<open>Updating\<close>

record update_info =
  up_can :: bool
  up_latest :: string
  up_current :: string

definition get_latest_version :: "(string \<Rightarrow> string + string) \<Rightarrow> (string \<Rightarrow> string) \<Rightarrow> http_answer \<Rightarrow> string + string" where
  "get_latest_version tag_of show_status answer =
     (case answer of
        HttpTimeout \<Rightarrow> Inl ''Request failed due to Api timedout''
      | HttpError e \<Rightarrow> Inl (''Request failed due to '' @ e)
      | HttpStatus status body \<Rightarrow>
          if status = 200 then tag_of body else Inl (''Api failed with status '' @ show_status (show_nat status)))"

text \<open>Versions: how they are read, shown, and if one comes after another.\<close>

record 'v versions =
  vs_parse :: "string \<Rightarrow> string + 'v"
  vs_show :: "'v \<Rightarrow> string"
  vs_after :: "'v \<Rightarrow> 'v \<Rightarrow> bool"

definition get_update_info :: "'v versions \<Rightarrow> string \<Rightarrow> string + string \<Rightarrow> string + update_info" where
  "get_update_info V package latest =
     res_bind latest (\<lambda>tag.
     res_bind (vs_parse V tag) (\<lambda>req.
     res_bind (map_err (\<lambda>e. ''Failed to parse pkg version due to '' @ e) (vs_parse V package)) (\<lambda>current.
     Inr \<lparr>up_can = vs_after V req current, up_latest = vs_show V req, up_current = vs_show V current\<rparr>)))"

text \<open>The script as \<open>curl\<close> hands it on, with whether \<open>curl\<close> came to its end, which is not looked at; and
  the shell, with \<open>sudo\<close> or not, on a script and its arguments.\<close>

record update_run =
  ur_script :: "string + string \<times> bool"
  ur_shell :: "bool \<Rightarrow> string \<Rightarrow> path \<Rightarrow> path \<Rightarrow> string + bool"

definition try_update ::
  "files \<Rightarrow> path \<Rightarrow> path \<Rightarrow> path \<Rightarrow> (path \<Rightarrow> bool) \<Rightarrow> update_run \<Rightarrow> string + update_info \<Rightarrow> string + string" where
  "try_update fs exe user_bin user_lib writable run info =
     res_bind info (\<lambda>info.
       if \<not> up_can info then Inr (''You are up to date, current version: '' @ up_current info)
       else res_bind (resolve_update_layout fs exe user_bin user_lib) (\<lambda>l.
            res_bind (resolve_update_elevation l writable) (\<lambda>sudo.
            res_bind (ur_script run) (\<lambda>(script, complete).
            res_bind (ur_shell run sudo script (ul_install_dir l) (ul_lib_dir l)) (\<lambda>success.
            Inr (if success then ''Tiles updated to '' @ up_latest info else ''Tiles failed to update''))))))"

text \<open>The question at the start. The first component is if the update is run.\<close>

definition try_app_update :: "bool \<Rightarrow> string + update_info \<Rightarrow> string + string \<Rightarrow> (update_info \<Rightarrow> string + string) \<Rightarrow> bool \<times> (string + unit)" where
  "try_app_update debug info answer update =
     (if debug then (False, Inr ())
      else (case info of
              Inl e \<Rightarrow> (False, Inl e)
            | Inr info \<Rightarrow>
                if \<not> up_can info then (False, Inr ())
                else (case answer of
                        Inl e \<Rightarrow> (False, Inl e)
                      | Inr line \<Rightarrow>
                          if to_lowercase (trim line) = ''y''
                          then (True, map_err (\<lambda>e. e) (res_bind (update info) (\<lambda>_. Inr ())))
                          else (False, Inr ()))))"

section \<open>Removing Tiles\<close>

definition uninstall_tiles ::
  "bool \<Rightarrow> server_failure + loaded_model option \<Rightarrow> string + string \<Rightarrow> string + unit \<Rightarrow> computer \<Rightarrow> uninstall_run \<Rightarrow> files
     \<Rightarrow> (string + unit) \<times> files" where
  "uninstall_tiles everything inference daemon stop pc run fs =
     (if is_ok inference
      then (Inl ''Inference server is still running. Stop it with `tiles server stop` and try again.'', fs)
      else if is_ok daemon \<and> \<not> is_ok stop then (Inl ''Failed to stop Tiles daemon before uninstall'', fs)
      else uninstall everything pc run fs)"

section \<open>The start\<close>

datatype start_step = SetUp | AskedToUpdate | DaemonStarted | AccountSaved | ReplRun

text \<open>The steps of a start with and without a command, and how it ends. The daemon may fail to start but not panic,
  and an update may fail; all else ends the start.\<close>

definition start_tiles ::
  "bool \<Rightarrow> bool \<Rightarrow> string + unit \<Rightarrow> daemon_error + unit \<Rightarrow> string + unit \<Rightarrow> string + unit
     \<Rightarrow> start_step list \<times> (string + unit)" where
  "start_tiles bare no_repl setup daemon account repl =
     (case setup of
        Inl e \<Rightarrow> ([SetUp], Inl e)
      | Inr _ \<Rightarrow>
          (let steps = SetUp # (if bare then [AskedToUpdate] else []) @ [DaemonStarted] in
           case daemon of
             Inl (Panicked e) \<Rightarrow> (steps, Inl e)
           | _ \<Rightarrow>
               (case account of
                  Inl e \<Rightarrow> (steps @ [AccountSaved], Inl e)
                | Inr _ \<Rightarrow>
                    if bare \<and> no_repl then (steps @ [AccountSaved], Inr ())
                    else (steps @ [AccountSaved, ReplRun], repl))))"

section \<open>Plugins\<close>

datatype tree_entry = EntryFile | EntryDir | EntryLink

text \<open>The entries of a folder to copy, from the outside in, by their paths in it.\<close>

fun copy_recursive :: "(path \<times> tree_entry) list \<Rightarrow> path \<Rightarrow> files \<Rightarrow> (string + unit) \<times> files" where
  "copy_recursive [] dest fs = (Inr (), fs)"
| "copy_recursive ((p, e) # es) dest fs =
     (case e of
        EntryLink \<Rightarrow> (Inl ''Refusing to copy symlink entry'', fs)
      | EntryDir \<Rightarrow>
          if path_exists fs (dest @ p) \<and> \<not> is_dir fs (dest @ p) then (Inl ''the input/output operation failed'', fs)
          else copy_recursive es dest (if path_exists fs (dest @ p) then fs else fs @ [(dest @ p, DirNode)])
      | EntryFile \<Rightarrow>
          if is_dir fs (dest @ p) then (Inl ''the input/output operation failed'', fs)
          else copy_recursive es dest (if path_exists fs (dest @ p) then fs else fs @ [(dest @ p, FileNode)]))"

definition is_valid_file_by_extension :: "string \<Rightarrow> bool" where
  "is_valid_file_by_extension f \<longleftrightarrow> ends_with f ''.zip'' \<or> ends_with f ''.tar.gz''"

definition plugin_name_of :: "string \<Rightarrow> string" where
  "plugin_name_of file = hd (split_on (CHR ''.'') file)"

definition skills_dir :: "path \<Rightarrow> path" where
  "skills_dir user_data = user_data @ [''pi'', ''agent'', ''skills'']"

text \<open>\<open>unpacked\<close> is what the archive has, by paths in the folder it is unpacked in, or the text of the
  program that failed to unpack it. The messages leave out the paths they quote, and of the folders that
  \<open>create_dir_all\<close> makes the model has the innermost.\<close>

definition install_from_local ::
  "bool \<Rightarrow> string \<Rightarrow> path \<Rightarrow> string + (path \<times> tree_entry) list \<Rightarrow> files \<Rightarrow> (string + string) \<times> files" where
  "install_from_local there file user_data unpacked fs =
     (if \<not> there \<or> \<not> is_valid_file_by_extension file
      then (Inl ''not a valid local path. Please check if file exists and has valid extensions (.tar.gz, .zip)'', fs)
      else (let name = plugin_name_of file;
                top = (if name = [] then [''skills''] else [name, ''skills'']);
                dir = skills_dir user_data;
                fs = (if path_exists fs dir then fs else fs @ [(dir, DirNode)]) in
        case unpacked of
          Inl e \<Rightarrow> (Inl e, fs)
        | Inr es \<Rightarrow>
            if (top, EntryDir) \<in> set es
            then (case copy_recursive
                     (map (\<lambda>(p, e). (drop (length top) p, e)) (filter (\<lambda>(p, e). p \<noteq> top \<and> take (length top) p = top) es))
                     dir fs of
                    (Inl e, fs) \<Rightarrow> (Inl e, fs)
                  | (Inr _, fs) \<Rightarrow> (Inr (''Successfully installed plugin '' @ name), fs))
            else (Inr ''Skills not found in this plugin'', fs)))"

text \<open>\<open>url\<close> is the path of the address as its last segment, where it has one, and \<open>None\<close> for what is no address.
  \<open>downloaded\<close> is if the server sent it.\<close>

definition install_plugin ::
  "string option option \<Rightarrow> string + unit \<Rightarrow> bool \<Rightarrow> string \<Rightarrow> path \<Rightarrow> string + (path \<times> tree_entry) list \<Rightarrow> files
     \<Rightarrow> (string + string) \<times> files" where
  "install_plugin url downloaded there file user_data unpacked fs =
     (case url of
        None \<Rightarrow> install_from_local there file user_data unpacked fs
      | Some segment \<Rightarrow>
          (case segment of
             None \<Rightarrow> (Inl ''Invalid plugin url, url should end with a .zip or tar.gz filename'', fs)
           | Some filename \<Rightarrow>
               if filename = [] \<or> \<not> is_valid_file_by_extension filename
               then (Inl ''Invalid plugin url, url should end with a .zip or tar.gz filename'', fs)
               else (case downloaded of
                       Inl e \<Rightarrow> (Inl (''Failed to download the plugin due to '' @ e), fs)
                     | Inr _ \<Rightarrow> install_from_local True filename user_data unpacked fs)))"

definition plugin_exist :: "string \<Rightarrow> path \<Rightarrow> files \<Rightarrow> bool" where
  "plugin_exist name dir fs \<longleftrightarrow> list_ex (\<lambda>p. file_name p = Some name) (read_dir fs dir)"

definition uninstall_plugin :: "string \<Rightarrow> path \<Rightarrow> files \<Rightarrow> (string + string) \<times> files" where
  "uninstall_plugin name user_data fs =
     (let dir = skills_dir user_data in
      if plugin_exist name dir fs \<and> is_dir fs (dir @ [name])
      then (Inr (''Uninstalled plugin '' @ name @ '' successfully''),
            filter (\<lambda>(p, _). take (Suc (length dir)) p \<noteq> dir @ [name]) fs)
      else (Inl (''Failed to uninstall plugin '' @ name @ '', please check the plugin name is correct and try again''), fs))"

definition list_plugins :: "path \<Rightarrow> files \<Rightarrow> string list" where
  "list_plugins user_data fs = filter_map file_name (read_dir fs (skills_dir user_data))"

section \<open>The first run's questions\<close>

lemma read_required_nickname_some:
  assumes "read_required_nickname input n = Some r"
  shows "\<exists>k \<ge> n. (\<forall>j. n \<le> j \<and> j < k \<longrightarrow> (\<exists>line. input j = Inr line \<and> trim line = [])) \<and>
      (case input k of Inl e \<Rightarrow> r = Inl e | Inr line \<Rightarrow> trim line \<noteq> [] \<and> r = Inr (trim line, Suc k))"
proof (rule read_required_nickname.raw_induct [OF _ assms])
  fix again :: "typed \<Rightarrow> nat \<Rightarrow> (string + string \<times> nat) option" and input :: typed and n r
  let ?asked = "\<lambda>input n r. \<exists>k \<ge> n. (\<forall>j. n \<le> j \<and> j < k \<longrightarrow> (\<exists>line. input j = Inr line \<and> trim line = [])) \<and>
      (case input k of Inl e \<Rightarrow> r = Inl e | Inr line \<Rightarrow> trim line \<noteq> [] \<and> r = Inr (trim line, Suc k))"
  assume 1: "\<And>input n r. again input n = Some r \<Longrightarrow> ?asked input n r"
    "(case input n of Inl e \<Rightarrow> Some (Inl e)
      | Inr line \<Rightarrow> if trim line = [] then again input (Suc n) else Some (Inr (trim line, Suc n))) = Some r"
  show "?asked input n r"
  proof (cases "\<exists>line. input n = Inr line \<and> trim line = []")
    case True
    with 1(2) have "again input (Suc n) = Some r" by auto
    from 1(1) [OF this] show ?thesis
    proof (elim exE conjE)
      fix k
      assume k: "Suc n \<le> k" "\<forall>j. Suc n \<le> j \<and> j < k \<longrightarrow> (\<exists>line. input j = Inr line \<and> trim line = [])"
        "case input k of Inl e \<Rightarrow> r = Inl e | Inr line \<Rightarrow> trim line \<noteq> [] \<and> r = Inr (trim line, Suc k)"
      have "\<exists>line. input j = Inr line \<and> trim line = []" if "n \<le> j" "j < k" for j
        using k(2) True that by (cases "j = n") auto
      with k(1,3) show ?thesis by (intro exI [of _ k]) auto
    qed
  next
    case False
    with 1(2) show ?thesis by (intro exI [of _ n]) (auto split: sum.splits if_splits)
  qed
qed

lemma read_required_nickname_at:
  assumes "n \<le> k" and "\<forall>j. n \<le> j \<and> j < k \<longrightarrow> (\<exists>line. input j = Inr line \<and> trim line = [])"
    and "case input k of Inl e \<Rightarrow> r = Inl e | Inr line \<Rightarrow> trim line \<noteq> [] \<and> r = Inr (trim line, Suc k)"
  shows "read_required_nickname input n = Some r"
  using assms
proof (induction "k - n" arbitrary: n)
  case 0
  then have "k = n" by simp
  with 0 show ?case by (auto simp: read_required_nickname.simps [of input n] split: sum.splits)
next
  case (Suc d)
  then obtain line where "input n = Inr line" "trim line = []" by (metis diff_is_0_eq' nat.simps(3) not_le order_refl)
  moreover from Suc have "read_required_nickname input (Suc n) = Some r" by (intro Suc.hyps(1)) auto
  ultimately show ?case by (simp add: read_required_nickname.simps [of input n])
qed

text \<open>The question for a nickname ends with the first line that isn't blank, and with that; it ends at all only
  if there is one or a read fails. At the end of the input, where every read gives an empty line, it is
  asked for ever.\<close>

theorem nickname_asked:
  "(read_required_nickname input 0 = Some r \<longleftrightarrow>
     (\<exists>k. (\<forall>j < k. \<exists>line. input j = Inr line \<and> trim line = []) \<and>
       (case input k of Inl e \<Rightarrow> r = Inl e | Inr line \<Rightarrow> trim line \<noteq> [] \<and> r = Inr (trim line, Suc k)))) \<and>
   read_required_nickname (\<lambda>_. Inr '''') 0 = None"
proof
  show "read_required_nickname input 0 = Some r \<longleftrightarrow>
     (\<exists>k. (\<forall>j < k. \<exists>line. input j = Inr line \<and> trim line = []) \<and>
       (case input k of Inl e \<Rightarrow> r = Inl e | Inr line \<Rightarrow> trim line \<noteq> [] \<and> r = Inr (trim line, Suc k)))"
    using read_required_nickname_some [of input 0 r] read_required_nickname_at [of 0 _ input r] by blast
  show "read_required_nickname (\<lambda>_. Inr '''') 0 = None"
  proof (rule ccontr)
    assume "read_required_nickname (\<lambda>_. Inr '''') 0 \<noteq> None"
    then obtain r where "read_required_nickname (\<lambda>_. Inr '''') 0 = Some r" by blast
    from read_required_nickname_some [OF this] show False by (simp add: trim_def trim_start_def trim_end_def)
  qed
qed

text \<open>The question for the data folder ends at the latest at the end of the input: an empty line is the answer no.\<close>

theorem data_dir_asked:
  assumes "\<forall>j \<ge> n + k. input j = Inr ''''"
  shows "choose_data_dir input set_path standard n \<noteq> None"
  using assms
proof (induction k arbitrary: n rule: less_induct)
  case (less k)
  have blank: "trim '''' = []" "to_lowercase [] = []" by (simp_all add: trim_def trim_start_def trim_end_def to_lowercase_def)
  have later: "choose_data_dir input set_path standard (Suc n) \<noteq> None" if "k \<noteq> 0"
    using less.IH [of "k - 1" "Suc n"] less.prems that by simp
  have later2: "choose_data_dir input set_path standard (Suc (Suc n)) \<noteq> None" if "k \<noteq> 0"
  proof (cases "k = 1")
    case True
    with less.prems have "input (Suc (Suc n)) = Inr ''''" by simp
    with blank show ?thesis by (simp add: choose_data_dir.simps [of input set_path standard "Suc (Suc n)"])
  next
    case False
    then show ?thesis using less.IH [of "k - 2" "Suc (Suc n)"] less.prems that by simp
  qed
  show ?case
  proof (cases "k = 0")
    case True
    with less.prems have "input n = Inr ''''" by simp
    with blank show ?thesis by (simp add: choose_data_dir.simps [of input set_path standard n])
  next
    case False
    with later later2 show ?thesis
      by (auto simp: choose_data_dir.simps [of input set_path standard n] Let_def split: sum.splits)
  qed
qed

section \<open>The identity is made once\<close>

definition account_commands :: "(acct_error + string) list \<Rightarrow> account_command list \<Rightarrow> toml_table \<Rightarrow> toml_table" where
  "account_commands ids cs config = fold (\<lambda>(i, c) config. snd (run_account_command i c config)) (zip ids cs) config"

lemma account_command_keeps_id:
  assumes "get_root_user_details config = Inr ru" and "ru_id ru \<noteq> []"
  shows "\<exists>ru'. get_root_user_details (snd (run_account_command i c config)) = Inr ru' \<and> ru_id ru' = ru_id ru \<and>
    ru_nickname ru' = (case c of AccountSetNickname n \<Rightarrow> n | _ \<Rightarrow> ru_nickname ru)"
  using assms
  by (cases c) (auto simp: run_account_command_def get_root_user_details_def set_nickname_def save_root_account_def
      root_user_new_def res_bind_eq_Inr split: sum.splits)

text \<open>Once the configuration has an identity no account command makes another or loses it: whatever the commands,
  the identifier stays, and the nickname is the one that was set last.\<close>

theorem identity_is_kept:
  assumes "get_root_user_details config = Inr ru" and "ru_id ru \<noteq> []" and "length ids = length cs"
  shows "\<exists>ru'. get_root_user_details (account_commands ids cs config) = Inr ru' \<and> ru_id ru' = ru_id ru \<and>
    ru_nickname ru' = fold (\<lambda>c nick. case c of AccountSetNickname n \<Rightarrow> n | _ \<Rightarrow> nick) cs (ru_nickname ru)"
  using assms(3,1,2)
proof (induction ids cs arbitrary: config ru rule: list_induct2)
  case (Cons i ids c cs)
  from account_command_keeps_id [OF Cons.prems, of i c] obtain ru1 where
    "get_root_user_details (snd (run_account_command i c config)) = Inr ru1" "ru_id ru1 = ru_id ru"
    "ru_nickname ru1 = (case c of AccountSetNickname n \<Rightarrow> n | _ \<Rightarrow> ru_nickname ru)" by blast
  with Cons.IH [of "snd (run_account_command i c config)" ru1] Cons.prems(2) show ?case
    by (simp add: account_commands_def)
qed (simp add: account_commands_def)

text \<open>The nickname that is set is the configuration's. The users' table, from which other devices and peers get it,
  has the one from the first start for good.\<close>

theorem nickname_not_in_db:
  assumes "query_one u_root (users db) = Inr root" and "get_root_user_details config = Inr ru" and "ru_id ru \<noteq> []"
  shows "save_root_account_db (get_root_user_details (snd (run_account_command i (AccountSetNickname n) config))) uuid now db
    = Inr db"
  using account_command_keeps_id [OF assms(2,3), of i "AccountSetNickname n"] assms(1)
  by (auto simp: save_root_account_db_def)

definition demo_config :: toml_table where
  "demo_config = [''root-user'' \<mapsto> TTable (root_user_to_table \<lparr>ru_id = ''did:key:a'', ru_nickname = ''ann''\<rparr>)]"

lemma demo_config_user: "get_root_user_details demo_config = Inr \<lparr>ru_id = ''did:key:a'', ru_nickname = ''ann''\<rparr>"
  by (simp add: demo_config_def get_root_user_details_def root_user_new_def root_user_to_table_def)

theorem identity_is_kept_witness:
  "\<exists>ru'. get_root_user_details (account_commands [Inr ''did:key:b'', Inr ''did:key:b''] [AccountCreate None, AccountSetNickname ''bo''] demo_config)
     = Inr ru' \<and> ru_id ru' = ''did:key:a'' \<and> ru_nickname ru' = ''bo''"
  using identity_is_kept [OF demo_config_user, of "[Inr ''did:key:b'', Inr ''did:key:b'']" "[AccountCreate None, AccountSetNickname ''bo'']"]
  by simp

theorem nickname_asked_witness:
  "read_required_nickname (\<lambda>n. Inr (if n = 0 then '' '' else ''ann'')) 0 = Some (Inr (''ann'', 2))"
proof -
  let ?input = "\<lambda>n :: nat. Inr (if n = 0 then '' '' else ''ann'') :: string + string"
  have "(\<forall>j < 1. \<exists>line. ?input j = Inr line \<and> trim line = []) \<and>
      (case ?input 1 of Inl e \<Rightarrow> Inr (''ann'', 2) = Inl e
       | Inr line \<Rightarrow> trim line \<noteq> [] \<and> Inr (''ann'', 2) = (Inr (trim line, Suc 1) :: string + string \<times> nat))"
    by (simp add: trim_def trim_start_def trim_end_def is_space_def numeral_2_eq_2)
  with nickname_asked [of ?input "Inr (''ann'', 2)"] show ?thesis by blast
qed

section \<open>A start without a daemon\<close>

text \<open>The chat is reached whatever becomes of the daemon, as long as starting it doesn't panic, which
  \<open>launch_daemon\<close> does when the program can't be run.\<close>

lemma chat_without_daemon:
  "ReplRun \<in> set (fst (start_tiles bare no_repl setup daemon account repl)) \<longleftrightarrow>
     is_ok setup \<and> (\<forall>e. daemon \<noteq> Inl (Panicked e)) \<and> is_ok account \<and> \<not> (bare \<and> no_repl)"
  by (auto simp: start_tiles_def Let_def split: sum.splits daemon_error.splits)

lemma launch_panics:
  assumes "\<not> dw_service D" and "dw_logs D = Inr ()" and "dw_spawn D = Inl e"
  shows "launch_daemon D port = (Inl (Panicked (''Failed to start daemon: '' @ e)), [])"
  using assms by (simp add: launch_daemon_def)

section \<open>What an update asks for\<close>

text \<open>An update is run only for a newer version, and from the question at the start only after a \<open>y\<close>: an empty
  line, which the question's \<open>(Y/n)\<close> makes look like a yes, is a no.\<close>

theorem update_only_when_asked:
  assumes "fst (try_app_update debug info answer update)"
  shows "\<not> debug \<and> (\<exists>i line. info = Inr i \<and> up_can i \<and> answer = Inr line \<and> to_lowercase (trim line) = ''y'')"
  using assms by (auto simp: try_app_update_def split: sum.splits if_splits)

text \<open>A download that fails leaves the shell an empty script, which succeeds: the update reports the new version
  with nothing installed.\<close>

theorem failed_download_is_success:
  assumes "up_can i" and "resolve_update_layout fs exe user_bin user_lib = Inr l"
    and "resolve_update_elevation l writable = Inr sudo" and "ur_script run = Inr ('''', False)"
    and "\<And>a b c. ur_shell run a '''' b c = Inr True"
  shows "try_update fs exe user_bin user_lib writable run (Inr i) = Inr (''Tiles updated to '' @ up_latest i)"
  using assms by (simp add: try_update_def)

section \<open>Nothing is removed under a running server\<close>

text \<open>Removing Tiles changes no file while the inference server answers or a daemon that answers can't be
  stopped.\<close>

theorem uninstall_waits:
  assumes "uninstall_tiles everything inference daemon stop pc run fs = (r, fs')" and "fs' \<noteq> fs"
  shows "\<not> is_ok inference \<and> (is_ok daemon \<longrightarrow> is_ok stop) \<and> uninstall everything pc run fs = (r, fs')"
  using assms by (auto simp: uninstall_tiles_def split: if_splits)

section \<open>Plugins\<close>

lemma copy_recursive_keeps:
  "copy_recursive es dest fs = (r, fs') \<Longrightarrow> \<exists>new. fs' = fs @ new \<and> (\<forall>(p, _) \<in> set new. \<exists>q. p = dest @ q)"
proof (induction es dest fs arbitrary: fs' r rule: copy_recursive.induct)
  case (2 p e es dest fs)
  show ?case
  proof (cases "copy_recursive ((p, e) # es) dest fs = (r, fs) \<and> fs' = fs")
    case False
    define fs1 where "fs1 = (if path_exists fs (dest @ p) then fs
        else fs @ [(dest @ p, if e = EntryDir then DirNode else FileNode)])"
    with False 2 have "copy_recursive es dest fs1 = (r, fs')" and "e \<noteq> EntryLink"
      by (auto split: tree_entry.splits if_splits)
    moreover from this 2 have "\<exists>new. fs' = fs1 @ new \<and> (\<forall>(p, _) \<in> set new. \<exists>q. p = dest @ q)"
      using False by (cases e) (auto simp: fs1_def split: if_splits)
    ultimately show ?thesis by (auto simp: fs1_def split: if_splits)
  qed auto
qed auto

text \<open>A plugin's files are added to the skills folder and nowhere else, and no path that is there is removed,
  whatever the archive holds; removing a plugin takes away the folder of that name in the skills
  folder with what is in it, and nothing else, whatever the name.\<close>

theorem plugins_stay_inside:
  "(install_from_local there file user_data unpacked fs = (r, fs') \<longrightarrow>
      (\<exists>new. fs' = fs @ new \<and> (\<forall>(p, _) \<in> set new. \<exists>q. p = skills_dir user_data @ q))) \<and>
   (uninstall_plugin name user_data fs = (r2, fs2) \<longrightarrow>
      (\<forall>(p, n) \<in> set fs. (p, n) \<notin> set fs2 \<longrightarrow> (\<exists>q. p = skills_dir user_data @ name # q)) \<and> set fs2 \<subseteq> set fs)"
proof (intro conjI impI)
  assume run: "install_from_local there file user_data unpacked fs = (r, fs')"
  let ?fs = "if path_exists fs (skills_dir user_data) then fs else fs @ [(skills_dir user_data, DirNode)]"
  have "\<exists>new. fs' = ?fs @ new \<and> (\<forall>(p, _) \<in> set new. \<exists>q. p = skills_dir user_data @ q) \<or> fs' = fs"
    using run by (fastforce simp: install_from_local_def Let_def dest: copy_recursive_keeps split: if_splits sum.splits prod.splits)
  then show "\<exists>new. fs' = fs @ new \<and> (\<forall>(p, _) \<in> set new. \<exists>q. p = skills_dir user_data @ q)"
    by (auto split: if_splits)
next
  assume run: "uninstall_plugin name user_data fs = (r2, fs2)"
  let ?dir = "skills_dir user_data"
  show "\<forall>(p, n) \<in> set fs. (p, n) \<notin> set fs2 \<longrightarrow> (\<exists>q. p = ?dir @ name # q)"
  proof clarify
    fix p n
    assume "(p, n) \<in> set fs" "(p, n) \<notin> set fs2"
    with run have "take (Suc (length ?dir)) p = ?dir @ [name]"
      by (auto simp: uninstall_plugin_def Let_def split: if_splits)
    then have "p = (?dir @ [name]) @ drop (Suc (length ?dir)) p" by (metis append_take_drop_id)
    then show "\<exists>q. p = ?dir @ name # q" by (metis append.assoc append_Cons append_Nil)
  qed
  show "set fs2 \<subseteq> set fs" using run by (auto simp: uninstall_plugin_def Let_def split: if_splits)
qed

text \<open>What a plugin puts into the skills folder are its skills, under their own names; a plugin can be removed by its
  name only if one of them is called like it.\<close>

theorem plugin_not_found:
  "\<exists>fs. install_from_local True ''tools.zip'' [] (Inr [([''tools''], EntryDir), ([''tools'', ''skills''], EntryDir),
      ([''tools'', ''skills'', ''search''], EntryDir)]) [] = (Inr ''Successfully installed plugin tools'', fs) \<and>
    list_plugins [] fs = [''search''] \<and> (\<exists>e. uninstall_plugin ''tools'' [] fs = (Inl e, fs))"
  by (simp add: install_from_local_def is_valid_file_by_extension_def plugin_name_of_def skills_dir_def path_exists_def
      is_dir_def uninstall_plugin_def plugin_exist_def read_dir_def parent_def file_name_def list_plugins_def Let_def
      ends_with_def starts_with_def)

theorem plugins_stay_inside_witness:
  "\<exists>fs new. install_from_local True ''tools.zip'' [''u''] (Inr [([''tools''], EntryDir), ([''tools'', ''skills''], EntryDir),
      ([''tools'', ''skills'', ''search''], EntryDir)]) [([''u''], DirNode)] = (Inr ''Successfully installed plugin tools'', fs) \<and>
    fs = ([''u''], DirNode) # new \<and> (\<forall>(p, _) \<in> set new. \<exists>q. p = skills_dir [''u''] @ q)"
proof -
  let ?es = "Inr [([''tools''], EntryDir), ([''tools'', ''skills''], EntryDir), ([''tools'', ''skills'', ''search''], EntryDir)]
    :: string + (path \<times> tree_entry) list"
  obtain fs where run: "install_from_local True ''tools.zip'' [''u''] ?es [([''u''], DirNode)] =
      (Inr ''Successfully installed plugin tools'', fs)"
    by (simp add: install_from_local_def is_valid_file_by_extension_def plugin_name_of_def skills_dir_def path_exists_def
        is_dir_def Let_def ends_with_def starts_with_def)
  with plugins_stay_inside [of True "''tools.zip''" "[''u'']" ?es "[([''u''], DirNode)]" _ fs "''x''" "Inl ''''" "[]"]
  show ?thesis by auto
qed

end
