(* ===== verification/Routes.thy ===== *)
theory Routes
  imports Models
begin

text \<open>
  The routes of the daemon's two ports: the tables of \<open>router\<close>, \<open>tilekit_router\<close> and the routers they merge
  (\<open>tiles/src/daemon/mod.rs\<close> and the files beside it), the layers around them, and the web UI's port
  (\<open>daemon/web.rs\<close>). Matching a path is the framework's documented rule: a segment in braces stands for
  one that isn't empty, a GET handler answers HEAD. Handlers are an argument, by the names of \<open>endpoint\<close>.
\<close>

section \<open>The tables\<close>

datatype endpoint =
    ApiRoot | ApiConfig | ApiShutdown | ApiModelCachePath | ApiRemoteShare | ApiRemoteUnshare | ApiRemoteStatus
  | ApiConnectRemote | ApiAgentStart | ApiAgentEndSession | ApiAgentState | ApiAgentPrompt
  | ApiServerStart | ApiServerStop | ApiServerPing | ApiAccountStatus | ApiAccountCreate
  | ApiSessionNew | ApiSessionList | ApiSessionChat | ApiSessionChats | ApiAtLogin | ApiAtLogout | ApiAtStatus
  | ApiModelStatus | ApiModelDownloads | ApiModelEvents | ApiModelProgress | ApiModelStart | ApiModelPause
  | ApiModelSelect | ApiModelDelete | ApiEngineStatus | ApiEngineSelect | ApiEngineProgress | ApiEngineStart
  | ApiEnginePause | ApiEngineDelete | ApiCreateToken | ApiAddToken | ApiTokenInfo | ApiListLinkedDevices
  | ApiRevokeToken | ApiUpdatePeer | ApiStartNetwork | ApiStopNetwork | ApiNetworkStatus | ApiLinkDevice
  | ApiSyncWithDevice | ApiUiState

type_synonym route = "string \<times> (http_method \<times> endpoint) list"

definition agent_router :: "route list" where
  "agent_router =
     [(''/v1/tilekit/agent/start'', [(POST, ApiAgentStart)]),
      (''/v1/tilekit/agent/end_session'', [(POST, ApiAgentEndSession)]),
      (''/v1/tilekit/agent/state'', [(GET, ApiAgentState)]),
      (''/v1/tilekit/agent/prompt'', [(POST, ApiAgentPrompt)])]"

definition server_router :: "route list" where
  "server_router =
     [(''/v1/tilekit/server/start'', [(POST, ApiServerStart)]),
      (''/v1/tilekit/server/stop'', [(POST, ApiServerStop)]),
      (''/v1/tilekit/server/ping'', [(GET, ApiServerPing)])]"

definition account_router :: "route list" where
  "account_router =
     [(''/v1/tilekit/account/status'', [(GET, ApiAccountStatus)]),
      (''/v1/tilekit/account/create'', [(POST, ApiAccountCreate)])]"

definition session_router :: "route list" where
  "session_router =
     [(''/v1/tilekit/session/new'', [(POST, ApiSessionNew)]),
      (''/v1/tilekit/session/list'', [(GET, ApiSessionList)]),
      (''/v1/tilekit/session/chat'', [(POST, ApiSessionChat)]),
      (''/v1/tilekit/session/{session_id}/chats'', [(GET, ApiSessionChats)])]"

definition atproto_router :: "route list" where
  "atproto_router =
     [(''/v1/tilekit/atproto/login'', [(POST, ApiAtLogin)]),
      (''/v1/tilekit/atproto/logout'', [(POST, ApiAtLogout)]),
      (''/v1/tilekit/atproto/status'', [(GET, ApiAtStatus)])]"

definition model_router :: "route list" where
  "model_router =
     [(''/v1/tilekit/model/status'', [(GET, ApiModelStatus)]),
      (''/v1/tilekit/model/downloads'', [(GET, ApiModelDownloads)]),
      (''/v1/tilekit/model/events'', [(GET, ApiModelEvents)]),
      (''/v1/tilekit/model/download'', [(GET, ApiModelProgress), (POST, ApiModelStart)]),
      (''/v1/tilekit/model/download/pause'', [(POST, ApiModelPause)]),
      (''/v1/tilekit/model/select'', [(POST, ApiModelSelect)]),
      (''/v1/tilekit/model/delete'', [(POST, ApiModelDelete)])]"

definition engine_router :: "route list" where
  "engine_router =
     [(''/v1/tilekit/engine/status'', [(GET, ApiEngineStatus)]),
      (''/v1/tilekit/engine/select'', [(POST, ApiEngineSelect)]),
      (''/v1/tilekit/engine/download'', [(GET, ApiEngineProgress), (POST, ApiEngineStart)]),
      (''/v1/tilekit/engine/download/pause'', [(POST, ApiEnginePause)]),
      (''/v1/tilekit/engine/delete'', [(POST, ApiEngineDelete)])]"

definition authz_router :: "route list" where
  "authz_router =
     [(''/v1/tilekit/authz/create-token'', [(POST, ApiCreateToken)]),
      (''/v1/tilekit/authz/add-token'', [(POST, ApiAddToken)]),
      (''/v1/tilekit/authz/token-info'', [(POST, ApiTokenInfo)]),
      (''/v1/tilekit/peers/list-linked-devices'', [(POST, ApiListLinkedDevices)]),
      (''/v1/tilekit/peers/revoke'', [(POST, ApiRevokeToken)]),
      (''/v1/tilekit/peers/update-peer'', [(POST, ApiUpdatePeer)])]"

definition network_router :: "route list" where
  "network_router =
     [(''/v1/tilekit/net/start-network'', [(POST, ApiStartNetwork)]),
      (''/v1/tilekit/net/stop-network'', [(POST, ApiStopNetwork)]),
      (''/v1/tilekit/net/status'', [(POST, ApiNetworkStatus)]),
      (''/v1/tilekit/net/link-device'', [(POST, ApiLinkDevice)]),
      (''/v1/tilekit/net/sync-with-device'', [(POST, ApiSyncWithDevice)])]"

definition tilekit_router :: "route list" where
  "tilekit_router =
     agent_router @ server_router @ account_router @ session_router @ atproto_router @ model_router @
     engine_router @ authz_router @ network_router @ [(''/v1/tilekit/ui'', [(GET, ApiUiState)])]"

definition api_router :: "route list" where
  "api_router =
     [(''/'', [(GET, ApiRoot)]),
      (''/config'', [(GET, ApiConfig)]),
      (''/shutdown'', [(POST, ApiShutdown)]),
      (''/model-cache-path'', [(GET, ApiModelCachePath)]),
      (''/remote-share'', [(POST, ApiRemoteShare)]),
      (''/remote-unshare'', [(POST, ApiRemoteUnshare)]),
      (''/remote-status'', [(GET, ApiRemoteStatus)]),
      (''/connect-remote'', [(POST, ApiConnectRemote)])] @ tilekit_router"

section \<open>Which handler a request gets\<close>

definition segments :: "string \<Rightarrow> string list" where
  "segments path = split_on (CHR ''/'') path"

definition is_param :: "string \<Rightarrow> bool" where
  "is_param p = starts_with p ''{''"

fun path_matches :: "string list \<Rightarrow> string list \<Rightarrow> bool" where
  "path_matches [] [] = True"
| "path_matches (p # ps) (s # ss) = ((if is_param p then s \<noteq> [] else p = s) \<and> path_matches ps ss)"
| "path_matches _ _ = False"

definition route_of :: "route list \<Rightarrow> string \<Rightarrow> (http_method \<times> endpoint) list option" where
  "route_of routes path = map_option snd (find (\<lambda>(p, _). path_matches (segments p) (segments path)) routes)"

definition answering :: "(http_method \<times> endpoint) list \<Rightarrow> http_method \<Rightarrow> endpoint option" where
  "answering methods m = map_of methods (if m = OtherMethod ''HEAD'' then GET else m)"

definition method_name :: "http_method \<Rightarrow> string" where
  "method_name m = (case m of GET \<Rightarrow> ''GET'' | POST \<Rightarrow> ''POST'' | OtherMethod s \<Rightarrow> s)"

definition no_route :: "string \<Rightarrow> app_error" where
  "no_route path = NotFound (''No route for '' @ path)"

definition wrong_method :: "http_method \<Rightarrow> string \<Rightarrow> app_error" where
  "wrong_method m path = MethodNotAllowed (method_name m @ '' is not allowed on '' @ path)"

text \<open>The content type is asked of a request that has a handler, so a wrong path or method is told first.\<close>

definition dispatch ::
  "route list \<Rightarrow> (string \<Rightarrow> request \<Rightarrow> 'a) \<Rightarrow> (app_error + 'r \<Rightarrow> 'a) \<Rightarrow> (endpoint \<Rightarrow> request \<Rightarrow> app_error + 'r)
     \<Rightarrow> string \<Rightarrow> request \<Rightarrow> 'a" where
  "dispatch routes fallback answer run path rq =
     (case route_of routes path of
        None \<Rightarrow> fallback path rq
      | Some methods \<Rightarrow>
          answer (case answering methods (rq_method rq) of
                    None \<Rightarrow> Inl (wrong_method (rq_method rq) path)
                  | Some e \<Rightarrow> require_json (run e) rq))"

section \<open>The API's port\<close>

text \<open>What a page of another origin may read and send: the answer to a preflight, and the header on every answer.\<close>

definition cors_origins :: "string list" where
  "cors_origins = [''tauri://localhost'', ''http://tauri.localhost'', ''http://localhost:5173'', ''http://127.0.0.1:5173'']"

definition allow_origin :: "string option \<Rightarrow> string option" where
  "allow_origin origin = (case origin of Some orig \<Rightarrow> if orig \<in> set cors_origins then Some orig else None | None \<Rightarrow> None)"

definition cors_headers :: "string list" where
  "cors_headers = [''content-type'']"

datatype 'r api_answer = Preflight "string option" | Answered "string option" "app_error + 'r"

definition serve_api ::
  "(string \<Rightarrow> string option) \<Rightarrow> (endpoint \<Rightarrow> request \<Rightarrow> app_error + 'r) \<Rightarrow> string option \<Rightarrow> string \<Rightarrow> request
     \<Rightarrow> 'r api_answer" where
  "serve_api parse_authority run origin path rq =
     (if \<not> is_local_host parse_authority rq
      then Answered None (Inl (Forbidden ''The Tiles daemon only answers requests made to localhost''))
      else if rq_method rq = OtherMethod ''OPTIONS'' then Preflight (allow_origin origin)
      else Answered (allow_origin origin)
             (dispatch api_router (\<lambda>path _. Inl (no_route path)) id run path rq))"

section \<open>The web UI's port\<close>

text \<open>It serves the API's routes but for those of the root, and files: every path that isn't below \<open>/v1/\<close>.\<close>

datatype 'r web_answer = FromApi "app_error + 'r" | FileRequest http_method string

definition serve_web ::
  "(string \<Rightarrow> string option) \<Rightarrow> (endpoint \<Rightarrow> request \<Rightarrow> app_error + 'r) \<Rightarrow> string \<Rightarrow> request \<Rightarrow> app_error + 'r web_answer" where
  "serve_web parse_authority run path rq =
     require_local_host parse_authority (\<lambda>rq. Inr
       (dispatch tilekit_router
          (\<lambda>path rq. if starts_with path ''/v1/'' \<and> path \<noteq> ''/v1/'' then FromApi (Inl (no_route path))
                     else FileRequest (rq_method rq) path)
          FromApi run path rq)) rq"

section \<open>No route hides another\<close>

text \<open>Two patterns a path could match both.\<close>

fun overlap :: "string list \<Rightarrow> string list \<Rightarrow> bool" where
  "overlap [] [] = True"
| "overlap (p # ps) (q # qs) = ((is_param p \<or> is_param q \<or> p = q) \<and> overlap ps qs)"
| "overlap _ _ = False"

lemma overlapI: "path_matches ps ss \<Longrightarrow> path_matches qs ss \<Longrightarrow> overlap ps qs"
proof (induction ps ss arbitrary: qs rule: path_matches.induct)
  case (2 p ps s ss)
  then show ?case by (cases qs) (auto split: if_splits)
qed (auto elim: path_matches.elims)

fun no_overlap :: "string list list \<Rightarrow> bool" where
  "no_overlap [] = True"
| "no_overlap (p # ps) = (list_all (\<lambda>q. \<not> overlap p q) ps \<and> no_overlap ps)"

lemma api_router_no_overlap: "no_overlap (map (segments \<circ> fst) api_router)"
  by code_simp

lemma no_overlap_append: "no_overlap (ps @ qs) \<Longrightarrow> no_overlap qs"
  by (induction ps) auto

lemma no_overlap_unique:
  assumes "no_overlap (map (segments \<circ> fst) rs)"
    and "path_matches (segments p) ss" "(p, ms) \<in> set rs" and "path_matches (segments q) ss" "(q, ns) \<in> set rs"
  shows "(p, ms) = (q, ns)"
  using assms
proof (induction rs)
  case (Cons r rs)
  have other: "\<not> (path_matches (segments (fst r)) ss \<and> path_matches (segments (fst x)) ss)" if "x \<in> set rs" for x
    using Cons.prems(1) that overlapI [of "segments (fst r)" ss "segments (fst x)"] by (auto simp: list_all_iff)
  show ?case
  proof (cases "(p, ms) = r \<or> (q, ns) = r")
    case True
    with Cons.prems other [of "(p, ms)"] other [of "(q, ns)"] show ?thesis by auto
  next
    case False
    with Cons.prems Cons.IH show ?thesis by simp
  qed
qed simp

lemma route_of_eq:
  assumes "no_overlap (map (segments \<circ> fst) rs)" and "(p, ms) \<in> set rs" and "path_matches (segments p) (segments path)"
  shows "route_of rs path = Some ms"
proof -
  obtain q ns where q: "find (\<lambda>(p, _). path_matches (segments p) (segments path)) rs = Some (q, ns)"
    using assms(2,3) by (cases "find (\<lambda>(p, _). path_matches (segments p) (segments path)) rs") (auto simp: find_None_iff)
  then have "(q, ns) \<in> set rs" "path_matches (segments q) (segments path)" by (auto simp: find_Some_iff in_set_conv_nth)
  then have "ns = ms" using no_overlap_unique [OF assms(1,3,2)] by blast
  with q show ?thesis by (simp add: route_of_def)
qed

lemma route_of_Some:
  assumes "route_of rs path = Some ms"
  obtains p where "(p, ms) \<in> set rs" "path_matches (segments p) (segments path)"
  using assms by (auto simp: route_of_def find_Some_iff in_set_conv_nth) blast

lemma tilekit_router_no_overlap: "no_overlap (map (segments \<circ> fst) tilekit_router)"
  using api_router_no_overlap no_overlap_append [of "map (segments \<circ> fst) (take 8 api_router)"]
  by (simp add: api_router_def)

section \<open>Who may change what\<close>

text \<open>The handlers that answer GET: they tell a state or follow events. What one of them can change is
  that closing what follows a download pauses it, which \<open>follow_guard\<close> of the theory \<open>Models\<close> is for.\<close>

definition open_endpoints :: "endpoint list" where
  "open_endpoints =
     [ApiRoot, ApiConfig, ApiModelCachePath, ApiRemoteStatus, ApiAgentState, ApiServerPing, ApiAccountStatus,
      ApiSessionList, ApiSessionChats, ApiAtStatus, ApiModelStatus, ApiModelDownloads, ApiModelEvents,
      ApiModelProgress, ApiEngineStatus, ApiEngineProgress, ApiUiState]"

text \<open>The handler a request reaches.\<close>

definition reached :: "(string \<Rightarrow> string option) \<Rightarrow> string \<Rightarrow> request \<Rightarrow> endpoint option" where
  "reached parse_authority path rq =
     (case serve_api parse_authority (\<lambda>e _. Inr e) None path rq of Answered _ (Inr e) \<Rightarrow> Some e | _ \<Rightarrow> None)"

lemma post_unless_open:
  "list_all (\<lambda>(_, ms). list_all (\<lambda>(m, e). m = POST \<or> m = GET \<and> e \<in> set open_endpoints) ms) api_router"
  by code_simp

lemma answering_post: "answering ms m = Some e \<Longrightarrow>
    list_all (\<lambda>(m, e). m = POST \<or> m = GET \<and> e \<in> set open_endpoints) ms \<Longrightarrow>
    m = POST \<or> (m = GET \<or> m = OtherMethod ''HEAD'') \<and> e \<in> set open_endpoints"
  by (auto simp: answering_def list_all_iff dest!: map_of_SomeD split: if_splits)

lemma reached_iff:
  "reached pa path rq = Some e \<longleftrightarrow>
     is_local_host pa rq \<and> rq_method rq \<noteq> OtherMethod ''OPTIONS'' \<and>
     (\<exists>ms. route_of api_router path = Some ms \<and> answering ms (rq_method rq) = Some e) \<and>
     (rq_method rq = POST \<longrightarrow> is_json rq)"
  by (auto simp: reached_def serve_api_def dispatch_def require_json_def split: option.splits)

lemma reached_post:
  assumes "reached pa path rq = Some e"
  shows "rq_method rq = POST \<and> is_json rq \<or>
    (rq_method rq = GET \<or> rq_method rq = OtherMethod ''HEAD'') \<and> e \<in> set open_endpoints"
proof -
  obtain ms where ms: "route_of api_router path = Some ms" "answering ms (rq_method rq) = Some e"
    using assms(1) by (auto simp: reached_iff)
  from ms(1) have "list_all (\<lambda>(m, e). m = POST \<or> m = GET \<and> e \<in> set open_endpoints) ms"
    using post_unless_open by (auto simp: list_all_iff elim!: route_of_Some)
  with answering_post [OF ms(2)] assms show ?thesis by (auto simp: reached_iff)
qed

text \<open>A handler outside the ones that answer GET runs only for a POST to localhost that says it is JSON, and which handler runs is
  settled by the path and the method; every other request is answered without any of them.\<close>

theorem handlers_guarded:
  "case reached pa path rq of
     Some e \<Rightarrow> serve_api pa run origin path rq = Answered (allow_origin origin) (run e rq) \<and> is_local_host pa rq \<and>
       (e \<notin> set open_endpoints \<longrightarrow> rq_method rq = POST \<and> is_json rq)
   | None \<Rightarrow> serve_api pa run' origin path rq = serve_api pa run origin path rq"
proof (cases "reached pa path rq")
  case None
  then show ?thesis
    by (auto simp: reached_def serve_api_def dispatch_def require_json_def split: option.splits)
next
  case (Some e)
  then have "serve_api pa run origin path rq = Answered (allow_origin origin) (run e rq)" "is_local_host pa rq"
    by (auto simp: reached_iff serve_api_def dispatch_def require_json_def split: option.splits)
  with Some reached_post [OF Some] show ?thesis by auto
qed

text \<open>The request a browser asks with before it sends one that isn't simple.\<close>

definition preflight :: "request \<Rightarrow> request" where
  "preflight rq = rq\<lparr>rq_method := OtherMethod ''OPTIONS'', rq_content_type := None\<rparr>"

definition request_host :: "(string \<Rightarrow> string option) \<Rightarrow> request \<Rightarrow> string option" where
  "request_host pa rq = Option.bind (case rq_host rq of Some value \<Rightarrow> value | None \<Rightarrow> rq_authority rq) pa"

lemma is_local_host_request_host:
  "is_local_host pa rq \<longleftrightarrow> (\<exists>h. request_host pa rq = Some h \<and> to_lowercase h \<in> to_lowercase ` set local_hosts)"
  by (auto simp: is_local_host_def request_host_def list_ex_iff split: option.splits)

section \<open>The web UI's port serves the same API\<close>

lemma split_on_Cons2:
  "split_on c s = w # v # ws \<Longrightarrow> \<exists>s'. s = w @ c # s' \<and> split_on c s' = v # ws"
proof (induction s arbitrary: w)
  case (Cons x s)
  show ?case
  proof (cases "x = c")
    case False
    with Cons.prems obtain w' where "w = x # w'" "split_on c s = w' # v # ws" by (auto split: list.splits)
    with Cons.IH [of w'] show ?thesis by auto
  qed (use Cons.prems in auto)
qed simp

lemma split_on_ne: "split_on c s \<noteq> []"
  by (induction s) (auto split: list.splits)

lemma segments_v1: "(\<exists>s ss. segments path = '''' # ''v1'' # s # ss) \<longleftrightarrow> starts_with path ''/v1/''"
proof
  assume "\<exists>s ss. segments path = '''' # ''v1'' # s # ss"
  then obtain s ss where "split_on (CHR ''/'') path = '''' # ''v1'' # s # ss" by (auto simp: segments_def)
  from split_on_Cons2 [OF this] obtain p where "path = CHR ''/'' # p" "split_on (CHR ''/'') p = ''v1'' # s # ss" by auto
  with split_on_Cons2 [of "CHR ''/''" p "''v1''" s ss] show "starts_with path ''/v1/''"
    by (auto simp: starts_with_def)
next
  assume "starts_with path ''/v1/''"
  then obtain p where "path = ''/v1/'' @ p" by (metis append_take_drop_id starts_with_def)
  then show "\<exists>s ss. segments path = '''' # ''v1'' # s # ss"
    using split_on_ne [of "CHR ''/''" p] by (cases "split_on (CHR ''/'') p") (auto simp: segments_def)
qed

lemma tilekit_router_v1:
  "list_all (\<lambda>(p, _). take 2 (segments p) = ['''', ''v1''] \<and> 2 < length (segments p)) tilekit_router"
  by code_simp

lemma root_routes_v1:
  "list_all (\<lambda>(p, _). list_all (\<lambda>s. \<not> is_param s) (segments p) \<and> take 2 (segments p) \<noteq> ['''', ''v1'']) (take 8 api_router)"
  by code_simp

lemma path_matches_literal: "list_all (\<lambda>s. \<not> is_param s) ps \<Longrightarrow> path_matches ps ss \<Longrightarrow> ps = ss"
  by (induction ps ss rule: path_matches.induct) auto

lemma path_matches_length: "path_matches ps ss \<Longrightarrow> length ps = length ss"
  by (induction ps ss rule: path_matches.induct) auto

lemma path_matches_take2:
  assumes "path_matches ps ss" and "take 2 ps = ['''', ''v1'']" and "2 < length ps"
  shows "\<exists>s r. ss = '''' # ''v1'' # s # r"
proof -
  from assms(2,3) obtain p r where ps: "ps = '''' # ''v1'' # p # r"
    by (cases ps; cases "tl ps"; cases "tl (tl ps)") (auto simp: numeral_2_eq_2)
  from assms(1) path_matches_length [OF assms(1)] obtain a b s r' where "ss = a # b # s # r'"
    unfolding ps by (cases ss; cases "tl ss"; cases "tl (tl ss)") auto
  with assms(1) show ?thesis unfolding ps by (simp add: is_param_def starts_with_def)
qed

lemma route_of_tilekit_None: "\<not> starts_with path ''/v1/'' \<Longrightarrow> route_of tilekit_router path = None"
proof (rule ccontr)
  assume no: "\<not> starts_with path ''/v1/''" and "route_of tilekit_router path \<noteq> None"
  then obtain p ms where "(p, ms) \<in> set tilekit_router" "path_matches (segments p) (segments path)"
    by (auto elim: route_of_Some)
  with tilekit_router_v1 no path_matches_take2 [of "segments p" "segments path"] segments_v1 [of path]
  show False by (auto simp: list_all_iff)
qed

lemma find_append: "find P (xs @ ys) = (case find P xs of None \<Rightarrow> find P ys | Some x \<Rightarrow> Some x)"
  by (induction xs) auto

lemma route_of_v1:
  assumes "starts_with path ''/v1/''"
  shows "route_of api_router path = route_of tilekit_router path"
proof -
  obtain s ss where seg: "segments path = '''' # ''v1'' # s # ss" using assms segments_v1 by blast
  have "find (\<lambda>(p, _). path_matches (segments p) (segments path)) (take 8 api_router) = None"
    unfolding find_None_iff
  proof clarify
    fix p ms assume "(p, ms) \<in> set (take 8 api_router)" "path_matches (segments p) (segments path)"
    with root_routes_v1 path_matches_literal [of "segments p" "segments path"] seg show False
      by (auto simp: list_all_iff)
  qed
  moreover have "api_router = take 8 api_router @ tilekit_router" by (simp add: api_router_def)
  ultimately show ?thesis unfolding route_of_def by (metis find_append option.case(1))
qed

text \<open>The web UI's port answers a request for another host with a refusal alone. Below \<open>/v1/\<close> it answers as the
  API's port does, also with its errors, and any other path is a file, so that none of the routes of the
  root, such as the one that shuts the daemon down, is there.\<close>

theorem web_port_serves:
  "(\<not> is_local_host pa rq \<longrightarrow>
      serve_web pa run path rq = Inl (Forbidden ''The Tiles daemon only answers requests made to localhost'')) \<and>
   (is_local_host pa rq \<and> starts_with path ''/v1/'' \<and> path \<noteq> ''/v1/'' \<and> rq_method rq \<noteq> OtherMethod ''OPTIONS'' \<longrightarrow>
      (\<exists>r. serve_web pa run path rq = Inr (FromApi r) \<and> serve_api pa run origin path rq = Answered (allow_origin origin) r)) \<and>
   (is_local_host pa rq \<and> \<not> starts_with path ''/v1/'' \<longrightarrow>
      serve_web pa run path rq = Inr (FileRequest (rq_method rq) path))"
  by (auto simp: serve_web_def serve_api_def require_local_host_def dispatch_def route_of_v1 route_of_tilekit_None
      split: option.split)

section \<open>What another website can reach\<close>

text \<open>The handler a request to either port reaches, and what the answers of a port say of other origins: the web UI's
  port has no layer for them.\<close>

datatype port = ApiPort | WebPort

fun reached_on :: "port \<Rightarrow> (string \<Rightarrow> string option) \<Rightarrow> string \<Rightarrow> request \<Rightarrow> endpoint option" where
  "reached_on ApiPort pa path rq = reached pa path rq"
| "reached_on WebPort pa path rq =
     (case serve_web pa (\<lambda>e _. Inr e) path rq of Inr (FromApi (Inr e)) \<Rightarrow> Some e | _ \<Rightarrow> None)"

fun lets_send :: "port \<Rightarrow> (string \<Rightarrow> string option) \<Rightarrow> string \<Rightarrow> string \<Rightarrow> request \<Rightarrow> string list \<Rightarrow> bool" where
  "lets_send ApiPort pa page path rq hs \<longleftrightarrow>
     serve_api pa (\<lambda>_ _. Inr ()) (Some page) path (preflight rq) = Preflight (Some page) \<and> set hs \<subseteq> set cors_headers"
| "lets_send WebPort pa page path rq hs \<longleftrightarrow> False"

lemma reached_on_post:
  assumes "reached_on port pa path rq = Some e"
  shows "is_local_host pa rq \<and> (rq_method rq = POST \<and> is_json rq \<or>
    (rq_method rq = GET \<or> rq_method rq = OtherMethod ''HEAD'') \<and> e \<in> set open_endpoints)"
proof (cases port)
  case ApiPort
  with assms have "reached pa path rq = Some e" by simp
  from reached_post [OF this] this show ?thesis by (simp add: reached_iff)
next
  case WebPort
  with assms obtain ms where ms: "is_local_host pa rq" "route_of tilekit_router path = Some ms"
      "answering ms (rq_method rq) = Some e" "rq_method rq = POST \<longrightarrow> is_json rq"
    by (auto simp: serve_web_def require_local_host_def dispatch_def require_json_def
        split: option.splits if_splits sum.splits web_answer.splits)
  have "set tilekit_router \<subseteq> set api_router" by (auto simp: api_router_def)
  with ms(2) have "list_all (\<lambda>(m, e). m = POST \<or> m = GET \<and> e \<in> set open_endpoints) ms"
    using post_unless_open by (force simp: list_all_iff elim!: route_of_Some)
  with answering_post [OF ms(3)] ms show ?thesis by auto
qed

text \<open>C15. On either port, a page of another website reaches only the handlers that answer GET, and with such a
  request only; and its following of a download can't be one that pauses the download when it ends, as that
  needs the header \<open>x-tiles-client\<close>. That holds also for a name that the website makes resolve to
  this computer. The browser is assumed to do what it documents: to ask before it sends JSON or a header of the page's own to another
  origin, with the origin of the page, and to name to its own origin the host the page comes from. A page of
  the app or of the development server may use every handler of the API's port, but can't send that header
  either; a page that this computer itself serves may do anything.\<close>

theorem no_other_site_changes:
  assumes sends: "\<And>rq hs. sends page rq hs \<Longrightarrow> is_json rq \<or> hs \<noteq> [] \<Longrightarrow> origin_host page \<noteq> request_host pa rq \<Longrightarrow>
      lets_send port pa page path rq hs"
    and rq: "sends page rq hs" "reached_on port pa path rq = Some e"
    and other: "\<not> (\<exists>h. origin_host page = Some h \<and> to_lowercase h \<in> to_lowercase ` set local_hosts)"
  shows "(follow_guard pauses (''x-tiles-client'' \<in> set hs) = Inr () \<longrightarrow> \<not> pauses) \<and>
    (port = WebPort \<or> page \<notin> set cors_origins \<longrightarrow>
       (rq_method rq = GET \<or> rq_method rq = OtherMethod ''HEAD'') \<and> e \<in> set open_endpoints \<and> hs = [])"
proof -
  note reach = reached_on_post [OF rq(2)]
  have far: "origin_host page \<noteq> request_host pa rq"
    using reach other by (auto simp: is_local_host_request_host)
  have asked: "lets_send port pa page path rq hs" if "is_json rq \<or> hs \<noteq> []"
    by (rule sends [OF rq(1) that far])
  have "''x-tiles-client'' \<notin> set hs"
  proof
    assume c: "''x-tiles-client'' \<in> set hs"
    then have "hs \<noteq> []" by auto
    with asked have "lets_send port pa page path rq hs" by blast
    with c show False by (cases port) (auto simp: cors_headers_def)
  qed
  then have guard: "follow_guard pauses (''x-tiles-client'' \<in> set hs) = Inr () \<longrightarrow> \<not> pauses"
    by (simp add: follow_guard_def)
  have "\<not> lets_send port pa page path rq hs" if "port = WebPort \<or> page \<notin> set cors_origins"
    using that by (cases port) (auto simp: serve_api_def allow_origin_def split: if_splits)
  with asked have "\<not> is_json rq \<and> hs = []" if "port = WebPort \<or> page \<notin> set cors_origins"
    using that by blast
  with guard reach show ?thesis by blast
qed

section \<open>Examples\<close>

definition demo_request :: "http_method \<Rightarrow> string option \<Rightarrow> request" where
  "demo_request m content_type =
     \<lparr>rq_method = m, rq_host = Some (Some ''localhost''), rq_authority = None,
      rq_content_type = map_option Some content_type\<rparr>"

theorem handlers_guarded_witness:
  "serve_api Some (\<lambda>e _. Inr e) None ''/shutdown'' (demo_request POST (Some ''application/json'')) =
     Answered None (Inr ApiShutdown) \<and> is_json (demo_request POST (Some ''application/json''))"
proof -
  have "reached Some ''/shutdown'' (demo_request POST (Some ''application/json'')) = Some ApiShutdown" by code_simp
  with handlers_guarded [where pa = Some and path = "''/shutdown''" and origin = None and run = "\<lambda>e _. Inr e"
      and rq = "demo_request POST (Some ''application/json'')"]
  show ?thesis by (auto simp: allow_origin_def open_endpoints_def)
qed

theorem no_other_site_changes_witness:
  "ApiConfig \<in> set open_endpoints \<and> follow_guard True (''x-tiles-client'' \<in> set []) \<noteq> Inr ()"
proof -
  let ?rq = "demo_request GET None"
  have "reached_on ApiPort Some ''/config'' ?rq = Some ApiConfig" by code_simp
  moreover have "\<not> is_json ?rq" by code_simp
  moreover have "to_lowercase ''example.com'' \<notin> to_lowercase ` set local_hosts" by code_simp
  moreover have "''http://example.com'' \<notin> set cors_origins" by code_simp
  ultimately show ?thesis
    using no_other_site_changes [where sends = "\<lambda>_ rq hs. rq = ?rq \<and> hs = []" and port = ApiPort and pa = Some
        and page = "''http://example.com''" and path = "''/config''" and origin_host = "\<lambda>_. Some ''example.com''"
        and rq = ?rq and hs = "[]" and e = ApiConfig and pauses = True]
    by auto
qed

theorem web_port_serves_witness:
  "serve_web Some (\<lambda>e _. Inr e) ''/shutdown'' (demo_request POST (Some ''application/json'')) =
     Inr (FileRequest POST ''/shutdown'')"
proof -
  let ?rq = "demo_request POST (Some ''application/json'')"
  have "is_local_host Some ?rq" "\<not> starts_with ''/shutdown'' ''/v1/''" "rq_method ?rq = POST" by code_simp+
  with web_port_serves [of Some ?rq "\<lambda>e _. Inr e" "''/shutdown''" None] show ?thesis by simp
qed

end
