(* ===== verification/Jobs.thy ===== *)
theory Jobs
  imports Models EngineStore Events "HOL-Library.Sublist"
begin

text \<open>
  Following background jobs: what \<open>Job::events\<close> sends of the states a job goes through and the pause when the
  stream is closed early, the speed of a download (\<open>tiles/src/daemon/job.rs\<close>), the stream of all the
  models' changes (\<open>daemon/model/mod.rs\<close>), and the command line's side: \<open>tiles run\<close> downloads a
  model (\<open>daemon/model/model_fetch.rs\<close>) and offers the engine for the GPU
  (\<open>daemon/engine/engine_fetch.rs\<close>). JSON and what the daemon answers are arguments. Times are milliseconds.
\<close>

section \<open>Following a job\<close>

text \<open>The states a job has from the time its stream is made, the current one first. A reader looks at the latest
  state whenever it gets to it, so changes may be skipped: \<open>skips\<close> is how many each time. The result is the states
  that are sent and if the stream has ended; otherwise it waits for the next change.\<close>

function job_events :: "('s \<Rightarrow> bool) \<Rightarrow> nat list \<Rightarrow> 's list \<Rightarrow> 's list \<times> bool" where
  "job_events running skips [] = ([], False)"
| "job_events running skips (s # later) =
     (if \<not> running s then ([s], True)
      else if later = [] then ([s], False)
      else
        (let skip = (case skips of [] \<Rightarrow> 0 | k # _ \<Rightarrow> min k (length later - 1)) in
         case job_events running (drop 1 skips) (drop skip later) of
           (sent, ended) \<Rightarrow> (s # sent, ended)))"
  by pat_completeness auto
termination
  by (relation "measure (\<lambda>(_, _, h). length h)") auto

declare job_events.simps(2) [simp del]

text \<open>The stream is dropped: its guard pauses the job unless the stream has ended.\<close>

definition close_events :: "bool \<Rightarrow> bool \<Rightarrow> 's \<Rightarrow> 's job \<Rightarrow> 's job" where
  "close_events pause_on_close ended final j =
     (if pause_on_close \<and> \<not> ended then snd (job_pause final j) else j)"

lemma job_events_sent:
  assumes "hist \<noteq> []" and "job_events running skips hist = (sent, ended)"
  shows "sent \<noteq> [] \<and> hd sent = hd hist \<and> subseq sent hist \<and> (\<forall>s \<in> set (butlast sent). running s) \<and>
    (ended \<longleftrightarrow> \<not> running (last sent)) \<and> (\<not> ended \<longrightarrow> last sent = last hist)"
  using assms
proof (induction running skips hist arbitrary: sent ended rule: job_events.induct)
  case (2 running skips s later)
  show ?case
  proof (cases "running s \<and> later \<noteq> []")
    case True
    define skip where "skip = (case skips of [] \<Rightarrow> 0 | k # _ \<Rightarrow> min k (length later - 1))"
    have less: "skip < length later" using True by (cases later) (auto simp: skip_def split: list.split)
    obtain sent' ended' where after: "job_events running (drop 1 skips) (drop skip later) = (sent', ended')"
      by fastforce
    then have eq: "sent = s # sent'" "ended = ended'"
      using True "2.prems"(2) by (auto simp: job_events.simps skip_def)
    have ne: "drop skip later \<noteq> []" using less by simp
    have *: "sent' \<noteq> [] \<and> hd sent' = hd (drop skip later) \<and> subseq sent' (drop skip later) \<and>
        (\<forall>s \<in> set (butlast sent'). running s) \<and> (ended' \<longleftrightarrow> \<not> running (last sent')) \<and>
        (\<not> ended' \<longrightarrow> last sent' = last (drop skip later))"
      by (rule "2.IH" [OF _ _ skip_def ne after]) (use True in simp_all)
    have "suffix (drop skip later) later" by (rule suffix_drop)
    then have "subseq sent' later" using * subseq_order.trans suffix_imp_subseq by blast
    moreover have "last (drop skip later) = last later" using less by simp
    moreover from * have "sent' \<noteq> []" by (rule conjunct1)
    moreover from * have "\<forall>s \<in> set (butlast sent'). running s" by (elim conjE)
    moreover from * have "ended' \<longleftrightarrow> \<not> running (last sent')" by (elim conjE)
    moreover from * have "\<not> ended' \<longrightarrow> last sent' = last (drop skip later)" by (elim conjE)
    ultimately show ?thesis
      using True by (intro conjI) (simp_all only: eq, auto)
  next
    case False
    then show ?thesis using "2.prems" by (auto simp: job_events.simps split: if_splits)
  qed
qed simp

lemma subseq_in: "subseq xs ys \<Longrightarrow> x \<in> set xs \<Longrightarrow> x \<in> set ys"
  by (induction rule: list_emb.induct) auto

lemma job_events_facts:
  assumes "hist \<noteq> []" and "job_events running skips hist = (sent, ended)"
  shows "sent \<noteq> []" and "hd sent = hd hist" and "subseq sent hist" and "\<forall>s \<in> set (butlast sent). running s"
    and "ended \<longleftrightarrow> \<not> running (last sent)" and "\<not> ended \<longrightarrow> last sent = last hist"
  using job_events_sent [OF assms] by blast+

section \<open>Speed\<close>

record speed =
  sd_bps :: nat
  sd_sample :: "(nat \<times> nat) option"
  sd_sent :: nat

definition update_every :: nat where
  "update_every = 250"

definition speed_window :: nat where
  "speed_window = 1000"

definition speed_new :: "nat \<Rightarrow> speed" where
  "speed_new now = \<lparr>sd_bps = 0, sd_sample = None, sd_sent = now\<rparr>"

text \<open>The quotient is taken of doubles in the code, and cut to a whole number of bytes.\<close>

definition speed_update :: "nat \<Rightarrow> nat \<Rightarrow> speed \<Rightarrow> nat option \<times> speed" where
  "speed_update now got sd =
     (let (at, from0) = (case sd_sample sd of Some s \<Rightarrow> s | None \<Rightarrow> (now, got));
          sd = sd\<lparr>sd_sample := Some (at, from0)\<rparr>;
          sd = (if now - at \<ge> speed_window
                then sd\<lparr>sd_bps := (got - from0) * 1000 div (now - at), sd_sample := Some (now, got)\<rparr> else sd)
      in if now - sd_sent sd < update_every then (None, sd) else (Some (sd_bps sd), sd\<lparr>sd_sent := now\<rparr>))"

definition speed_hold :: "nat \<Rightarrow> speed \<Rightarrow> speed" where
  "speed_hold now sd = sd\<lparr>sd_sent := now\<rparr>"

text \<open>The events of the downloader, with their times, become states.\<close>

definition progress_at ::
  "nat \<Rightarrow> download_event \<Rightarrow> progress \<times> speed \<Rightarrow> download_state option \<times> progress \<times> speed" where
  "progress_at now ev ps =
     (case ps of (p, sd) \<Rightarrow>
        (case ev of
           Verifying _ \<Rightarrow> (case progress_update None ev p of (s, p') \<Rightarrow> (s, p', speed_hold now sd))
         | Progress got _ \<Rightarrow>
             (case speed_update now got sd of
                (bps, sd') \<Rightarrow> (case progress_update bps ev p of (s, p') \<Rightarrow> (s, p', sd')))))"

fun progress_all :: "(nat \<times> download_event) list \<Rightarrow> progress \<times> speed \<Rightarrow> (nat \<times> download_state) list" where
  "progress_all [] ps = []"
| "progress_all ((now, ev) # evs) ps =
     (case progress_at now ev ps of
        (s, ps') \<Rightarrow> (case s of Some s \<Rightarrow> [(now, s)] | None \<Rightarrow> []) @ progress_all evs ps')"

text \<open>A state that shows progress comes at least a quarter of a second after the one before it.\<close>

definition shows_progress :: "download_state \<Rightarrow> bool" where
  "shows_progress s = (case s of Downloading _ _ _ \<Rightarrow> True | _ \<Rightarrow> False)"

fun spaced :: "nat \<Rightarrow> (nat \<times> download_state) list \<Rightarrow> bool" where
  "spaced t [] = True"
| "spaced t ((t', s) # sent) = ((shows_progress s \<longrightarrow> t + update_every \<le> t') \<and> spaced t' sent)"

lemma speed_update_sent:
  "speed_update now got sd = (bps, sd') \<Longrightarrow> now \<ge> sd_sent sd \<Longrightarrow>
     (bps = None \<longrightarrow> sd_sent sd' = sd_sent sd) \<and>
     (bps \<noteq> None \<longrightarrow> sd_sent sd + update_every \<le> now \<and> sd_sent sd' = now)"
  by (auto simp: speed_update_def Let_def split: if_splits prod.splits)

lemma progress_at_sent:
  assumes "progress_at now ev (p, sd) = (s, p', sd')" and "sd_sent sd \<le> now"
  shows "(s = None \<longrightarrow> sd_sent sd' = sd_sent sd) \<and>
    (s \<noteq> None \<longrightarrow> sd_sent sd' = now \<and> (shows_progress (the s) \<longrightarrow> sd_sent sd + update_every \<le> now))"
proof (cases ev)
  case (Progress got f)
  obtain bps sd1 where "speed_update now got sd = (bps, sd1)" by fastforce
  with speed_update_sent [OF this] assms Progress show ?thesis
    by (auto simp: progress_at_def progress_update_def Let_def shows_progress_def split: prod.splits)
qed (use assms in \<open>auto simp: progress_at_def progress_update_def shows_progress_def speed_hold_def\<close>)

lemma progress_spaced:
  assumes "sorted (map fst evs)" and "\<forall>e \<in> set evs. sd_sent sd \<le> fst e"
  shows "spaced (sd_sent sd) (progress_all evs (p, sd))"
  using assms
proof (induction evs arbitrary: p sd)
  case (Cons e evs)
  obtain now ev where e: "e = (now, ev)" by fastforce
  obtain s p' sd' where step: "progress_at now ev (p, sd) = (s, p', sd')" by (cases "progress_at now ev (p, sd)")
  have sent: "(s = None \<longrightarrow> sd_sent sd' = sd_sent sd) \<and>
      (s \<noteq> None \<longrightarrow> sd_sent sd' = now \<and> (shows_progress (the s) \<longrightarrow> sd_sent sd + update_every \<le> now))"
    using progress_at_sent [OF step] Cons.prems(2) e by simp
  then have "\<forall>e \<in> set evs. sd_sent sd' \<le> fst e" using Cons.prems e by (cases s) auto
  then have "spaced (sd_sent sd') (progress_all evs (p', sd'))" using Cons.IH Cons.prems(1) by simp
  then show ?case using sent e step by (cases s) auto
qed simp

section \<open>All the models' changes\<close>

text \<open>Setting a state tells every stream, if it is a change.\<close>

definition set_download :: "spec \<Rightarrow> download_state \<Rightarrow> models \<Rightarrow> (spec \<times> download_state) list \<times> models" where
  "set_download s d ms =
     (case job_set d (job_of s ms) of
        (changed, j) \<Rightarrow> (if changed then [(s, jb_state j)] else [], put_job s j ms))"

fun set_states :: "(spec \<times> download_state) list \<Rightarrow> models \<Rightarrow> (spec \<times> download_state) list \<times> models" where
  "set_states [] ms = ([], ms)"
| "set_states ((s, d) # ds) ms =
     (case set_download s d ms of
        (sent, ms1) \<Rightarrow> (case set_states ds ms1 of (sent', ms2) \<Rightarrow> (sent @ sent', ms2)))"

text \<open>What the stream gets from its receiver: a change, that changes were dropped (with the downloads that are
  unfinished when it looks), or that there is no sender any more.\<close>

datatype received = Change "spec \<times> download_state" | Lagged "(spec \<times> download_state) list" | SenderGone

fun model_events :: "(spec \<times> download_state) list \<Rightarrow> received list \<Rightarrow> (spec \<times> download_state) list" where
  "model_events pending [] = pending"
| "model_events pending (Change c # rs) = pending @ c # model_events [] rs"
| "model_events pending (Lagged now # rs) = pending @ model_events now rs"
| "model_events pending (SenderGone # rs) = pending"

definition states_of :: "jobs \<Rightarrow> (spec \<times> download_state) list" where
  "states_of js = map (\<lambda>(s, j). (s, jb_state j)) js"

text \<open>What a client knows that keeps the last state of each model.\<close>

definition known :: "(spec \<times> download_state) list \<Rightarrow> spec \<Rightarrow> download_state option" where
  "known es = map_of (rev es)"

definition knows :: "models \<Rightarrow> (spec \<Rightarrow> download_state option) \<Rightarrow> bool" where
  "knows ms m \<longleftrightarrow>
     (\<forall>s. (\<forall>d. m s = Some d \<longrightarrow> d = jb_state (job_of s ms)) \<and>
          (is_unfinished (jb_state (job_of s ms)) \<longrightarrow> m s \<noteq> None))"

lemma job_of_put [simp]: "job_of s (put_job s' j ms) = (if s = s' then j else job_of s ms)"
  by (simp add: job_of_def put_job_def update_conv')

lemma set_states_append:
  "set_states (ds @ ds') ms =
     (case set_states ds ms of
        (sent, ms1) \<Rightarrow> (case set_states ds' ms1 of (sent', ms2) \<Rightarrow> (sent @ sent', ms2)))"
  by (induction ds ms rule: set_states.induct) (auto split: prod.splits)

lemma set_states_distinct:
  "set_states ds ms = (sent, ms') \<Longrightarrow> distinct (map fst (md_jobs ms)) \<Longrightarrow> distinct (map fst (md_jobs ms'))"
  by (induction ds ms arbitrary: sent ms' rule: set_states.induct)
    (auto simp: set_download_def put_job_def distinct_update split: prod.splits)

lemma set_states_known:
  assumes "set_states ds ms = (sent, ms')"
  shows "case known sent s of
      Some d \<Rightarrow> d = jb_state (job_of s ms')
    | None \<Rightarrow> jb_state (job_of s ms') = jb_state (job_of s ms)"
  using assms
proof (induction ds ms arbitrary: sent ms' rule: set_states.induct)
  case (2 s0 d ds ms)
  obtain c ms1 where one: "set_download s0 d ms = (c, ms1)" by fastforce
  obtain sent2 ms2 where rest: "set_states ds ms1 = (sent2, ms2)" by fastforce
  have eq: "sent = c @ sent2" "ms' = ms2" using 2(2) one rest by auto
  have c: "case known c s of Some d \<Rightarrow> d = jb_state (job_of s ms1) | None \<Rightarrow> jb_state (job_of s ms1) = jb_state (job_of s ms)"
    using one by (auto simp: set_download_def job_set_def known_def split: if_splits)
  show ?case
    using c 2(1) [OF one [symmetric] rest] by (auto simp: eq known_def map_add_def split: option.splits)
qed (simp add: known_def)

lemma model_events_changes: "model_events pending (map Change cs) = pending @ cs"
  by (induction cs arbitrary: pending) auto

lemma map_of_rev_unique: "distinct (map fst xs) \<Longrightarrow> map_of (rev xs) k = map_of xs k"
proof (induction xs)
  case (Cons x xs)
  then have "map_of xs (fst x) = None" by (simp add: map_of_eq_None_iff)
  with Cons show ?case by (auto simp: map_add_def split: option.split)
qed simp

lemma map_of_filter_snd:
  "distinct (map fst xs) \<Longrightarrow> map_of (filter (\<lambda>q. P (snd q)) xs) k =
     (case map_of xs k of Some v \<Rightarrow> if P v then Some v else None | None \<Rightarrow> None)"
proof (induction xs)
  case (Cons x xs)
  then have "map_of xs (fst x) = None" by (simp add: map_of_eq_None_iff)
  with Cons show ?case by (cases x) (auto split: option.split)
qed simp

lemma known_unfinished:
  assumes "distinct (map fst (md_jobs ms))"
  shows "known (states_of (unfinished ms)) s =
    (let d = jb_state (job_of s ms) in if is_unfinished d then Some d else None)"
proof -
  let ?js = "unfinished ms"
  have dist: "distinct (map fst ?js)" using assms by (simp add: unfinished_def distinct_map_filter)
  have "map fst (states_of ?js) = map fst ?js" by (simp add: states_of_def case_prod_unfold)
  then have "known (states_of ?js) s = map_of (states_of ?js) s"
    using dist by (simp add: known_def map_of_rev_unique)
  also have "\<dots> = map_option jb_state (map_of ?js s)" by (simp add: states_of_def map_of_map)
  also have "map_of ?js s = (case map_of (md_jobs ms) s of
      Some j \<Rightarrow> if is_unfinished (jb_state j) then Some j else None | None \<Rightarrow> None)"
    unfolding unfinished_def by (rule map_of_filter_snd [OF assms])
  finally show ?thesis
    by (simp add: job_of_def job_new_def is_unfinished_def Let_def split: option.split)
qed

text \<open>As long as a client keeps up, it knows the state of every model that is being downloaded, and
  nothing else about the others than what their state is: the listing comes after the stream subscribed, and
  what changed in between (\<open>ds1\<close>) is told too.\<close>

theorem no_change_missed:
  assumes "distinct (map fst (md_jobs ms))"
    and "set_states ds1 ms = (sent1, ms1)" and "set_states ds2 ms1 = (sent2, ms2)"
  shows "knows ms2 (known (model_events (states_of (unfinished ms1)) (map Change (sent1 @ sent2))))"
proof -
  have all: "set_states (ds1 @ ds2) ms = (sent1 @ sent2, ms2)"
    using assms(2,3) by (simp add: set_states_append)
  have dist: "distinct (map fst (md_jobs ms1))" using set_states_distinct [OF assms(2,1)] .
  show ?thesis unfolding knows_def
  proof
    fix s
    note a = set_states_known [OF all, of s]
    note b = set_states_known [OF assms(3), of s]
    have k: "known (states_of (unfinished ms1) @ sent1 @ sent2) s =
        (case known (sent1 @ sent2) s of Some d \<Rightarrow> Some d | None \<Rightarrow> known (states_of (unfinished ms1)) s)"
      by (simp add: known_def map_add_def split: option.split)
    have none: "known (sent1 @ sent2) s = None \<Longrightarrow> known sent2 s = None"
      by (simp add: known_def map_add_def split: option.splits)
    show "(\<forall>d. known (model_events (states_of (unfinished ms1)) (map Change (sent1 @ sent2))) s = Some d \<longrightarrow>
          d = jb_state (job_of s ms2)) \<and>
        (is_unfinished (jb_state (job_of s ms2)) \<longrightarrow>
          known (model_events (states_of (unfinished ms1)) (map Change (sent1 @ sent2))) s \<noteq> None)"
      using a b none unfolding model_events_changes k known_unfinished [OF dist]
      by (cases "known (sent1 @ sent2) s") (auto simp: Let_def)
  qed
qed

text \<open>A client that fell behind is only told what is unfinished: it never hears that a download ended while
  changes were dropped.\<close>

lemma lagging_misses_the_end:
  "\<exists>s. \<not> knows \<lparr>md_jobs = [(s, \<lparr>jb_state = Downloaded, jb_task = Finished\<rparr>)], md_default = None, md_picked = None\<rparr>
     (known (model_events [(s, Downloading 1 2 0)]
       [Lagged (states_of (unfinished
         \<lparr>md_jobs = [(s, \<lparr>jb_state = Downloaded, jb_task = Finished\<rparr>)], md_default = None, md_picked = None\<rparr>))]))"
  by (rule exI [of _ "\<lparr>sp_repo = [], sp_quant = []\<rparr>"], simp add: knows_def,
      rule exI [of _ "\<lparr>sp_repo = [], sp_quant = []\<rparr>"]) (simp add: known_def unfinished_def is_unfinished_def states_of_def job_of_def)

section \<open>The command line downloads a model\<close>

text \<open>The answer to a request of the daemon, unless it could not be reached.\<close>

definition reply_of :: "string option \<Rightarrow> daemon_reply \<Rightarrow> string + nat \<times> string option" where
  "reply_of context r =
     (case r of
        NoReply e \<Rightarrow> Inl (case context of Some c \<Rightarrow> c | None \<Rightarrow> e)
      | Reply status body \<Rightarrow> Inr (status, body))"

text \<open>The data of an answer; \<open>of_value\<close> reads it, and \<open>None\<close> is JSON's null.\<close>

definition response_data :: "'j json \<Rightarrow> ('j option \<Rightarrow> string + 'a) \<Rightarrow> nat \<times> string option \<Rightarrow> string + 'a" where
  "response_data J of_value res =
     (case Option.bind (snd res) (js_parse J) of
        None \<Rightarrow> Inl ''The Tiles daemon didn't answer in JSON''
      | Some v \<Rightarrow>
          if \<not> is_success (fst res)
          then Inl (case get_str J ''reason'' v of Some r \<Rightarrow> r | None \<Rightarrow> ''The Tiles daemon refused the download'')
          else of_value (js_get J ''data'' v))"

record bar =
  br_total :: nat
  br_done :: nat
  br_message :: string
  br_over :: bool

text \<open>The character as it is written in UTF-8.\<close>

definition ellipsis :: string where
  "ellipsis = [CHR 0xE2, CHR 0x80, CHR 0xA6]"

definition download_bar :: "nat \<Rightarrow> nat \<Rightarrow> bar" where
  "download_bar whole got = \<lparr>br_total = whole, br_done = got, br_message = '''', br_over = False\<rparr>"

text \<open>A finished bar is full.\<close>

definition finish_bar :: "bar \<Rightarrow> bar" where
  "finish_bar b = b\<lparr>br_done := br_total b, br_over := True\<rparr>"

definition could_not_reach :: string where
  "could_not_reach = ''Could not reach the Tiles daemon''"

text \<open>One event: go on with the bar, or stop with what is left of it and the result.\<close>

definition pull_event ::
  "('j option \<Rightarrow> string + download_state) \<Rightarrow> string \<Rightarrow> 'j \<Rightarrow> bar option
     \<Rightarrow> bar option + bar option \<times> (string + unit)" where
  "pull_event state_of model data bar =
     (case state_of (Some data) of
        Inl e \<Rightarrow> Inr (bar, Inl e)
      | Inr s \<Rightarrow>
          (case s of
             Downloading got whole _ \<Rightarrow>
               let b = (case bar of Some b \<Rightarrow> b | None \<Rightarrow> download_bar whole got) in
               Inl (Some (b\<lparr>br_message := model, br_done := got\<rparr>))
           | VerifyingState got whole \<Rightarrow>
               let b = (case bar of Some b \<Rightarrow> b | None \<Rightarrow> download_bar whole got) in
               Inl (Some (b\<lparr>br_message := ''Verifying the download'' @ ellipsis\<rparr>))
           | Downloaded \<Rightarrow> Inr (map_option finish_bar bar, Inr ())
           | PausedAt _ _ \<Rightarrow> Inr (bar, Inl ''The download was paused. Run Tiles again to continue it'')
           | DownloadFailed why \<Rightarrow> Inr (bar, Inl why)
           | Idle \<Rightarrow> Inl bar))"

fun pull_stream ::
  "'j json \<Rightarrow> ('j option \<Rightarrow> string + download_state) \<Rightarrow> string \<Rightarrow> (string + string) list \<Rightarrow> string
     \<Rightarrow> bar option \<Rightarrow> bar option \<times> (string + unit)" where
  "pull_stream J state_of model [] pending bar = (bar, Inl ''The daemon closed the download before it finished'')"
| "pull_stream J state_of model (Inl e # chunks) pending bar = (bar, Inl e)"
| "pull_stream J state_of model (Inr chunk # chunks) pending bar =
     (case take_events (js_parse J) (pending @ utf8_lossy chunk) of
        (es, rest) \<Rightarrow>
          (case each_event (pull_event state_of model) es bar of
             Inl bar \<Rightarrow> pull_stream J state_of model chunks rest bar
           | Inr r \<Rightarrow> r))"

text \<open>\<open>client\<close> is if the daemon is found, \<open>started\<close> the answer to the request to download, and \<open>stream\<close> the
  chunks of the answer to the request to follow it, whose status is not looked at.\<close>

definition pull ::
  "'j json \<Rightarrow> ('j option \<Rightarrow> string + download_state) \<Rightarrow> string + unit \<Rightarrow> daemon_reply
     \<Rightarrow> string + (string + string) list \<Rightarrow> string \<Rightarrow> string option \<Rightarrow> string + unit" where
  "pull J state_of client started stream repo quant =
     (let model = (case quant of Some q \<Rightarrow> repo @ '':'' @ q | None \<Rightarrow> repo) in
      res_bind client (\<lambda>_.
      res_bind (reply_of (Some could_not_reach) started) (\<lambda>res.
      res_bind (response_data J state_of res) (\<lambda>s.
        if s = Downloaded then Inr ()
        else
          (case stream of
             Inl _ \<Rightarrow> Inl could_not_reach
           | Inr chunks \<Rightarrow> snd (pull_stream J state_of model chunks '''' None))))))"

interpretation pull_reader: event_reader "js_parse J" "each_event (pull_event state_of model)"
    "pull_stream J state_of model" Inr "\<lambda>bar. (bar, Inl ''The daemon closed the download before it finished'')" "\<lambda>r. r"
  by unfold_locales (auto simp: each_event_append split: prod.split)

text \<open>What the command line makes of the last state it is told.\<close>

definition pull_result :: "download_state \<Rightarrow> string + unit" where
  "pull_result s =
     (case s of
        Downloaded \<Rightarrow> Inr ()
      | PausedAt _ _ \<Rightarrow> Inl ''The download was paused. Run Tiles again to continue it''
      | DownloadFailed why \<Rightarrow> Inl why
      | _ \<Rightarrow> Inl ''The daemon closed the download before it finished'')"

text \<open>How the daemon writes a state, as far as the command line reads it back.\<close>

definition reads_back ::
  "'j json \<Rightarrow> ('j option \<Rightarrow> string + 's) \<Rightarrow> ('s \<Rightarrow> string) \<Rightarrow> 's \<Rightarrow> bool" where
  "reads_back J state_of enc s \<longleftrightarrow>
     one_line (enc s) \<and>
     (case js_parse J (enc s) of Some v \<Rightarrow> state_of (Some v) = Inr s | None \<Rightarrow> False)"

text \<open>The text of a stream of states, with comments anywhere that keep the connection alive.\<close>

definition states_text :: "('s \<Rightarrow> string) \<Rightarrow> 's option list \<Rightarrow> string" where
  "states_text enc ss = stream_text (map (map_option (\<lambda>s. (''state'', enc s))) ss)"

lemma take_events_states:
  assumes "\<forall>s. Some s \<in> set ss \<longrightarrow> reads_back J state_of enc s"
  shows "\<exists>es. take_events (js_parse J) (states_text enc ss) = (es, '''') \<and>
    map (\<lambda>e. state_of (Some (snd e))) es = map Inr (filter_map id ss)"
  using assms
proof (induction ss)
  case Nil
  then show ?case by (simp add: states_text_def take_events_Nil)
next
  case (Cons s ss)
  then obtain es where es: "take_events (js_parse J) (states_text enc ss) = (es, '''')"
    "map (\<lambda>e. state_of (Some (snd e))) es = map Inr (filter_map id ss)" by (auto simp: id_def)
  show ?case
  proof (cases s)
    case None
    with es show ?thesis by (simp add: id_def states_text_def take_events_keep_alive)
  next
    case (Some st)
    then obtain v where v: "one_line (enc st)" "js_parse J (enc st) = Some v" "state_of (Some v) = Inr st"
      using Cons.prems by (auto simp: reads_back_def split: option.splits)
    have "one_line ''state''" by (simp add: one_line_def trim_def trim_start_def trim_end_def is_space_def)
    with es v Some show ?thesis by (simp add: id_def states_text_def take_events_text)
  qed
qed

lemma pull_each:
  assumes "map (\<lambda>e. state_of (Some (snd e))) es = map Inr sent" and "sent \<noteq> []"
    and "\<forall>s \<in> set (butlast sent). is_running s"
  shows "case each_event (pull_event state_of model) es bar of
      Inl b \<Rightarrow> pull_result (last sent) = Inl ''The daemon closed the download before it finished''
    | Inr r \<Rightarrow> snd r = pull_result (last sent)"
  using assms
proof (induction es arbitrary: sent bar)
  case (Cons e es)
  then obtain s sent' where sent: "sent = s # sent'" by (cases sent) auto
  obtain name data where e: "e = (name, data)" by fastforce
  have s: "state_of (Some data) = Inr s" and es: "map (\<lambda>e. state_of (Some (snd e))) es = map Inr sent'"
    using Cons.prems(1) by (auto simp: sent e)
  show ?case
  proof (cases "sent' = []")
    case True
    with es have "es = []" by simp
    with True show ?thesis
      by (cases s) (simp_all add: sent e s pull_event_def pull_result_def res_else_def Let_def)
  next
    case False
    have run: "is_running s" "\<forall>s \<in> set (butlast sent'). is_running s" using Cons.prems(3) False by (auto simp: sent)
    then obtain b where "pull_event state_of model data bar = Inl b"
      using s by (auto simp: pull_event_def is_running_def Let_def split: download_state.splits)
    with Cons.IH [OF es False run(2), of b] False show ?thesis by (simp add: sent e res_else_def prod_eq_iff split: sum.splits)
  qed
qed simp

lemma ascii_valid: "\<forall>b \<in> set s. of_char b < (0x80 :: nat) \<Longrightarrow> utf8_valid s"
  by (induction s) (simp_all add: utf8_rest_def)

text \<open>C20. However the daemon's text is cut into chunks between its characters (in ASCII: anywhere), and whatever
  changes its reader skips, the download the command line follows ends for the command line as it
  ended in the daemon. A cut inside a character is not covered, as each chunk is decoded by itself:
  \<open>cut_reason_is_garbled\<close>.\<close>

theorem pull_follows_job:
  assumes hist: "hist \<noteq> []" and sent: "job_events is_running skips hist = (sent, ended)"
    and "filter_map id ss = sent" and "concat cs = states_text enc ss" and text_cut: "(\<forall>c \<in> set cs. utf8_valid c) \<or> (\<forall>b \<in> set (concat cs). of_char b < (0x80 :: nat))"
    and enc: "\<forall>s \<in> set sent. reads_back J state_of enc s"
    and started: "response_data J state_of (status, body) = Inr s0" "s0 \<noteq> Downloaded"
  shows "pull J state_of (Inr ()) (Reply status body) (Inr (map Inr cs)) repo quant = pull_result (last sent) \<and>
    last sent \<in> set hist \<and> (\<not> is_running (last hist) \<longrightarrow> ended \<and> \<not> is_running (last sent))"
proof -
  note ne = job_events_facts(1) [OF hist sent] and sub = job_events_facts(3) [OF hist sent]
    and run = job_events_facts(4) [OF hist sent] and over = job_events_facts(5) [OF hist sent]
    and waits = job_events_facts(6) [OF hist sent]
  have valid: "\<forall>c \<in> set cs. utf8_valid c" using text_cut by (auto intro: ascii_valid)
  have "\<forall>s. Some s \<in> set ss \<longrightarrow> reads_back J state_of enc s"
    using enc assms(3) by (auto simp: set_filter_map)
  from take_events_states [OF this] obtain es where
    es: "take_events (js_parse J) (concat cs) = (es, '''')" "map (\<lambda>e. state_of (Some (snd e))) es = map Inr sent"
    using assms(3,4) by auto
  define model where "model = (case quant of Some q \<Rightarrow> repo @ '':'' @ q | None \<Rightarrow> repo)"
  have "snd (pull_stream J state_of model (map Inr cs) '''' None) = pull_result (last sent)"
    using pull_each [OF es(2) ne run, of model None]
    unfolding pull_reader.loop_chunks [OF valid] es(1) by (auto split: sum.splits)
  then have "pull J state_of (Inr ()) (Reply status body) (Inr (map Inr cs)) repo quant = pull_result (last sent)"
    using started by (simp add: pull_def reply_of_def model_def res_bind_def)
  moreover have "\<not> is_running (last hist) \<longrightarrow> ended" using over waits by (metis (full_types))
  moreover have "last sent \<in> set sent" using ne by (rule last_in_set)
  then have "last sent \<in> set hist" by (rule subseq_in [OF sub])
  ultimately show ?thesis unfolding over by (intro conjI impI) simp_all
qed

section \<open>The command line offers the engine for the GPU\<close>

text \<open>One event of the engine's download: the bar and what is printed. Text in color is plain here.\<close>

definition engine_event ::
  "('j option \<Rightarrow> string + install_state) \<Rightarrow> (engine \<Rightarrow> string) \<Rightarrow> 'j \<Rightarrow> bar option \<times> string list
     \<Rightarrow> bar option \<times> string list + (bar option \<times> string list) \<times> (string + unit)" where
  "engine_event state_of lab data st =
     (case state_of (Some data) of
        Inl e \<Rightarrow> Inr (st, Inl e)
      | Inr s \<Rightarrow>
          (let (bar, out) = st in
           case s of
             InsDownloading e got whole _ \<Rightarrow>
               let b = (case bar of
                          Some b \<Rightarrow> if br_total b = whole then b else download_bar whole got
                        | None \<Rightarrow> download_bar whole got)
               in Inl (Some (b\<lparr>br_message := lab e, br_done := got\<rparr>), out)
           | InsUnpacking _ \<Rightarrow> Inl (map_option (br_message_update (\<lambda>_. ''Unpacking'' @ ellipsis)) bar, out)
           | InsChecking e \<Rightarrow>
               Inl (map_option (br_message_update (\<lambda>_. ''Checking '' @ lab e @ '' runs here'' @ ellipsis)) bar, out)
           | InsDone e \<Rightarrow>
               Inr ((map_option (\<lambda>b. finish_bar (b\<lparr>br_message := lab e\<rparr>)) bar, out @ [''Models run on '' @ lab e]),
                 Inr ())
           | InsPaused _ _ _ \<Rightarrow>
               Inr ((bar, out @ [''The engine download was paused. Models run on the CPU for now'']), Inr ())
           | InsFailed _ why \<Rightarrow>
               Inr ((map_option (\<lambda>b. b\<lparr>br_over := True\<rparr>) bar,
                 out @ [''WARNING: '' @ why @ ''. Models run on the CPU for now'']), Inr ())
           | InsIdle \<Rightarrow>
               Inr ((bar, out @ [''WARNING: The engine download stopped. Models run on the CPU for now'']), Inr ())))"

fun show_engine_download ::
  "'j json \<Rightarrow> ('j option \<Rightarrow> string + install_state) \<Rightarrow> (engine \<Rightarrow> string) \<Rightarrow> (string + string) list \<Rightarrow> string
     \<Rightarrow> bar option \<times> string list \<Rightarrow> (bar option \<times> string list) \<times> (string + unit)" where
  "show_engine_download J state_of lab [] pending st = (st, Inr ())"
| "show_engine_download J state_of lab (Inl e # chunks) pending st = (st, Inl e)"
| "show_engine_download J state_of lab (Inr chunk # chunks) pending st =
     (case take_events (js_parse J) (pending @ utf8_lossy chunk) of
        (es, rest) \<Rightarrow>
          (case each_event (engine_event state_of lab) es st of
             Inl st \<Rightarrow> show_engine_download J state_of lab chunks rest st
           | Inr r \<Rightarrow> r))"

interpretation engine_reader: event_reader "js_parse J" "each_event (engine_event state_of lab)"
    "show_engine_download J state_of lab" Inr "\<lambda>st. (st, Inr ())" "\<lambda>r. r"
  by unfold_locales (auto simp: each_event_append split: prod.split)

text \<open>The entry of an engine in the daemon's status: its label and the size of its download.\<close>

definition engine_entry :: "'j json \<Rightarrow> 'j \<Rightarrow> 'j option \<Rightarrow> 'j option" where
  "engine_entry J status e =
     (case Option.bind (js_get J ''engines'' status) (js_list J) of
        Some entries \<Rightarrow> find (\<lambda>entry. js_get J ''engine'' entry = e) entries
      | None \<Rightarrow> None)"

definition engine_label :: "'j json \<Rightarrow> 'j \<Rightarrow> 'j option \<Rightarrow> string" where
  "engine_label J status e =
     (case Option.bind (engine_entry J status e) (get_str J ''label'') of Some l \<Rightarrow> l | None \<Rightarrow> ''the GPU'')"

definition engine_size :: "'j json \<Rightarrow> 'j \<Rightarrow> 'j option \<Rightarrow> nat" where
  "engine_size J status e =
     (case Option.bind (Option.bind (engine_entry J status e) (js_get J ''download'')) (js_nat J) of
        Some n \<Rightarrow> n | None \<Rightarrow> 0)"

text \<open>What the daemon says of the engine to run: if there is something to offer, and if it is being installed.\<close>

definition worth_offering :: "'j json \<Rightarrow> 'j \<Rightarrow> bool" where
  "worth_offering J status \<longleftrightarrow>
     get_str J ''override'' status = None \<and>
     Option.bind (js_get J ''needs_download'' status) (js_bool J) = Some True"

definition being_installed :: "'j json \<Rightarrow> 'j \<Rightarrow> bool" where
  "being_installed J status \<longleftrightarrow>
     Option.bind (js_get J ''download'' status) (get_str J ''state'')
       \<in> Some ` {''downloading'', ''unpacking'', ''checking''}"

datatype offer_request = PickCpu | StartDownload | FollowDownload

text \<open>What the offer meets: a terminal, the daemon and its answers, and the line that is typed.\<close>

record 'j offer_world =
  ow_terminal :: bool
  ow_client :: "string + unit"
  ow_status :: daemon_reply
  ow_line :: "string + string"
  ow_select :: daemon_reply
  ow_start :: daemon_reply
  ow_stream :: "string + (string + string) list"
  ow_value :: "'j option \<Rightarrow> string + 'j"
  ow_state :: "'j option \<Rightarrow> string + install_state"
  ow_name :: "engine \<Rightarrow> 'j"
  ow_bytes :: "nat \<Rightarrow> string"

definition is_yes :: "string \<Rightarrow> bool" where
  "is_yes line \<longleftrightarrow> trim line \<in> {''y'', ''Y''}"

definition follow_engine ::
  "'j json \<Rightarrow> 'j offer_world \<Rightarrow> 'j \<Rightarrow> offer_request list \<Rightarrow> string list
     \<Rightarrow> (string + unit) \<times> offer_request list \<times> string list" where
  "follow_engine J W status asked out =
     (case ow_stream W of
        Inl _ \<Rightarrow> (Inl could_not_reach, asked @ [FollowDownload], out)
      | Inr chunks \<Rightarrow>
          (case show_engine_download J (ow_state W) (\<lambda>e. engine_label J status (Some (ow_name W e))) chunks '''' (None, out) of
             ((_, out), r) \<Rightarrow> (r, asked @ [FollowDownload], out)))"

text \<open>The result, the requests that change something or follow the download, and what is printed.\<close>

definition offer_gpu_engine ::
  "'j json \<Rightarrow> 'j offer_world \<Rightarrow> (string + unit) \<times> offer_request list \<times> string list" where
  "offer_gpu_engine J W =
     (if \<not> ow_terminal W then (Inr (), [], [])
      else
        (case res_bind (ow_client W) (\<lambda>_. res_bind (reply_of (Some could_not_reach) (ow_status W)) (response_data J (ow_value W))) of
           Inl e \<Rightarrow> (Inl e, [], [])
         | Inr status \<Rightarrow>
             if \<not> worth_offering J status then (Inr (), [], [])
             else if being_installed J status then follow_engine J W status [] []
             else
               (let e = js_get J ''engine'' status;
                    question = ''Tiles can run models on your GPU with '' @ engine_label J status e @ '', a '' @
                      ow_bytes W (engine_size J status e) @ '' download. Download it now? [y/N] '' in
                case ow_line W of
                  Inl err \<Rightarrow> (Inl err, [], [question])
                | Inr line \<Rightarrow>
                    if is_yes line
                    then
                      (case res_bind (reply_of None (ow_start W)) (response_data J (ow_state W)) of
                         Inl err \<Rightarrow> (Inl err, [StartDownload], [question])
                       | Inr (InsDone _) \<Rightarrow> (Inr (), [StartDownload], [question])
                       | Inr _ \<Rightarrow> follow_engine J W status [StartDownload] [question])
                    else if get_str J ''pick'' status \<noteq> Some ''auto''
                    then (Inr (), [], [question, ''Models run on the CPU until '' @ engine_label J status e @ '' is downloaded''])
                    else
                      (case res_bind (reply_of None (ow_select W)) (response_data J (ow_value W)) of
                         Inl err \<Rightarrow> (Inl err, [PickCpu], [question])
                       | Inr _ \<Rightarrow>
                           (Inr (), [PickCpu],
                            [question, ''Models run on the CPU. Pick an engine in the Tiles app to change it''])))))"

lemma engine_event_prints:
  "case engine_event state_of lab data st of
     Inl st' \<Rightarrow> prefix (snd st) (snd st') | Inr (st', _) \<Rightarrow> prefix (snd st) (snd st')"
  by (auto simp: engine_event_def Let_def split: sum.split prod.split install_state.split)

lemma each_engine_event_prints:
  "case each_event (engine_event state_of lab) es st of
     Inl st' \<Rightarrow> prefix (snd st) (snd st') | Inr (st', _) \<Rightarrow> prefix (snd st) (snd st')"
proof (induction es arbitrary: st)
  case (Cons e es)
  obtain name data where e: "e = (name, data)" by fastforce
  show ?case
  proof (cases "engine_event state_of lab data st")
    case (Inl st1)
    with engine_event_prints [where state_of = state_of and lab = lab and data = data and st = st] have "prefix (snd st) (snd st1)" by simp
    with Cons.IH [of st1] Inl show ?thesis
      by (auto simp: e res_else_def split: sum.splits prod.splits intro: prefix_order.trans)
  next
    case (Inr r)
    with engine_event_prints [where state_of = state_of and lab = lab and data = data and st = st] show ?thesis by (simp add: e res_else_def split: prod.splits)
  qed
qed simp

lemma show_engine_prints: "prefix (snd st) (snd (fst (show_engine_download J state_of lab chunks pending st)))"
proof (induction J state_of lab chunks pending st rule: show_engine_download.induct)
  case (3 J state_of lab chunk chunks pending st)
  obtain es rest where es: "take_events (js_parse J) (pending @ utf8_lossy chunk) = (es, rest)" by fastforce
  show ?case
  proof (cases "each_event (engine_event state_of lab) es st")
    case (Inl st1)
    with each_engine_event_prints [where state_of = state_of and lab = lab and es = es and st = st] have "prefix (snd st) (snd st1)" by simp
    with 3 [OF es [symmetric] Inl] es Inl show ?thesis by (auto intro: prefix_order.trans)
  next
    case (Inr r)
    with each_engine_event_prints [where state_of = state_of and lab = lab and es = es and st = st] es show ?thesis by (auto split: prod.splits)
  qed
qed simp_all

lemma follow_engine_asked:
  "case follow_engine J W status asked out of (_, asked', out') \<Rightarrow> asked' = asked @ [FollowDownload] \<and> prefix out out'"
  using show_engine_prints [of "(None, out)" J "ow_state W" "\<lambda>e. engine_label J status (Some (ow_name W e))" _ "''''"]
  by (auto simp: follow_engine_def split: sum.split prod.splits) (metis fst_conv snd_conv)

text \<open>The daemon's status of the engines, if it gave one.\<close>

definition engine_status :: "'j json \<Rightarrow> 'j offer_world \<Rightarrow> 'j option" where
  "engine_status J W =
     (case res_bind (reply_of None (ow_status W)) (response_data J (ow_value W)) of Inr v \<Rightarrow> Some v | Inl _ \<Rightarrow> None)"

definition typed_yes :: "'j offer_world \<Rightarrow> bool option" where
  "typed_yes W = (case ow_line W of Inr line \<Rightarrow> Some (is_yes line) | Inl _ \<Rightarrow> None)"

lemma engine_status_Some:
  "res_bind (ow_client W) (\<lambda>_. res_bind (reply_of (Some c) (ow_status W)) (response_data J (ow_value W))) = Inr v \<Longrightarrow>
     engine_status J W = Some v"
  by (auto simp: engine_status_def reply_of_def res_bind_def split: sum.splits daemon_reply.splits)

text \<open>Nothing is downloaded that was not offered and answered with a yes, an engine that the app is already
  installing is not offered again, and the CPU is picked for somebody only if no engine was picked by hand. At most
  one thing is changed.\<close>

theorem gpu_engine_asks:
  "case offer_gpu_engine J W of
     (_, asked, out) \<Rightarrow>
       (StartDownload \<in> set asked \<longrightarrow>
          ow_terminal W \<and> out \<noteq> [] \<and> typed_yes W = Some True \<and>
          (\<exists>status. engine_status J W = Some status \<and> worth_offering J status \<and> \<not> being_installed J status)) \<and>
       (PickCpu \<in> set asked \<longrightarrow>
          ow_terminal W \<and> out \<noteq> [] \<and> typed_yes W = Some False \<and>
          (\<exists>status. engine_status J W = Some status \<and> worth_offering J status \<and> get_str J ''pick'' status = Some ''auto'')) \<and>
       length (filter (\<lambda>r. r \<noteq> FollowDownload) asked) \<le> 1"
proof (cases "ow_terminal W")
  case True
  let ?status = "res_bind (ow_client W) (\<lambda>_. res_bind (reply_of (Some could_not_reach) (ow_status W)) (response_data J (ow_value W)))"
  show ?thesis
  proof (cases ?status)
    case (Inr status)
    have known: "engine_status J W = Some status" by (rule engine_status_Some [OF Inr])
    obtain r1 asked1 out1 where one: "follow_engine J W status [] [] = (r1, asked1, out1)" by (rule prod_cases3)
    have asked1: "asked1 = [FollowDownload]"
      using follow_engine_asked [where J = J and W = W and status = status and asked = "[]" and out = "[]"] one by simp
    have two: "follow_engine J W status [StartDownload] [q] = (r2, asked2, out2) \<Longrightarrow>
        asked2 = [StartDownload, FollowDownload] \<and> out2 \<noteq> []" for q r2 asked2 out2
      using follow_engine_asked [where J = J and W = W and status = status and asked = "[StartDownload]" and out = "[q]"]
      by (cases out2) auto
    show ?thesis
      using True Inr known one asked1
      by (auto simp: offer_gpu_engine_def typed_yes_def Let_def dest!: two
          split: sum.split install_state.split prod.splits)
  qed (simp add: offer_gpu_engine_def)
qed (simp add: offer_gpu_engine_def)

text \<open>One state is text of one letter, and every letter reads back.\<close>

definition letter :: "download_state \<Rightarrow> string" where
  "letter s = (if s = Downloaded then ''d'' else ''r'')"

definition letters :: "string json" where
  "letters = \<lparr>js_parse = Some, js_get = (\<lambda>_. Some), js_str = Some, js_bool = (\<lambda>_. None), js_nat = (\<lambda>_. None),
     js_int = (\<lambda>_. None), js_list = (\<lambda>_. None)\<rparr>"

definition letter_state :: "string option \<Rightarrow> string + download_state" where
  "letter_state v = (if v = Some ''d'' then Inr Downloaded else Inr (Downloading 1 2 0))"

definition letters_text :: string where
  "letters_text = states_text letter [Some (Downloading 1 2 0), None, Some Downloaded]"

theorem pull_follows_job_witness:
  "pull letters letter_state (Inr ()) (Reply 200 (Some ''r'')) (Inr (map Inr [take 9 letters_text, drop 9 letters_text]))
     ''r'' None = Inr ()"
proof -
  have sent: "job_events is_running [] [Downloading 1 2 0, Downloaded] = ([Downloading 1 2 0, Downloaded], True)"
    by (simp add: job_events.simps is_running_def)
  have valid: "\<forall>c \<in> set [take 9 letters_text, drop 9 letters_text]. utf8_valid c" by code_simp
  have reads: "\<forall>s \<in> set [Downloading 1 2 0, Downloaded]. reads_back letters letter_state letter s"
    by (simp add: reads_back_def letters_def letter_state_def letter_def one_line_def trim_def trim_start_def trim_end_def
        is_space_def)
  have whole: "concat [take 9 letters_text, drop 9 letters_text] =
      states_text letter [Some (Downloading 1 2 0), None, Some Downloaded]"
    by (simp add: letters_text_def)
  have started: "response_data letters letter_state (200, Some ''r'') = Inr (Downloading 1 2 0)"
    by (simp add: response_data_def letters_def letter_state_def is_success_def)
  show ?thesis
    using pull_follows_job [OF _ sent _ whole disjI1 [OF valid] reads started, of "''r''" None]
    by (simp add: pull_result_def)
qed

text \<open>The reason of a failure whose e with an accent is cut in two.\<close>

definition failed_state :: "string option \<Rightarrow> string + download_state" where
  "failed_state v = (case v of Some why \<Rightarrow> Inr (if why = ''r'' then Downloading 1 2 0 else DownloadFailed why) | None \<Rightarrow> Inl ''no state'')"

definition accent_text :: string where
  "accent_text = states_text (\<lambda>s. case s of DownloadFailed why \<Rightarrow> why | _ \<Rightarrow> ''r'') [Some (DownloadFailed [CHR 0xC3, CHR 0xA9])]"

lemma cut_reason_is_garbled:
  "accent_text ! (length accent_text - 3) = CHR 0xA9 \<and>
   pull letters failed_state (Inr ()) (Reply 200 (Some ''r'')) (Inr [Inr accent_text]) ''r'' None = Inl [CHR 0xC3, CHR 0xA9] \<and>
   pull letters failed_state (Inr ()) (Reply 200 (Some ''r''))
     (Inr [Inr (take (length accent_text - 3) accent_text), Inr (drop (length accent_text - 3) accent_text)]) ''r'' None =
   Inl [CHR 0xEF, CHR 0xBF, CHR 0xBD, CHR 0xEF, CHR 0xBF, CHR 0xBD]"
  by code_simp

section \<open>What the app lists\<close>

datatype listing = ListedStatus model_status | ListedFailed "string option" string

record bundled_model =
  bm_id :: string
  bm_label :: string
  bm_default :: bool
  bm_current :: bool
  bm_listing :: listing

definition model_listing :: "(spec \<Rightarrow> found) \<Rightarrow> string + spec \<Rightarrow> models \<Rightarrow> listing \<times> models" where
  "model_listing fd spec ms =
     (case spec of
        Inl e \<Rightarrow> (ListedFailed None e, ms)
      | Inr s \<Rightarrow>
          (case download_status (fd s) (job_of s ms) of
             (Inr st, j) \<Rightarrow> (ListedStatus st, put_job s j ms)
           | (Inl e, j) \<Rightarrow> (ListedFailed (Some (show_spec s)) (reason e), put_job s j ms)))"

text \<open>\<open>read\<close> is the Modelfile of an id.\<close>

definition is_other :: "string + spec \<Rightarrow> spec option \<Rightarrow> bool" where
  "is_other spec other \<longleftrightarrow> other \<noteq> None \<and> ok spec = other"

fun list_models ::
  "(string \<Rightarrow> string + 'f modelfile) \<Rightarrow> (spec \<Rightarrow> found) \<Rightarrow> spec option \<Rightarrow> (string \<times> string) list \<Rightarrow> models
     \<Rightarrow> bundled_model list \<times> models" where
  "list_models read fd current [] ms = ([], ms)"
| "list_models read fd current ((mid, lab) # rest) ms =
     (let spec = modelfile_spec (read mid) in
      case model_listing fd spec ms of
        (l, ms1) \<Rightarrow>
          (case list_models read fd current rest ms1 of
             (ls, ms2) \<Rightarrow>
               (\<lparr>bm_id = mid, bm_label = lab, bm_default = is_other spec (md_default ms),
                 bm_current = is_other spec current, bm_listing = l\<rparr> # ls, ms2)))"

definition bundled_models ::
  "(string \<Rightarrow> string + 'f modelfile) \<Rightarrow> (spec \<Rightarrow> found) \<Rightarrow> models \<Rightarrow> bundled_model list \<times> models" where
  "bundled_models read fd ms = list_models read fd (current_model read ms) bundled ms"

text \<open>The status of the engines: what is picked, what would run, what is there and what there is to pick.\<close>

record engines_status =
  es_tag :: string
  es_pick :: string
  es_auto :: engine
  es_engine :: engine
  es_installed :: "installed option"
  es_needs_download :: bool
  es_override :: "string option"
  es_download :: install_state
  es_gpus :: "gpu list"
  es_driver :: "string option"
  es_engines :: "choice list"

definition describe_engines :: "builds \<Rightarrow> engine option \<Rightarrow> string option \<Rightarrow> hardware \<Rightarrow> engines \<Rightarrow> engines_status" where
  "describe_engines bs pick llama_env hw en =
     (let cs = engine_choices hw bs (en_failures en);
          engine = engine_to_run pick hw cs;
          inst = store_installed (en_folder en)
      in \<lparr>es_tag = bs_tag bs,
          es_pick = (case pick of Some e \<Rightarrow> engine_name e | None \<Rightarrow> ''auto''),
          es_auto = auto_engine hw cs,
          es_engine = engine,
          es_installed = inst,
          es_needs_download = (\<not> is_bundled engine \<and>
            \<not> (case inst of Some i \<Rightarrow> in_engine i = engine \<and> in_tag i = bs_tag bs | None \<Rightarrow> False)),
          es_override = (case llama_env of Some p \<Rightarrow> if p = '''' then None else Some p | None \<Rightarrow> None),
          es_download = jb_state (en_job en),
          es_gpus = hw_gpus hw,
          es_driver = hw_driver hw,
          es_engines = cs\<rparr>)"

lemma list_models_current:
  "map (\<lambda>b. (bm_id b, bm_label b, bm_current b)) (fst (list_models read fd current ids ms)) =
     map (\<lambda>(mid, lab). (mid, lab, is_other (modelfile_spec (read mid)) current)) ids"
  by (induction read fd current ids ms rule: list_models.induct) (auto simp: Let_def split: prod.split)

lemma is_other_unique: "is_other spec current \<Longrightarrow> is_other spec' current \<Longrightarrow> spec = spec'"
  by (auto simp: is_other_def ok_def split: sum.splits)

lemma one_other:
  "distinct (map f ids) \<Longrightarrow> length (filter (\<lambda>x. is_other (f x) current) ids) \<le> 1"
proof (induction ids)
  case (Cons x ids)
  show ?case
  proof (cases "is_other (f x) current")
    case True
    have "\<not> is_other (f y) current" if "y \<in> set ids" for y
      using Cons.prems that is_other_unique [OF True] by auto
    with True show ?thesis by (simp add: filter_False)
  qed (use Cons in simp)
qed simp

text \<open>At most one of the listed models is marked as the current one, as long as no two Modelfiles name the same.\<close>

lemma one_current_model:
  assumes "distinct (map (\<lambda>(mid, _). modelfile_spec (read mid)) bundled)"
  shows "length (filter bm_current (fst (bundled_models read fd ms))) \<le> 1"
proof -
  let ?bs = "fst (bundled_models read fd ms)"
  have "map bm_current ?bs = map (\<lambda>(mid, _). is_other (modelfile_spec (read mid)) (current_model read ms)) bundled"
    using arg_cong [OF list_models_current, of "map (snd \<circ> snd)" read fd "current_model read ms" bundled ms]
    by (simp add: bundled_models_def comp_def case_prod_unfold)
  then have "length (filter id (map bm_current ?bs)) =
      length (filter id (map (\<lambda>(mid, _). is_other (modelfile_spec (read mid)) (current_model read ms)) bundled))" by simp
  then have "length (filter bm_current ?bs) =
      length (filter (\<lambda>x. is_other (modelfile_spec (read (fst x))) (current_model read ms)) bundled)"
    by (simp add: filter_map comp_def case_prod_unfold)
  then show ?thesis
    using one_other [of "\<lambda>x. modelfile_spec (read (fst x))" bundled "current_model read ms"] assms
    by (simp add: case_prod_unfold)
qed

text \<open>Nothing is offered once the engine that would run is the one that is there.\<close>

lemma installed_needs_no_download:
  assumes "engines_of (en_folder en) = {i}"
    and "in_engine i = engine_to_run pick hw (engine_choices hw bs (en_failures en))" and "in_tag i = bs_tag bs"
  shows "\<not> es_needs_download (describe_engines bs pick llama_env hw en)"
proof -
  have "store_installed (en_folder en) \<noteq> None" using assms(1) by (simp add: store_installed_None)
  then have "store_installed (en_folder en) = Some i"
    using assms(1) store_installed_in by fastforce
  then show ?thesis using assms(2,3) by (simp add: describe_engines_def Let_def)
qed

end
