(* ===== verification/Folders.thy ===== *)
theory Folders
  imports Config
begin

text \<open>
  The folders Tiles keeps its files in and the file of its configuration (the rest of
  \<open>utils/config.rs\<close>): where they are, making them, the configuration as a table, what is derived
  from it, and the writing of the file as calls of the file system that other writers come in between of. The
  environment and what can be created are arguments.
\<close>

section \<open>Where the folders are\<close>

text \<open>The environment: a build for development, the current folder (and if it can be told), the home folder,
  the variables and the running program.\<close>

record env =
  ev_debug :: bool
  ev_cwd :: path
  ev_cwd_told :: bool
  ev_home :: "path option"
  ev_xdg_config :: "string option"
  ev_xdg_data :: "string option"
  ev_exe :: "path option"

definition dev_dir :: "env \<Rightarrow> string + path" where
  "dev_dir ev =
     (if ev_cwd_told ev then Inr (ev_cwd ev @ [''.tiles_dev'', ''tiles'']) else Inl ''Failed to fetch CURRENT_DIR'')"

definition home_dir :: "env \<Rightarrow> string + path" where
  "home_dir ev = ok_or ''Failed to fetch $HOME'' (ev_home ev)"

definition get_config_dir :: "env \<Rightarrow> string + path" where
  "get_config_dir ev =
     (if ev_debug ev then dev_dir ev
      else res_bind (home_dir ev) (\<lambda>home.
        Inr ((case ev_xdg_config ev of Some v \<Rightarrow> to_path (ev_cwd ev) v | None \<Rightarrow> home @ [''.config'']) @ [''tiles''])))"

definition get_data_dir :: "env \<Rightarrow> string + path" where
  "get_data_dir ev =
     (if ev_debug ev then dev_dir ev
      else res_bind (home_dir ev) (\<lambda>home.
        Inr ((case ev_xdg_data ev of Some v \<Rightarrow> to_path (ev_cwd ev) v | None \<Rightarrow> home @ [''.local'', ''share'']) @ [''tiles''])))"

definition get_lib_dir :: "env \<Rightarrow> files \<Rightarrow> string + path" where
  "get_lib_dir ev fs =
     (if ev_debug ev then dev_dir ev
      else
        (case Option.bind (ev_exe ev) parent of
           Some d \<Rightarrow>
             if is_tiles_lib_dir fs d then Inr d
             else if is_tiles_lib_dir fs system_lib_dir then Inr system_lib_dir
             else res_bind (get_data_dir ev) (\<lambda>d. Inr (if is_tiles_lib_dir fs d then d else system_lib_dir))
         | None \<Rightarrow>
             if is_tiles_lib_dir fs system_lib_dir then Inr system_lib_dir
             else res_bind (get_data_dir ev) (\<lambda>d. Inr (if is_tiles_lib_dir fs d then d else system_lib_dir))))"

definition get_user_bin_dir :: "env \<Rightarrow> string + path" where
  "get_user_bin_dir ev = res_bind (home_dir ev) (\<lambda>home. Inr (home @ [''.local'', ''bin'']))"

definition get_user_bin_path :: "env \<Rightarrow> string + path" where
  "get_user_bin_path ev = res_bind (get_user_bin_dir ev) (\<lambda>d. Inr (d @ [''tiles'']))"

definition get_default_memory_path :: "env \<Rightarrow> string + path" where
  "get_default_memory_path ev = res_bind (get_data_dir ev) (\<lambda>d. Inr (d @ [''memory'']))"

definition get_app_name :: "env \<Rightarrow> string" where
  "get_app_name ev = (if ev_debug ev then ''tiles_dev'' else ''tiles'')"

section \<open>Making them\<close>

text \<open>\<open>can\<close> is what can be created. A folder is made with those above it, a file needs its folder.\<close>

type_synonym maker = "files \<Rightarrow> (string + unit) \<times> files"

definition make_dir :: "(path \<Rightarrow> bool) \<Rightarrow> path \<Rightarrow> maker" where
  "make_dir can p fs =
     (if path_exists fs p \<or> p = [] \<or> \<not> can p \<or> \<not> (butlast p = [] \<or> is_dir fs (butlast p))
      then (Inl ''could not create the folder'', fs) else (Inr (), (p, DirNode) # fs))"

definition make_file :: "(path \<Rightarrow> bool) \<Rightarrow> path \<Rightarrow> maker" where
  "make_file can p fs =
     (if is_dir fs p \<or> p = [] \<or> \<not> can p \<or> \<not> (butlast p = [] \<or> is_dir fs (butlast p))
      then (Inl ''could not create the file'', fs)
      else (Inr (), if path_exists fs p then fs else (p, FileNode) # fs))"

definition also_make :: "maker \<Rightarrow> maker \<Rightarrow> maker" where
  "also_make f g fs = (case f fs of (Inl e, fs') \<Rightarrow> (Inl e, fs') | (Inr _, fs') \<Rightarrow> g fs')"

definition make_unless :: "path \<Rightarrow> maker \<Rightarrow> maker" where
  "make_unless p f fs = (if path_exists fs p then (Inr (), fs) else f fs)"

fun make_dirs :: "(path \<Rightarrow> bool) \<Rightarrow> path \<Rightarrow> path \<Rightarrow> maker" where
  "make_dirs can at [] fs = (Inr (), fs)"
| "make_dirs can at (n # ns) fs =
     also_make (\<lambda>fs. if is_dir fs (at @ [n]) then (Inr (), fs) else make_dir can (at @ [n]) fs)
       (make_dirs can (at @ [n]) ns) fs"

definition create_dir_all :: "(path \<Rightarrow> bool) \<Rightarrow> path \<Rightarrow> maker" where
  "create_dir_all can p = make_dirs can [] p"

definition get_or_create_config_dir :: "(path \<Rightarrow> bool) \<Rightarrow> env \<Rightarrow> files \<Rightarrow> (string + path) \<times> files" where
  "get_or_create_config_dir can ev fs =
     (case get_config_dir ev of
        Inl e \<Rightarrow> (Inl e, fs)
      | Inr d \<Rightarrow>
          (case make_unless d (create_dir_all can d) fs of
             (Inl _, fs) \<Rightarrow> (Inl ''Failed to create config directory'', fs)
           | (Inr _, fs) \<Rightarrow> (Inr d, fs)))"

definition get_or_create_data_dir :: "(path \<Rightarrow> bool) \<Rightarrow> env \<Rightarrow> files \<Rightarrow> (string + path) \<times> files" where
  "get_or_create_data_dir can ev fs =
     (case get_data_dir ev of
        Inl e \<Rightarrow> (Inl e, fs)
      | Inr d \<Rightarrow>
          (case make_unless d (create_dir_all can d) fs of
             (Inl _, fs) \<Rightarrow> (Inl ''Failed to create data directory'', fs)
           | (Inr _, fs) \<Rightarrow>
               (case also_make
                  (make_unless (d @ [''logs''])
                    (also_make (make_dir can (d @ [''logs'']))
                      (also_make (make_file can (d @ [''logs'', ''server.out.log'']))
                        (make_file can (d @ [''logs'', ''server.err.log''])))))
                  (make_unless (d @ [''data'']) (create_dir_all can (d @ [''data'', ''memory'']))) fs of
                  (Inl e, fs) \<Rightarrow> (Inl e, fs)
                | (Inr _, fs) \<Rightarrow> (Inr d, fs))))"

definition create_default_memory_folder :: "(path \<Rightarrow> bool) \<Rightarrow> env \<Rightarrow> files \<Rightarrow> (string + path) \<times> files" where
  "create_default_memory_folder can ev fs =
     (case get_default_memory_path ev of
        Inl e \<Rightarrow> (Inl e, fs)
      | Inr p \<Rightarrow>
          (case create_dir_all can p fs of
             (Inl _, fs) \<Rightarrow> (Inl ''Failed to create tiles user data directory'', fs)
           | (Inr _, fs) \<Rightarrow> (Inr p, fs)))"

section \<open>The configuration as a table\<close>

text \<open>\<open>file\<close> is what the file holds: nothing as it is not there, no table, or a table.\<close>

definition init_table :: toml_table where
  "init_table = [''root-user'' \<mapsto> TTable [''id'' \<mapsto> TStr '''', ''nickname'' \<mapsto> TStr ''''],
     ''data'' \<mapsto> TTable [''path'' \<mapsto> TStr '''']]"

definition get_or_create_config ::
  "string + path \<Rightarrow> string + unit \<Rightarrow> (string + toml_table) option
     \<Rightarrow> (string + toml_table) \<times> (string + toml_table) option" where
  "get_or_create_config config_dir write file =
     (case config_dir of
        Inl e \<Rightarrow> (Inl e, file)
      | Inr _ \<Rightarrow>
          (case file of
             Some r \<Rightarrow> (r, file)
           | None \<Rightarrow> (case write of Inl e \<Rightarrow> (Inl e, file) | Inr _ \<Rightarrow> (Inr init_table, Some (Inr init_table)))))"

text \<open>The folder of the user's data. \<open>None\<close> is a panic: the code expects the section and its key.\<close>

definition get_user_data_dir :: "env \<Rightarrow> string + toml_table \<Rightarrow> (string + path) option" where
  "get_user_data_dir ev config =
     (case config of
        Inl e \<Rightarrow> Some (Inl e)
      | Inr t \<Rightarrow>
          Option.bind (Option.bind (t ''data'') as_table) (\<lambda>data.
          map_option (\<lambda>v.
            case as_str v of
              None \<Rightarrow> Inl ''Failed to get data path''
            | Some p \<Rightarrow>
                if p = '''' then res_bind (get_data_dir ev) (\<lambda>d. Inr (d @ [''data'']))
                else Inr (to_path (ev_cwd ev) p)) (data ''path'')))"

definition get_memory_path :: "env \<Rightarrow> string + toml_table \<Rightarrow> (string + path) option" where
  "get_memory_path ev config =
     (case config of
        Inl e \<Rightarrow> Some (Inl e)
      | Inr t \<Rightarrow>
          (case t ''data'' of
             None \<Rightarrow> Some (Inl ''memory section doesnt exist'')
           | Some s \<Rightarrow>
               Option.bind (as_table s) (\<lambda>data.
                 case data ''path'' of
                   None \<Rightarrow> Some (Inl ''path doesnt exist (data)'')
                 | Some v \<Rightarrow>
                     map_option (\<lambda>p. if p = '''' then Inl ''NOT SET'' else Inr (to_path (ev_cwd ev) p @ [''memory''])) (as_str v))))"

definition get_or_create_model_download_path ::
  "(path \<Rightarrow> bool) \<Rightarrow> env \<Rightarrow> string + toml_table \<Rightarrow> files \<Rightarrow> (string + path) option \<times> files" where
  "get_or_create_model_download_path can ev config fs =
     (case get_user_data_dir ev config of
        None \<Rightarrow> (None, fs)
      | Some (Inl e) \<Rightarrow> (Some (Inl e), fs)
      | Some (Inr d) \<Rightarrow>
          (case make_unless (d @ model_sub_path) (create_dir_all can (d @ model_sub_path)) fs of
             (Inl e, fs) \<Rightarrow> (Some (Inl e), fs)
           | (Inr _, fs) \<Rightarrow> (Some (Inr (d @ model_sub_path)), fs)))"

section \<open>Folders are made once and nothing is lost\<close>

text \<open>What makes folders keeps everything that is there.\<close>

definition grows :: "maker \<Rightarrow> bool" where
  "grows f \<longleftrightarrow> (\<forall>fs p n. map_of fs p = Some n \<longrightarrow> map_of (snd (f fs)) p = Some n)"

named_theorems grow_intros

lemma growsD: "grows f \<Longrightarrow> map_of fs p = Some n \<Longrightarrow> map_of (snd (f fs)) p = Some n"
  by (simp add: grows_def)

lemma grows_make_dir [grow_intros]: "grows (make_dir can p)"
  by (auto simp: grows_def make_dir_def path_exists_def)

lemma grows_make_file [grow_intros]: "grows (make_file can p)"
  by (auto simp: grows_def make_file_def path_exists_def)

lemma grows_also [grow_intros]:
  assumes "grows f" and "grows g"
  shows "grows (also_make f g)"
  unfolding grows_def
proof (intro allI impI)
  fix fs :: files and p n assume "map_of fs p = Some n"
  with assms(1) have "map_of (snd (f fs)) p = Some n" by (rule growsD)
  with growsD [OF assms(2)] show "map_of (snd (also_make f g fs)) p = Some n"
    by (cases "f fs"; cases "fst (f fs)") (auto simp: also_make_def)
qed

lemma grows_unless [grow_intros]: "grows f \<Longrightarrow> grows (make_unless p f)"
  by (auto simp: grows_def make_unless_def)

lemma grows_return [grow_intros]: "grows (\<lambda>fs. (Inr (), fs))"
  by (simp add: grows_def)

lemma grows_if [grow_intros]: "grows f \<Longrightarrow> grows (\<lambda>fs. if b fs then (Inr (), fs) else f fs)"
  by (auto simp: grows_def)

lemma grows_make_dirs [grow_intros]: "grows (make_dirs can at ns)"
proof (induction ns arbitrary: at)
  case (Cons n ns)
  have "grows (also_make (\<lambda>fs. if is_dir fs (at @ [n]) then (Inr (), fs) else make_dir can (at @ [n]) fs)
      (make_dirs can (at @ [n]) ns))"
    by (intro grow_intros Cons.IH)
  moreover have "make_dirs can at (n # ns) =
      also_make (\<lambda>fs. if is_dir fs (at @ [n]) then (Inr (), fs) else make_dir can (at @ [n]) fs) (make_dirs can (at @ [n]) ns)"
    by (rule ext) simp
  ultimately show ?case by simp
qed (simp add: grows_def)

lemma grows_create_dir_all [grow_intros]: "grows (create_dir_all can p)"
  unfolding create_dir_all_def by (rule grow_intros)

lemma grows_exists: "grows f \<Longrightarrow> path_exists fs p \<Longrightarrow> path_exists (snd (f fs)) p"
  by (auto simp: grows_def path_exists_def)

text \<open>What is there once it went through.\<close>

definition provides :: "path \<Rightarrow> maker \<Rightarrow> bool" where
  "provides p f \<longleftrightarrow> (\<forall>fs. fst (f fs) = Inr () \<longrightarrow> path_exists (snd (f fs)) p)"

lemma provides_make_dir: "provides p (make_dir can p)"
  by (auto simp: provides_def make_dir_def path_exists_def)

lemma provides_unless: "provides p f \<Longrightarrow> provides p (make_unless p f)"
  by (auto simp: provides_def make_unless_def)

lemma provides_first:
  assumes "provides p f" and "grows g"
  shows "provides p (also_make f g)"
  unfolding provides_def
proof (intro allI impI)
  fix fs :: files assume *: "fst (also_make f g fs) = Inr ()"
  then have "fst (f fs) = Inr ()" by (auto simp: also_make_def split: prod.splits sum.splits)
  with assms(1) have "path_exists (snd (f fs)) p" by (simp add: provides_def)
  with grows_exists [OF assms(2)] \<open>fst (f fs) = Inr ()\<close> show "path_exists (snd (also_make f g fs)) p"
    by (auto simp: also_make_def split: prod.splits)
qed

lemma provides_second: "provides p g \<Longrightarrow> provides p (also_make f g)"
  by (auto simp: provides_def also_make_def split: prod.splits sum.splits)

lemma provides_make_dirs: "ns \<noteq> [] \<Longrightarrow> provides (at @ ns) (make_dirs can at ns)"
proof (induction ns arbitrary: at)
  case (Cons n ns)
  have eq: "make_dirs can at (n # ns) =
      also_make (\<lambda>fs. if is_dir fs (at @ [n]) then (Inr (), fs) else make_dir can (at @ [n]) fs) (make_dirs can (at @ [n]) ns)"
    by (rule ext) simp
  show ?case
  proof (cases "ns = []")
    case True
    have "provides (at @ [n]) (\<lambda>fs. if is_dir fs (at @ [n]) then (Inr (), fs) else make_dir can (at @ [n]) fs)"
      using provides_make_dir [of "at @ [n]" can] by (auto simp: provides_def is_dir_def path_exists_def)
    from provides_first [OF this grows_make_dirs] show ?thesis unfolding eq using True by simp
  next
    case False
    with Cons.IH [of "at @ [n]"] show ?thesis unfolding eq by (auto intro: provides_second)
  qed
qed simp

lemma provides_create_dir_all: "p \<noteq> [] \<Longrightarrow> provides p (create_dir_all can p)"
  using provides_make_dirs [of p "[]"] by (simp add: create_dir_all_def)

text \<open>A folder above one that is made is there too.\<close>

lemma provides_above: "ns \<noteq> [] \<Longrightarrow> provides (at @ ns) (make_dirs can at (ns @ ms))"
proof (induction ns arbitrary: at)
  case (Cons n ns)
  have eq: "make_dirs can at (n # ns @ ms) =
      also_make (\<lambda>fs. if is_dir fs (at @ [n]) then (Inr (), fs) else make_dir can (at @ [n]) fs)
        (make_dirs can (at @ [n]) (ns @ ms))"
    by (rule ext) simp
  show ?case
  proof (cases "ns = []")
    case True
    have "provides (at @ [n]) (\<lambda>fs. if is_dir fs (at @ [n]) then (Inr (), fs) else make_dir can (at @ [n]) fs)"
      using provides_make_dir [of "at @ [n]" can] by (auto simp: provides_def is_dir_def path_exists_def)
    from provides_first [OF this grows_make_dirs] show ?thesis using True eq by simp
  next
    case False
    with Cons.IH [of "at @ [n]"] show ?thesis using eq by (auto intro: provides_second)
  qed
qed simp

lemma get_data_dir_nonempty: "get_data_dir ev = Inr d \<Longrightarrow> d \<noteq> []"
  by (auto simp: get_data_dir_def dev_dir_def res_bind_def split: if_splits sum.splits)

text \<open>The steps after the folder itself.\<close>

definition data_dir_steps :: "(path \<Rightarrow> bool) \<Rightarrow> path \<Rightarrow> maker" where
  "data_dir_steps can d =
     also_make
       (make_unless (d @ [''logs''])
         (also_make (make_dir can (d @ [''logs'']))
           (also_make (make_file can (d @ [''logs'', ''server.out.log'']))
             (make_file can (d @ [''logs'', ''server.err.log''])))))
       (make_unless (d @ [''data'']) (create_dir_all can (d @ [''data'', ''memory''])))"

lemma grows_data_dir_steps: "grows (data_dir_steps can d)"
  unfolding data_dir_steps_def by (intro grow_intros)

lemma data_dir_steps_provide: "provides (d @ [''logs'']) (data_dir_steps can d)" "provides (d @ [''data'']) (data_dir_steps can d)"
proof -
  have logs: "provides (d @ [''logs'']) (make_unless (d @ [''logs''])
         (also_make (make_dir can (d @ [''logs'']))
           (also_make (make_file can (d @ [''logs'', ''server.out.log'']))
             (make_file can (d @ [''logs'', ''server.err.log''])))))"
    by (intro provides_unless provides_first provides_make_dir grow_intros)
  show "provides (d @ [''logs'']) (data_dir_steps can d)"
    unfolding data_dir_steps_def by (rule provides_first [OF logs]) (intro grow_intros)
  have "provides (d @ [''data'']) (create_dir_all can (d @ [''data'', ''memory'']))"
    using provides_above [of "d @ [''data'']" "[]" can "[''memory'']"] by (simp add: create_dir_all_def)
  then show "provides (d @ [''data'']) (data_dir_steps can d)"
    unfolding data_dir_steps_def by (intro provides_second provides_unless)
qed

text \<open>Where it succeeds, making the folder of the data leaves it with its logs and its data, keeps every file
  that was there as it was, and has nothing to do the next time, whatever can be created then.\<close>

theorem data_dir_ready:
  assumes "get_or_create_data_dir can ev fs = (Inr d, fs')"
  shows "path_exists fs' d \<and> path_exists fs' (d @ [''logs'']) \<and> path_exists fs' (d @ [''data'']) \<and>
    (\<forall>p n. map_of fs p = Some n \<longrightarrow> map_of fs' p = Some n) \<and>
    get_or_create_data_dir can' ev fs' = (Inr d, fs')"
proof -
  let ?f = "make_unless d (create_dir_all can d)" and ?g = "data_dir_steps can d"
  have dir: "get_data_dir ev = Inr d"
    using assms by (auto simp: get_or_create_data_dir_def split: sum.splits prod.splits)
  obtain fs1 where one: "?f fs = (Inr (), fs1)" and two: "?g fs1 = (Inr (), fs')"
    using assms dir by (auto simp: get_or_create_data_dir_def data_dir_steps_def split: sum.splits prod.splits)
  have there: "path_exists fs1 d"
    using provides_unless [OF provides_create_dir_all [OF get_data_dir_nonempty [OF dir]], of can] one
    by (auto simp: provides_def dest: spec [of _ fs])
  have "path_exists fs' d" using grows_exists [OF grows_data_dir_steps there, of can d] two by simp
  moreover have "path_exists fs' (d @ [''logs''])" "path_exists fs' (d @ [''data''])"
    using data_dir_steps_provide [of d can] two by (auto simp: provides_def dest: spec [of _ fs1])
  moreover have "map_of fs' p = Some n" if "map_of fs p = Some n" for p n
  proof -
    have "grows ?f" by (intro grow_intros)
    from growsD [OF this that] one have "map_of fs1 p = Some n" by simp
    from growsD [OF grows_data_dir_steps this, of can d] two show ?thesis by simp
  qed
  ultimately show ?thesis
    using dir by (simp add: get_or_create_data_dir_def make_unless_def also_make_def)
qed

section \<open>Writing the configuration\<close>

text \<open>Files are numbered: what \<open>config.toml\<close> and \<open>config.tmp.toml\<close> are, if they are there, and for each writer
  the file it has open and its place in it. A file that is renamed is still the same for who has it open.\<close>

record disk =
  dk_text :: "nat \<Rightarrow> string"
  dk_next :: nat
  dk_config :: "nat option"
  dk_tmp :: "nat option"
  dk_open :: "nat \<Rightarrow> (nat \<times> nat) option"

datatype write_op = OpenTmp | Put string | MoveTmp

definition put_at :: "nat \<Rightarrow> string \<Rightarrow> string \<Rightarrow> string" where
  "put_at n s old = take n old @ replicate (n - length old) (CHR 0x00) @ s @ drop (n + length s) old"

fun write_step :: "nat \<times> write_op \<Rightarrow> disk \<Rightarrow> disk" where
  "write_step (w, OpenTmp) d =
     (case dk_tmp d of
        Some i \<Rightarrow> d\<lparr>dk_text := (dk_text d)(i := ''''), dk_open := (dk_open d)(w \<mapsto> (i, 0))\<rparr>
      | None \<Rightarrow>
          let i = dk_next d in
          d\<lparr>dk_text := (dk_text d)(i := ''''), dk_next := Suc i, dk_tmp := Some i, dk_open := (dk_open d)(w \<mapsto> (i, 0))\<rparr>)"
| "write_step (w, Put s) d =
     (case dk_open d w of
        Some (i, n) \<Rightarrow>
          d\<lparr>dk_text := (dk_text d)(i := put_at n s (dk_text d i)), dk_open := (dk_open d)(w \<mapsto> (i, n + length s))\<rparr>
      | None \<Rightarrow> d)"
| "write_step (w, MoveTmp) d =
     (case dk_tmp d of Some i \<Rightarrow> d\<lparr>dk_config := Some i, dk_tmp := None\<rparr> | None \<Rightarrow> d)"

text \<open>What \<open>save_config\<close> does: the text goes to the temporary file in any number of pieces.\<close>

definition save_config :: "string list \<Rightarrow> write_op list" where
  "save_config pieces = OpenTmp # map Put pieces @ [MoveTmp]"

definition by_writer :: "nat \<Rightarrow> write_op list \<Rightarrow> (nat \<times> write_op) list" where
  "by_writer w ops = map (\<lambda>op. (w, op)) ops"

definition config_text :: "disk \<Rightarrow> string option" where
  "config_text d = map_option (dk_text d) (dk_config d)"








definition old_config :: disk where
  "old_config = \<lparr>dk_text = (\<lambda>_. ''old''), dk_next = 1, dk_config = Some 0, dk_tmp = None, dk_open = (\<lambda>_. None)\<rparr>"


text \<open>Two writers share the temporary file: one of them empties it as the other puts it in place, and what readers see
  is an empty configuration. Its writer then fails to put it in place.\<close>

lemma two_writers_meet:
  "\<exists>ops. filter (\<lambda>x. fst x = 0) ops = by_writer 0 (save_config [''new'']) \<and>
     filter (\<lambda>x. fst x = 1) ops = by_writer 1 (save_config [''other'']) \<and>
     config_text (fold write_step (take 4 ops) old_config) = Some '''' \<and> config_text old_config = Some ''old''"
  by (rule exI [of _ "[(0, OpenTmp), (0, Put ''new''), (1, OpenTmp), (0, MoveTmp), (1, Put ''other''), (1, MoveTmp)]"])
    (simp add: save_config_def by_writer_def config_text_def old_config_def put_at_def)

section \<open>What is derived from it\<close>

definition get_inference_config :: "config_file \<Rightarrow> (string + bool option) \<times> config_file" where
  "get_inference_config f =
     (case get_or_create_root_config f of (r, f) \<Rightarrow> (res_bind r (\<lambda>rc. Inr (rc_inference rc)), f))"

definition get_ui_config :: "config_file \<Rightarrow> (string + bool option) \<times> config_file" where
  "get_ui_config f =
     (case get_or_create_root_config f of
        (r, f) \<Rightarrow> (res_bind r (\<lambda>rc. Inr (case rc_ui rc of Some menubar \<Rightarrow> menubar | None \<Rightarrow> None)), f))"

definition get_config_json :: "config_file \<Rightarrow> (string + root_config) \<times> config_file" where
  "get_config_json f =
     (case get_or_create_root_config f of
        (r, f) \<Rightarrow>
          (res_bind r (\<lambda>rc. Inr (rc\<lparr>rc_llama :=
             Some (with_defaults (case rc_llama rc of Some l \<Rightarrow> l | None \<Rightarrow> llama_default))\<rparr>)), f))"

definition get_pi_context_window :: "config_file \<Rightarrow> nat option \<times> config_file" where
  "get_pi_context_window f =
     (case get_llama_config f of
        (Inr l, f) \<Rightarrow> (ll_context_length l, f) | (Inl _, f) \<Rightarrow> (None, f))"

definition show_cache_error :: "model_cache_error \<Rightarrow> string" where
  "show_cache_error e =
     (case e of InvalidSpec \<Rightarrow> ''Model spec should look like owner/repo'' | NotCached \<Rightarrow> ''Model is not downloaded'')"

definition is_memory_model :: "string \<Rightarrow> bool" where
  "is_memory_model name \<longleftrightarrow> text_after ''mem'' name \<noteq> None"

text \<open>The agent's settings, as far as Tiles knows them: whether it shortens long chats, and how long it thinks. What
  the file holds is missing, not readable as settings, or the two and the keys Tiles doesn't know. A level of
  thinking is its name.\<close>

record pi_settings =
  ps_compaction :: "bool option"
  ps_thinking :: "string option"

definition default_settings :: pi_settings where
  "default_settings = \<lparr>ps_compaction = Some False, ps_thinking = Some ''medium''\<rparr>"

definition handle_pi_settings_config ::
  "(string + unit) \<Rightarrow> (string + pi_settings \<times> string list) option
     \<Rightarrow> (string + unit) \<times> (string + pi_settings \<times> string list) option" where
  "handle_pi_settings_config write file =
     (case (case file of None \<Rightarrow> Inr default_settings | Some (Inl e) \<Rightarrow> Inl e | Some (Inr (s, _)) \<Rightarrow> Inr s) of
        Inl e \<Rightarrow> (Inl ''Failed to parse to settings'', file)
      | Inr s \<Rightarrow>
          let s = (if ps_compaction s = None then s\<lparr>ps_compaction := Some False\<rparr> else s) in
          (case write of Inl e \<Rightarrow> (Inl ''Failed to write to Pi settings.json'', file) | Inr _ \<Rightarrow> (Inr (), Some (Inr (s, [])))))"

text \<open>Settings that were made by hand stay, the others get Tiles' own; keys Tiles doesn't know are lost.\<close>

lemma pi_settings_kept:
  "handle_pi_settings_config (Inr ()) (Some (Inr (s, other))) = (Inr (), Some (Inr (s', other'))) \<Longrightarrow>
     ps_thinking s' = ps_thinking s \<and> (ps_compaction s \<noteq> None \<longrightarrow> s' = s) \<and> ps_compaction s' \<noteq> None \<and> other' = []"
  by (auto simp: handle_pi_settings_config_def Let_def split: if_splits)

text \<open>The model server gets the same settings of llama.cpp as the rest of the program.\<close>

lemma config_json_llama:
  assumes "fst (get_config_json f) = Inr rc"
  shows "fst (get_llama_config f) = Inr (the (rc_llama rc))"
  using assms
  by (cases f) (auto simp: get_config_json_def get_llama_config_def get_or_create_root_config_def res_bind_def)

text \<open>A variable that is set but empty is not as if it was unset: the folder is then under the current one.\<close>

lemma empty_variable:
  "\<not> ev_debug ev \<Longrightarrow> ev_home ev = Some h \<Longrightarrow> ev_xdg_data ev = Some '''' \<Longrightarrow> get_data_dir ev = Inr (ev_cwd ev @ [''tiles''])"
  by (simp add: get_data_dir_def home_dir_def to_path_def starts_with_def)

text \<open>What readers saw of the two writers, a configuration with nothing in it, makes them panic.\<close>

lemma empty_config_panics: "get_user_data_dir ev (Inr Map.empty) = None"
  by (simp add: get_user_data_dir_def)

end
