(* ===== verification/Storage.thy ===== *)
theory Storage
  imports Agent Chats Folders
begin

text \<open>
  Keys and databases: the secrets in the system's keyring (\<open>core/account/mod.rs\<close>), the key the databases are
  encrypted with, opening them, and the migrations that change rows (\<open>core/storage/db.rs\<close>).
  The keyring is a map from an application and a name to bytes; if it can be read and written at the moment, random
  bytes and the arithmetic of keys are arguments.
\<close>

section \<open>The keyring\<close>

type_synonym ring = "string \<times> string \<Rightarrow> string option"

text \<open>If the store is there, and if its entries can be read and written, as it may be locked.\<close>

record ring_state =
  rs_store :: bool
  rs_reads :: bool
  rs_writes :: bool

definition get_secret :: "ring_state \<Rightarrow> ring \<Rightarrow> string \<Rightarrow> string \<Rightarrow> string + string" where
  "get_secret rs ring app key =
     (if \<not> rs_store rs \<or> \<not> rs_reads rs then Inl ''the keyring can't be read''
      else ok_or ''No matching entry found in secure storage'' (ring (app, key)))"

definition set_secret :: "ring_state \<Rightarrow> string \<Rightarrow> string \<Rightarrow> string \<Rightarrow> ring \<Rightarrow> (string + unit) \<times> ring" where
  "set_secret rs app key secret ring =
     (if \<not> rs_store rs \<or> \<not> rs_writes rs then (Inl ''the keyring can't be written'', ring)
      else (Inr (), ring((app, key) \<mapsto> secret)))"

text \<open>The arithmetic of keys: the DID of a seed, its pair of keys, and the seed of a pair.\<close>

record key_arith =
  ka_did :: "string \<Rightarrow> string"
  ka_pair :: "string \<Rightarrow> string"
  ka_seed :: "string \<Rightarrow> string option"

definition create_identity :: "key_arith \<Rightarrow> ring_state \<Rightarrow> string \<Rightarrow> string \<Rightarrow> ring \<Rightarrow> (string + string) \<times> ring" where
  "create_identity K rs seed app ring =
     (case set_secret rs app (ka_did K seed) (ka_pair K seed) ring of
        (Inl e, ring') \<Rightarrow> (Inl e, ring') | (Inr _, ring') \<Rightarrow> (Inr (ka_did K seed), ring'))"

text \<open>\<open>None\<close> is a panic: a secret that is not of 64 bytes can't be copied to the array.\<close>

definition get_secret_key :: "key_arith \<Rightarrow> ring_state \<Rightarrow> ring \<Rightarrow> string \<Rightarrow> string \<Rightarrow> (string + string) option" where
  "get_secret_key K rs ring app did =
     (case get_secret rs ring app did of
        Inl e \<Rightarrow> Some (Inl e)
      | Inr pair \<Rightarrow> if length pair \<noteq> 64 then None else Some (ok_or ''not a pair of keys'' (ka_seed K pair)))"

definition hex_byte :: "char \<Rightarrow> string" where
  "hex_byte c = (let n = (of_char c :: nat) in [hex_char (n div 16), hex_char (n mod 16)])"

definition to_hex :: "string \<Rightarrow> string" where
  "to_hex bytes = concat (map hex_byte bytes)"

definition create_and_save_passkey ::
  "ring_state \<Rightarrow> string \<Rightarrow> string \<Rightarrow> string \<Rightarrow> ring \<Rightarrow> (string + string) \<times> ring" where
  "create_and_save_passkey rs rand app key ring =
     (case set_secret rs app key rand ring of
        (Inl e, ring') \<Rightarrow> (Inl e, ring') | (Inr _, ring') \<Rightarrow> (Inr (to_hex rand), ring'))"

definition get_passkey :: "ring_state \<Rightarrow> ring \<Rightarrow> string \<Rightarrow> string \<Rightarrow> string + string" where
  "get_passkey rs ring app key = res_bind (get_secret rs ring app key) (\<lambda>b. Inr (to_hex b))"

text \<open>The key of the databases; \<open>dev\<close> is the variable a build for development takes it from.\<close>

definition fetch_passkey ::
  "env \<Rightarrow> string option \<Rightarrow> ring_state \<Rightarrow> string \<Rightarrow> ring \<Rightarrow> (string + string) \<times> ring" where
  "fetch_passkey ev dev rs rand ring =
     (if ev_debug ev
      then (case dev of
              Some p \<Rightarrow> (Inr p, ring)
            | None \<Rightarrow> create_and_save_passkey rs rand (get_app_name ev) ''db_passkey'' ring)
      else
        (case get_passkey rs ring (get_app_name ev) ''db_passkey'' of
           Inr p \<Rightarrow> (Inr p, ring)
         | Inl _ \<Rightarrow> create_and_save_passkey rs rand (get_app_name ev) ''db_passkey'' ring))"

section \<open>Opening the databases\<close>

datatype db_type = CommonDb | ChatDb

definition get_db_path :: "(string + path) option \<Rightarrow> db_type \<Rightarrow> (string + path) option" where
  "get_db_path user_data_dir t =
     map_option (\<lambda>r. res_bind r (\<lambda>d. Inr (d @ [case t of CommonDb \<Rightarrow> ''common_v2.db'' | ChatDb \<Rightarrow> ''chats_v2.db''])))
       user_data_dir"

text \<open>The two files: the key each is encrypted with, \<open>None\<close> if there is no file yet. A file takes the first key it
  is opened with, and only opens with that one again.\<close>

type_synonym db_files = "db_type \<Rightarrow> string option"

definition get_db_conn ::
  "env \<Rightarrow> string option \<Rightarrow> ring_state \<Rightarrow> string \<Rightarrow> db_type \<Rightarrow> ring \<times> db_files \<Rightarrow> (string + unit) \<times> ring \<times> db_files" where
  "get_db_conn ev dev rs rand t rf =
     (case fetch_passkey ev dev rs rand (fst rf) of
        (Inl e, ring) \<Rightarrow> (Inl e, ring, snd rf)
      | (Inr key, ring) \<Rightarrow>
          (case snd rf t of
             None \<Rightarrow> (Inr (), ring, (snd rf)(t \<mapsto> key))
           | Some k \<Rightarrow> if k = key then (Inr (), ring, snd rf) else (Inl ''file is not a database'', ring, snd rf)))"

text \<open>Each opening draws its own random bytes, if it needs them.\<close>

definition init_db ::
  "env \<Rightarrow> string option \<Rightarrow> ring_state \<Rightarrow> string \<times> string \<Rightarrow> ring \<times> db_files \<Rightarrow> (string + unit) \<times> ring \<times> db_files" where
  "init_db ev dev rs rands rf =
     (case get_db_conn ev dev rs (fst rands) ChatDb rf of
        (Inl e, rf) \<Rightarrow> (Inl e, rf)
      | (Inr _, rf) \<Rightarrow> get_db_conn ev dev rs (snd rands) CommonDb rf)"

section \<open>The databases open again\<close>

lemma of_hex_char: "d < 16 \<Longrightarrow> (of_char (hex_char d) :: nat) = (if d < 10 then 48 + d else 87 + d)"
  by (simp add: hex_char_def digit_char_def)

lemma hex_char_inj:
  assumes "m < 16" and "n < 16" and "hex_char m = hex_char n"
  shows "m = n"
proof -
  have "(of_char (hex_char m) :: nat) = of_char (hex_char n)" by (simp add: assms(3))
  then show ?thesis using assms(1,2) by (simp add: of_hex_char split: if_splits)
qed

lemma hex_byte_inj:
  assumes "hex_byte c = hex_byte d"
  shows "c = d"
proof -
  let ?m = "of_char c :: nat" and ?n = "of_char d :: nat"
  have less: "?m < 256" "?n < 256"
    using mod_less_divisor [of 256 ?m] mod_less_divisor [of 256 ?n] by (simp_all only: of_char_mod_256)
  have "hex_char (?m div 16) = hex_char (?n div 16)" "hex_char (?m mod 16) = hex_char (?n mod 16)"
    using assms by (simp_all add: hex_byte_def Let_def)
  moreover have "?m div 16 < 16" "?n div 16 < 16" "?m mod 16 < 16" "?n mod 16 < 16"
    using less by (simp_all add: div_less_iff_less_mult)
  ultimately have "?m div 16 = ?n div 16" "?m mod 16 = ?n mod 16" by (blast intro: hex_char_inj)+
  then have "?m = ?n" by (metis div_mult_mod_eq)
  then show ?thesis by simp
qed

lemma to_hex_inj: "to_hex a = to_hex b \<Longrightarrow> a = b"
proof (induction a arbitrary: b)
  case Nil
  then show ?case by (cases b) (auto simp: to_hex_def hex_byte_def Let_def)
next
  case (Cons c a)
  then obtain d b' where b: "b = d # b'" by (cases b) (auto simp: to_hex_def hex_byte_def Let_def)
  from Cons.prems have "hex_byte c = hex_byte d \<and> to_hex a = to_hex b'"
    by (auto simp: b to_hex_def hex_byte_def Let_def)
  with Cons.IH hex_byte_inj b show ?case by blast
qed

lemma to_hex_length: "length (to_hex bytes) = 2 * length bytes"
  by (induction bytes) (simp_all add: to_hex_def hex_byte_def Let_def)

lemmas keyring_defs = get_secret_def set_secret_def get_passkey_def create_and_save_passkey_def res_bind_def ok_or_def

text \<open>What both files and the keyring are after a start that went through.\<close>

definition keyed :: "env \<Rightarrow> ring \<times> db_files \<Rightarrow> bool" where
  "keyed ev rf \<longleftrightarrow>
     (\<exists>b. fst rf (get_app_name ev, ''db_passkey'') = Some b \<and> (\<forall>t. snd rf t = None \<or> snd rf t = Some (to_hex b)))"

definition working :: ring_state where
  "working = \<lparr>rs_store = True, rs_reads = True, rs_writes = True\<rparr>"

lemma get_db_conn_keyed:
  assumes "\<not> ev_debug ev" and "rs_store rs" and "rs_reads rs" and "keyed ev rf"
  shows "\<exists>rf'. get_db_conn ev dev rs rand t rf = (Inr (), rf') \<and> keyed ev rf' \<and> fst rf' = fst rf \<and> snd rf' t \<noteq> None"
proof -
  obtain b where b: "fst rf (get_app_name ev, ''db_passkey'') = Some b"
    and files: "\<forall>t. snd rf t = None \<or> snd rf t = Some (to_hex b)"
    using assms(4) by (auto simp: keyed_def)
  have "fetch_passkey ev dev rs rand (fst rf) = (Inr (to_hex b), fst rf)"
    using assms(1-3) b by (simp add: fetch_passkey_def keyring_defs)
  with b files show ?thesis
    by (cases rf; cases "snd rf t") (auto simp: keyed_def get_db_conn_def dest: spec [of _ t])
qed

lemma get_db_conn_first:
  assumes "\<not> ev_debug ev" and "rs_store rs" and "rs_reads rs" and "rs_writes rs"
    and "fst rf (get_app_name ev, ''db_passkey'') = None" and "\<forall>t. snd rf t = None"
  shows "\<exists>rf'. get_db_conn ev dev rs rand t rf = (Inr (), rf') \<and> keyed ev rf'"
  using assms
  by (auto simp: keyed_def get_db_conn_def fetch_passkey_def keyring_defs)

text \<open>The first start makes one key for both databases, and every later start opens them with it and leaves
  the keyring as it is, as long as the keyring can be read.\<close>

theorem databases_open:
  assumes "\<not> ev_debug ev" and "rs_store rs" and "rs_reads rs"
    and "keyed ev rf \<or> rs_writes rs \<and> fst rf (get_app_name ev, ''db_passkey'') = None \<and> (\<forall>t. snd rf t = None)"
  shows "\<exists>rf'. init_db ev dev rs rands rf = (Inr (), rf') \<and> keyed ev rf' \<and> (keyed ev rf \<longrightarrow> fst rf' = fst rf)"
proof -
  obtain rf1 where one: "get_db_conn ev dev rs (fst rands) ChatDb rf = (Inr (), rf1)" "keyed ev rf1"
    "keyed ev rf \<longrightarrow> fst rf1 = fst rf"
    using assms(4) get_db_conn_keyed [OF assms(1-3), of rf dev "fst rands" ChatDb]
      get_db_conn_first [OF assms(1-3), of rf dev "fst rands" ChatDb] by blast
  obtain rf2 where "get_db_conn ev dev rs (snd rands) CommonDb rf1 = (Inr (), rf2)" "keyed ev rf2" "fst rf2 = fst rf1"
    using get_db_conn_keyed [OF assms(1-3) one(2), of dev "snd rands" CommonDb] by blast
  with one show ?thesis by (simp add: init_db_def)
qed

text \<open>A keyring that can't be read at the moment is taken for one without the key: if it can be written, its
  key is replaced, and the databases never open again.\<close>

theorem key_is_replaced:
  assumes "\<not> ev_debug ev" and "keyed ev rf" and "\<forall>t. snd rf t \<noteq> None"
    and "fst rf (get_app_name ev, ''db_passkey'') \<noteq> Some (fst rands)"
    and "rs = \<lparr>rs_store = True, rs_reads = False, rs_writes = True\<rparr>"
  shows "\<exists>rf'. init_db ev dev rs rands rf = (Inl ''file is not a database'', rf') \<and>
    fst rf' (get_app_name ev, ''db_passkey'') = Some (fst rands) \<and>
    fst (init_db ev dev working rands' rf') = Inl ''file is not a database''"
proof -
  let ?key = "(get_app_name ev, ''db_passkey'')"
  obtain b where b: "fst rf ?key = Some b" and files: "\<forall>t. snd rf t = Some (to_hex b)"
    using assms(2,3) by (auto simp: keyed_def)
  have other: "to_hex b \<noteq> to_hex (fst rands)" using assms(4) b to_hex_inj by auto
  let ?rf = "((fst rf)(?key \<mapsto> fst rands), snd rf)"
  have "init_db ev dev rs rands rf = (Inl ''file is not a database'', ?rf)"
    using assms(1,5) files other by (simp add: init_db_def get_db_conn_def fetch_passkey_def keyring_defs)
  moreover have "fst (init_db ev dev working rands' ?rf) = Inl ''file is not a database''"
    using assms(1) files other by (simp add: init_db_def get_db_conn_def fetch_passkey_def keyring_defs working_def)
  ultimately show ?thesis by auto
qed

text \<open>An identity that was made can be used: its key is the one that was drawn.\<close>

lemma identity_key:
  assumes "create_identity K rs seed app ring = (Inr did, ring')" and "rs_store rs" and "rs_reads rs"
    and "length (ka_pair K seed) = 64" and "ka_seed K (ka_pair K seed) = Some seed"
  shows "get_secret_key K rs ring' app did = Some (Inr seed)"
  using assms
  by (auto simp: create_identity_def get_secret_key_def keyring_defs split: if_splits)

section \<open>Migrations that change rows\<close>

text \<open>The users get the name as a column that may be empty, and two more unique indexes. The rows are copied to a new
  table; a migration that fails leaves the tables as they were.\<close>

definition users_new_indexes :: "user index list" where
  "users_new_indexes =
     [(''users.id'', \<lambda>u. Some [u_id u]),
      (''users.account_type, users.user_id'', \<lambda>u. Some [account_to_string (u_account u), u_user_id u])]"

fun insert_rows :: "'r index list \<Rightarrow> 'r list \<Rightarrow> 'r list \<Rightarrow> sql_error + 'r list" where
  "insert_rows ixs [] t = Inr t"
| "insert_rows ixs (r # rs) t = res_bind (insert_row ixs r t) (insert_rows ixs rs)"

definition create_unique_index :: "'r index \<Rightarrow> 'r list \<Rightarrow> sql_error + 'r list" where
  "create_unique_index ix t = (if unique_on (snd ix) t then Inr t else Inl (UniqueFailed (fst ix)))"

definition migrate_users :: "user list \<Rightarrow> sql_error + user list" where
  "migrate_users t =
     res_bind (insert_rows users_new_indexes t []) (\<lambda>t.
     res_bind (create_unique_index (''users.user_id'', \<lambda>u. Some [u_user_id u]) t) (\<lambda>t.
     create_unique_index (''users.username'', \<lambda>u. map_option (\<lambda>n. [n]) (u_username u)) t))"

text \<open>A chat as the first version saved it, and the counters it gets: for each user the rows are counted by
  their ids.\<close>

record chat_v1 =
  v1_id :: string
  v1_content :: string
  v1_resp :: "string option"
  v1_role :: string
  v1_user :: string
  v1_ctx :: "string option"
  v1_created :: nat
  v1_updated :: nat

definition row_number :: "chat_v1 list \<Rightarrow> chat_v1 \<Rightarrow> nat" where
  "row_number t r = Suc (length (filter (\<lambda>x. v1_user x = v1_user r \<and> v1_id x < v1_id r) t))"

definition add_row_counter :: "chat_v1 list \<Rightarrow> chat_row list" where
  "add_row_counter t =
     map (\<lambda>r. \<lparr>cr_id = v1_id r, cr_user = v1_user r, cr_content = v1_content r, cr_resp = v1_resp r,
       cr_role = v1_role r, cr_ctx = v1_ctx r, cr_created = v1_created r, cr_updated = v1_updated r,
       cr_counter = int (row_number t r), cr_session = None, cr_model = None\<rparr>) t"

definition apply_migrations ::
  "('c \<Rightarrow> string + 'c) \<Rightarrow> ('d \<Rightarrow> string + 'd) \<Rightarrow> 'c \<times> 'd \<Rightarrow> (string + unit) \<times> 'c \<times> 'd" where
  "apply_migrations common chat dbs =
     (case common (fst dbs) of
        Inl e \<Rightarrow> (Inl e, dbs)
      | Inr c \<Rightarrow> (case chat (snd dbs) of Inl e \<Rightarrow> (Inl e, c, snd dbs) | Inr d \<Rightarrow> (Inr (), c, d)))"

section \<open>What a migration leaves\<close>

lemma insert_row_unique:
  assumes "wf_table ixs (t @ [r])"
  shows "insert_row ixs r t = Inr (t @ [r])"
  unfolding insert_row_Inr using assms by (simp add: wf_table_def unique_on_snoc list_all_iff)

lemma wf_prefix: "wf_table ixs (t @ rs) \<Longrightarrow> wf_table ixs t"
  by (auto simp: wf_table_def unique_on_def list_all_iff map_filter_def)

lemma insert_rows_wf: "wf_table ixs (t @ rs) \<Longrightarrow> insert_rows ixs rs t = Inr (t @ rs)"
proof (induction rs arbitrary: t)
  case (Cons r rs)
  then have "wf_table ixs (t @ [r])" using wf_prefix [of ixs "t @ [r]" rs] by simp
  with Cons show ?case by (simp add: insert_row_unique res_bind_def)
qed simp

text \<open>The users' migration goes through exactly if no two users have the same DID or the same name, and
  then the table keeps its rows and has all of its indexes. The older schema allowed both.\<close>

theorem users_migrate:
  assumes "wf_table users_new_indexes t"
  shows "(case migrate_users t of
       Inr t' \<Rightarrow> t' = t \<and> wf_table user_indexes t'
     | Inl e \<Rightarrow> e \<in> {UniqueFailed ''users.user_id'', UniqueFailed ''users.username''}) \<and>
    (is_ok (migrate_users t) \<longleftrightarrow> wf_table user_indexes t)"
proof -
  have "insert_rows users_new_indexes t [] = Inr t" using insert_rows_wf [of users_new_indexes "[]" t] assms by simp
  then show ?thesis
    using assms
    by (auto simp: migrate_users_def create_unique_index_def res_bind_def is_ok_def wf_table_def user_indexes_def
        users_new_indexes_def)
qed

lemma row_number_sorted:
  assumes "sorted_wrt (<) (map v1_id rs)" and "rs = filter (\<lambda>x. v1_user x = uid) t" and "i < length rs"
  shows "row_number t (rs ! i) = Suc i"
proof -
  have user: "v1_user (rs ! i) = uid" using assms(2,3) nth_mem [of i rs] by auto
  have "filter (\<lambda>x. v1_user x = v1_user (rs ! i) \<and> v1_id x < v1_id (rs ! i)) t =
      filter (\<lambda>x. v1_id x < v1_id (rs ! i)) (filter (\<lambda>x. v1_user x = uid) t)"
    by (simp add: user)
  also have "\<dots> = filter (\<lambda>x. v1_id x < v1_id (rs ! i)) rs" by (rule arg_cong [OF assms(2) [symmetric]])
  also have "\<dots> = take i rs"
  proof -
    have less: "v1_id (rs ! j) < v1_id (rs ! k)" if "j < k" "k < length rs" for j k
      using assms(1) that by (simp add: sorted_wrt_map sorted_wrt_iff_nth_less)
    have "filter (\<lambda>x. v1_id x < v1_id (rs ! i)) (take i rs) = take i rs"
      using less assms(3) by (intro filter_True) (auto simp: in_set_conv_nth)
    moreover have "filter (\<lambda>x. v1_id x < v1_id (rs ! i)) (drop i rs) = []"
    proof -
      have "\<not> v1_id (drop i rs ! j) < v1_id (rs ! i)" if "j < length rs - i" for j
      proof (cases "j = 0")
        case False
        then have "v1_id (rs ! i) < v1_id (rs ! (i + j))" using less that by simp
        then show ?thesis using assms(3) by (simp add: order.asym)
      qed (use assms(3) in simp)
      then show ?thesis by (auto simp: filter_empty_conv in_set_conv_nth)
    qed
    moreover have "filter P rs = filter P (take i rs) @ filter P (drop i rs)" for P
      by (subst filter_append [symmetric]) simp
    ultimately show ?thesis by (simp only: append_Nil2)
  qed
  finally show ?thesis using assms(3) by (simp add: row_number_def)
qed

text \<open>Chats that were saved in the order of their ids get, for each user, the counters from 1 on in that order,
  as if they had been saved with one: the next chat of a user continues the count.\<close>

theorem counters_added:
  assumes "sorted_wrt (<) (map v1_id (filter (\<lambda>x. v1_user x = uid) t))"
  shows "map cr_counter (rows_of uid \<lparr>chats = add_row_counter t, sessions = ss\<rparr>) =
      map int [1..<Suc (length (filter (\<lambda>x. v1_user x = uid) t))] \<and>
    get_last_row_counter uid \<lparr>chats = add_row_counter t, sessions = ss\<rparr> =
      int (length (filter (\<lambda>x. v1_user x = uid) t))"
proof -
  let ?rs = "filter (\<lambda>x. v1_user x = uid) t" and ?db = "\<lparr>chats = add_row_counter t, sessions = ss\<rparr>"
  have "map cr_counter (rows_of uid ?db) = map (\<lambda>r. int (row_number t r)) ?rs"
    by (simp add: rows_of_def add_row_counter_def filter_map comp_def)
  also have "\<dots> = map int [1..<Suc (length ?rs)]"
    by (rule nth_equalityI) (simp_all add: row_number_sorted [OF assms refl] del: upt_Suc)
  finally have counters: "map cr_counter (rows_of uid ?db) = map int [1..<Suc (length ?rs)]" .
  have "get_last_row_counter uid ?db = int (length ?rs)"
  proof (cases "?rs = []")
    case False
    then have "length ?rs \<in> {1..<Suc (length ?rs)}" by (cases ?rs) simp_all
    then have "Max (set (map int [1..<Suc (length ?rs)])) = int (length ?rs)"
      by (intro Max_eqI) (auto simp del: upt_Suc)
    moreover have "map int [1..<Suc (length ?rs)] \<noteq> []" using False by (cases ?rs) simp_all
    ultimately show ?thesis unfolding get_last_row_counter_def Let_def counters by (simp del: upt_Suc)
  qed (use counters in \<open>simp add: get_last_row_counter_def\<close>)
  with counters show ?thesis by blast
qed

end
