(* ===== verification/CommandLine.thy ===== *)
theory CommandLine
  imports Commands Jobs Routes Folders
begin

text \<open>
  The command line's side of the daemon's API (\<open>*_cli\<close> in \<open>daemon/authz.rs\<close> and \<open>daemon/net.rs\<close>, the requests of
  \<open>daemon/mod.rs\<close> and the others): which request each command sends and what it prints of the answer; and
  \<open>main.rs\<close>: the commands, the flags of a run, and what each command does in which order. What a call of the core
  answers is an argument.
\<close>

section \<open>The requests\<close>

datatype daemon_call =
    CreateLink string | AddTokenCall string "string option" | ListLinked | RevokePeer string | LinkDeviceCall string
  | StartNetworkCall | StopNetworkCall | NetworkStatusCall | SyncWith string
  | ShareRemoteCall | UnshareRemoteCall | RemoteStatusCall | ConnectRemoteCall string
  | DownloadModelCall string | FollowModelCall string | EngineStatusCall | SelectEngineCall string
  | DownloadEngineCall | FollowEngineCall | AtLoginCall string | UiStateCall

text \<open>The method and the path, and the handler that is meant.\<close>

definition call_route :: "daemon_call \<Rightarrow> http_method \<times> string" where
  "call_route c =
     (case c of
        CreateLink _ \<Rightarrow> (POST, ''/v1/tilekit/authz/create-token'')
      | AddTokenCall _ _ \<Rightarrow> (POST, ''/v1/tilekit/authz/add-token'')
      | ListLinked \<Rightarrow> (POST, ''/v1/tilekit/peers/list-linked-devices'')
      | RevokePeer _ \<Rightarrow> (POST, ''/v1/tilekit/peers/revoke'')
      | LinkDeviceCall _ \<Rightarrow> (POST, ''/v1/tilekit/net/link-device'')
      | StartNetworkCall \<Rightarrow> (POST, ''/v1/tilekit/net/start-network'')
      | StopNetworkCall \<Rightarrow> (POST, ''/v1/tilekit/net/stop-network'')
      | NetworkStatusCall \<Rightarrow> (POST, ''/v1/tilekit/net/status'')
      | SyncWith _ \<Rightarrow> (POST, ''/v1/tilekit/net/sync-with-device'')
      | ShareRemoteCall \<Rightarrow> (POST, ''/remote-share'')
      | UnshareRemoteCall \<Rightarrow> (POST, ''/remote-unshare'')
      | RemoteStatusCall \<Rightarrow> (GET, ''/remote-status'')
      | ConnectRemoteCall _ \<Rightarrow> (POST, ''/connect-remote'')
      | DownloadModelCall _ \<Rightarrow> (POST, ''/v1/tilekit/model/download'')
      | FollowModelCall _ \<Rightarrow> (GET, ''/v1/tilekit/model/download'')
      | EngineStatusCall \<Rightarrow> (GET, ''/v1/tilekit/engine/status'')
      | SelectEngineCall _ \<Rightarrow> (POST, ''/v1/tilekit/engine/select'')
      | DownloadEngineCall \<Rightarrow> (POST, ''/v1/tilekit/engine/download'')
      | FollowEngineCall \<Rightarrow> (GET, ''/v1/tilekit/engine/download'')
      | AtLoginCall _ \<Rightarrow> (POST, ''/v1/tilekit/atproto/login'')
      | UiStateCall \<Rightarrow> (GET, ''/v1/tilekit/ui''))"

definition call_endpoint :: "daemon_call \<Rightarrow> endpoint" where
  "call_endpoint c =
     (case c of
        CreateLink _ \<Rightarrow> ApiCreateToken | AddTokenCall _ _ \<Rightarrow> ApiAddToken | ListLinked \<Rightarrow> ApiListLinkedDevices
      | RevokePeer _ \<Rightarrow> ApiRevokeToken | LinkDeviceCall _ \<Rightarrow> ApiLinkDevice | StartNetworkCall \<Rightarrow> ApiStartNetwork
      | StopNetworkCall \<Rightarrow> ApiStopNetwork | NetworkStatusCall \<Rightarrow> ApiNetworkStatus | SyncWith _ \<Rightarrow> ApiSyncWithDevice
      | ShareRemoteCall \<Rightarrow> ApiRemoteShare | UnshareRemoteCall \<Rightarrow> ApiRemoteUnshare | RemoteStatusCall \<Rightarrow> ApiRemoteStatus
      | ConnectRemoteCall _ \<Rightarrow> ApiConnectRemote | DownloadModelCall _ \<Rightarrow> ApiModelStart | FollowModelCall _ \<Rightarrow> ApiModelProgress
      | EngineStatusCall \<Rightarrow> ApiEngineStatus | SelectEngineCall _ \<Rightarrow> ApiEngineSelect | DownloadEngineCall \<Rightarrow> ApiEngineStart
      | FollowEngineCall \<Rightarrow> ApiEngineProgress | AtLoginCall _ \<Rightarrow> ApiAtLogin | UiStateCall \<Rightarrow> ApiUiState)"

text \<open>The address; the HTTP client names the host by it. Every POST says that it is JSON, with a body or without.\<close>

definition daemon_host :: "nat \<Rightarrow> string" where
  "daemon_host port = ''127.0.0.1:'' @ show_nat port"

definition daemon_url :: "nat \<Rightarrow> string \<Rightarrow> string" where
  "daemon_url port path = ''http://'' @ daemon_host port @ path"

definition call_request :: "nat \<Rightarrow> daemon_call \<Rightarrow> request" where
  "call_request port c =
     \<lparr>rq_method = fst (call_route c), rq_host = Some (Some (daemon_host port)), rq_authority = None,
      rq_content_type = (if fst (call_route c) = POST then Some (Some ''application/json'') else None)\<rparr>"

section \<open>What is printed of the answer\<close>

datatype shown_line = Printed string | Complained string

text \<open>\<open>shown\<close> reads the body of an answer that went through. One that did not is complained about, with the text of its
  body, and the command ends as if nothing was wrong.\<close>

definition body_text :: "string option \<Rightarrow> string" where
  "body_text body = (case body of Some b \<Rightarrow> b | None \<Rightarrow> ''Couldn't read the body'')"

definition cli_answer ::
  "(string option \<Rightarrow> string + string) \<Rightarrow> (string \<Rightarrow> string) \<Rightarrow> string + unit \<Rightarrow> daemon_reply
     \<Rightarrow> shown_line list \<times> (string + unit)" where
  "cli_answer shown failed client r =
     (case res_bind client (\<lambda>_. reply_of (Some could_not_reach) r) of
        Inl e \<Rightarrow> ([], Inl e)
      | Inr (status, body) \<Rightarrow>
          if is_success status
          then (case shown body of Inl e \<Rightarrow> ([], Inl e) | Inr t \<Rightarrow> ([Printed t], Inr ()))
          else ([Complained (failed (body_text body))], Inr ()))"

text \<open>The readers of the answers: a token, a message, the linked devices, if the network runs.\<close>

record answer_readers =
  ar_token :: "string option \<Rightarrow> string + string"
  ar_message :: "string option \<Rightarrow> string + string"
  ar_devices :: "string option \<Rightarrow> string + (string option \<times> string) list"
  ar_running :: "string option \<Rightarrow> string + bool"

definition create_link_cli ::
  "answer_readers \<Rightarrow> string option \<Rightarrow> string + unit \<Rightarrow> daemon_reply
     \<Rightarrow> daemon_call list \<times> shown_line list \<times> (string + unit)" where
  "create_link_cli R aud_did client r =
     (case aud_did of
        None \<Rightarrow> ([], [Complained ''Expected peer DID''], Inr ())
      | Some did \<Rightarrow>
          ([CreateLink did],
           cli_answer (\<lambda>b. res_bind (ar_token R b) (\<lambda>token.
               Inr (''Use the below token to link your other device `'' @ did @ ''`'' @ [CHR 0x0A] @
                 '' using `tiles link join <token> <nickname>` on that device'' @ [CHR 0x0A] @ token)))
             (\<lambda>b. ''Creating link token failed due to '' @ b) client r))"

definition process_device_linking ::
  "answer_readers \<Rightarrow> string + unit \<Rightarrow> daemon_reply \<Rightarrow> shown_line list \<times> (string + unit)" where
  "process_device_linking R client r = cli_answer (ar_message R) (\<lambda>b. ''Failed to process device linking due to '' @ b) client r"

text \<open>Joining sends a second request, if the token was taken.\<close>

definition join_request_cli ::
  "answer_readers \<Rightarrow> string \<Rightarrow> string option \<Rightarrow> string + unit \<Rightarrow> daemon_reply \<Rightarrow> string + unit \<Rightarrow> daemon_reply
     \<Rightarrow> daemon_call list \<times> shown_line list \<times> (string + unit)" where
  "join_request_cli R token nickname client added client' linked =
     (case res_bind client (\<lambda>_. reply_of (Some could_not_reach) added) of
        Inl e \<Rightarrow> ([AddTokenCall token nickname], [], Inl e)
      | Inr (status, body) \<Rightarrow>
          if is_success status
          then ([AddTokenCall token nickname, LinkDeviceCall token], process_device_linking R client' linked)
          else ([AddTokenCall token nickname], [Complained (''Failed to process the command due to '' @ body_text body)], Inr ()))"

definition list_linked_devices_cli ::
  "answer_readers \<Rightarrow> string + unit \<Rightarrow> daemon_reply \<Rightarrow> shown_line list \<times> (string + unit)" where
  "list_linked_devices_cli R client r =
     (case res_bind client (\<lambda>_. reply_of (Some could_not_reach) r) of
        Inl e \<Rightarrow> ([], Inl e)
      | Inr (status, body) \<Rightarrow>
          if is_success status
          then (case ar_devices R body of
                  Inl e \<Rightarrow> ([], Inl e)
                | Inr ds \<Rightarrow>
                    (Printed '''' # concat (map (\<lambda>(name, did).
                       [Printed (''Nickname: '' @ (case name of Some n \<Rightarrow> n | None \<Rightarrow> '''') @ [CHR 0x0A] @ ''DID: '' @ did @
                         [CHR 0x0A]), Printed '''']) ds), Inr ()))
          else ([Complained (''Failed to list-linked-devices failed due to '' @ body_text body)], Inr ()))"

definition revoke_peers_cli :: "answer_readers \<Rightarrow> string + unit \<Rightarrow> daemon_reply \<Rightarrow> shown_line list \<times> (string + unit)" where
  "revoke_peers_cli R = cli_answer (ar_message R) (\<lambda>b. ''Failed to revoke peer due to '' @ b)"

definition start_network_cli :: "answer_readers \<Rightarrow> string + unit \<Rightarrow> daemon_reply \<Rightarrow> shown_line list \<times> (string + unit)" where
  "start_network_cli R = cli_answer (ar_message R) (\<lambda>b. ''Failed to start the tiles network  '' @ b)"

definition stop_network_cli :: "answer_readers \<Rightarrow> string + unit \<Rightarrow> daemon_reply \<Rightarrow> shown_line list \<times> (string + unit)" where
  "stop_network_cli R = cli_answer (ar_message R) (\<lambda>b. ''Stopping Tiles network failed due to '' @ debug_str b)"

definition fetch_network_status_cli :: "answer_readers \<Rightarrow> string + unit \<Rightarrow> daemon_reply \<Rightarrow> shown_line list \<times> (string + unit)" where
  "fetch_network_status_cli R =
     cli_answer (\<lambda>b. res_bind (ar_running R b) (\<lambda>running.
         Inr (''Network Running: '' @ (if running then ''true'' else ''false''))))
       (\<lambda>b. ''Failed to get the network status due to '' @ debug_str b)"

definition sync_with_peer_cli :: "answer_readers \<Rightarrow> string + unit \<Rightarrow> daemon_reply \<Rightarrow> shown_line list \<times> (string + unit)" where
  "sync_with_peer_cli R = cli_answer (ar_message R) (\<lambda>b. ''Failed to process the sync due to '' @ b)"

text \<open>The state of remote inference and the connection to another's: no answer's status is looked at.\<close>

definition remote_status :: "string + unit \<Rightarrow> daemon_reply \<Rightarrow> string + string" where
  "remote_status client r =
     res_bind client (\<lambda>_.
       case r of
         NoReply e \<Rightarrow> Inl (''Daemon remote share ticket failed due to '' @ e)
       | Reply _ body \<Rightarrow> ok_or ''error decoding response body'' body)"

definition connect_remote :: "string + unit \<Rightarrow> daemon_reply \<Rightarrow> string + unit" where
  "connect_remote client r =
     res_bind client (\<lambda>_.
       case r of NoReply e \<Rightarrow> Inl (''Daemon remote connect failed due to '' @ e) | Reply _ _ \<Rightarrow> Inr ())"

section \<open>Every request reaches its handler\<close>

definition all_calls :: "daemon_call list" where
  "all_calls =
     [CreateLink '''', AddTokenCall '''' None, ListLinked, RevokePeer '''', LinkDeviceCall '''', StartNetworkCall,
      StopNetworkCall, NetworkStatusCall, SyncWith '''', ShareRemoteCall, UnshareRemoteCall, RemoteStatusCall,
      ConnectRemoteCall '''', DownloadModelCall '''', FollowModelCall '''', EngineStatusCall, SelectEngineCall '''',
      DownloadEngineCall, FollowEngineCall, AtLoginCall '''', UiStateCall]"

definition has_handler :: "http_method \<times> string \<Rightarrow> endpoint \<Rightarrow> bool" where
  "has_handler r e \<longleftrightarrow> (case route_of api_router (snd r) of Some ms \<Rightarrow> answering ms (fst r) = Some e | None \<Rightarrow> False)"

lemma all_calls_handled: "list_all (\<lambda>c. has_handler (call_route c) (call_endpoint c)) all_calls"
  by code_simp

lemma call_like_listed: "\<exists>c' \<in> set all_calls. call_route c' = call_route c \<and> call_endpoint c' = call_endpoint c"
  by (cases c) (simp_all add: all_calls_def call_route_def call_endpoint_def)

lemma call_handled: "has_handler (call_route c) (call_endpoint c)"
  using all_calls_handled call_like_listed [of c] by (auto simp: list_all_iff)

text \<open>Each request of the command line passes the checks in front of the handlers and reaches the handler it is
  meant for, whatever port the daemon has.\<close>

theorem calls_are_served:
  assumes "parse_authority (daemon_host port) = Some ''127.0.0.1''"
  shows "reached parse_authority (snd (call_route c)) (call_request port c) = Some (call_endpoint c)"
proof -
  obtain ms where ms: "route_of api_router (snd (call_route c)) = Some ms" "answering ms (fst (call_route c)) = Some (call_endpoint c)"
    using call_handled [of c] by (auto simp: has_handler_def split: option.splits)
  have verb: "fst (call_route c) = GET \<or> fst (call_route c) = POST" by (cases c) (simp_all add: call_route_def)
  have "is_local_host parse_authority (call_request port c)"
    using assms by (simp add: is_local_host_def call_request_def local_hosts_def)
  moreover have "is_json (call_request port c)" if "fst (call_route c) = POST"
    using that by (simp add: is_json_def call_request_def, code_simp)
  ultimately show ?thesis
    using ms verb by (auto simp: reached_iff call_request_def)
qed

text \<open>A join that is refused sends no second request, and every answer of the daemon, a refusal too, ends the
  command without an error.\<close>

lemma refused_join_stops:
  "\<not> is_success status \<Longrightarrow> fst (join_request_cli R token nickname (Inr ()) (Reply status body) client' linked) = [AddTokenCall token nickname]"
  by (simp add: join_request_cli_def reply_of_def)

lemma refusal_is_no_error:
  "\<not> is_success status \<Longrightarrow> snd (cli_answer shown failed (Inr ()) (Reply status body)) = Inr ()"
  by (simp add: cli_answer_def reply_of_def)

section \<open>The commands\<close>

record run_flags =
  rf_relay_count :: nat
  rf_no_repl :: bool
  rf_context_length :: "nat option"
  rf_gpu_layers :: "int option"
  rf_offload_kqv :: "bool option"
  rf_batch_size :: "nat option"
  rf_n_cpu_moe :: "nat option"
  rf_flash_attn :: "bool option"
  rf_load_mode :: "load_mode option"
  rf_mtp :: "bool option"
  rf_remote :: "string option"

definition llama_config_from_flags :: "run_flags \<Rightarrow> llama_config option" where
  "llama_config_from_flags f =
     Some \<lparr>ll_context_length = rf_context_length f, ll_gpu_layers = rf_gpu_layers f, ll_offload_kqv = rf_offload_kqv f,
       ll_batch_size = rf_batch_size f, ll_mtp = rf_mtp f, ll_n_cpu_moe = rf_n_cpu_moe f,
       ll_flash_attn = rf_flash_attn f, ll_load_mode = rf_load_mode f\<rparr>"

record run_args =
  ra_modelfile_path :: "string option"
  ra_relay_count :: nat
  ra_llama_config :: "llama_config option"
  ra_remote :: "string option"

definition run_args_of :: "string option \<Rightarrow> run_flags \<Rightarrow> run_args" where
  "run_args_of modelfile f =
     \<lparr>ra_modelfile_path = modelfile, ra_relay_count = rf_relay_count f, ra_llama_config = llama_config_from_flags f,
      ra_remote = rf_remote f\<rparr>"

datatype server_command = ServerStart | ServerStop | ServerDaemon "bool option"
datatype daemon_command = DaemonStart | DaemonStop | DaemonStatus
datatype service_command = ServiceAdd | ServiceRemove | ServiceStatus | ServiceStart | ServiceStop
datatype network_command = NetworkStart | NetworkStatus | NetworkStop
datatype plugin_command = PluginList | PluginInstall string | PluginUninstall string
datatype link_command = LinkCreate "string option" | LinkJoin string "string option" | LinkedDevices | LinkRevoke string
datatype remote_command = RemoteShare | RemoteUnshare | RemoteStatus
datatype at_command = AtLogin string | AtLogout

datatype getting_started = StartUi | StartRun "string option" run_flags | StartHelp "string list"
datatype account_group = AccountGroup account_command | AtGroup at_command | DataSetPath string
datatype sync_command_group = LinkGroup link_command | SyncGroup string | RemoteGroup remote_command
datatype system_command =
    SystemUpdate | SystemHealth | SystemServer server_command | SystemDaemon "daemon_command option" bool
  | SystemService service_command | SystemNetwork network_command

datatype cli_command =
    GettingStarted getting_started | Accounts account_group | SyncCommand sync_command_group
  | System system_command | Tools plugin_command | Uninstall bool | NvidiaProbe

record cli =
  cli_command :: "cli_command option"
  cli_flags :: run_flags

section \<open>What a command does\<close>

datatype main_action =
    RemoveTiles bool | ProbeNvidia | OpenDatabases
  | SetUpAccount | OfferUpdate | StartDaemonQuietly | SaveRootAccount | RunRepl run_args
  | OpenUi | PrintHelp "string list" | CheckHealth | StartInference | StopInference | SetInferenceDaemon bool
  | SetDataPath string | AccountAction account_command | UpdateTiles
  | StartDaemonNow | ShowDaemon | StopDaemonNow | ServeDaemon bool | ServiceAction service_command
  | ListPlugins | InstallPlugin string | UninstallPlugin string
  | LinkAction link_command | SyncAction string | RemoteAction remote_command | NetworkAction network_command
  | SignInAction string | SignOutAction

text \<open>If a failure of the action ends the program with an error; the others print it or drop it. The daemon of a run is
  started in a task of its own: the action fails only if that task panics.\<close>

definition must_succeed :: "main_action \<Rightarrow> bool" where
  "must_succeed a =
     (case a of
        OfferUpdate \<Rightarrow> False | StartInference \<Rightarrow> False | StopInference \<Rightarrow> False
      | SetDataPath _ \<Rightarrow> False | ShowDaemon \<Rightarrow> False | InstallPlugin _ \<Rightarrow> False | UninstallPlugin _ \<Rightarrow> False
      | ProbeNvidia \<Rightarrow> False | _ \<Rightarrow> True)"

definition run_plan :: "bool \<Rightarrow> run_args \<Rightarrow> bool \<Rightarrow> main_action list" where
  "run_plan bare args no_repl =
     [SetUpAccount] @ (if bare then [OfferUpdate] else []) @ [StartDaemonQuietly, SaveRootAccount] @
     (if no_repl then [] else [RunRepl args])"

definition system_plan :: "system_command \<Rightarrow> main_action list" where
  "system_plan c =
     (case c of
        SystemUpdate \<Rightarrow> [UpdateTiles]
      | SystemHealth \<Rightarrow> [CheckHealth]
      | SystemServer ServerStart \<Rightarrow> [StartInference]
      | SystemServer ServerStop \<Rightarrow> [StopInference]
      | SystemServer (ServerDaemon flag) \<Rightarrow> [SetInferenceDaemon (case flag of Some b \<Rightarrow> b | None \<Rightarrow> False)]
      | SystemDaemon (Some DaemonStart) _ \<Rightarrow> [StartDaemonNow]
      | SystemDaemon (Some DaemonStatus) _ \<Rightarrow> [ShowDaemon]
      | SystemDaemon (Some DaemonStop) _ \<Rightarrow> [StopDaemonNow]
      | SystemDaemon None no_ui \<Rightarrow> [ServeDaemon (\<not> no_ui)]
      | SystemService s \<Rightarrow> [ServiceAction s]
      | SystemNetwork n \<Rightarrow> [NetworkAction n])"

definition command_plan :: "cli \<Rightarrow> main_action list" where
  "command_plan c =
     (case cli_command c of
        None \<Rightarrow> run_plan True (run_args_of None (cli_flags c)) (rf_no_repl (cli_flags c))
      | Some (GettingStarted StartUi) \<Rightarrow> [OpenUi]
      | Some (GettingStarted (StartRun modelfile flags)) \<Rightarrow> run_plan False (run_args_of modelfile flags) False
      | Some (GettingStarted (StartHelp command)) \<Rightarrow> [PrintHelp command]
      | Some (Accounts (AccountGroup a)) \<Rightarrow> [AccountAction a]
      | Some (Accounts (AtGroup (AtLogin handle))) \<Rightarrow> [SignInAction handle]
      | Some (Accounts (AtGroup AtLogout)) \<Rightarrow> [SignOutAction]
      | Some (Accounts (DataSetPath path)) \<Rightarrow> [SetDataPath path]
      | Some (SyncCommand (LinkGroup l)) \<Rightarrow> [LinkAction l]
      | Some (SyncCommand (SyncGroup did)) \<Rightarrow> [SyncAction did]
      | Some (SyncCommand (RemoteGroup r)) \<Rightarrow> [RemoteAction r]
      | Some (System s) \<Rightarrow> system_plan s
      | Some (Tools PluginList) \<Rightarrow> [ListPlugins]
      | Some (Tools (PluginInstall path)) \<Rightarrow> [InstallPlugin path]
      | Some (Tools (PluginUninstall name)) \<Rightarrow> [UninstallPlugin name]
      | Some (Uninstall everything) \<Rightarrow> [RemoveTiles everything]
      | Some NvidiaProbe \<Rightarrow> [ProbeNvidia])"

text \<open>Uninstalling and the probe come before the databases are opened.\<close>

definition main_plan :: "cli \<Rightarrow> main_action list" where
  "main_plan c =
     (case cli_command c of
        Some (Uninstall everything) \<Rightarrow> [RemoveTiles everything]
      | Some NvidiaProbe \<Rightarrow> [ProbeNvidia]
      | _ \<Rightarrow> OpenDatabases # command_plan c)"

fun perform :: "(main_action \<Rightarrow> string + unit) \<Rightarrow> main_action list \<Rightarrow> main_action list \<times> (string + unit)" where
  "perform W [] = ([], Inr ())"
| "perform W (a # as) =
     (case W a of
        Inl e \<Rightarrow> if must_succeed a then ([a], Inl e) else (case perform W as of (done, r) \<Rightarrow> (a # done, r))
      | Inr _ \<Rightarrow> (case perform W as of (done, r) \<Rightarrow> (a # done, r)))"

definition main_program :: "(main_action \<Rightarrow> string + unit) \<Rightarrow> cli \<Rightarrow> main_action list \<times> (string + unit)" where
  "main_program W c = perform W (main_plan c)"

section \<open>What the exit says\<close>

lemma perform_prefix: "prefix (fst (perform W as)) as"
  by (induction W as rule: perform.induct) (auto split: sum.split prod.split)

lemma perform_ok: "snd (perform W as) = Inr () \<longleftrightarrow> (\<forall>a \<in> set as. must_succeed a \<longrightarrow> W a = Inr ())"
  by (induction W as rule: perform.induct) (auto split: sum.split prod.split)

lemma perform_all: "snd (perform W as) = Inr () \<Longrightarrow> fst (perform W as) = as"
  by (induction W as rule: perform.induct) (auto split: sum.splits prod.splits if_splits)

lemma main_plan_databases:
  "OpenDatabases \<in> set (main_plan c) \<longleftrightarrow> (\<forall>b. cli_command c \<noteq> Some (Uninstall b)) \<and> cli_command c \<noteq> Some NvidiaProbe"
  by (auto simp: main_plan_def split: option.split cli_command.split)

lemma perform_open:
  "fst (perform W (OpenDatabases # as)) = OpenDatabases # (if W OpenDatabases = Inr () then fst (perform W as) else [])"
  by (auto simp: must_succeed_def split: sum.split prod.split)

lemma main_plan_forms:
  "main_plan c = OpenDatabases # command_plan c \<or> (\<exists>b. cli_command c = Some (Uninstall b)) \<or> cli_command c = Some NvidiaProbe"
  by (auto simp: main_plan_def split: option.split cli_command.split)

text \<open>A run of the program does the actions of its command in order up to the first that has to succeed and doesn't;
  it ends without an error exactly if all of those succeed. The databases are opened before anything else,
  except that an uninstall and the probe do without them.\<close>

theorem main_correct:
  "case main_program W c of
     (acts, r) \<Rightarrow>
       prefix acts (main_plan c) \<and>
       (r = Inr () \<longleftrightarrow> (\<forall>a \<in> set (main_plan c). must_succeed a \<longrightarrow> W a = Inr ())) \<and>
       (r = Inr () \<longrightarrow> acts = main_plan c) \<and>
       (case acts of
          OpenDatabases # later \<Rightarrow> later \<noteq> [] \<longrightarrow> W OpenDatabases = Inr ()
        | _ \<Rightarrow> (\<exists>b. cli_command c = Some (Uninstall b)) \<or> cli_command c = Some NvidiaProbe)"
proof -
  obtain acts r where p: "main_program W c = (acts, r)" by (cases "main_program W c")
  then have d: "acts = fst (perform W (main_plan c))" and r: "r = snd (perform W (main_plan c))"
    by (simp_all add: main_program_def)
  have "prefix acts (main_plan c)" by (simp add: d perform_prefix)
  moreover have "r = Inr () \<longleftrightarrow> (\<forall>a \<in> set (main_plan c). must_succeed a \<longrightarrow> W a = Inr ())" by (simp add: r perform_ok)
  moreover have "r = Inr () \<longrightarrow> acts = main_plan c" by (simp add: d r perform_all)
  moreover have "case acts of OpenDatabases # later \<Rightarrow> later \<noteq> [] \<longrightarrow> W OpenDatabases = Inr ()
                   | _ \<Rightarrow> (\<exists>b. cli_command c = Some (Uninstall b)) \<or> cli_command c = Some NvidiaProbe"
    using main_plan_forms [of c]
  proof (elim disjE exE)
    assume "main_plan c = OpenDatabases # command_plan c"
    then show ?thesis by (simp only: d perform_open) simp
  qed (auto simp: d main_plan_def must_succeed_def split: sum.split)
  ultimately show ?thesis using p by simp
qed

text \<open>The plan of a run is the start that the theory Commands describes in one piece.\<close>

definition step_of :: "main_action \<Rightarrow> start_step" where
  "step_of a =
     (case a of
        SetUpAccount \<Rightarrow> SetUp | OfferUpdate \<Rightarrow> AskedToUpdate | StartDaemonQuietly \<Rightarrow> DaemonStarted
      | SaveRootAccount \<Rightarrow> AccountSaved | _ \<Rightarrow> ReplRun)"

definition joined :: "daemon_error + unit \<Rightarrow> string + unit" where
  "joined r = (case r of Inl (Panicked e) \<Rightarrow> Inl e | _ \<Rightarrow> Inr ())"

lemma run_plan_starts:
  assumes "W StartDaemonQuietly = joined daemon"
  shows "map_prod (map step_of) id (perform W (run_plan bare args (bare \<and> no_repl))) =
         start_tiles bare no_repl (W SetUpAccount) daemon (W SaveRootAccount) (W (RunRepl args))"
  using assms
  by (cases bare; cases no_repl; cases daemon)
     (auto simp: run_plan_def start_tiles_def step_of_def joined_def must_succeed_def split: sum.splits daemon_error.splits)

section \<open>The health check\<close>

text \<open>\<open>check_health\<close> of \<open>core/health.rs\<close>: what is printed, the symbols as their bytes.\<close>

definition warning_sign :: string where
  "warning_sign = map char_of [0xE2, 0x9A, 0xA0, 0xEF, 0xB8, 0x8F :: nat]"

definition check_mark :: string where
  "check_mark = map char_of [0xE2, 0x9C, 0x85 :: nat]"

definition cross_mark :: string where
  "cross_mark = map char_of [0xE2, 0x9D, 0x8C :: nat]"

definition check_health :: "bool \<Rightarrow> bool \<Rightarrow> string + update_info \<Rightarrow> string + string \<Rightarrow> string list \<times> (string + unit)" where
  "check_health macos debug info ping =
     (let first = [''Running diagnosis...'' @ [CHR 0x0A], ''Checking for newer version...'' @ [CHR 0x0A]] in
      case info of
        Inl e \<Rightarrow> (first, Inl e)
      | Inr i \<Rightarrow>
          (first @
           (if up_can i
            then [warning_sign @ '' Outdated version, try `tiles update`'',
                  CHR 0x09 # ''current version - '' @ up_current i @ CHR 0x0A # CHR 0x09 # ''latest version - '' @ up_latest i]
            else [check_mark @ '' Running latest version'' @ [CHR 0x0A]]) @
           (if macos \<and> \<not> debug
            then [if is_ok ping then check_mark @ '' Daemon is UP'' else cross_mark @ '' Daemon is DOWN, try `tiles daemon start`'']
            else []),
           Inr ()))"

text \<open>Without an answer about the newest version the daemon is not looked at.\<close>

lemma health_needs_release_server:
  "fst (check_health macos debug (Inl e) ping) = fst (check_health macos debug (Inl e) ping') \<and>
   snd (check_health macos debug (Inl e) ping) = Inl e"
  by (simp add: check_health_def Let_def)

end
