(* ===== verification/Remote.thy ===== *)
theory Remote
  imports Daemon "HOL-Library.Sublist"
begin

text \<open>
  Remote inference (\<open>share\<close> and \<open>connect\<close> in \<open>core/network/mod.rs\<close>): the task that forwards the bytes of one
  connection, on the host, which shares its inference server, and on the peer, which uses it; the two together, with
  the streams between them; and the loop that accepts peers, with the daemon's handlers that start and stop it
  (\<open>share_remote_inference\<close>, \<open>unshare_remote_inference\<close>), whose lock sections may come in any order.
\<close>

section \<open>Forwarding one connection\<close>

datatype way = Request | Response

text \<open>What one of the two copies does next: it moves some bytes; its reader ends and its writer is closed; it fails;
  its writer can't be closed.\<close>

datatype pump = Chunk string | Ended | CopyFails string | CloseFails string

datatype proxy_phase = BothWays | OnlyResponse | ProxyOver

record proxy =
  px_phase :: proxy_phase
  px_request :: string
  px_response :: string
  px_request_closed :: bool
  px_response_closed :: bool

definition new_proxy :: proxy where
  "new_proxy = \<lparr>px_phase = BothWays, px_request = '''', px_response = '''', px_request_closed = False, px_response_closed = False\<rparr>"

text \<open>Both sides race the two copies. Once the response is through, or any copy fails, the task ends, and what the
  other copy has not moved is lost; a request that is through leaves the response to be waited for.\<close>

fun proxy_step :: "way \<times> pump \<Rightarrow> proxy \<Rightarrow> proxy" where
  "proxy_step (Request, ev) p =
     (if px_phase p \<noteq> BothWays then p
      else case ev of
        Chunk bs \<Rightarrow> p\<lparr>px_request := px_request p @ bs\<rparr>
      | Ended \<Rightarrow> p\<lparr>px_request_closed := True, px_phase := OnlyResponse\<rparr>
      | CopyFails _ \<Rightarrow> p\<lparr>px_phase := ProxyOver\<rparr>
      | CloseFails _ \<Rightarrow> p\<lparr>px_phase := ProxyOver\<rparr>)"
| "proxy_step (Response, ev) p =
     (if px_phase p = ProxyOver then p
      else case ev of
        Chunk bs \<Rightarrow> p\<lparr>px_response := px_response p @ bs\<rparr>
      | Ended \<Rightarrow> p\<lparr>px_response_closed := True, px_phase := ProxyOver\<rparr>
      | CopyFails _ \<Rightarrow> p\<lparr>px_phase := ProxyOver\<rparr>
      | CloseFails _ \<Rightarrow> p\<lparr>px_phase := ProxyOver\<rparr>)"

text \<open>A task starts with its connections: the host's to the inference server; the peer's to the host, and a stream on
  it. Without them it panics.\<close>

definition host_task :: "string + unit \<Rightarrow> (way \<times> pump) list \<Rightarrow> string + proxy" where
  "host_task server evs =
     (case server of
        Inl e \<Rightarrow> Inl (''Failed to connect to local service: '' @ e)
      | Inr _ \<Rightarrow> Inr (fold proxy_step evs new_proxy))"

definition peer_task :: "string + unit \<Rightarrow> string + unit \<Rightarrow> (way \<times> pump) list \<Rightarrow> string + proxy" where
  "peer_task connection stream evs =
     res_bind connection (\<lambda>_. res_bind stream (\<lambda>_. Inr (fold proxy_step evs new_proxy)))"

text \<open>The peer's listener: a task for every local connection, until one can't be accepted.\<close>

fun accept_locals :: "(string + unit) list \<Rightarrow> nat \<times> (string + unit) option" where
  "accept_locals [] = (0, None)"
| "accept_locals (Inl e # _) = (0, Some (Inl e))"
| "accept_locals (Inr _ # rest) = (case accept_locals rest of (n, r) \<Rightarrow> (Suc n, r))"

definition connect :: "string + unit \<Rightarrow> string + unit \<Rightarrow> string + unit \<Rightarrow> (string + unit) list \<Rightarrow> nat \<times> (string + unit) option" where
  "connect ticket endpoint listener locals =
     (case res_bind ticket (\<lambda>_. res_bind endpoint (\<lambda>_. listener)) of
        Inl e \<Rightarrow> (0, Some (Inl e))
      | Inr _ \<Rightarrow> accept_locals locals)"

lemma connect_never_ok: "snd (connect ticket endpoint listener locals) \<noteq> Some (Inr ())"
proof -
  have "snd (accept_locals ls) \<noteq> Some (Inr ())" for ls
    by (induction ls rule: accept_locals.induct) (auto split: prod.splits)
  then show ?thesis by (auto simp: connect_def res_bind_def split: sum.splits)
qed

section \<open>The two sides and the streams between them\<close>

text \<open>\<open>rl_client\<close> is what the client still sends, \<open>rl_server\<close> what the server still answers; \<open>rl_up\<close> and \<open>rl_down\<close> are on
  their way.\<close>

record relay =
  rl_client :: string
  rl_peer :: proxy
  rl_up :: string
  rl_host :: proxy
  rl_server :: string
  rl_down :: string

datatype relay_event =
    PeerTakes nat | ClientEnds | HostPasses nat | HostSeesEnd
  | HostTakes nat | ServerEnds | PeerPasses nat | PeerSeesEnd
  | PeerFails way pump | HostFails way pump

definition failure :: "pump \<Rightarrow> bool" where
  "failure ev = (case ev of CopyFails _ \<Rightarrow> True | CloseFails _ \<Rightarrow> True | _ \<Rightarrow> False)"

text \<open>How the reader of a stream learns that there is no more: its writer closed it; or the writer's task is over without
  that, and then \<open>drop_ends\<close> says whether the network library makes it look the same. \<open>None\<close> is an event that can't
  happen yet.\<close>

definition stream_end :: "bool \<Rightarrow> bool \<Rightarrow> proxy \<Rightarrow> pump option" where
  "stream_end drop_ends shut writer =
     (if shut then Some Ended
      else if px_phase writer = ProxyOver then Some (if drop_ends then Ended else CopyFails ''connection lost'')
      else None)"

fun relay_step :: "bool \<Rightarrow> relay_event \<Rightarrow> relay \<Rightarrow> relay option" where
  "relay_step d (PeerTakes n) r =
     (if px_phase (rl_peer r) \<noteq> BothWays then None
      else Some (r\<lparr>rl_client := drop n (rl_client r), rl_up := rl_up r @ take n (rl_client r),
                   rl_peer := proxy_step (Request, Chunk (take n (rl_client r))) (rl_peer r)\<rparr>))"
| "relay_step d ClientEnds r =
     (if px_phase (rl_peer r) \<noteq> BothWays \<or> rl_client r \<noteq> '''' then None
      else Some (r\<lparr>rl_peer := proxy_step (Request, Ended) (rl_peer r)\<rparr>))"
| "relay_step d (HostPasses n) r =
     (if px_phase (rl_host r) \<noteq> BothWays then None
      else Some (r\<lparr>rl_up := drop n (rl_up r), rl_host := proxy_step (Request, Chunk (take n (rl_up r))) (rl_host r)\<rparr>))"
| "relay_step d HostSeesEnd r =
     (if px_phase (rl_host r) \<noteq> BothWays \<or> rl_up r \<noteq> '''' then None
      else map_option (\<lambda>ev. r\<lparr>rl_host := proxy_step (Request, ev) (rl_host r)\<rparr>)
             (stream_end d (px_request_closed (rl_peer r)) (rl_peer r)))"
| "relay_step d (HostTakes n) r =
     (if px_phase (rl_host r) = ProxyOver then None
      else Some (r\<lparr>rl_server := drop n (rl_server r), rl_down := rl_down r @ take n (rl_server r),
                   rl_host := proxy_step (Response, Chunk (take n (rl_server r))) (rl_host r)\<rparr>))"
| "relay_step d ServerEnds r =
     (if px_phase (rl_host r) = ProxyOver \<or> rl_server r \<noteq> '''' then None
      else Some (r\<lparr>rl_host := proxy_step (Response, Ended) (rl_host r)\<rparr>))"
| "relay_step d (PeerPasses n) r =
     (if px_phase (rl_peer r) = ProxyOver then None
      else Some (r\<lparr>rl_down := drop n (rl_down r), rl_peer := proxy_step (Response, Chunk (take n (rl_down r))) (rl_peer r)\<rparr>))"
| "relay_step d PeerSeesEnd r =
     (if px_phase (rl_peer r) = ProxyOver \<or> rl_down r \<noteq> '''' then None
      else map_option (\<lambda>ev. r\<lparr>rl_peer := proxy_step (Response, ev) (rl_peer r)\<rparr>)
             (stream_end d (px_response_closed (rl_host r)) (rl_host r)))"
| "relay_step d (PeerFails w ev) r =
     (if failure ev then Some (r\<lparr>rl_peer := proxy_step (w, ev) (rl_peer r)\<rparr>) else None)"
| "relay_step d (HostFails w ev) r =
     (if failure ev then Some (r\<lparr>rl_host := proxy_step (w, ev) (rl_host r)\<rparr>) else None)"

definition new_relay :: "string \<Rightarrow> string \<Rightarrow> relay" where
  "new_relay request answer =
     \<lparr>rl_client = request, rl_peer = new_proxy, rl_up = '''', rl_host = new_proxy, rl_server = answer, rl_down = ''''\<rparr>"

inductive relay_reachable :: "bool \<Rightarrow> string \<Rightarrow> string \<Rightarrow> relay \<Rightarrow> bool" for d request answer where
  relay_new: "relay_reachable d request answer (new_relay request answer)"
| relay_next: "\<lbrakk>relay_reachable d request answer r; relay_step d ev r = Some r'\<rbrakk> \<Longrightarrow> relay_reachable d request answer r'"

text \<open>Bytes are never lost or reordered on their way, and a stream is only closed behind the last of them.\<close>

definition relay_inv :: "bool \<Rightarrow> string \<Rightarrow> string \<Rightarrow> relay \<Rightarrow> bool" where
  "relay_inv d request answer r \<longleftrightarrow>
     px_request (rl_host r) @ rl_up r @ rl_client r = request \<and>
     px_response (rl_peer r) @ rl_down r @ rl_server r = answer \<and>
     (px_request_closed (rl_peer r) \<longrightarrow> rl_client r = '''' \<and> px_phase (rl_peer r) \<noteq> BothWays) \<and>
     (px_response_closed (rl_host r) \<longrightarrow> rl_server r = '''' \<and> px_phase (rl_host r) = ProxyOver) \<and>
     (\<not> d \<longrightarrow> px_request_closed (rl_host r) \<longrightarrow> px_request_closed (rl_peer r) \<and> rl_up r = '''') \<and>
     (\<not> d \<longrightarrow> px_response_closed (rl_peer r) \<longrightarrow> px_response_closed (rl_host r) \<and> rl_down r = '''')"

lemma failure_keeps:
  assumes "failure ev"
  shows "px_request (proxy_step (w, ev) p) = px_request p" "px_response (proxy_step (w, ev) p) = px_response p"
    "px_request_closed (proxy_step (w, ev) p) = px_request_closed p" "px_response_closed (proxy_step (w, ev) p) = px_response_closed p"
    "px_phase (proxy_step (w, ev) p) \<in> {px_phase p, ProxyOver}"
  using assms by (cases w; cases ev; simp add: failure_def)+

text \<open>What one step can do to the invariant, event by event.\<close>

lemma relay_inv_failing:
  assumes "relay_inv d request answer r" and "failure ev"
  shows "relay_inv d request answer (r\<lparr>rl_peer := proxy_step (w, ev) (rl_peer r)\<rparr>)"
    and "relay_inv d request answer (r\<lparr>rl_host := proxy_step (w, ev) (rl_host r)\<rparr>)"
  using assms(1) failure_keeps [OF assms(2), of w "rl_peer r"] failure_keeps [OF assms(2), of w "rl_host r"]
  by (auto simp: relay_inv_def simp del: proxy_step.simps)

lemma take_drop_append [simp]: "take n xs @ drop n xs @ ys = xs @ ys"
  by (metis append.assoc append_take_drop_id)

lemma relay_inv_moves:
  assumes "relay_inv d request answer r"
  shows "relay_step d (PeerTakes n) r = Some r' \<Longrightarrow> relay_inv d request answer r'"
    and "relay_step d (HostPasses n) r = Some r' \<Longrightarrow> relay_inv d request answer r'"
    and "relay_step d (HostTakes n) r = Some r' \<Longrightarrow> relay_inv d request answer r'"
    and "relay_step d (PeerPasses n) r = Some r' \<Longrightarrow> relay_inv d request answer r'"
  using assms by (cases r; cases "rl_host r"; cases "rl_peer r"; clarsimp simp: relay_inv_def split: if_splits)+

lemma relay_inv_ends:
  assumes "relay_inv d request answer r"
  shows "relay_step d ClientEnds r = Some r' \<Longrightarrow> relay_inv d request answer r'"
    and "relay_step d HostSeesEnd r = Some r' \<Longrightarrow> relay_inv d request answer r'"
    and "relay_step d ServerEnds r = Some r' \<Longrightarrow> relay_inv d request answer r'"
    and "relay_step d PeerSeesEnd r = Some r' \<Longrightarrow> relay_inv d request answer r'"
  using assms
  by (cases r; cases "rl_host r"; cases "rl_peer r"; clarsimp simp: relay_inv_def stream_end_def split: if_splits)+

lemma relay_inv_step:
  assumes "relay_inv d request answer r" and "relay_step d ev r = Some r'"
  shows "relay_inv d request answer r'"
proof (cases ev)
  case (PeerFails w e)
  with assms show ?thesis using relay_inv_failing(1) [OF assms(1), of e w] by (simp split: if_splits)
next
  case (HostFails w e)
  with assms show ?thesis using relay_inv_failing(2) [OF assms(1), of e w] by (simp split: if_splits)
qed (use assms relay_inv_moves [OF assms(1)] relay_inv_ends [OF assms(1)] in blast)+

lemma relay_reachable_inv: "relay_reachable d request answer r \<Longrightarrow> relay_inv d request answer r"
proof (induction rule: relay_reachable.induct)
  case relay_new
  show ?case by (simp add: relay_inv_def new_relay_def new_proxy_def)
next
  case (relay_next r ev r')
  then show ?case using relay_inv_step by blast
qed

text \<open>Whatever the order of the moves and wherever either side fails: the server receives a beginning of the request,
  the client a beginning of the answer.\<close>

lemma relay_prefixes:
  assumes "relay_reachable d request answer r"
  shows "prefix (px_request (rl_host r)) request \<and> prefix (px_response (rl_peer r)) answer"
  using relay_reachable_inv [OF assms] by (auto simp: relay_inv_def prefix_def)

definition relay_run :: "bool \<Rightarrow> relay_event list \<Rightarrow> relay \<Rightarrow> relay option" where
  "relay_run d evs r = fold (\<lambda>ev st. Option.bind st (relay_step d ev)) evs (Some r)"

lemma fold_none: "fold (\<lambda>ev st. Option.bind st (relay_step d ev)) evs None = None"
  by (induction evs) simp_all

lemma relay_run_reachable:
  "\<lbrakk>relay_reachable d request answer r; relay_run d evs r = Some r'\<rbrakk> \<Longrightarrow> relay_reachable d request answer r'"
proof (induction evs arbitrary: r)
  case (Cons ev evs)
  then obtain r1 where "relay_step d ev r = Some r1" "relay_run d evs r1 = Some r'"
    by (cases "relay_step d ev r") (auto simp: relay_run_def fold_none)
  with Cons show ?case by (meson relay_next)
qed (simp add: relay_run_def)

text \<open>An exchange in which the answer comes in two halves.\<close>

definition demo_exchange :: "relay_event list" where
  "demo_exchange =
     [PeerTakes 3, HostPasses 3, HostTakes 2, PeerPasses 2, HostTakes 9, ServerEnds, PeerPasses 9, PeerSeesEnd]"

text \<open>Where the end of a dropped stream looks like that of a closed one, a server that breaks off in its answer looks to the client like one that is done.\<close>

lemma broken_answer_looks_whole:
  "\<exists>r. relay_run True [PeerTakes 3, HostPasses 3, HostTakes 2, HostFails Response (CopyFails ''reset''), PeerPasses 2, PeerSeesEnd]
         (new_relay ''get'' ''answer'') = Some r \<and>
       px_response_closed (rl_peer r) \<and> px_response (rl_peer r) = ''an''"
  by (simp add: relay_run_def new_relay_def new_proxy_def stream_end_def failure_def)

text \<open>As long as nothing failed, a side is only over when the answer has passed it.\<close>

definition undisturbed :: "relay_event \<Rightarrow> bool" where
  "undisturbed ev = (case ev of PeerFails _ _ \<Rightarrow> False | HostFails _ _ \<Rightarrow> False | _ \<Rightarrow> True)"

definition healthy :: "string \<Rightarrow> relay \<Rightarrow> bool" where
  "healthy answer r \<longleftrightarrow>
     (px_phase (rl_host r) = ProxyOver \<longrightarrow> px_response_closed (rl_host r) \<or> px_phase (rl_peer r) = ProxyOver) \<and>
     (px_phase (rl_peer r) = ProxyOver \<longrightarrow> px_response_closed (rl_peer r) \<and> px_response (rl_peer r) = answer)"

lemma healthy_moves:
  assumes "healthy answer r"
  shows "relay_step d (PeerTakes n) r = Some r' \<Longrightarrow> healthy answer r'"
    and "relay_step d (HostPasses n) r = Some r' \<Longrightarrow> healthy answer r'"
    and "relay_step d (HostTakes n) r = Some r' \<Longrightarrow> healthy answer r'"
    and "relay_step d (PeerPasses n) r = Some r' \<Longrightarrow> healthy answer r'"
    and "relay_step d ClientEnds r = Some r' \<Longrightarrow> healthy answer r'"
    and "relay_step d ServerEnds r = Some r' \<Longrightarrow> healthy answer r'"
    and "relay_step d HostSeesEnd r = Some r' \<Longrightarrow> healthy answer r'"
  using assms
  by (cases r; cases "rl_host r"; cases "rl_peer r"; clarsimp simp: healthy_def stream_end_def split: if_splits; blast?)+

lemma healthy_peer_end:
  assumes "healthy answer r" and "relay_inv d request answer r" and "relay_step d PeerSeesEnd r = Some r'"
  shows "healthy answer r'"
  using assms
  by (cases r; cases "rl_host r"; cases "rl_peer r"; clarsimp simp: healthy_def relay_inv_def stream_end_def split: if_splits)

lemma healthy_run:
  "\<lbrakk>relay_reachable d request answer r; healthy answer r; list_all undisturbed evs; relay_run d evs r = Some r'\<rbrakk>
     \<Longrightarrow> healthy answer r'"
proof (induction evs arbitrary: r)
  case (Cons ev evs)
  then obtain r1 where r1: "relay_step d ev r = Some r1" "relay_run d evs r1 = Some r'"
    by (cases "relay_step d ev r") (auto simp: relay_run_def fold_none)
  have "healthy answer r1"
    using Cons.prems(3) r1(1) healthy_moves [OF Cons.prems(2)] healthy_peer_end [OF Cons.prems(2) relay_reachable_inv [OF Cons.prems(1)]]
    by (cases ev) (simp_all add: undisturbed_def del: relay_step.simps)
  with Cons r1 show ?case by (auto intro: relay_next)
qed (simp add: relay_run_def)

definition last_events :: "relay \<Rightarrow> relay_event list" where
  "last_events r =
     (if px_phase (rl_host r) = ProxyOver then [] else [HostTakes (length (rl_server r)), ServerEnds]) @
     [PeerPasses (length (rl_down r) + length (rl_server r)), PeerSeesEnd]"

lemma last_events_finish:
  assumes "healthy answer r" and "relay_inv d request answer r" and "px_phase (rl_peer r) \<noteq> ProxyOver"
  shows "\<exists>r'. relay_run d (last_events r) r = Some r' \<and> px_response_closed (rl_peer r') \<and> px_response (rl_peer r') = answer"
  using assms
  by (cases r; cases "rl_host r"; cases "rl_peer r")
     (clarsimp simp: healthy_def relay_inv_def stream_end_def last_events_def relay_run_def)

text \<open>C25. From every moment of an exchange in which nothing failed, in whatever order its bytes moved, the two sides can
  bring it to its end: the client has the whole answer and sees that it is whole.\<close>

theorem answer_arrives:
  assumes "relay_run d evs (new_relay request answer) = Some r" and "list_all undisturbed evs"
    and "px_phase (rl_peer r) \<noteq> ProxyOver"
  shows "\<exists>later r'. list_all undisturbed later \<and> relay_run d later r = Some r' \<and>
           px_response_closed (rl_peer r') \<and> px_response (rl_peer r') = answer"
proof -
  have start: "healthy answer (new_relay request answer)" by (simp add: healthy_def new_relay_def new_proxy_def)
  have "relay_inv d request answer r"
    by (rule relay_reachable_inv [OF relay_run_reachable [OF relay_new assms(1)]])
  moreover have "healthy answer r"
    by (rule healthy_run [OF relay_new start assms(2,1)])
  ultimately obtain r' where "relay_run d (last_events r) r = Some r'" "px_response_closed (rl_peer r')" "px_response (rl_peer r') = answer"
    using last_events_finish [OF _ _ assms(3)] by blast
  moreover have "list_all undisturbed (last_events r)" by (simp add: last_events_def undisturbed_def)
  ultimately show ?thesis by blast
qed

lemma answer_arrives_witness:
  "\<exists>r later r'. relay_run True (take 3 demo_exchange) (new_relay ''get'' ''answer'') = Some r \<and>
     relay_run True later r = Some r' \<and> px_response (rl_peer r') = ''answer''"
proof -
  obtain r where r: "relay_run True (take 3 demo_exchange) (new_relay ''get'' ''answer'') = Some r" "px_phase (rl_peer r) \<noteq> ProxyOver"
    by (simp add: relay_run_def demo_exchange_def new_relay_def new_proxy_def)
  have "list_all undisturbed (take 3 demo_exchange)" by (simp add: demo_exchange_def undisturbed_def)
  from answer_arrives [OF r(1) this r(2)] r(1) show ?thesis by blast
qed

section \<open>Accepting peers, and the daemon's handlers around it\<close>

text \<open>\<open>share\<close>: the loop ends when it is told to stop or its sender is gone, when the endpoint is gone, and when a peer's
  handshake fails.\<close>

record share_task =
  sk_ticket :: string
  sk_told :: bool
  sk_links :: nat
  sk_ended :: "(string + unit) option"

datatype share_event = StopTaken | PeerComes "string + unit" | EndpointGone

definition share_step :: "share_event \<Rightarrow> share_task \<Rightarrow> share_task" where
  "share_step ev t =
     (if sk_ended t \<noteq> None then t
      else case ev of
        StopTaken \<Rightarrow> if sk_told t then t\<lparr>sk_ended := Some (Inr ())\<rparr> else t
      | PeerComes (Inl e) \<Rightarrow> t\<lparr>sk_ended := Some (Inl e)\<rparr>
      | PeerComes (Inr _) \<Rightarrow> t\<lparr>sk_links := Suc (sk_links t)\<rparr>
      | EndpointGone \<Rightarrow> t\<lparr>sk_ended := Some (Inr ())\<rparr>)"

text \<open>The daemon. A request to share first sees whether sharing is on; once its endpoint is ready it starts its task, and
  then sets the ticket, the running flag and the sender, each under a lock of its own; a request to stop takes the sender
  and tells its task, and then clears the flag and the ticket, all while it has the sender's lock. Other requests may come
  between any two of these sections. \<open>sh_sender\<close> is whose task the sender stops; \<open>sh_asked\<close> counts the requests
  that are past the guard and wait for their endpoint; \<open>sh_hand\<close> is for every task whose request is not through what that
  request does next; \<open>sh_stopping\<close> is what the request that has the sender's lock does next. A sender that is replaced is
  dropped, which its task sees as well.\<close>

datatype share_section = SetTicket | SetRunning | SetSender

datatype unshare_section = ClearRunning | ClearTicket

record sharing =
  sh_state :: remote_state
  sh_sender :: "nat option"
  sh_tasks :: "share_task list"
  sh_asked :: nat
  sh_hand :: "nat \<rightharpoonup> share_section"
  sh_stopping :: "unshare_section option"

datatype sharing_event =
    AskToShare | EndpointReady "string + string" | ShareGoesOn nat | AskToUnshare | UnshareGoesOn | TaskMoves nat share_event

definition tell :: "nat option \<Rightarrow> share_task list \<Rightarrow> share_task list" where
  "tell sender ts = (case sender of None \<Rightarrow> ts | Some i \<Rightarrow> ts[i := (ts ! i)\<lparr>sk_told := True\<rparr>])"

definition share_section_step :: "nat \<Rightarrow> share_section \<Rightarrow> sharing \<Rightarrow> sharing" where
  "share_section_step i sect s =
     (case sect of
        SetTicket \<Rightarrow>
          s\<lparr>sh_state := (sh_state s)\<lparr>rm_ticket := Some (sk_ticket (sh_tasks s ! i))\<rparr>, sh_hand := (sh_hand s)(i \<mapsto> SetRunning)\<rparr>
      | SetRunning \<Rightarrow> s\<lparr>sh_state := (sh_state s)\<lparr>rm_running := True\<rparr>, sh_hand := (sh_hand s)(i \<mapsto> SetSender)\<rparr>
      | SetSender \<Rightarrow>
          if sh_stopping s \<noteq> None then s
          else s\<lparr>sh_state := (sh_state s)\<lparr>rm_stop := True\<rparr>, sh_sender := Some i, sh_tasks := tell (sh_sender s) (sh_tasks s),
                 sh_hand := (sh_hand s)(i := None)\<rparr>)"

definition unshare_section_step :: "unshare_section \<Rightarrow> sharing \<Rightarrow> sharing" where
  "unshare_section_step sect s =
     (case sect of
        ClearRunning \<Rightarrow> s\<lparr>sh_state := (sh_state s)\<lparr>rm_running := False\<rparr>, sh_stopping := Some ClearTicket\<rparr>
      | ClearTicket \<Rightarrow> s\<lparr>sh_state := (sh_state s)\<lparr>rm_ticket := None\<rparr>, sh_stopping := None\<rparr>)"

definition sharing_step :: "sharing_event \<Rightarrow> sharing \<Rightarrow> sharing" where
  "sharing_step ev s =
     (case ev of
        AskToShare \<Rightarrow> if rm_running (sh_state s) then s else s\<lparr>sh_asked := Suc (sh_asked s)\<rparr>
      | EndpointReady endpoint \<Rightarrow>
          if sh_asked s = 0 then s
          else (case endpoint of
                  Inl e \<Rightarrow> s\<lparr>sh_asked := sh_asked s - 1\<rparr>
                | Inr ticket \<Rightarrow>
                    s\<lparr>sh_tasks := sh_tasks s @ [\<lparr>sk_ticket = ticket, sk_told = False, sk_links = 0, sk_ended = None\<rparr>],
                      sh_hand := (sh_hand s)(length (sh_tasks s) \<mapsto> SetTicket), sh_asked := sh_asked s - 1\<rparr>)
      | ShareGoesOn i \<Rightarrow> (case sh_hand s i of None \<Rightarrow> s | Some sect \<Rightarrow> share_section_step i sect s)
      | AskToUnshare \<Rightarrow>
          if sh_stopping s \<noteq> None then s
          else s\<lparr>sh_state := (sh_state s)\<lparr>rm_stop := False\<rparr>, sh_sender := None, sh_tasks := tell (sh_sender s) (sh_tasks s),
                 sh_stopping := Some ClearRunning\<rparr>
      | UnshareGoesOn \<Rightarrow> (case sh_stopping s of None \<Rightarrow> s | Some sect \<Rightarrow> unshare_section_step sect s)
      | TaskMoves i ev \<Rightarrow> s\<lparr>sh_tasks := (if i < length (sh_tasks s) then (sh_tasks s)[i := share_step ev (sh_tasks s ! i)] else sh_tasks s)\<rparr>)"

definition not_sharing :: sharing where
  "not_sharing =
     \<lparr>sh_state = \<lparr>rm_running = False, rm_ticket = None, rm_stop = False\<rparr>, sh_sender = None, sh_tasks = [], sh_asked = 0,
      sh_hand = (\<lambda>_. None), sh_stopping = None\<rparr>"

definition sharing_run :: "sharing_event list \<Rightarrow> sharing" where
  "sharing_run evs = fold sharing_step evs not_sharing"

text \<open>The same with handlers that nothing comes in between of, once a request to share has its endpoint.\<close>

definition in_one_piece :: "sharing_event \<Rightarrow> sharing \<Rightarrow> sharing" where
  "in_one_piece ev s =
     (case ev of
        EndpointReady endpoint \<Rightarrow>
          fold sharing_step (EndpointReady endpoint # replicate 3 (ShareGoesOn (length (sh_tasks s)))) s
      | AskToUnshare \<Rightarrow> fold sharing_step [AskToUnshare, UnshareGoesOn, UnshareGoesOn] s
      | _ \<Rightarrow> sharing_step ev s)"

definition unhurried_run :: "sharing_event list \<Rightarrow> sharing" where
  "unhurried_run evs = fold in_one_piece evs not_sharing"

text \<open>In one piece they are the handlers of \<open>Daemon\<close>.\<close>

definition between_requests :: "sharing \<Rightarrow> bool" where
  "between_requests s \<longleftrightarrow> sh_hand s = (\<lambda>_. None) \<and> sh_stopping s = None"

lemma share_in_one_piece:
  assumes "get_current_user db = Inr u" and "sh_asked s = 0" and "between_requests s"
  shows "sh_state (in_one_piece (EndpointReady endpoint) (sharing_step AskToShare s)) =
         snd (share_remote_inference endpoint db (sh_state s))"
  using assms
  by (auto simp: sharing_step_def in_one_piece_def share_section_step_def share_remote_inference_def between_requests_def
      numeral_3_eq_3 split: sum.split)

lemma unshare_in_one_piece:
  "between_requests s \<Longrightarrow> sh_state (in_one_piece AskToUnshare s) = fst (snd (unshare_remote_inference (sh_state s)))"
  by (simp add: sharing_step_def in_one_piece_def unshare_section_step_def unshare_remote_inference_def between_requests_def)


lemma share_step_keeps [simp]: "sk_told (share_step ev t) = sk_told t" "sk_ticket (share_step ev t) = sk_ticket t"
  by (auto simp: share_step_def split: share_event.split sum.split)

lemma length_tell [simp]: "length (tell sender ts) = length ts"
  by (simp add: tell_def split: option.split)


lemma tell_keeps [simp]: "j < length ts \<Longrightarrow> sk_ticket (tell sender ts ! j) = sk_ticket (ts ! j)"
  by (cases sender; cases "sender = Some j") (auto simp: tell_def nth_list_update)









text \<open>Two requests that are both past the guard: the second takes over.\<close>

definition two_at_once :: "sharing_event list" where
  "two_at_once = [AskToShare, AskToShare, EndpointReady (Inr ''first''), EndpointReady (Inr ''second'')]"

lemmas sharing_eval = sharing_run_def unhurried_run_def in_one_piece_def sharing_step_def share_section_step_def
  unshare_section_step_def not_sharing_def tell_def numeral_3_eq_3


text \<open>A request to stop that comes when a request to share has set the flag and not yet the sender finds no task to tell:
  the daemon goes on to say that nothing is shared, with a task that accepts peers.\<close>

lemma shared_in_secret:
  "let s = sharing_run [AskToShare, EndpointReady (Inr ''t''), ShareGoesOn 0, ShareGoesOn 0,
                        AskToUnshare, UnshareGoesOn, UnshareGoesOn, ShareGoesOn 0] in
   fst (show_remote_status (sh_state s)) = (False, None) \<and> map sk_told (sh_tasks s) = [False] \<and> between_requests s"
  by (simp add: sharing_eval show_remote_status_def between_requests_def Let_def fun_eq_iff)

text \<open>Of two requests that are both past the guard one may set its ticket last, and the other its sender: the ticket shown
  leads to a task that has stopped.\<close>

lemma wrong_ticket_shown:
  "let s = sharing_run (two_at_once @ [ShareGoesOn 0, ShareGoesOn 1, ShareGoesOn 1, ShareGoesOn 1, ShareGoesOn 0, ShareGoesOn 0]) in
   fst (show_remote_status (sh_state s)) = (True, Some ''second'') \<and>
   map (\<lambda>t. (sk_ticket t, sk_told t)) (sh_tasks s) = [(''first'', False), (''second'', True)] \<and> between_requests s"
  by (simp add: two_at_once_def sharing_eval show_remote_status_def between_requests_def Let_def fun_eq_iff)

text \<open>A request that was past the guard before sharing ended shares again when its endpoint is ready.\<close>

lemma late_share: "rm_running (sh_state (unhurried_run [AskToShare, AskToUnshare, EndpointReady (Inr ''t'')]))"
  by (simp add: sharing_eval)

text \<open>One failed handshake ends the sharing for everybody, and the daemon goes on saying that it shares: no peer is
  accepted any more, and a request to share is refused.\<close>

theorem failed_handshake_ends_sharing:
  assumes "sh_sender s = Some i" and "i < length (sh_tasks s)" and "sk_ended (sh_tasks s ! i) = None"
    and "rm_running (sh_state s)"
  shows "let s' = sharing_step (TaskMoves i (PeerComes (Inl e))) s in
         sh_state s' = sh_state s \<and> sharing_step AskToShare s' = s' \<and>
         fst (share_remote_inference endpoint db (sh_state s')) = Inl (AlreadyExists ''Remote inference is already being shared'') \<and>
         sharing_step (TaskMoves i ev) s' = s'"
  using assms
  by (simp add: sharing_step_def share_step_def share_remote_inference_def Let_def)

definition demo_sharing :: sharing where
  "demo_sharing = unhurried_run two_at_once"

lemma demo_sharing_forms:
  "sh_sender demo_sharing = Some 1" "map sk_told (sh_tasks demo_sharing) = [True, False]" "map sk_ended (sh_tasks demo_sharing) = [None, None]"
  "rm_ticket (sh_state demo_sharing) = Some ''second''" "rm_running (sh_state demo_sharing)"
  by (simp_all add: demo_sharing_def two_at_once_def sharing_eval)

lemma failed_handshake_ends_sharing_witness:
  "let s' = sharing_step (TaskMoves 1 (PeerComes (Inl ''handshake''))) demo_sharing in
   rm_running (sh_state s') \<and> sharing_step AskToShare s' = s' \<and> sharing_step (TaskMoves 1 (PeerComes (Inr ()))) s' = s'"
proof -
  have l: "length (sh_tasks demo_sharing) = 2" using demo_sharing_forms(2) by (metis length_map length_Cons list.size(3) numeral_2_eq_2)
  then have "sk_ended (sh_tasks demo_sharing ! 1) = None"
    using demo_sharing_forms(3) by (metis nth_map nth_Cons_Suc nth_Cons_0 One_nat_def one_less_numeral_iff semiring_norm(76))
  from failed_handshake_ends_sharing [OF demo_sharing_forms(1) _ this demo_sharing_forms(5)] l demo_sharing_forms(5)
  show ?thesis by (simp add: Let_def)
qed

end
