(* ===== verification/ChatStart.thy ===== *)
theory ChatStart
  imports Repl Folders CommandLine
begin

text \<open>
  How a chat in the terminal begins (\<open>run\<close>, \<open>run_model_with_server\<close>, \<open>load_model_in_py\<close> and the head of \<open>start_repl\<close> in
  \<open>repl.rs\<close>, \<open>new\<close> in \<open>core/agent/pi.rs\<close>): which Modelfile is run, what is written to the configuration, when the
  local inference server is needed, and what the agent is started with. The chat itself is the theory Repl.
\<close>

section \<open>Which Modelfile\<close>

text \<open>\<open>read_path\<close> parses a file of the user, \<open>read\<close> one of the folder of those that come with Tiles, which is in the
  library folder. An invalid file is printed and ends the command without an error.\<close>

datatype 'f chosen = InvalidModelfile string | ChosenModelfiles "'f modelfile" "'f modelfile"

definition choose_modelfiles ::
  "string + unit \<Rightarrow> (string \<Rightarrow> string + 'f modelfile) \<Rightarrow> (string \<Rightarrow> string + 'f modelfile) \<Rightarrow> string option \<Rightarrow> string option
     \<Rightarrow> string + 'f chosen" where
  "choose_modelfiles lib read_path read current modelfile_path =
     (case modelfile_path of
        Some p \<Rightarrow>
          (case read_path p of
             Inl e \<Rightarrow> Inr (InvalidModelfile (''Invalid Modelfile due to '' @ e))
           | Inr m \<Rightarrow>
               Inr (ChosenModelfiles m
                 (case res_bind lib (\<lambda>_. read default_modelfile) of Inl _ \<Rightarrow> m | Inr d \<Rightarrow> d)))
      | None \<Rightarrow>
          res_bind lib (\<lambda>_.
            case read default_modelfile of
              Inl e \<Rightarrow> Inr (InvalidModelfile (''Invalid default Modelfile due to '' @ e))
            | Inr d \<Rightarrow>
                (case map_option read (Option.bind current (picked_modelfile read)) of
                   Some (Inr m) \<Rightarrow> Inr (ChosenModelfiles m d)
                 | Some (Inl e) \<Rightarrow> Inr (InvalidModelfile (''Invalid Modelfile for the picked model due to '' @ e))
                 | None \<Rightarrow> Inr (ChosenModelfiles d d))))"

section \<open>Starting the agent\<close>

definition remote_bound_port :: nat where
  "remote_bound_port = 9271"

record pi_host =
  ph_lib :: "string + path"
  ph_data :: "string + path"
  ph_mkdir :: "string + unit"
  ph_write :: "string + unit"
  ph_settings_write :: "string + unit"
  ph_spawn :: "string + unit"

record pi_command =
  pc_exec :: path
  pc_args :: "string list"
  pc_dir :: path

record pi_files =
  pf_models :: "(string \<times> pi_model) option"
  pf_settings :: "(string + pi_settings \<times> string list) option"

text \<open>\<open>None\<close> is a panic, from the context length in the configuration; the files written before a failure stay.\<close>

definition pi_new ::
  "pi_host \<Rightarrow> config_file \<Rightarrow> pi_files \<Rightarrow> string \<Rightarrow> string \<Rightarrow> nat \<Rightarrow> (string + pi_command) option \<times> pi_files" where
  "pi_new H f files model system port =
     (case res_bind (ph_lib H) (\<lambda>lib. res_bind (ph_data H) (\<lambda>data.
             res_bind (map_err (\<lambda>_. ''Failed to create Pi agent directory'') (ph_mkdir H)) (\<lambda>_. Inr (lib, data)))) of
        Inl e \<Rightarrow> (Some (Inl e), files)
      | Inr (lib, data) \<Rightarrow>
          (case create_pi_provider_config model (''http://127.0.0.1:'' @ show_nat port @ ''/v1'') (fst (get_pi_context_window f)) of
             None \<Rightarrow> (None, files)
           | Some models \<Rightarrow>
               (case ph_write H of
                  Inl e \<Rightarrow> (Some (Inl e), files)
                | Inr _ \<Rightarrow>
                    (case handle_pi_settings_config (ph_settings_write H) (pf_settings files) of
                       (Inl e, st) \<Rightarrow> (Some (Inl e), \<lparr>pf_models = Some models, pf_settings = st\<rparr>)
                     | (Inr _, st) \<Rightarrow>
                         (Some (res_bind (ph_spawn H) (\<lambda>_. Inr
                            \<lparr>pc_exec = lib @ [''pi'', ''pi''],
                             pc_args = [''--mode'', ''rpc'', ''--append-system-prompt'', system, ''--no-session''],
                             pc_dir = data @ [''pi'', ''agent'']\<rparr>)),
                          \<lparr>pf_models = Some models, pf_settings = st\<rparr>)))))"

section \<open>The head of the chat\<close>

text \<open>What happens on the way, with what the steps are given.\<close>

datatype chat_step = ConnectsTo string | StartsInference | OffersEngine | LoadsModel string | StartsAgent string string nat

record 'f chat_world =
  cw_memory :: "(string + path) option"
  cw_load :: "'f modelfile \<Rightarrow> 'f modelfile \<Rightarrow> path \<Rightarrow> string + unit"
  cw_user :: "string + unit"
  cw_editor :: "string + unit"
  cw_pi :: pi_host
  cw_files :: pi_files
  cw_state :: "string + state_data"

text \<open>The result is what the agent says of its session, with which the loop over typed lines begins; \<open>None\<close> is a panic.\<close>

definition start_repl ::
  "'f chat_world \<Rightarrow> run_args \<Rightarrow> 'f modelfile \<Rightarrow> config_file \<Rightarrow> chat_step list \<times> (string + state_data) option \<times> config_file" where
  "start_repl W args m f =
     (case model_spec m of
        Inl e \<Rightarrow> ([], Some (Inl e), f)
      | Inr name \<Rightarrow>
          (case update_current_model name f of
             (Inl _, f) \<Rightarrow> ([], Some (Inl ''Failed to update current model in config.toml''), f)
           | (Inr _, f) \<Rightarrow>
               (let system = (case mf_system m of Some s \<Rightarrow> s | None \<Rightarrow> '''');
                    port = (if ra_remote args = None then py_port else remote_bound_port)
                in case res_bind (cw_user W) (\<lambda>_. map_err (\<lambda>_. ''Failed to create editor'') (cw_editor W)) of
                     Inl e \<Rightarrow> ([], Some (Inl e), f)
                   | Inr _ \<Rightarrow>
                       (case fst (pi_new (cw_pi W) f (cw_files W) name system port) of
                          None \<Rightarrow> ([], None, f)
                        | Some (Inl e) \<Rightarrow> ([], Some (Inl e), f)
                        | Some (Inr _) \<Rightarrow> ([StartsAgent name system port], Some (cw_state W), f)))))"

definition run_model_with_server ::
  "bool \<Rightarrow> 'f chat_world \<Rightarrow> run_args \<Rightarrow> 'f modelfile \<Rightarrow> 'f modelfile \<Rightarrow> config_file
     \<Rightarrow> chat_step list \<times> (string + state_data) option \<times> config_file" where
  "run_model_with_server debug W args m d f =
     (case cw_memory W of
        None \<Rightarrow> ([], None, f)
      | Some (Inl _) \<Rightarrow> ([], Some (Inl ''Setting/Retrieving memory_path failed''), f)
      | Some (Inr memory) \<Rightarrow>
          (case (case ra_llama_config args of None \<Rightarrow> (Inr (), f) | Some l \<Rightarrow> update_llama_config l f) of
             (Inl _, f) \<Rightarrow> ([], Some (Inl ''Failed to update llama config''), f)
           | (Inr _, f) \<Rightarrow>
               (case ra_remote args of
                  Some ticket \<Rightarrow> (case start_repl W args m f of (steps, r) \<Rightarrow> (ConnectsTo ticket # steps, r))
                | None \<Rightarrow>
                    (let first = (if debug then [] else [StartsInference]) @
                                 [OffersEngine, LoadsModel (case mf_from m of Some r \<Rightarrow> r | None \<Rightarrow> '''')]
                     in case cw_load W m d memory of
                          Inl e \<Rightarrow> (first, Some (Inl e), f)
                        | Inr _ \<Rightarrow> (case start_repl W args m f of (steps, r) \<Rightarrow> (first @ steps, r))))))"

text \<open>\<open>run\<close>: whether the loop is reached, or the command ends with a message and no error.\<close>

definition run_chat ::
  "bool \<Rightarrow> string + unit \<Rightarrow> (string \<Rightarrow> string + 'f modelfile) \<Rightarrow> (string \<Rightarrow> string + 'f modelfile) \<Rightarrow> 'f chat_world \<Rightarrow> run_args
     \<Rightarrow> config_file \<Rightarrow> chat_step list \<times> (string + string + state_data) option \<times> config_file" where
  "run_chat debug lib read_path read W args f =
     (let (current, f) = (if ra_modelfile_path args = None \<and> is_ok lib then get_current_model f else (None, f)) in
      case choose_modelfiles lib read_path read current (ra_modelfile_path args) of
        Inl e \<Rightarrow> ([], Some (Inl e), f)
      | Inr (InvalidModelfile msg) \<Rightarrow> ([], Some (Inr (Inl msg)), f)
      | Inr (ChosenModelfiles m d) \<Rightarrow>
          (case run_model_with_server debug W args m d f of
             (steps, r, f) \<Rightarrow> (steps, map_option (\<lambda>r. res_bind r (\<lambda>st. Inr (Inr st))) r, f)))"

section \<open>The inference server loads the model\<close>

record load_body =
  lb_model :: string
  lb_memory_path :: string
  lb_model_cache_path :: string
  lb_system_prompt :: string

definition load_body_of :: "'f modelfile \<Rightarrow> 'f modelfile \<Rightarrow> string \<Rightarrow> string \<Rightarrow> string + load_body" where
  "load_body_of m d memory gguf =
     res_bind (model_spec m) (\<lambda>name. Inr
       \<lparr>lb_model = name, lb_memory_path = memory, lb_model_cache_path = gguf,
        lb_system_prompt = (case mf_system m of Some s \<Rightarrow> s | None \<Rightarrow> (case mf_system d of Some s \<Rightarrow> s | None \<Rightarrow> ''''))\<rparr>)"

text \<open>\<open>warnings\<close> reads them from an answer in JSON, \<open>shown\<close> is how an answer is printed.\<close>

definition load_model_in_py ::
  "(string option \<Rightarrow> string + 'v warning list option) \<Rightarrow> (daemon_reply \<Rightarrow> string) \<Rightarrow> (load_body \<Rightarrow> daemon_reply)
     \<Rightarrow> 'f modelfile \<Rightarrow> 'f modelfile \<Rightarrow> string \<Rightarrow> string \<Rightarrow> string + string list" where
  "load_model_in_py warnings shown send m d memory gguf =
     res_bind (load_body_of m d memory gguf) (\<lambda>body.
       case send body of
         NoReply e \<Rightarrow> Inl e
       | Reply status text \<Rightarrow>
           if status = 200
           then res_bind (warnings text) (\<lambda>ws. Inr (map (\<lambda>w. ''WARNING: '' @ w) (model_load_warnings ws)))
           else Inl (''Failed to load model '' @ lb_model body @ '' due to '' @ shown (Reply status text)))"

text \<open>One start of \<open>load_model\<close>: the file is resolved in the folder of the cache and the server loads it.\<close>

definition start_model ::
  "(string option \<Rightarrow> string + 'v warning list option) \<Rightarrow> (daemon_reply \<Rightarrow> string) \<Rightarrow> (load_body \<Rightarrow> daemon_reply)
     \<Rightarrow> (string \<Rightarrow> string + (string \<times> bool) list) \<Rightarrow> 'f modelfile \<Rightarrow> 'f modelfile \<Rightarrow> string \<Rightarrow> string \<Rightarrow> string + string list" where
  "start_model warnings shown send entries m d memory cache =
     res_bind (resolve_gguf_path cache (mf_quant m) (entries cache)) (load_model_in_py warnings shown send m d memory)"

section \<open>What a chat begins with\<close>

lemma picked_readable:
  assumes "picked_modelfile read picked = Some path"
  shows "\<exists>m. read path = Inr m"
proof -
  obtain s where "modelfile_spec (read path) = Inr s"
    using assms by (auto simp: picked_modelfile_def modelfile_for_def find_Some_iff Option.bind_eq_Some_conv)
  then show ?thesis by (auto simp: modelfile_spec_def res_bind_def split: sum.splits)
qed

text \<open>So the message about the Modelfile of the picked model is never printed.\<close>

lemma picked_never_invalid:
  "choose_modelfiles lib read_path read current None \<noteq>
     Inr (InvalidModelfile (''Invalid Modelfile for the picked model due to '' @ e))"
  by (auto dest!: picked_readable simp: choose_modelfiles_def res_bind_def Option.bind_eq_Some_conv split: sum.splits option.splits)

text \<open>The two writes of a start, and the context length the agent gets after them.\<close>

lemma written_config:
  assumes "f \<noteq> BadConfig"
  shows "fst (update_current_model name f) = Inr ()" and "fst (update_llama_config l f) = Inr ()"
    and "snd (update_current_model name f) \<noteq> BadConfig" and "snd (update_llama_config l f) \<noteq> BadConfig"
  using assms
  by (cases f; auto simp: config_writes edit_config_def get_or_create_root_config_def save_root_config_def split: option.split)+

lemma context_of: "f \<noteq> BadConfig \<Longrightarrow> fst (get_pi_context_window f) = ll_context_length (projr (fst (get_llama_config f)))"
  by (cases f) (simp_all add: get_pi_context_window_def get_llama_config_def get_or_create_root_config_def)

lemma context_written:
  assumes "f \<noteq> BadConfig"
  shows "fst (get_pi_context_window (snd (update_current_model name f))) = fst (get_pi_context_window f)"
    and "fst (get_pi_context_window (snd (update_llama_config l f))) = or_option (ll_context_length l) (fst (get_pi_context_window f))"
  using assms config_roundtrip [OF assms, of name None l] written_config [OF assms]
  by (simp_all add: context_of config_reads case_prod_beta Let_def merge_llama_def)

text \<open>A run of a model, where nothing but the context length can go wrong.\<close>

definition all_well :: "'f chat_world \<Rightarrow> run_args \<Rightarrow> 'f modelfile \<Rightarrow> 'f modelfile \<Rightarrow> config_file \<Rightarrow> bool" where
  "all_well W args m d f \<longleftrightarrow>
     f \<noteq> BadConfig \<and> is_ok (model_spec m) \<and> is_ok (cw_user W) \<and> is_ok (cw_editor W) \<and>
     is_ok (ph_lib (cw_pi W)) \<and> is_ok (ph_data (cw_pi W)) \<and> is_ok (ph_mkdir (cw_pi W)) \<and>
     (case cw_memory W of Some (Inr memory) \<Rightarrow> ra_remote args = None \<longrightarrow> is_ok (cw_load W m d memory) | _ \<Rightarrow> False)"

lemma pi_new_panics:
  assumes "is_ok (ph_lib H)" and "is_ok (ph_data H)" and "is_ok (ph_mkdir H)"
  shows "fst (pi_new H f files model system port) = None \<longleftrightarrow> (\<exists>w. fst (get_pi_context_window f) = Some w \<and> w < 4096)"
proof -
  obtain lib data where "ph_lib H = Inr lib" "ph_data H = Inr data" "ph_mkdir H = Inr ()"
    using assms by (cases "ph_lib H"; cases "ph_data H"; cases "ph_mkdir H") auto
  then have "fst (pi_new H f files model system port) = None \<longleftrightarrow>
      create_pi_provider_config model (''http://127.0.0.1:'' @ show_nat port @ ''/v1'') (fst (get_pi_context_window f)) = None"
    by (simp add: pi_new_def map_err_def split: sum.split option.split prod.split)
  then show ?thesis by (simp only: pi_config_panics)
qed

lemma start_repl_panics:
  assumes "f \<noteq> BadConfig" and "is_ok (model_spec m)" and "is_ok (cw_user W)" and "is_ok (cw_editor W)"
    and "is_ok (ph_lib (cw_pi W))" and "is_ok (ph_data (cw_pi W))" and "is_ok (ph_mkdir (cw_pi W))"
  shows "fst (snd (start_repl W args m f)) = None \<longleftrightarrow> (\<exists>w. fst (get_pi_context_window f) = Some w \<and> w < 4096)"
    and "snd (snd (start_repl W args m f)) \<noteq> BadConfig"
    and "fst (get_pi_context_window (snd (snd (start_repl W args m f)))) = fst (get_pi_context_window f)"
proof -
  obtain name where name: "model_spec m = Inr name" using assms(2) by (cases "model_spec m") auto
  obtain f1 where f1: "update_current_model name f = (Inr (), f1)"
    using written_config(1) [OF assms(1), of name] by (cases "update_current_model name f") auto
  have kept: "f1 \<noteq> BadConfig" "fst (get_pi_context_window f1) = fst (get_pi_context_window f)"
    using written_config(3) [OF assms(1), of name] context_written(1) [OF assms(1), of name] f1 by simp_all
  have ok: "res_bind (cw_user W) (\<lambda>_. map_err (\<lambda>_. ''Failed to create editor'') (cw_editor W)) = Inr ()"
    using assms(3,4) by (cases "cw_user W"; cases "cw_editor W") (simp_all add: map_err_def)
  define start where
    "start = fst (pi_new (cw_pi W) f1 (cw_files W) name (case mf_system m of Some s \<Rightarrow> s | None \<Rightarrow> [])
                    (if ra_remote args = None then py_port else remote_bound_port))"
  have "start_repl W args m f =
      (case start of
         None \<Rightarrow> ([], None, f1)
       | Some (Inl e) \<Rightarrow> ([], Some (Inl e), f1)
       | Some (Inr _) \<Rightarrow>
           ([StartsAgent name (case mf_system m of Some s \<Rightarrow> s | None \<Rightarrow> []) (if ra_remote args = None then py_port else remote_bound_port)],
            Some (cw_state W), f1))"
    by (simp add: start_repl_def name f1 ok Let_def start_def)
  moreover have "start = None \<longleftrightarrow> (\<exists>w. fst (get_pi_context_window f) = Some w \<and> w < 4096)"
    unfolding start_def kept(2) [symmetric] by (rule pi_new_panics [OF assms(5-7)])
  ultimately show "fst (snd (start_repl W args m f)) = None \<longleftrightarrow> (\<exists>w. fst (get_pi_context_window f) = Some w \<and> w < 4096)"
    by (auto split: option.splits sum.splits)
  show "snd (snd (start_repl W args m f)) \<noteq> BadConfig"
    "fst (get_pi_context_window (snd (snd (start_repl W args m f)))) = fst (get_pi_context_window f)"
    using kept by (simp_all add: start_repl_def name f1 ok Let_def split: option.split sum.split)
qed

lemma run_panics:
  assumes "all_well W args m d f"
  defines "w \<equiv> or_option (Option.bind (ra_llama_config args) ll_context_length) (fst (get_pi_context_window f))"
  shows "fst (snd (run_model_with_server debug W args m d f)) = None \<longleftrightarrow> (\<exists>n. w = Some n \<and> n < 4096)"
    and "snd (snd (run_model_with_server debug W args m d f)) \<noteq> BadConfig"
    and "fst (get_pi_context_window (snd (snd (run_model_with_server debug W args m d f)))) = w"
proof -
  define f1 where "f1 = (case ra_llama_config args of None \<Rightarrow> f | Some l \<Rightarrow> snd (update_llama_config l f))"
  have f: "f \<noteq> BadConfig" using assms(1) by (simp add: all_well_def)
  obtain memory where memory: "cw_memory W = Some (Inr memory)"
    using assms(1) by (auto simp: all_well_def split: option.splits sum.splits)
  have step: "(case ra_llama_config args of None \<Rightarrow> (Inr (), f) | Some l \<Rightarrow> update_llama_config l f) = (Inr (), f1)"
    using written_config(2) [OF f] by (auto simp: f1_def prod_eq_iff split: option.split)
  have kept: "f1 \<noteq> BadConfig" "fst (get_pi_context_window f1) = w"
    using f written_config(4) [OF f] context_written(2) [OF f]
    by (auto simp: f1_def w_def or_option_def split: option.split)
  have r: "snd (run_model_with_server debug W args m d f) = snd (start_repl W args m f1)"
    using assms(1)
    by (auto simp: run_model_with_server_def memory step all_well_def Let_def is_ok_def split: option.splits sum.splits prod.splits)
  have well: "is_ok (model_spec m)" "is_ok (cw_user W)" "is_ok (cw_editor W)" "is_ok (ph_lib (cw_pi W))"
    "is_ok (ph_data (cw_pi W))" "is_ok (ph_mkdir (cw_pi W))"
    using assms(1) by (simp_all add: all_well_def)
  show "fst (snd (run_model_with_server debug W args m d f)) = None \<longleftrightarrow> (\<exists>n. w = Some n \<and> n < 4096)"
    "snd (snd (run_model_with_server debug W args m d f)) \<noteq> BadConfig"
    "fst (get_pi_context_window (snd (snd (run_model_with_server debug W args m d f)))) = w"
    using start_repl_panics [OF kept(1) well] by (simp_all add: r kept(2))
qed

text \<open>A context length below the agent's minimum, given once, makes that run panic and stays in the configuration: every
  later run that doesn't name another one panics too, also of another model.\<close>

theorem small_context_sticks:
  assumes "all_well W args m d f" and "Option.bind (ra_llama_config args) ll_context_length = Some n" and "n < 4096"
    and "f' = snd (snd (run_model_with_server debug W args m d f))"
    and "all_well W' args' m' d' f'" and "Option.bind (ra_llama_config args') ll_context_length = None"
  shows "fst (snd (run_model_with_server debug W args m d f)) = None \<and>
         fst (snd (run_model_with_server debug' W' args' m' d' f')) = None"
  using run_panics(1,3) [OF assms(1), of debug] run_panics(1) [OF assms(5), of debug'] assms(2,3,4,6)
  by (simp add: or_option_def)

text \<open>The witnesses run the model of this file on a computer where all goes well.\<close>

definition demo_model :: "unit modelfile" where
  "demo_model = \<lparr>mf_from = Some ''tiles/gemma'', mf_quant = Some ''Q4'', mf_parameters = [], mf_template = None, mf_adapter = None,
     mf_system = Some ''be kind'', mf_license = None, mf_messages = [], mf_data = [], mf_errors = []\<rparr>"

definition demo_world :: "unit chat_world" where
  "demo_world = \<lparr>cw_memory = Some (Inr [''memory'']), cw_load = (\<lambda>_ _ _. Inr ()), cw_user = Inr (), cw_editor = Inr (),
     cw_pi = \<lparr>ph_lib = Inr [''lib''], ph_data = Inr [''data''], ph_mkdir = Inr (), ph_write = Inr (), ph_settings_write = Inr (),
       ph_spawn = Inr ()\<rparr>,
     cw_files = \<lparr>pf_models = None, pf_settings = None\<rparr>,
     cw_state = Inr \<lparr>sd_model_id = ''m'', sd_model_name = ''m'', sd_thinking_level = ''low'', sd_is_streaming = False, sd_session_id = ''s''\<rparr>\<rparr>"

definition demo_args :: "nat option \<Rightarrow> run_args" where
  "demo_args n = \<lparr>ra_modelfile_path = None, ra_relay_count = 10,
     ra_llama_config = Some (llama_default\<lparr>ll_context_length := n\<rparr>), ra_remote = None\<rparr>"

lemma demo_well: "f \<noteq> BadConfig \<Longrightarrow> all_well demo_world (demo_args n) demo_model demo_model f"
  by (simp add: all_well_def demo_world_def demo_args_def demo_model_def model_spec_def ok_or_def)

lemma small_context_sticks_witness:
  "let f' = snd (snd (run_model_with_server False demo_world (demo_args (Some 2048)) demo_model demo_model NoConfig)) in
   fst (snd (run_model_with_server False demo_world (demo_args None) demo_model demo_model f')) = None"
proof -
  have n: "Option.bind (ra_llama_config (demo_args n)) ll_context_length = n" for n by (simp add: demo_args_def llama_default_def)
  have f': "snd (snd (run_model_with_server False demo_world (demo_args (Some 2048)) demo_model demo_model NoConfig)) \<noteq> BadConfig"
    by (rule run_panics(2) [OF demo_well]) simp
  show ?thesis
    using small_context_sticks [OF demo_well n _ refl demo_well [OF f'] n, of False] by (simp add: Let_def)
qed

lemma start_repl_forms:
  assumes "start_repl W args m f = (steps, r, f')" and "f \<noteq> BadConfig"
  shows "(steps = [] \<and> (\<forall>st. r \<noteq> Some (Inr st))) \<or>
    (\<exists>name system. steps = [StartsAgent name system (if ra_remote args = None then 6969 else 9271)] \<and> model_spec m = Inr name \<and>
       system = (case mf_system m of Some s \<Rightarrow> s | None \<Rightarrow> '''') \<and> fst (get_current_model f') = Some name)"
proof (cases "model_spec m")
  case (Inl e)
  with assms show ?thesis by (auto simp: start_repl_def)
next
  case (Inr name)
  obtain f1 where f1: "update_current_model name f = (Inr (), f1)"
    using written_config(1) [OF assms(2), of name] by (cases "update_current_model name f") auto
  then have "fst (get_current_model f1) = Some name"
    using config_roundtrip [OF assms(2), of name None llama_default] by simp
  with assms(1) Inr f1 show ?thesis
    by (auto simp: start_repl_def Let_def py_port_def remote_bound_port_def split: sum.splits option.splits)
qed

text \<open>A start ends before the head of the chat, or comes to it with the flags written and its first steps done.\<close>

definition flags_saved :: "run_args \<Rightarrow> config_file \<Rightarrow> (string + unit) \<times> config_file" where
  "flags_saved args f = (case ra_llama_config args of None \<Rightarrow> (Inr (), f) | Some l \<Rightarrow> update_llama_config l f)"

definition first_steps :: "bool \<Rightarrow> run_args \<Rightarrow> 'f modelfile \<Rightarrow> chat_step list" where
  "first_steps debug args m =
     (case ra_remote args of
        Some t \<Rightarrow> [ConnectsTo t]
      | None \<Rightarrow> (if debug then [] else [StartsInference]) @
                [OffersEngine, LoadsModel (case mf_from m of Some r \<Rightarrow> r | None \<Rightarrow> '''')])"

lemma run_forms:
  "run_model_with_server debug W args m d f =
     (case cw_memory W of
        None \<Rightarrow> ([], None, f)
      | Some (Inl _) \<Rightarrow> ([], Some (Inl ''Setting/Retrieving memory_path failed''), f)
      | Some (Inr memory) \<Rightarrow>
          (case flags_saved args f of
             (Inl _, g) \<Rightarrow> ([], Some (Inl ''Failed to update llama config''), g)
           | (Inr _, g) \<Rightarrow>
               (case if ra_remote args = None then cw_load W m d memory else Inr () of
                  Inl e \<Rightarrow> (first_steps debug args m, Some (Inl e), g)
                | Inr _ \<Rightarrow> (case start_repl W args m g of (steps, r) \<Rightarrow> (first_steps debug args m @ steps, r)))))"
  by (cases "ra_remote args")
     (simp_all add: run_model_with_server_def flags_saved_def first_steps_def Let_def split: option.split sum.split prod.split)

lemma first_steps_simps [simp]: "StartsAgent name system port \<notin> set (first_steps debug args m)"
  "ra_remote args = Some t \<Longrightarrow> first_steps debug args m = [ConnectsTo t]"
  by (auto simp: first_steps_def split: option.split)

text \<open>A chat with another device's model starts nothing here: it doesn't look for the model, and its agent talks to the
  port that leads to the other device. A chat with a local model starts its agent only after the server has loaded the
  model, and talks to the server. Either way, what was written to the configuration before the agent was started is
  the model the agent got.\<close>

theorem chat_start_correct:
  assumes "run_model_with_server debug W args m d f = (steps, r, f')" and "f \<noteq> BadConfig"
  shows "(\<forall>t. ra_remote args = Some t \<longrightarrow> StartsInference \<notin> set steps \<and> (\<forall>x. LoadsModel x \<notin> set steps)) \<and>
         (\<forall>name system port. StartsAgent name system port \<in> set steps \<longrightarrow>
            model_spec m = Inr name \<and> fst (get_current_model f') = Some name \<and>
            port = (if ra_remote args = None then 6969 else 9271) \<and>
            (ra_remote args = None \<longrightarrow> (\<exists>memory. cw_memory W = Some (Inr memory) \<and> cw_load W m d memory = Inr ()))) \<and>
         (\<forall>st. r = Some (Inr st) \<longrightarrow> (\<exists>x \<in> set steps. case x of StartsAgent _ _ _ \<Rightarrow> True | _ \<Rightarrow> False))"
proof (cases "\<exists>memory g later. cw_memory W = Some (Inr memory) \<and> flags_saved args f = (Inr (), g) \<and>
    (ra_remote args = None \<longrightarrow> cw_load W m d memory = Inr ()) \<and> start_repl W args m g = (later, r, f') \<and>
    steps = first_steps debug args m @ later")
  case True
  then obtain memory g later where run: "cw_memory W = Some (Inr memory)" "flags_saved args f = (Inr (), g)"
      "ra_remote args = None \<longrightarrow> cw_load W m d memory = Inr ()" "start_repl W args m g = (later, r, f')"
      "steps = first_steps debug args m @ later"
    by (elim exE conjE) (rule that)
  have "g \<noteq> BadConfig"
    using run(2) assms(2) written_config(4) [OF assms(2)]
    by (cases "ra_llama_config args") (auto simp: flags_saved_def dest: arg_cong [of _ _ snd])
  from start_repl_forms [OF run(4) this] run show ?thesis by auto
next
  case False
  then have "(steps = [] \<or> ra_remote args = None \<and> steps = first_steps debug args m) \<and> (\<forall>st. r \<noteq> Some (Inr st))"
    using assms(1) by (auto simp: run_forms split: option.splits sum.splits prod.splits if_splits)
  then show ?thesis by auto
qed

text \<open>What a run of a model starts the agent with.\<close>

lemma run_starts_agent:
  assumes "run_model_with_server debug W args m d f = (steps, r, f')" and "f \<noteq> BadConfig"
    and "StartsAgent name system port \<in> set steps"
  shows "model_spec m = Inr name \<and> system = (case mf_system m of Some s \<Rightarrow> s | None \<Rightarrow> '''') \<and> fst (get_current_model f') = Some name"
proof -
  obtain g later where run: "flags_saved args f = (Inr (), g)" "start_repl W args m g = (later, r, f')"
      "StartsAgent name system port \<in> set later"
    using assms(1,3) by (auto simp: run_forms split: option.splits sum.splits prod.splits if_splits)
  have "g \<noteq> BadConfig"
    using run(1) assms(2) written_config(4) [OF assms(2)]
    by (cases "ra_llama_config args") (auto simp: flags_saved_def dest: arg_cong [of _ _ snd])
  from start_repl_forms [OF run(2) this] run(3) show ?thesis by auto
qed

text \<open>The Modelfiles that come with Tiles: each one's model is read back from its name, and no two are for the same model.\<close>

definition shipped_apart :: "(string \<Rightarrow> string + 'f modelfile) \<Rightarrow> bool" where
  "shipped_apart read \<longleftrightarrow>
     (\<forall>p \<in> set (map fst bundled).
        (\<forall>m name. read p = Inr m \<longrightarrow> model_spec m = Inr name \<longrightarrow> spec_parse name = modelfile_spec (Inr m)) \<and>
        (\<forall>q \<in> set (map fst bundled). \<forall>s. modelfile_spec (read p) = Inr s \<longrightarrow> modelfile_spec (read q) = Inr s \<longrightarrow> q = p))"

lemma shipped_parse:
  "\<lbrakk>shipped_apart read; read p = Inr m; p \<in> set (map fst bundled); model_spec m = Inr name\<rbrakk> \<Longrightarrow> spec_parse name = modelfile_spec (read p)"
  unfolding shipped_apart_def by metis

lemma shipped_same:
  "\<lbrakk>shipped_apart read; p \<in> set (map fst bundled); q \<in> set (map fst bundled); modelfile_spec (read p) = Inr s;
    modelfile_spec (read q) = Inr s\<rbrakk> \<Longrightarrow> q = p"
  unfolding shipped_apart_def by metis

lemma modelfile_for_Some: "modelfile_for read s = Some p \<Longrightarrow> modelfile_spec (read p) = Inr s \<and> p \<in> set (map fst bundled)"
  unfolding modelfile_for_def find_Some_iff by (metis nth_mem)

lemma chosen_without_path:
  assumes "choose_modelfiles lib read_path read current None = Inr (ChosenModelfiles m d)"
  obtains p where "read p = Inr m" "p \<in> set (map fst bundled)"
    "p = (case Option.bind current (picked_modelfile read) of Some p \<Rightarrow> p | None \<Rightarrow> default_modelfile)"
    "p = default_modelfile \<or> (\<exists>s. modelfile_spec (read p) = Inr s)" "lib = Inr ()"
proof (cases "Option.bind current (picked_modelfile read)")
  case None
  with assms have "read default_modelfile = Inr m" "lib = Inr ()"
    by (auto simp: choose_modelfiles_def res_bind_def split: sum.splits)
  with None that [of default_modelfile] show ?thesis by (simp add: default_modelfile_def bundled_def)
next
  case (Some p)
  with assms have r: "read p = Inr m" "lib = Inr ()"
    by (auto simp: choose_modelfiles_def res_bind_def split: sum.splits)
  obtain s where "modelfile_spec (read p) = Inr s" "p \<in> set (map fst bundled)"
    using Some by (auto simp: picked_modelfile_def Option.bind_eq_Some_conv dest: modelfile_for_Some)
  with r Some show ?thesis by (intro that [of p]) simp_all
qed

lemma found_again:
  assumes "shipped_apart read" and "read p = Inr m" and "p \<in> set (map fst bundled)" and "model_spec m = Inr name"
    and "p = default_modelfile \<or> (\<exists>s. modelfile_spec (read p) = Inr s)"
  shows "(case picked_modelfile read name of Some q \<Rightarrow> q | None \<Rightarrow> default_modelfile) = p"
proof (cases "modelfile_spec (read p)")
  case (Inl e)
  then have "spec_parse name = Inl e" using shipped_parse [OF assms(1-4)] by simp
  with Inl assms(5) show ?thesis by (simp add: picked_modelfile_def ok_def)
next
  case (Inr s)
  then have parse: "spec_parse name = Inr s" using shipped_parse [OF assms(1-4)] by simp
  have "modelfile_for read s \<noteq> None"
    using Inr assms(3) unfolding modelfile_for_def find_None_iff by blast
  then obtain q where q: "modelfile_for read s = Some q" by auto
  with modelfile_for_Some [OF q] have "q = p" using shipped_same [OF assms(1) assms(3) _ Inr] by blast
  with q parse show ?thesis by (simp add: picked_modelfile_def ok_def)
qed

text \<open>C32. The terminal and the daemon chat with the same model, told the same: if \<open>tiles\<close>, run without a path, comes to start
  its agent, then the daemon would have started its own with the same model and the same system prompt, and does so from
  the configuration the run leaves behind. This takes a configuration that can be read, and Modelfiles that come with Tiles
  each named so that the name leads back to its model, no two for the same one. (The inference server is told another thing
  where the chosen Modelfile has no SYSTEM: \<open>server_told_default_system\<close>.)\<close>

theorem same_model_everywhere:
  assumes "run_chat debug lib read_path read W args f = (steps, r, f')" and "StartsAgent name system port \<in> set steps"
    and "ra_modelfile_path args = None" and "f \<noteq> BadConfig" and "shipped_apart read"
  shows "get_agent_start_params lib read (fst (get_current_model f)) = Inr (name, system) \<and>
         get_agent_start_params lib read (fst (get_current_model f')) = Inr (name, system)"
proof -
  obtain current g where g: "(if is_ok lib then get_current_model f else (None, f)) = (current, g)" by fastforce
  obtain m d where chosen: "choose_modelfiles lib read_path read current None = Inr (ChosenModelfiles m d)"
    using assms(1-3) g by (auto simp: run_chat_def split: sum.splits chosen.splits)
  obtain r' where run: "run_model_with_server debug W args m d g = (steps, r', f')"
    using assms(1,3) g chosen by (auto simp: run_chat_def split: prod.splits)
  obtain p where p: "read p = Inr m" "p \<in> set (map fst bundled)"
      "p = (case Option.bind current (picked_modelfile read) of Some p \<Rightarrow> p | None \<Rightarrow> default_modelfile)"
      "p = default_modelfile \<or> (\<exists>s. modelfile_spec (read p) = Inr s)" "lib = Inr ()"
    using chosen_without_path [OF chosen] by blast
  have current: "current = fst (get_current_model f)" and "g \<noteq> BadConfig"
    using g p(5) assms(4)
    by (cases f; auto simp: is_ok_def get_current_model_def get_or_create_root_config_def split: if_splits)+
  from run_starts_agent [OF run this(2) assms(2)] have started: "model_spec m = Inr name"
      "system = (case mf_system m of Some s \<Rightarrow> s | None \<Rightarrow> '''')" "fst (get_current_model f') = Some name" by auto
  have "get_agent_start_params lib read c = Inr (name, system)"
    if "(case Option.bind c (picked_modelfile read) of Some p \<Rightarrow> p | None \<Rightarrow> default_modelfile) = p" for c
    using that p(1,5) started(1,2) by (simp add: get_agent_start_params_def res_bind_def map_err_def)
  with p(3) found_again [OF assms(5) p(1,2) started(1) p(4)] show ?thesis
    by (simp add: current started(3))
qed

definition shipped_demo :: "string \<Rightarrow> string + unit modelfile" where
  "shipped_demo path = (if path = default_modelfile then Inr demo_model else Inl ''none'')"

lemma demo_starts:
  assumes "f \<noteq> BadConfig" and "fst (get_pi_context_window f) = Some 65536"
  shows "fst (start_repl demo_world (demo_args None) demo_model f) = [StartsAgent ''tiles/gemma:Q4'' ''be kind'' 6969]"
proof -
  obtain f1 where f1: "update_current_model ''tiles/gemma:Q4'' f = (Inr (), f1)"
    using written_config(1) [OF assms(1), of "''tiles/gemma:Q4''"] by (cases "update_current_model ''tiles/gemma:Q4'' f") auto
  moreover have "fst (get_pi_context_window f1) = Some 65536"
    using context_written(1) [OF assms(1), of "''tiles/gemma:Q4''"] assms(2) f1 by simp
  ultimately show ?thesis
    by (simp add: start_repl_def demo_world_def demo_args_def demo_model_def model_spec_def ok_or_def Let_def py_port_def pi_new_def
        create_pi_provider_config_def get_pi_max_tokens_def clamp_itself min_tokens_def handle_pi_settings_config_def default_settings_def)
qed

lemma demo_runs:
  "StartsAgent ''tiles/gemma:Q4'' ''be kind'' 6969
     \<in> set (fst (run_chat False (Inr ()) (\<lambda>_. Inl ''none'') shipped_demo demo_world (demo_args None) NoConfig))"
proof -
  obtain g where g: "get_current_model NoConfig = (None, g)" "g \<noteq> BadConfig" "fst (get_pi_context_window g) = Some 65536"
    by (simp add: get_current_model_def get_or_create_root_config_def get_pi_context_window_def get_llama_config_def init_config_def
        with_defaults_def merge_llama_def or_option_def llama_default_def)
  obtain l where l: "ra_llama_config (demo_args None) = Some l" "ll_context_length l = None"
    by (simp add: demo_args_def llama_default_def)
  obtain h where h: "update_llama_config l g = (Inr (), h)"
    using written_config(2) [OF g(2), of l] by (cases "update_llama_config l g") auto
  have start: "fst (start_repl demo_world (demo_args None) demo_model h) = [StartsAgent ''tiles/gemma:Q4'' ''be kind'' 6969]"
  proof (rule demo_starts)
    show "h \<noteq> BadConfig" using written_config(4) [OF g(2), of l] h by simp
    show "fst (get_pi_context_window h) = Some 65536"
      using context_written(2) [OF g(2), of l] h l(2) g(3) by (simp add: or_option_def)
  qed
  have "cw_memory demo_world = Some (Inr [''memory''])" "ra_remote (demo_args None) = None" "ra_modelfile_path (demo_args None) = None"
      "cw_load demo_world demo_model demo_model [''memory''] = Inr ()"
    by (simp_all add: demo_world_def demo_args_def)
  with start h l(1) g(1) show ?thesis
    by (auto simp: run_chat_def choose_modelfiles_def shipped_demo_def run_forms flags_saved_def is_ok_def split: prod.splits)
qed

lemma same_model_everywhere_witness:
  "get_agent_start_params (Inr ()) shipped_demo
     (fst (get_current_model (snd (snd (run_chat False (Inr ()) (\<lambda>_. Inl ''none'') shipped_demo demo_world (demo_args None) NoConfig))))) =
   Inr (''tiles/gemma:Q4'', ''be kind'')"
proof -
  obtain steps r f' where run: "run_chat False (Inr ()) (\<lambda>_. Inl ''none'') shipped_demo demo_world (demo_args None) NoConfig = (steps, r, f')"
    by (metis prod.collapse)
  have "StartsAgent ''tiles/gemma:Q4'' ''be kind'' 6969 \<in> set steps" using demo_runs by (simp only: run fst_conv)
  moreover have "spec_parse ''tiles/gemma:Q4'' = modelfile_spec (Inr demo_model)" by code_simp
  then have "shipped_apart shipped_demo"
    by (auto simp: shipped_apart_def shipped_demo_def modelfile_spec_def demo_model_def model_spec_def ok_or_def res_bind_def
        split: if_splits)
  moreover have "ra_modelfile_path (demo_args None) = None" by (simp add: demo_args_def)
  ultimately have "get_agent_start_params (Inr ()) shipped_demo (fst (get_current_model f')) = Inr (''tiles/gemma:Q4'', ''be kind'')"
    using same_model_everywhere [OF run, of "''tiles/gemma:Q4''" "''be kind''" 6969] by simp
  then show ?thesis by (simp only: run snd_conv)
qed

text \<open>The inference server gets the default Modelfile's SYSTEM where the chosen one has none; the agent gets nothing then.\<close>

lemma server_told_default_system:
  assumes "mf_system m = None" and "mf_system d = Some s" and "load_body_of m d memory gguf = Inr b"
  shows "lb_system_prompt b = s"
  using assms by (auto simp: load_body_of_def res_bind_def split: sum.splits)

end
