(* ===== verification/Serving.thy ===== *)
theory Serving
  imports Lifecycle Folders EngineStore
begin

text \<open>
  The daemon as a process (\<open>start_server\<close>, \<open>listen_for_signals\<close>, \<open>start_internal_server\<close> and the handlers \<open>root\<close>,
  \<open>get_model_cache_path\<close> and \<open>get_config\<close> of \<open>daemon/mod.rs\<close>): what it starts and in which order, what ends it, and the server
  that waits for the browser of a sign-in.
\<close>

section \<open>The port\<close>

text \<open>In a debug build a variable may name another port than the usual one; a text that is no number of 32 bits counts as
  none.\<close>

definition get_or_set_daemon_port :: "bool \<Rightarrow> string option \<Rightarrow> nat" where
  "get_or_set_daemon_port debug var =
     (case (if debug then Option.bind var (parse_unsigned 32) else None) of Some p \<Rightarrow> p | None \<Rightarrow> 1729)"

section \<open>Serving\<close>

text \<open>How the ports are bound, what can't be set up, and with what the API's server ends.\<close>

record serving =
  sv_web :: "string + unit"
  sv_models :: "string + unit"
  sv_engines :: "string + unit"
  sv_listen :: "string + unit"
  sv_ui_dir :: "string + path"
  sv_ui :: ui_config
  sv_api_ends :: "string + unit"

datatype serving_step = AsksForNetwork | SupervisesUi "string option" | HearsSignals | ServesPorts bool | TearsDown

definition ui_dir :: "path \<Rightarrow> string option \<Rightarrow> string + path \<Rightarrow> string + path" where
  "ui_dir cwd var lib = (case var of Some dir \<Rightarrow> Inr (to_path cwd dir) | None \<Rightarrow> res_bind lib (\<lambda>l. Inr (l @ [''ui''])))"

definition start_server :: "bool \<Rightarrow> serving \<Rightarrow> web_ui_state \<times> serving_step list \<times> (string + unit)" where
  "start_server with_ui S =
     (case bind_on ui_port (sv_web S) of
        (shown, bound) \<Rightarrow>
          (case res_bind (sv_models S) (\<lambda>_. res_bind (sv_engines S) (\<lambda>_. sv_listen S)) of
             Inl e \<Rightarrow> (shown, [], Inl e)
           | Inr _ \<Rightarrow>
               (let first = AsksForNetwork # (if with_ui then [SupervisesUi (start_ui (sv_ui S))] else []) @ [HearsSignals] in
                case (if bound then res_bind (sv_ui_dir S) (\<lambda>_. Inr True) else Inr False) of
                  Inl e \<Rightarrow> (shown, first, Inl e)
                | Inr web \<Rightarrow>
                    (shown, first @ ServesPorts web # (if is_ok (sv_api_ends S) then [] else [TearsDown]), sv_api_ends S))))"

text \<open>The first signal tears the daemon down, later ones do nothing.\<close>

datatype signal = Terminate | Interrupt

definition listen_for_signals :: "bool \<Rightarrow> signal list \<Rightarrow> serving_step list" where
  "listen_for_signals listening signals = (if listening \<and> signals \<noteq> [] then [TearsDown] else [])"

section \<open>Waiting for the browser\<close>

text \<open>Requests to the callback, until the server that got one has ended: what is sent to the sign-in that waits, and
  whether the server was told to stop.\<close>

fun callbacks :: "'p list \<Rightarrow> bool \<times> bool \<Rightarrow> 'p list \<times> bool" where
  "callbacks [] st = ([], False)"
| "callbacks (p # ps) st =
     (case callback p st of
        (sent, told, st') \<Rightarrow> (case callbacks ps st' of (later, told') \<Rightarrow> (case sent of Some x \<Rightarrow> x # later | None \<Rightarrow> later, told \<or> told')))"

definition start_internal_server :: "string + unit \<Rightarrow> 'p list \<Rightarrow> string + 'p list \<times> bool" where
  "start_internal_server listen requests = res_bind listen (\<lambda>_. Inr (callbacks requests (True, True)))"

section \<open>Handlers\<close>

definition root_api :: "string \<Rightarrow> string" where
  "root_api vsn = vsn"

text \<open>\<open>found\<close> is the lookup of the model, a failure of the disk included; \<open>to_str\<close> is nothing for a path that is no text.\<close>

definition get_model_cache_path ::
  "(path \<Rightarrow> string option) \<Rightarrow> (string + model_cache_error) + path \<Rightarrow> string \<Rightarrow> app_error + string" where
  "get_model_cache_path to_str found name =
     (case found of
        Inl (Inr InvalidSpec) \<Rightarrow> Inl (BadRequest (name @ '': '' @ show_cache_error InvalidSpec))
      | Inl (Inr NotCached) \<Rightarrow> Inl (NotFound (name @ '': '' @ show_cache_error NotCached))
      | Inl (Inl e) \<Rightarrow> Inl (InternalServerError (name @ '': '' @ e))
      | Inr p \<Rightarrow> ok_or (InternalServerError (''The cache path for '' @ name @ '' is not valid UTF-8'')) (to_str p))"

text \<open>The configuration with the llama-server that replies run on, nothing for the one that comes with Tiles.\<close>

definition get_config :: "engine option \<Rightarrow> engines \<Rightarrow> config_file \<Rightarrow> (app_error + root_config \<times> string option) \<times> config_file" where
  "get_config pick en f =
     (case get_config_json f of
        (r, f) \<Rightarrow>
          (map_err (\<lambda>e. InternalServerError (''Failed to read config.toml: '' @ e)) (res_bind r (\<lambda>rc. Inr (rc, engines_server pick en))), f))"

section \<open>What a daemon does\<close>

text \<open>A daemon that can't have its port, as when another one runs, does nothing at all; otherwise it supervises the menu
  bar app if it is to, serves the web UI exactly if it says so, and an API that fails tears everything down.\<close>

theorem daemon_serves:
  "case start_server with_ui S of
     (shown, steps, r) \<Rightarrow>
       (steps = [] \<longleftrightarrow> \<not> (is_ok (sv_models S) \<and> is_ok (sv_engines S) \<and> is_ok (sv_listen S))) \<and>
       (steps = [] \<longrightarrow> r \<noteq> Inr ()) \<and>
       ((\<exists>app. SupervisesUi app \<in> set steps) \<longleftrightarrow> with_ui \<and> steps \<noteq> []) \<and>
       (\<forall>web. ServesPorts web \<in> set steps \<longrightarrow> (web \<longleftrightarrow> (\<exists>url. shown = Serving url)) \<and> r = sv_api_ends S) \<and>
       (TearsDown \<in> set steps \<longleftrightarrow> (\<exists>web. ServesPorts web \<in> set steps) \<and> r \<noteq> Inr ())"
  by (cases "sv_models S"; cases "sv_engines S"; cases "sv_listen S"; cases "sv_web S"; cases "sv_ui_dir S"; cases "sv_api_ends S")
     (auto simp: start_server_def bind_on_def Let_def)

lemma callbacks_spent [simp]: "callbacks ps (False, False) = ([], False)"
  by (induction ps) (simp_all add: callback_def)

text \<open>Only the first request's answer reaches the sign-in, and it stops the server.\<close>

lemma first_callback_counts:
  "start_internal_server (Inr ()) (p # ps) = Inr ([p], True)"
  by (simp add: start_internal_server_def callback_def)

text \<open>What the model server is told of the engine is what the daemon runs: the build that is installed, unless the
  processor was picked.\<close>

lemma config_names_engine:
  assumes "fst (get_config pick en f) = Inr (rc, server)"
  shows "server = engines_server pick en \<and> (pick = Some Cpu \<longrightarrow> server = None)"
  using assms
  by (auto simp: get_config_def get_config_json_def map_err_def res_bind_def engines_server_def split: sum.splits prod.splits)

lemma daemon_port:
  "p < 2 ^ 32 \<Longrightarrow> get_or_set_daemon_port True (Some (show_nat p)) = p"
  "get_or_set_daemon_port False var = 1729"
  by (simp_all add: get_or_set_daemon_port_def)

end
