(* ===== verification/Elevation.thy ===== *)
theory Elevation
  imports Uninstall "HOL-Library.Word"
begin

text \<open>
  How the uninstaller gets the administrator's rights (\<open>trusted_sudo_path\<close> to \<open>run_elevated_command\<close> in
  \<open>utils/uninstaller.rs\<close>): which program it takes for \<open>sudo\<close>, and what it runs with it. What the file system answers is
  an argument.
\<close>

unbundle bit_operations_syntax

record file_meta =
  fm_is_file :: bool
  fm_uid :: nat
  fm_mode :: "32 word"

record path_probes =
  pp_exists :: "path \<Rightarrow> bool"
  pp_canonical :: "path \<Rightarrow> string + path"
  pp_metadata :: "path \<Rightarrow> string + file_meta"

definition trusted_sudo_paths :: "path list" where
  "trusted_sudo_paths = [[''usr'', ''bin'', ''sudo''], [''bin'', ''sudo'']]"

definition path_text :: "path \<Rightarrow> string" where
  "path_text p = concat (map (\<lambda>n. CHR ''/'' # n) p)"

text \<open>Both paths are absolute. The last two conditions are the owner and the bit that runs a program as its owner.\<close>

definition is_trusted_sudo_binary :: "path_probes \<Rightarrow> path \<Rightarrow> string + bool" where
  "is_trusted_sudo_binary P p =
     (if \<not> pp_exists P p then Inr False
      else case pp_canonical P p of
        Inl _ \<Rightarrow> Inl (''Failed to resolve sudo path '' @ path_text p)
      | Inr c \<Rightarrow>
          if c \<notin> set trusted_sudo_paths then Inr False
          else case pp_metadata P c of
            Inl _ \<Rightarrow> Inl (''Failed to read metadata for '' @ path_text c)
          | Inr m \<Rightarrow> if \<not> fm_is_file m then Inr False else Inr (fm_uid m = 0 \<and> fm_mode m AND 0x800 \<noteq> 0))"

fun first_trusted :: "path_probes \<Rightarrow> path list \<Rightarrow> string + path" where
  "first_trusted P [] = Inl ''Trusted sudo binary not found at /usr/bin/sudo or /bin/sudo''"
| "first_trusted P (p # ps) =
     (case is_trusted_sudo_binary P p of Inl e \<Rightarrow> Inl e | Inr t \<Rightarrow> if t then Inr p else first_trusted P ps)"

definition trusted_sudo_path :: "path_probes \<Rightarrow> string + path" where
  "trusted_sudo_path P = first_trusted P trusted_sudo_paths"

text \<open>What is run, with all the paths at once, and what its end makes of it; \<open>None\<close> is a program that could not be run.\<close>

definition elevated_command :: "path_probes \<Rightarrow> bool \<Rightarrow> path list \<Rightarrow> string + path \<times> string list" where
  "elevated_command P recursive paths =
     res_bind (trusted_sudo_path P) (\<lambda>sudo.
       Inr (sudo, [''rm'', if recursive then ''-rf'' else ''-f''] @ map path_text paths))"

definition run_elevated_command :: "string \<Rightarrow> (bool \<times> string) option \<Rightarrow> string + unit" where
  "run_elevated_command action status =
     (case status of
        None \<Rightarrow> Inl (''Failed to run sudo to '' @ action)
      | Some (success, shown) \<Rightarrow>
          if success then Inr ()
          else Inl (''Failed to '' @ action @ '' (sudo exited with '' @ shown @ ''). Administrator privileges are required.''))"

lemma setuid_bit: "(m :: 32 word) AND 0x800 \<noteq> 0 \<longleftrightarrow> bit m 11"
proof -
  have "(0x800 :: 32 word) = push_bit 11 1" by (simp add: push_bit_eq_mult)
  then show ?thesis by (simp add: bit_iff_and_push_bit_not_eq_0)
qed

text \<open>What is run as \<open>sudo\<close> is one of the two fixed paths, and what is there, its links followed, is again one of the two: a
  file of the administrator that runs as its owner.\<close>

theorem sudo_is_trusted:
  assumes "elevated_command P recursive paths = Inr (sudo, args)"
  shows "sudo \<in> set trusted_sudo_paths \<and>
         (\<exists>c m. pp_canonical P sudo = Inr c \<and> c \<in> set trusted_sudo_paths \<and> pp_metadata P c = Inr m \<and>
            fm_is_file m \<and> fm_uid m = 0 \<and> bit (fm_mode m) 11)"
proof -
  have "first_trusted P ps = Inr p \<Longrightarrow> p \<in> set ps \<and> is_trusted_sudo_binary P p = Inr True" for p ps
    by (induction P ps rule: first_trusted.induct) (auto split: sum.splits if_splits)
  with assms have s: "sudo \<in> set trusted_sudo_paths" "is_trusted_sudo_binary P sudo = Inr True"
    by (auto simp: elevated_command_def trusted_sudo_path_def res_bind_def split: sum.splits)
  from s(2) show ?thesis using s(1)
    by (auto simp: is_trusted_sudo_binary_def setuid_bit split: sum.splits if_splits)
qed

definition demo_probes :: path_probes where
  "demo_probes =
     \<lparr>pp_exists = (\<lambda>_. True), pp_canonical = (\<lambda>_. Inr [''usr'', ''bin'', ''sudo'']),
      pp_metadata = (\<lambda>_. Inr \<lparr>fm_is_file = True, fm_uid = 0, fm_mode = 0x9ED\<rparr>)\<rparr>"

text \<open>A \<open>sudo\<close> whose link leads anywhere else, as where the system lets one choose among several, is not taken, and
  neither the files nor the folders of the system can be removed.\<close>

lemma linked_sudo_refused:
  assumes "\<And>p. pp_canonical P p = Inr [''usr'', ''lib'', ''sudo'', ''sudo-1'']"
  shows "elevated_command P recursive paths = Inl ''Trusted sudo binary not found at /usr/bin/sudo or /bin/sudo''"
  using assms
  by (simp add: elevated_command_def trusted_sudo_path_def trusted_sudo_paths_def is_trusted_sudo_binary_def)

end
