(* ===== verification/Tray.thy ===== *)
theory Tray
  imports Complex_Main Panel
begin

text \<open>
  The menubar app around its panel: the clicks on the status item and their hold timer (\<open>tray.rs\<close>), the place and the
  height of the panel (\<open>panel.rs\<close>), the loss of focus (\<open>main.rs\<close>), and quitting from outside (\<open>quit.rs\<close>, \<open>daemon.rs\<close>). Lengths
  are real numbers, times milliseconds. The calls of AppKit that draw are left out.
\<close>

section \<open>Clicks on the status item\<close>

text \<open>\<open>tr_timers\<close> are the hold timers that have not fired, each with the number of the press that started it.\<close>

record tray =
  tr_panel :: panel
  tr_press :: nat
  tr_peeked :: bool
  tr_timers :: "nat list"

datatype tray_event =
    MouseDown | HoldOver nat | MouseUp nat | FocusLost bool nat | HidePanel nat | FadeEnds nat | PanelReady

definition hide :: "nat \<Rightarrow> panel \<Rightarrow> panel" where
  "hide = dismiss Instant"

definition mouse_down :: "tray \<Rightarrow> tray" where
  "mouse_down t =
     t\<lparr>tr_press := Suc (tr_press t), tr_peeked := False, tr_timers := Suc (tr_press t) # tr_timers t\<rparr>"

definition hold_over :: "nat \<Rightarrow> tray \<Rightarrow> tray" where
  "hold_over i t =
     (let t = t\<lparr>tr_timers := remove1 i (tr_timers t)\<rparr> in
      if tr_press t \<noteq> i then t else t\<lparr>tr_peeked := True, tr_panel := show_panel (tr_panel t)\<rparr>)"

definition mouse_up :: "nat \<Rightarrow> tray \<Rightarrow> tray" where
  "mouse_up now t =
     t\<lparr>tr_press := Suc (tr_press t), tr_peeked := False,
       tr_panel := (if tr_peeked t then hide now (tr_panel t) else toggle now (tr_panel t))\<rparr>"

text \<open>A panel that loses the focus to a click on the status item fades, any other loss hides it at once.\<close>

definition focus_lost :: "bool \<Rightarrow> nat \<Rightarrow> panel \<Rightarrow> panel" where
  "focus_lost over_item now p = dismiss (if over_item then Fade else Instant) now p"

definition tray_step :: "tray_event \<Rightarrow> tray \<Rightarrow> tray" where
  "tray_step ev t =
     (case ev of
        MouseDown \<Rightarrow> mouse_down t
      | HoldOver i \<Rightarrow> if i \<in> set (tr_timers t) then hold_over i t else t
      | MouseUp now \<Rightarrow> mouse_up now t
      | FocusLost over now \<Rightarrow> t\<lparr>tr_panel := focus_lost over now (tr_panel t)\<rparr>
      | HidePanel now \<Rightarrow> t\<lparr>tr_panel := hide now (tr_panel t)\<rparr>
      | FadeEnds g \<Rightarrow> if g \<in> set (pa_fades (tr_panel t)) then t\<lparr>tr_panel := fade_over g (tr_panel t)\<rparr> else t
      | PanelReady \<Rightarrow> t\<lparr>tr_panel := snd (finish_warm_up (tr_panel t))\<rparr>)"

definition tray_init :: tray where
  "tray_init = \<lparr>tr_panel = warm_up panel_init, tr_press = 0, tr_peeked = False, tr_timers = []\<rparr>"

definition tray_run :: "tray_event list \<Rightarrow> tray" where
  "tray_run evs = fold tray_step evs tray_init"

text \<open>Presses are numbered upwards, and no two timers are for the same press.\<close>

definition tray_inv :: "tray \<Rightarrow> bool" where
  "tray_inv t \<longleftrightarrow> distinct (tr_timers t) \<and> (\<forall>i \<in> set (tr_timers t). i \<le> tr_press t)"

lemma tray_inv_step: "tray_inv t \<Longrightarrow> tray_inv (tray_step ev t)"
  by (cases ev) (force simp: tray_inv_def tray_step_def mouse_down_def hold_over_def mouse_up_def Let_def)+

lemma tray_inv_run: "tray_inv (tray_run evs)"
proof -
  have "tray_inv t \<Longrightarrow> tray_inv (fold tray_step evs t)" for t
    by (induction evs arbitrary: t) (simp_all add: tray_inv_step)
  moreover have "tray_inv tray_init" by (simp add: tray_inv_def tray_init_def)
  ultimately show ?thesis by (simp add: tray_run_def)
qed

text \<open>Whatever the clicks, the panel goes through what the theory Panel allows.\<close>

lemma panel_run_toggle: "panel_run p is_open \<Longrightarrow> \<exists>b. panel_run (toggle now p) b"
  by (blast intro: panel_run.tap)

lemma tray_refines_panel: "\<exists>is_open. panel_run (tr_panel (tray_run evs)) is_open"
proof -
  have "\<exists>b. panel_run (tr_panel t) b \<Longrightarrow> \<exists>b. panel_run (tr_panel (tray_step ev t)) b" for ev t
    by (cases ev)
       (auto simp: tray_step_def mouse_down_def hold_over_def mouse_up_def hide_def focus_lost_def Let_def
          intro: panel_run.intros panel_run_toggle)
  then have "\<exists>b. panel_run (tr_panel t) b \<Longrightarrow> \<exists>b. panel_run (tr_panel (fold tray_step evs t)) b" for t
    by (induction evs arbitrary: t) simp_all
  moreover have "\<exists>b. panel_run (tr_panel tray_init) b" by (auto simp: tray_init_def intro: panel_run.launch)
  ultimately show ?thesis by (simp add: tray_run_def)
qed

lemma hidden: "\<not> pa_visible (hide now p) \<and> \<not> pa_highlighted (hide now p)"
  by (simp add: hide_def dismiss_def Let_def)

text \<open>After any clicks: a press that is released before its timer fires is one tap on the panel, a press held until then
  opens the panel and its release hides it again, and a timer that fires after the release does nothing.\<close>

theorem clicks_correct:
  fixes evs :: "tray_event list"
  defines "t \<equiv> tray_run evs"
  shows "tr_panel (mouse_up now (mouse_down t)) = toggle now (tr_panel t) \<and>
         (let held = hold_over (tr_press (mouse_down t)) (mouse_down t) in
            tr_panel held = show_panel (tr_panel t) \<and>
            \<not> pa_visible (tr_panel (mouse_up now held)) \<and> \<not> pa_highlighted (tr_panel (mouse_up now held)) \<and>
            tr_panel (mouse_up later (mouse_down (mouse_up now held))) = toggle later (tr_panel (mouse_up now held))) \<and>
         (let released = mouse_up now t in
            \<forall>i \<in> set (tr_timers released). tr_panel (hold_over i released) = tr_panel released \<and> \<not> tr_peeked (hold_over i released))"
proof -
  have "i \<le> tr_press t" if "i \<in> set (tr_timers t)" for i
    using tray_inv_run [of evs] that by (simp add: tray_inv_def t_def)
  then have late: "i \<in> set (tr_timers t) \<Longrightarrow> i \<noteq> Suc (tr_press t)" for i by fastforce
  show ?thesis
    using late hidden
    by (auto simp: mouse_up_def mouse_down_def hold_over_def Let_def)
qed

section \<open>The place and the height of the panel\<close>

record rect =
  re_x :: real
  re_y :: real
  re_w :: real
  re_h :: real

definition pointer_over :: "rect \<Rightarrow> real \<times> real \<Rightarrow> bool" where
  "pointer_over r pt \<longleftrightarrow> fst pt \<ge> re_x r \<and> fst pt \<le> re_x r + re_w r \<and> snd pt \<ge> re_y r \<and> snd pt \<le> re_y r + re_h r"

text \<open>The screens, each with its frame and the part that is free of the menu bar and the dock.\<close>

definition on_screen :: "real \<times> real \<Rightarrow> rect \<Rightarrow> bool" where
  "on_screen pt r \<longleftrightarrow> fst pt \<ge> re_x r \<and> fst pt < re_x r + re_w r \<and> snd pt \<ge> re_y r \<and> snd pt < re_y r + re_h r"

definition visible_frame_for :: "(rect \<times> rect) list \<Rightarrow> rect option \<Rightarrow> (real \<times> real) option \<Rightarrow> rect option" where
  "visible_frame_for screens main center =
     (case Option.bind center (\<lambda>pt. find (\<lambda>s. on_screen pt (fst s)) screens) of
        Some s \<Rightarrow> Some (snd s)
      | None \<Rightarrow> main)"

definition edge_margin :: real where "edge_margin = 8"
definition min_height :: real where "min_height = 40"
definition screen_margin :: real where "screen_margin = 16"

text \<open>Rust's \<open>clamp\<close> panics with its bounds the wrong way round, here \<open>None\<close>.\<close>

definition clamp_real :: "real \<Rightarrow> real \<Rightarrow> real \<Rightarrow> real option" where
  "clamp_real x lo hi = (if hi < lo then None else Some (max lo (min x hi)))"

text \<open>Coordinates grow upwards; a rectangle starts in its lower left corner.\<close>

definition place :: "rect option \<Rightarrow> (real \<times> real) option \<Rightarrow> rect \<Rightarrow> rect option" where
  "place visible center r =
     (case visible of
        None \<Rightarrow> Some r
      | Some v \<Rightarrow>
          (let min_x = re_x v + edge_margin;
               max_x = max (re_x v + re_w v - re_w r - edge_margin) min_x;
               x = (case center of Some pt \<Rightarrow> clamp_real (fst pt - re_w r / 2) min_x max_x | None \<Rightarrow> Some max_x)
           in map_option (\<lambda>x. r\<lparr>re_x := x, re_y := re_y v + re_h v - re_h r\<rparr>) x))"

definition set_height :: "rect option \<Rightarrow> real \<Rightarrow> rect \<Rightarrow> rect option" where
  "set_height visible requested r =
     (let ceiling = (case visible of Some v \<Rightarrow> max (re_h v - screen_margin) min_height | None \<Rightarrow> max requested min_height) in
      map_option (\<lambda>h. if \<bar>h - re_h r\<bar> < 1 / 2 then r else r\<lparr>re_y := re_y r + re_h r - h, re_h := h\<rparr>)
        (clamp_real requested min_height ceiling))"

text \<open>The panel never panics over its place. It hangs under the menu bar of the screen with the status item; where the
  screen has room for it and its margins it keeps off both edges, and is centred under the item unless that would break them.\<close>

theorem placed_on_screen:
  assumes "visible = Some v"
  shows "\<exists>r'. place visible center r = Some r' \<and> re_w r' = re_w r \<and> re_h r' = re_h r \<and>
           re_y r' + re_h r' = re_y v + re_h v \<and> re_x r' \<ge> re_x v + 8 \<and>
           (re_w r + 16 \<le> re_w v \<longrightarrow>
              re_x r' + re_w r' \<le> re_x v + re_w v - 8 \<and>
              (\<forall>x y. center = Some (x, y) \<longrightarrow> re_x v + 8 \<le> x - re_w r / 2 \<longrightarrow> x + re_w r / 2 \<le> re_x v + re_w v - 8 \<longrightarrow>
                 re_x r' + re_w r' / 2 = x))"
  using assms
  by (cases center) (auto simp: place_def clamp_real_def edge_margin_def Let_def max_def min_def)

lemma placed_on_screen_witness:
  "\<exists>r'. place (Some \<lparr>re_x = 0, re_y = 0, re_w = 1440, re_h = 870\<rparr>) (Some (1000, 885)) \<lparr>re_x = 0, re_y = 0, re_w = 320, re_h = 400\<rparr> = Some r' \<and>
     re_x r' + re_w r' / 2 = 1000 \<and> re_y r' + re_h r' = 870"
  using placed_on_screen [OF refl, of "\<lparr>re_x = 0, re_y = 0, re_w = 1440, re_h = 870\<rparr>" "Some (1000, 885)" "\<lparr>re_x = 0, re_y = 0, re_w = 320, re_h = 400\<rparr>"]
  by force

text \<open>A height the page asks for, whatever it is, leaves the upper edge where it is, is never less than one row after it
  was taken, fits the screen, and asking for it again changes nothing.\<close>

lemma height_taken:
  "\<exists>r'. set_height visible requested r = Some r' \<and> re_y r' + re_h r' = re_y r + re_h r \<and> re_x r' = re_x r \<and>
     (re_h r' = re_h r \<or> 40 \<le> re_h r' \<and> (\<forall>v. visible = Some v \<longrightarrow> 56 \<le> re_h v \<longrightarrow> re_h r' \<le> re_h v - 16)) \<and>
     set_height visible requested r' = Some r'"
  by (cases visible) (auto simp: set_height_def clamp_real_def min_height_def screen_margin_def Let_def max_def min_def)

section \<open>Quitting\<close>

text \<open>The reason of the event in hand, if there is one and it has a reason: a logout, a restart or a shutdown.\<close>

definition system_is_leaving :: "nat option option \<Rightarrow> bool" where
  "system_is_leaving event = (case event of Some (Some code) \<Rightarrow> code \<noteq> 0 | _ \<Rightarrow> False)"

datatype quit_step = AskDaemonToStop | ExitsItself nat

text \<open>The app asks the daemon, which brings it down; should it not, the app exits by itself. \<open>answered\<close> is when the answer
  to the request comes.\<close>

definition quit_app :: "nat option \<Rightarrow> quit_step list" where
  "quit_app answered =
     [AskDaemonToStop, ExitsItself ((case answered of Some t \<Rightarrow> min t 5000 | None \<Rightarrow> 5000) + 5000)]"

definition should_terminate :: "bool \<Rightarrow> nat option option \<Rightarrow> nat option \<Rightarrow> bool \<times> quit_step list" where
  "should_terminate ready event answered =
     (if system_is_leaving event then (True, []) else (False, if ready then quit_app answered else []))"

lemma quit_in_time:
  "should_terminate True event answered = (True, []) \<or>
   (\<exists>t. should_terminate True event answered = (False, [AskDaemonToStop, ExitsItself t]) \<and> t \<le> 10000)"
  by (auto simp: should_terminate_def quit_app_def split: option.split)

end
