(* ===== verification/Probes.thy ===== *)
theory Probes
  imports Engines "HOL-Library.Word"
begin

text \<open>
  What is asked of the machine: the programs and driver libraries behind the detection of GPUs (\<open>detect.rs\<close> of
  \<open>tiles-engine\<close>), and what the menubar app asks of and hears from the Mac about its lid, its power and its displays
  (\<open>lid.rs\<close>), with the thread that turns what it hears into passes of \<open>reconcile\<close>. What libraries and frameworks answer
  is an argument.
\<close>

unbundle bit_operations_syntax

section \<open>Programs with a deadline\<close>

text \<open>A program that was started: after how long it ended, with success or not, and what it printed.\<close>

definition deadline :: nat where
  "deadline = 10000"

definition printed_in_time :: "(nat \<times> bool \<times> string) option \<Rightarrow> (bool \<times> string) option" where
  "printed_in_time run =
     (case run of Some (t, success, out) \<Rightarrow> if t < deadline then Some (success, out) else None | None \<Rightarrow> None)"

definition succeeded :: "(nat \<times> bool \<times> string) option \<Rightarrow> string option" where
  "succeeded run = (case printed_in_time run of Some (True, out) \<Rightarrow> Some out | _ \<Rightarrow> None)"

definition apple_chip :: "(nat \<times> bool \<times> string) option \<Rightarrow> gpu option" where
  "apple_chip run = Option.bind (succeeded run) parse_sysctl"

definition nvidia_smi :: "(string \<Rightarrow> bool) \<Rightarrow> (string \<Rightarrow> (nat \<times> bool \<times> string) option) \<Rightarrow> nvidia_info option" where
  "nvidia_smi exists run =
     (let program = (if exists ''/usr/lib/wsl/lib/nvidia-smi'' then ''/usr/lib/wsl/lib/nvidia-smi'' else ''nvidia-smi'') in
      map_option parse_nvidia_smi (succeeded (run program)))"

text \<open>Tiles itself run as the probe: whatever it ended with, what it printed is read. \<open>read\<close> gives nothing for what is not
  JSON and for null.\<close>

definition libraries :: "(string \<Rightarrow> nvidia_info option) \<Rightarrow> (nat \<times> bool \<times> string) option \<Rightarrow> nvidia_info option" where
  "libraries read run = Option.bind (printed_in_time run) (\<lambda>(_, out). read out)"

section \<open>The driver's libraries\<close>

text \<open>NVML: the devices that can be asked, with what each tells.\<close>

record nvml_device =
  nd_name :: "string option"
  nd_capability :: "(int \<times> int) option"
  nd_memory :: "nat option"

record nvml_lib =
  nl_init :: bool
  nl_count :: "nat option"
  nl_device :: "nat \<Rightarrow> nvml_device option"
  nl_driver :: "string option"
  nl_cuda :: "int option"

definition to_u32 :: "int \<Rightarrow> nat option" where
  "to_u32 i = (if 0 \<le> i \<and> i < 2 ^ 32 then Some (nat i) else None)"

definition both_u32 :: "int \<times> int \<Rightarrow> (nat \<times> nat) option" where
  "both_u32 p = Option.bind (to_u32 (fst p)) (\<lambda>a. map_option (\<lambda>b. (a, b)) (to_u32 (snd p)))"

definition nvml :: "nvml_lib \<Rightarrow> nvidia_info option" where
  "nvml L =
     (if \<not> nl_init L then None
      else Option.bind (nl_count L) (\<lambda>n.
        let gpus = map (\<lambda>d. \<lparr>gp_vendor = Nvidia, gp_name = nd_name d, gp_capability = Option.bind (nd_capability d) both_u32,
                         gp_vram = nd_memory d\<rparr>)
                     (List.map_filter (nl_device L) [0..<n])
        in if gpus = [] then None
           else Some \<lparr>nv_gpus = gpus, nv_driver = nl_driver L, nv_cuda = Option.bind (nl_cuda L) packed\<rparr>))"

text \<open>libcuda: every call gives a code, 0 if it went well, and fills what it was given. Names come in a buffer of 96 bytes.\<close>

record cuda_lib =
  cl_symbols :: bool
  cl_init :: int
  cl_version :: int
  cl_count :: "int \<times> int"
  cl_device :: "nat \<Rightarrow> int"
  cl_name :: "nat \<Rightarrow> int \<times> string"
  cl_major :: "nat \<Rightarrow> int \<times> int"
  cl_minor :: "nat \<Rightarrow> int \<times> int"
  cl_memory :: "nat \<Rightarrow> int \<times> nat"

definition until_nul :: "string \<Rightarrow> string option" where
  "until_nul buf = (if char_of (0 :: nat) \<in> set buf then Some (takeWhile (\<lambda>c. c \<noteq> char_of (0 :: nat)) buf) else None)"

definition answer_of :: "int \<times> 'a \<Rightarrow> 'a option" where
  "answer_of r = (if fst r = 0 then Some (snd r) else None)"

definition cuda_gpu :: "cuda_lib \<Rightarrow> nat \<Rightarrow> gpu option" where
  "cuda_gpu L i =
     (if cl_device L i \<noteq> 0 then None
      else Some
        \<lparr>gp_vendor = Nvidia,
         gp_name = Option.bind (answer_of (cl_name L i)) until_nul,
         gp_capability =
           Option.bind (answer_of (cl_major L i)) (\<lambda>a. Option.bind (answer_of (cl_minor L i)) (\<lambda>b. both_u32 (a, b))),
         gp_vram = answer_of (cl_memory L i)\<rparr>)"

definition cuda_driver :: "cuda_lib option \<Rightarrow> nvidia_info option" where
  "cuda_driver lib =
     Option.bind lib (\<lambda>L.
       if \<not> cl_symbols L \<or> cl_init L \<noteq> 0 \<or> fst (cl_count L) \<noteq> 0 then None
       else
         let gpus = List.map_filter (cuda_gpu L) [0..<nat (snd (cl_count L))]
         in if gpus = [] then None
            else Some \<lparr>nv_gpus = gpus, nv_driver = None, nv_cuda = packed (cl_version L)\<rparr>)"

definition nvidia_probe :: "bool \<Rightarrow> nvml_lib \<Rightarrow> cuda_lib option \<Rightarrow> nvidia_info option" where
  "nvidia_probe linux L lib = (if linux then or_else (nvml L) (cuda_driver lib) else None)"

text \<open>Whatever the libraries answer: what the probe prints has a GPU, all its GPUs are NVIDIA's, there are no more than the
  library counts, and a name read from the buffer has no NUL and is shorter than it.\<close>

lemma map_filter_length: "length (List.map_filter f xs) \<le> length xs"
  by (induction xs) (auto simp: List.map_filter_simps split: option.split)

lemma until_nul_short: "until_nul buf = Some name \<Longrightarrow> length name < length buf \<and> char_of (0 :: nat) \<notin> set name"
proof -
  assume u: "until_nul buf = Some name"
  then have n: "char_of (0 :: nat) \<in> set buf" "name = takeWhile (\<lambda>c. c \<noteq> char_of (0 :: nat)) buf"
    by (auto simp: until_nul_def split: if_splits)
  then have "name \<noteq> buf" by (metis set_takeWhileD)
  then have "length name \<noteq> length buf" using n(2) by (metis takeWhile_dropWhile_id append_eq_append_conv append_Nil2)
  with n(2) length_takeWhile_le [of "\<lambda>c. c \<noteq> char_of (0 :: nat)" buf] show ?thesis
    by (auto dest: set_takeWhileD)
qed

theorem probe_sound:
  assumes "nvidia_probe linux L lib = Some nv"
  shows "nv_gpus nv \<noteq> [] \<and> (\<forall>g \<in> set (nv_gpus nv). gp_vendor g = Nvidia) \<and>
         (nvml L = None \<longrightarrow>
            (\<exists>C. lib = Some C \<and> int (length (nv_gpus nv)) \<le> snd (cl_count C) \<and>
               (\<forall>g \<in> set (nv_gpus nv). \<forall>name. gp_name g = Some name \<longrightarrow>
                  (\<exists>i. length name < length (snd (cl_name C i)) \<and> char_of (0 :: nat) \<notin> set name))))"
proof (cases "nvml L")
  case None
  then obtain C where C: "lib = Some C" "cuda_driver lib = Some nv"
    using assms by (auto simp: nvidia_probe_def or_else_def cuda_driver_def Option.bind_eq_Some_conv split: if_splits)
  then have g: "nv_gpus nv = List.map_filter (cuda_gpu C) [0..<nat (snd (cl_count C))]" "nv_gpus nv \<noteq> []"
    by (auto simp: cuda_driver_def Let_def split: if_splits)
  have "length (nv_gpus nv) \<le> nat (snd (cl_count C))"
    unfolding g(1) using map_filter_length [of "cuda_gpu C" "[0..<nat (snd (cl_count C))]"] by simp
  moreover have "0 < length (nv_gpus nv)" using g(2) by simp
  ultimately have "int (length (nv_gpus nv)) \<le> snd (cl_count C)" by linarith
  moreover have "gp_vendor x = Nvidia \<and> (\<forall>name. gp_name x = Some name \<longrightarrow>
      (\<exists>i. length name < length (snd (cl_name C i)) \<and> char_of (0 :: nat) \<notin> set name))" if "x \<in> set (nv_gpus nv)" for x
    using that until_nul_short unfolding g(1)
    by (fastforce simp: List.map_filter_def cuda_gpu_def answer_of_def Option.bind_eq_Some_conv split: if_splits)
  ultimately show ?thesis using C(1) g(2) by simp
next
  case (Some a)
  then have "nv = a" using assms by (auto simp: nvidia_probe_def or_else_def split: if_splits)
  with Some show ?thesis by (auto simp: nvml_def Let_def Option.bind_eq_Some_conv split: if_splits)
qed

section \<open>What the Mac tells of its lid and its displays\<close>

text \<open>A property of the power management's root: the root and the property may be missing, and it may not be a boolean.\<close>

datatype cf_value = CfBool bool | CfOther

definition root_flag :: "(string \<Rightarrow> cf_value option) option \<Rightarrow> string \<Rightarrow> bool" where
  "root_flag root key = (case Option.bind root (\<lambda>r. r key) of Some (CfBool b) \<Rightarrow> b | _ \<Rightarrow> False)"

definition lid_disabled :: "(string \<Rightarrow> cf_value option) option \<Rightarrow> bool" where
  "lid_disabled root = root_flag root ''SleepDisabled''"

definition lid_closed :: "(string \<Rightarrow> cf_value option) option \<Rightarrow> bool" where
  "lid_closed root = root_flag root ''AppleClamshellState''"

text \<open>The displays, of which at most 16 are listed, each built in or not.\<close>

definition external :: "int \<Rightarrow> bool list \<Rightarrow> bool" where
  "external code built_in = (code = 0 \<and> list_ex (\<lambda>b. \<not> b) (take 16 built_in))"

definition offered :: "bool option \<Rightarrow> bool" where
  "offered status = (status = Some True)"

definition pmset :: "bool \<Rightarrow> string list" where
  "pmset on = [''/usr/bin/sudo'', ''-n'', ''/usr/bin/pmset'', ''-a'', ''disablesleep'', if on then ''1'' else ''0'']"

section \<open>Waking the worker\<close>

datatype notification = RootChanged "32 word" | PowerChanged | DisplaysChanged "32 word" | PolledOrAsked

definition wakes :: "notification \<Rightarrow> bool" where
  "wakes n =
     (case n of
        RootChanged message \<Rightarrow> message = 0xE0034100
      | PowerChanged \<Rightarrow> True
      | DisplaysChanged flags \<Rightarrow> flags AND 1 = 0
      | PolledOrAsked \<Rightarrow> True)"

text \<open>The worker waits for a wake, drains those that are queued already, and then makes one pass; \<open>wk_stale\<close> is not read: it
  says that something was heard that no pass has begun after.\<close>

datatype worker_phase = AwaitsWake | Drains | Reconciles

record worker =
  wk_phase :: worker_phase
  wk_queued :: nat
  wk_passes :: nat
  wk_heard :: nat
  wk_stale :: bool

datatype worker_event = Hears notification | Works

definition worker_step :: "worker_event \<Rightarrow> worker \<Rightarrow> worker" where
  "worker_step ev w =
     (case ev of
        Hears n \<Rightarrow>
          if wakes n then w\<lparr>wk_queued := Suc (wk_queued w), wk_heard := Suc (wk_heard w), wk_stale := True\<rparr> else w
      | Works \<Rightarrow>
          (case wk_phase w of
             AwaitsWake \<Rightarrow> if wk_queued w = 0 then w else w\<lparr>wk_phase := Drains, wk_queued := wk_queued w - 1\<rparr>
           | Drains \<Rightarrow>
               if wk_queued w > 0 then w\<lparr>wk_queued := wk_queued w - 1\<rparr>
               else w\<lparr>wk_phase := Reconciles, wk_passes := Suc (wk_passes w), wk_stale := False\<rparr>
           | Reconciles \<Rightarrow> w\<lparr>wk_phase := AwaitsWake\<rparr>))"

definition worker_init :: worker where
  "worker_init = \<lparr>wk_phase = AwaitsWake, wk_queued = 0, wk_passes = 0, wk_heard = 0, wk_stale = False\<rparr>"

definition worker_inv :: "worker \<Rightarrow> bool" where
  "worker_inv w \<longleftrightarrow>
     (wk_stale w \<longrightarrow> wk_queued w > 0 \<or> wk_phase w = Drains) \<and>
     wk_passes w + wk_queued w + (if wk_phase w = Drains then 1 else 0) \<le> wk_heard w"

lemma worker_inv_step: "worker_inv w \<Longrightarrow> worker_inv (worker_step ev w)"
  by (cases ev; cases "wk_phase w") (auto simp: worker_inv_def worker_step_def)

lemma worker_inv_run: "worker_inv (fold worker_step evs worker_init)"
proof -
  have "worker_inv w \<Longrightarrow> worker_inv (fold worker_step evs w)" for w
    by (induction evs arbitrary: w) (simp_all add: worker_inv_step)
  then show ?thesis by (simp add: worker_inv_def worker_init_def)
qed

lemma worker_later:
  "\<not> wk_stale (fold worker_step (replicate n Works) (worker_step Works w)) \<Longrightarrow>
     \<exists>n. \<not> wk_stale (fold worker_step (replicate n Works) w)"
  by (rule exI [of _ "Suc n"]) simp

lemma worker_drains: "wk_phase w = Drains \<Longrightarrow> \<exists>n. \<not> wk_stale (fold worker_step (replicate n Works) w)"
proof (induction "wk_queued w" arbitrary: w)
  case 0
  then have "\<not> wk_stale (fold worker_step (replicate 0 Works) (worker_step Works w))" by (simp add: worker_step_def)
  then show ?case by (rule worker_later)
next
  case (Suc x)
  then have "wk_phase (worker_step Works w) = Drains" "x = wk_queued (worker_step Works w)"
    by (simp_all add: worker_step_def flip: Suc.hyps(2))
  with Suc.hyps(1) obtain n where "\<not> wk_stale (fold worker_step (replicate n Works) (worker_step Works w))" by blast
  then show ?case by (rule worker_later)
qed

text \<open>C24. Nothing that is heard is lost: when the worker has nothing queued and is not about to begin a pass, the last pass
  began after all that was heard. A worker left alone comes to that, and there are never more passes than wakes.\<close>

theorem no_wake_lost:
  fixes evs :: "worker_event list"
  defines "w \<equiv> fold worker_step evs worker_init"
  shows "(wk_queued w = 0 \<and> wk_phase w \<noteq> Drains \<longrightarrow> \<not> wk_stale w) \<and> wk_passes w \<le> wk_heard w \<and>
         (\<exists>n. \<not> wk_stale (fold worker_step (replicate n Works) w))"
proof -
  have i: "worker_inv w" unfolding w_def by (rule worker_inv_run)
  have awaits: "\<exists>n. \<not> wk_stale (fold worker_step (replicate n Works) u)" if u: "wk_phase u = AwaitsWake" "wk_queued u > 0" for u
  proof -
    have "wk_phase (worker_step Works u) = Drains" using u by (simp add: worker_step_def)
    then obtain n where "\<not> wk_stale (fold worker_step (replicate n Works) (worker_step Works u))"
      using worker_drains by blast
    then show ?thesis by (rule worker_later)
  qed
  have "\<exists>n. \<not> wk_stale (fold worker_step (replicate n Works) w)"
  proof (cases "wk_stale w")
    case False
    then show ?thesis by (intro exI [of _ 0]) simp
  next
    case True
    show ?thesis
    proof (cases "wk_phase w")
      case Reconciles
      then have "wk_phase (worker_step Works w) = AwaitsWake" "wk_queued (worker_step Works w) > 0"
        using i True by (auto simp: worker_inv_def worker_step_def)
      then obtain n where "\<not> wk_stale (fold worker_step (replicate n Works) (worker_step Works w))" using awaits by blast
      then show ?thesis by (rule worker_later)
    qed (use i True awaits worker_drains in \<open>auto simp: worker_inv_def\<close>)
  qed
  then show ?thesis using i by (auto simp: worker_inv_def)
qed

lemma no_wake_lost_witness:
  "wk_passes (fold worker_step [Hears PolledOrAsked, Hears PowerChanged, Works, Works, Works] worker_init) \<le>
   wk_heard (fold worker_step [Hears PolledOrAsked, Hears PowerChanged, Works, Works, Works] worker_init) \<and>
   \<not> wk_stale (fold worker_step [Hears PolledOrAsked, Hears PowerChanged, Works, Works, Works] worker_init)"
  using no_wake_lost [of "[Hears PolledOrAsked, Hears PowerChanged, Works, Works, Works]"]
  by (simp add: worker_step_def worker_init_def wakes_def)

end
