(* ===== verification/Spec2Isabelle.thy ===== *)
theory Spec2Isabelle
  imports Prelude Modelfile Tables Accounts Chats Network Daemon Download Models Textual Engines EngineStore Sleep
    Uninstall Config Agent Repl Conversation Atproto Inference Lifecycle MenubarAccount Menubar Panel Commands Routes Events Jobs Folders Storage
    CommandLine Remote ChatStart Serving Elevation Tray Probes
begin

text \<open>
  A verification development for Tiles, a local assistant: a daemon with an HTTP API keeps
  accounts, chats and models on one device, and syncs chats between the linked devices of a
  user over a peer-to-peer network. The theories follow the parts of the program, each importing
  the parts it calls:

  \<^item> \<open>Prelude\<close>: results as sums (\<open>res_bind\<close> is the \<open>?\<close> of the sources), the string functions of
    the Rust library the sources use, numbers read and printed as text.
  \<^item> \<open>Modelfile\<close>: \<open>tilekit/src/modelfile.rs\<close>. The builder and the parsers of parameters and
    messages, in the order of the file.
  \<^item> \<open>Tables\<close>: the SQL statements the sources send, on tables as lists of rows with the keys and
    unique indexes of \<open>core/storage/db.rs\<close>; the locale \<open>keyed_table\<close> is the contract of a table,
    proved for every schema here and interpreted on each table of the program.
  \<^item> \<open>Accounts\<close>: \<open>core/account/local.rs\<close>. The record \<open>common_db\<close> is the common database, its tables
    \<open>users\<close> and \<open>tokens\<close>; the configuration file is a TOML table. One definition per function,
    by its name in the source.
  \<^item> \<open>Chats\<close>: \<open>core/chats.rs\<close>. The record \<open>chat_db\<close> is the chat database. \<open>insert_loop\<close> is the contract
    of the two loops of \<open>apply_delta\<close>.
  \<^item> \<open>Network\<close>: \<open>core/network/mod.rs\<close> and \<open>ticket.rs\<close>. A \<open>node\<close> is a user with both databases; a
    handler gives what the loop does, the new node, the messages sent and the events for the
    caller.
  \<^item> \<open>Daemon\<close>: \<open>daemon/mod.rs\<close>, \<open>session.rs\<close>, \<open>authz.rs\<close>, \<open>account.rs\<close>, \<open>net.rs\<close>, \<open>agent.rs\<close> and \<open>server.rs\<close>. The
    errors and their status codes, the guards in front of the routes, and the handlers.
  \<^item> \<open>Download\<close>: \<open>utils/hf_model_downloader\<close>. The plan, one attempt, the retries, the cache.
  \<^item> \<open>Models\<close>: \<open>daemon/job.rs\<close> and \<open>daemon/model\<close>. The state of a download and its task, and the
    model that chats use.
  \<^item> \<open>Textual\<close>: the line and word functions of the Rust library that read other programs' output.
  \<^item> \<open>Events\<close>: \<open>daemon/sse.rs\<close>. How a client cuts events out of a text that comes in chunks; the locale
    \<open>event_reader\<close> is the loop of every client, interpreted on the four of them.
  \<^item> \<open>Engines\<close>: \<open>crates/tiles-engine/src/lib.rs\<close> and \<open>detect.rs\<close>. What the probes of the hardware tell, and
    which build of llama.cpp runs.
  \<^item> \<open>EngineStore\<close>: \<open>crates/tiles-engine/src/install.rs\<close> and \<open>tiles/src/daemon/engine\<close>. The folder builds are
    installed in, as calls of the file system of which any may be the last, and the daemon's task
    that downloads, unpacks, checks and installs one.
  \<^item> \<open>Jobs\<close>: \<open>daemon/job.rs\<close>, \<open>model_fetch.rs\<close> and \<open>engine_fetch.rs\<close>. What is sent of the states of a job, the speed of a
    download, and what the command line makes of both.
  \<^item> \<open>Sleep\<close>: \<open>lid.rs\<close> and \<open>awake.rs\<close> of the menubar app. \<open>sleeper\<close> is the app, if it runs, and the Mac;
    \<open>sleep_step\<close> is one command, one pass of \<open>reconcile\<close>, or an event from outside.
  \<^item> \<open>Uninstall\<close>: \<open>utils/uninstaller.rs\<close> and the layout of \<open>utils/installer.rs\<close>. Paths are lists of names,
    the files of the computer a list of paths. The locale \<open>removal\<close> is the contract of everything
    that removes.
  \<^item> \<open>Config\<close>: \<open>utils/config.rs\<close>. The sections of the configuration file and what reads and changes them.
  \<^item> \<open>Folders\<close>: the rest of \<open>utils/config.rs\<close>. The folders and their creation, what is derived from the configuration, and
    the writing of its file in steps between which other writers may come.
  \<^item> \<open>Storage\<close>: \<open>core/account/mod.rs\<close> and \<open>core/storage/db.rs\<close>. The keyring, the key of the databases, opening them, and
    the migrations that change rows.
  \<^item> \<open>Agent\<close>: \<open>core/agent\<close> and \<open>daemon/agent.rs\<close>. The agent's output is a list of lines; a call takes from it
    what it reads.
  \<^item> \<open>Repl\<close> and \<open>Conversation\<close>: \<open>repl.rs\<close> and \<open>utils/lexicons.rs\<close>. The commands typed in the chat, the
    agent's answer as it is shown and saved, and the loop over typed lines.
  \<^item> \<open>Atproto\<close>: \<open>core/account/atproto.rs\<close>, \<open>utils/crypto.rs\<close>, and \<open>daemon/atproto.rs\<close>. The table of
    sign-ins, sharing, and signing in from the command line.
  \<^item> \<open>Inference\<close>: \<open>core/server.rs\<close> and \<open>daemon/server.rs\<close>. A \<open>host\<close> is the processes, the pid file and the port;
    what happens during each sleep of the code is an argument.
  \<^item> \<open>Lifecycle\<close>: \<open>core/ui.rs\<close>, \<open>core/service.rs\<close>, \<open>daemon/web.rs\<close> and the start and end of the daemon in
    \<open>daemon/mod.rs\<close>.
  \<^item> \<open>MenubarAccount\<close>, \<open>Menubar\<close> and \<open>Panel\<close>: the menubar app's \<open>atproto.rs\<close>; its \<open>daemon.rs\<close>, \<open>inference.rs\<close>,
    \<open>account.rs\<close>, \<open>remote.rs\<close>, \<open>sessions.rs\<close>, \<open>lifeline.rs\<close> and \<open>paths.rs\<close>; and its \<open>panel.rs\<close>. A request is two
    definitions, up to the wait for the answer and after it, so that other steps come in between. The
    locale \<open>hushed\<close> is what each part does when the daemon is gone.
  \<^item> \<open>Tray\<close>: the app's \<open>tray.rs\<close> and \<open>quit.rs\<close>, the loss of focus in \<open>main.rs\<close>, and the place and height of the panel.
    Its clicks refine the runs of \<open>Panel\<close>.
  \<^item> \<open>Probes\<close>: the programs and driver libraries asked in \<open>detect.rs\<close>, and what \<open>lid.rs\<close> asks of and hears from the Mac,
    with the thread that makes passes of it.
  \<^item> \<open>Routes\<close>: the tables of routes in \<open>daemon/mod.rs\<close> and the files beside it, and \<open>daemon/web.rs\<close>. Which handler a
    request to either port reaches, through which guards.
  \<^item> \<open>Commands\<close>: \<open>commands/mod.rs\<close>, the start in \<open>main.rs\<close>, the update in \<open>utils/installer.rs\<close> and \<open>core/plugin.rs\<close>.
  \<^item> \<open>CommandLine\<close>: \<open>main.rs\<close>, the functions ending in \<open>_cli\<close> of \<open>daemon/authz.rs\<close> and \<open>daemon/net.rs\<close>, and \<open>core/health.rs\<close>.
    A command is a list of actions, some of which have to succeed.
  \<^item> \<open>ChatStart\<close>: \<open>repl.rs\<close> up to the loop over typed lines, and \<open>new\<close> in \<open>core/agent/pi.rs\<close>.
  \<^item> \<open>Remote\<close>: the proxy of remote inference in \<open>core/network/mod.rs\<close>, as two copies that race on each side and a
    stream between the sides, and the daemon's sharing with the lock sections of its requests in any order.
  \<^item> \<open>Serving\<close>: \<open>start_server\<close>, the signals and the sign-in's own server in \<open>daemon/mod.rs\<close>.
  \<^item> \<open>Elevation\<close>: which program the uninstaller takes for \<open>sudo\<close>.

  What the lemmas show. \<open>Modelfile\<close>: the builder accepts exactly the valid command lists and
  gives the file read off them. \<open>Accounts\<close>: the tables keep their indexes and the one current user
  under every operation; saving a token never meets the panic in it; revoking removes exactly the
  powerlines between two devices; an invocation is only checked against stored delegations of its
  audience. \<open>Chats\<close>: a delta is exactly the chats after a counter, applying one is idempotent and
  resumable, and under any interleaving of losses and failures a replica holds chats of its owner, none twice;
  those are a prefix, and a clean round completes them, where no delta goes astray. \<open>Network\<close>: what ends each loop, what a request
  must carry before a device answers it, what one round of a sync does to both sides, and where
  an announcement that is not meant for a device harms it. \<open>Daemon\<close>: the guards, and what each
  handler does to the databases. \<open>Download\<close>: plans are safe to save, attempts resume, downloads end,
  and the cache stays sound however they end. \<open>Models\<close>: the state shown tells whether a task runs, and
  no model in use is deleted. \<open>Engines\<close>: the engine chosen can run here. \<open>EngineStore\<close>: finishing an
  installation refines \<open>switch_step\<close> at every call it may stop at, so that an engine that was there
  always leaves one that runs, and an installation task ends with the state it shows, also where it can't save why a
  check failed. \<open>Sleep\<close>: sleep
  turned off is marked on disk at every moment, and every way out turns it on; a pass leaves held
  exactly what the session needs. \<open>Uninstall\<close>: what an uninstall keeps and what it takes, however far
  it gets, and the data folder it loses. \<open>Config\<close>: what was set is read back, and the context length
  the agent can't start with. \<open>Agent\<close>: which lines a prompt takes from the agent, and when they are exactly its own reply. \<open>Repl\<close> and
  \<open>Conversation\<close>: every turn is saved as a chain of chats from the one before it, whatever is typed; what
  is shared is what the user said, and the text kept of an answer. \<open>Atproto\<close>: what a sign-in leaves in the
  table, that chunks don't matter to the reader of events, and that a private link is the only key.
  \<open>Inference\<close>: only what was seen to be an inference server is signalled, waits end in time, and a start that says so
  has a server. \<open>Lifecycle\<close>: that one app runs at a time, how long its next launch waits and that a stop ends it, when a teardown ends, which daemon a start
  leaves, that no path adds a tag to the agent's file, and what \<open>launchctl\<close> is asked. \<open>MenubarAccount\<close>, \<open>Menubar\<close>, \<open>Panel\<close>: a
  profile is never shown for another account, a daemon that is gone is shown as such, one request is
  out at a time, and an open panel stays open. \<open>Commands\<close>: an identity is kept once it is there, nothing is
  removed under a running server, and plugins stay in their folder. \<open>Routes\<close>: no other website reaches a handler that
  changes something. \<open>Jobs\<close>: what the command line makes of a download is what became of it, unless a character of it is cut in two. \<open>Folders\<close>, \<open>Storage\<close>: a configuration
  is never half written, and databases open with the key they were made with. \<open>CommandLine\<close>: a command's end says if what had to succeed did,
  and its requests reach the handlers they mean. \<open>ChatStart\<close>: the terminal and the daemon chat with the same model, and a
  chat elsewhere needs none here. \<open>Remote\<close>: an exchange in which nothing fails can be brought to its end, and no sharing gets out of reach.
  \<open>Tray\<close>: a click is one tap or one peek, and the panel is on its screen. \<open>Probes\<close>: what is heard of the lid is never lost.

  Choices of the model. Text is a list of bytes, as a Rust string is; upper and lower case are
  those of ASCII. Counters of chats are unbounded integers for the \<open>i64\<close> of the source, times
  and sizes are natural numbers: a user would have to save \<open>2 ^ 63\<close> chats, and a plan to hold \<open>2 ^ 64\<close>
  bytes, for the difference to show. Functions that wait, such as \<open>fetch\<close>, take what happens as a list of
  attempts and give \<open>None\<close> if the list is too short; those that poll a clock recurse on the time left, and
  \<open>read_required_nickname\<close> and \<open>choose_data_dir\<close>, which may ask for ever, give \<open>None\<close> then; \<open>fetch_ends\<close> shows that six attempts per
  missing byte and six more are always enough with an honest server. The calls of the file system in
  \<open>EngineStore\<close> take a number of steps, one for each; the theorems hold for every number, so for a stop
  at any call. The two commands of the sentinel in \<open>Sleep\<close> are one step, and \<open>late_removal\<close> is what may come between them;
  SIGKILL in \<open>Inference\<close> acts at once. \<open>mc_ours\<close> in \<open>Sleep\<close> is not read by the code, it says that sleep is off because of Tiles.
  What comes from outside the
  repository is an argument: UCANs, key storage, base64 and the encoding of messages
  (\<open>ucan\<close>, \<open>peer_env\<close>), replies of servers, the hash, the clock and fresh ids. Where a property needs
  one of them to behave, its statement says so.

  Not modelled. The tokeniser of Modelfiles is put together from the parser combinators of
  \<open>nom\<close> and is an argument of \<open>parse\<close>. Spawning processes, sockets, the streams and gossip of the peer-to-peer network,
  OAuth and the resolution of handles by DNS are the operating system's and libraries';
  their outcomes are inputs. So are the answers of drivers and of the frameworks of macOS. The line
  editor, the help text and the parsing of arguments by \<open>clap\<close> are the terminal around the parts above. Of the menubar app
  the icon, the menu and the look of the panel are calls of AppKit. The build script is left out. Lengths on the screen are
  real numbers for the floats of the source.
\<close>

end
